(* ===== verification/Prelude.thy ===== *)
theory Prelude
  imports Main
    "HOL-Library.Char_ord"
    "HOL-Library.List_Lexorder"
    "HOL-Library.Product_Lexorder"
    "HOL-Library.Sublist"
    "HOL-Library.Word"
begin

text \<open>
  The shared prelude of the development: the model of the part of Go's \<^verbatim>\<open>strings\<close> package that
  the registry uses, with the generic facts the component theories rest on.

  A Go string is a sequence of bytes, and so is a HOL \<^typ>\<open>string\<close> (a list of 8-bit characters):
  the two are identified byte by byte.  \<^verbatim>\<open>strings.Compare\<close> and the \<open><\<close> of Go on strings are the
  bytewise lexicographic order, which is the order of \<^verbatim>\<open>List_Lexorder\<close> over \<^verbatim>\<open>Char_ord\<close>.
\<close>

section \<open>Types and collections shared by the components\<close>

type_synonym bytes = string

text \<open>Facts that rewrite the model of Go's string functions.\<close>
named_theorems go_string

text \<open>Character classes that occur in the code's hand-written scanners and regular expressions.\<close>

definition isDigit :: "char \<Rightarrow> bool" where
  "isDigit c \<longleftrightarrow> CHR ''0'' \<le> c \<and> c \<le> CHR ''9''"

definition isUpper :: "char \<Rightarrow> bool" where
  "isUpper c \<longleftrightarrow> CHR ''A'' \<le> c \<and> c \<le> CHR ''Z''"

definition isLower :: "char \<Rightarrow> bool" where
  "isLower c \<longleftrightarrow> CHR ''a'' \<le> c \<and> c \<le> CHR ''z''"

definition isAlnum :: "char \<Rightarrow> bool" where
  "isAlnum c \<longleftrightarrow> isDigit c \<or> isUpper c \<or> isLower c"

lemmas char_class_defs = isAlnum_def isDigit_def isUpper_def isLower_def

section \<open>Errors\<close>

text \<open>
  Go's error values.  The sentinel errors and the operating system's errors are constructors of
  their own, because the code tests for them; \<open>Errorf f args\<close> is \<^verbatim>\<open>fmt.Errorf\<close> of a format and
  its printed arguments, and \<open>Wrapf f args e\<close> one whose format wraps the error \<open>e\<close> by \<^verbatim>\<open>%w\<close>.
\<close>

datatype error =
    ErrNotExist | ErrExist | ErrNotDir | ErrIsDir | ErrNotEmpty | ErrLoop | ErrInvalid | ErrIO
  | ErrCrashed | ErrDeadlock
  | ErrUploadTooLarge | ErrInvalidArchive | MaxBytesError | ErrUnexpectedEOF
  | ErrJSON
  | Errorf string "string list"
  | Wrapf string "string list" error

text \<open>\<^verbatim>\<open>os.IsNotExist\<close> looks at the error itself and does not unwrap \<^verbatim>\<open>fmt.Errorf\<close>.\<close>

definition isNotExist :: "error \<Rightarrow> bool" where
  "isNotExist e \<longleftrightarrow> e = ErrNotExist"

text \<open>\<^verbatim>\<open>errors.Is\<close> and \<^verbatim>\<open>errors.As\<close> for the sentinels: the chain of wrapped errors is searched.\<close>

fun errorsIs :: "error \<Rightarrow> error \<Rightarrow> bool" where
  "errorsIs (Wrapf f args e) target \<longleftrightarrow> Wrapf f args e = target \<or> errorsIs e target"
| "errorsIs e target \<longleftrightarrow> e = target"

type_synonym 'a result = "error + 'a"

section \<open>The string functions\<close>

text \<open>\<^verbatim>\<open>strings.HasPrefix\<close>, \<^verbatim>\<open>HasSuffix\<close>, \<^verbatim>\<open>TrimPrefix\<close>, \<^verbatim>\<open>TrimSuffix\<close>.\<close>

definition hasPrefix :: "string \<Rightarrow> string \<Rightarrow> bool" where
  "hasPrefix s p \<longleftrightarrow> take (length p) s = p"

definition hasSuffix :: "string \<Rightarrow> string \<Rightarrow> bool" where
  "hasSuffix s p \<longleftrightarrow> length p \<le> length s \<and> drop (length s - length p) s = p"

definition trimPrefix :: "string \<Rightarrow> string \<Rightarrow> string" where
  "trimPrefix s p = (if hasPrefix s p then drop (length p) s else s)"

definition trimSuffix :: "string \<Rightarrow> string \<Rightarrow> string" where
  "trimSuffix s p = (if hasSuffix s p then take (length s - length p) s else s)"

text \<open>\<^verbatim>\<open>strings.Contains\<close> for a substring.\<close>

fun containsStr :: "string \<Rightarrow> string \<Rightarrow> bool" where
  "containsStr [] p \<longleftrightarrow> p = []"
| "containsStr (c # s) p \<longleftrightarrow> hasPrefix (c # s) p \<or> containsStr s p"

text \<open>\<^verbatim>\<open>strings.Split\<close> and \<^verbatim>\<open>strings.Cut\<close> at a separator of one byte, and \<^verbatim>\<open>strings.Join\<close>.\<close>

fun splitAt :: "char \<Rightarrow> string \<Rightarrow> string list" where
  "splitAt c [] = [[]]"
| "splitAt c (x # s) =
     (if x = c then [] # splitAt c s
      else (case splitAt c s of [] \<Rightarrow> [[x]] | w # ws \<Rightarrow> (x # w) # ws))"

definition cutAt :: "char \<Rightarrow> string \<Rightarrow> string \<times> string \<times> bool" where
  "cutAt c s = (case dropWhile (\<lambda>x. x \<noteq> c) s of
                  [] \<Rightarrow> (s, [], False)
                | _ # after \<Rightarrow> (takeWhile (\<lambda>x. x \<noteq> c) s, after, True))"

text \<open>\<^verbatim>\<open>strings.Cut\<close> at a separator of several bytes: the first occurrence from the left.\<close>

fun cutStr :: "string \<Rightarrow> string \<Rightarrow> string \<times> string \<times> bool" where
  "cutStr p [] = (if p = [] then ([], [], True) else ([], [], False))"
| "cutStr p (c # s) =
     (if hasPrefix (c # s) p then ([], drop (length p) (c # s), True)
      else (case cutStr p s of (b, a, found) \<Rightarrow> (c # b, a, found)))"

text \<open>\<^verbatim>\<open>strings.CutPrefix\<close>.\<close>

definition cutPrefix :: "string \<Rightarrow> string \<Rightarrow> string \<times> bool" where
  "cutPrefix s p = (if hasPrefix s p then (drop (length p) s, True) else (s, False))"

fun joinWith :: "string \<Rightarrow> string list \<Rightarrow> string" where
  "joinWith sep [] = []"
| "joinWith sep [w] = w"
| "joinWith sep (w # v # ws) = w @ sep @ joinWith sep (v # ws)"

text \<open>\<^verbatim>\<open>strings.TrimLeft\<close>, \<^verbatim>\<open>TrimRight\<close> and \<^verbatim>\<open>Trim\<close> for a cutset of one byte.\<close>

definition trimLeftCh :: "char \<Rightarrow> string \<Rightarrow> string" where
  "trimLeftCh c s = dropWhile (\<lambda>x. x = c) s"

definition trimRightCh :: "char \<Rightarrow> string \<Rightarrow> string" where
  "trimRightCh c s = rev (dropWhile (\<lambda>x. x = c) (rev s))"

definition trimCh :: "char \<Rightarrow> string \<Rightarrow> string" where
  "trimCh c s = trimRightCh c (trimLeftCh c s)"

text \<open>\<^verbatim>\<open>strings.Compare\<close>: three-way bytewise lexicographic comparison.\<close>

definition stringsCompare :: "string \<Rightarrow> string \<Rightarrow> int" where
  "stringsCompare a b = (if a = b then 0 else if a < b then -1 else 1)"

text \<open>The \<^verbatim>\<open>%d\<close> verb of \<^verbatim>\<open>fmt\<close>.\<close>

fun showNat :: "nat \<Rightarrow> string" where
  "showNat n = (if n < 10 then [char_of (48 + n)] else showNat (n div 10) @ [char_of (48 + n mod 10)])"

declare showNat.simps [simp del]

definition showInt :: "int \<Rightarrow> string" where
  "showInt i = (if i < 0 then CHR ''-'' # showNat (nat (- i)) else showNat (nat i))"

section \<open>Facts about the string functions\<close>

lemma hasPrefix_iff_prefix [go_string]: "hasPrefix s p \<longleftrightarrow> prefix p s"
  unfolding hasPrefix_def by (metis append_take_drop_id prefix_def append_eq_conv_conj)

lemma hasSuffix_iff_suffix [go_string]: "hasSuffix s p \<longleftrightarrow> suffix p s"
proof
  assume "hasSuffix s p"
  then show "suffix p s"
    unfolding hasSuffix_def by (metis suffix_drop)
next
  assume "suffix p s"
  then obtain q where "s = q @ p" by (auto simp: suffix_def)
  then show "hasSuffix s p" by (simp add: hasSuffix_def)
qed

lemma hasPrefix_append [simp]: "hasPrefix (p @ s) p"
  by (simp add: hasPrefix_def)

lemma hasSuffix_append [simp]: "hasSuffix (s @ p) p"
  by (simp add: hasSuffix_def)

lemma trimPrefix_append [simp]: "trimPrefix (p @ s) p = s"
  by (simp add: trimPrefix_def)

lemma trimSuffix_append [simp]: "trimSuffix (s @ p) p = s"
  by (simp add: trimSuffix_def)

lemma splitAt_ne [simp]: "splitAt c s \<noteq> []"
  by (induction s) (auto split: list.splits)

lemma splitAt_no_sep: "c \<notin> set s \<Longrightarrow> splitAt c s = [s]"
  by (induction s) auto

lemma splitAt_append: "c \<notin> set w \<Longrightarrow> splitAt c (w @ c # s) = w # splitAt c s"
  by (induction w) auto

lemma splitAt_parts: "w \<in> set (splitAt c s) \<Longrightarrow> c \<notin> set w"
proof (induction s arbitrary: w)
  case (Cons x s)
  then show ?case
    by (cases "splitAt c s") (auto split: if_splits)
qed auto

lemma splitAt_chars: "w \<in> set (splitAt c s) \<Longrightarrow> set w \<subseteq> set s"
proof (induction s arbitrary: w)
  case (Cons x s)
  then show ?case
    by (cases "splitAt c s") (fastforce split: if_splits)+
qed auto

lemma joinWith_Cons: "ws \<noteq> [] \<Longrightarrow> joinWith sep (w # ws) = w @ sep @ joinWith sep ws"
  by (cases ws) auto

lemma join_splitAt [simp]: "joinWith [c] (splitAt c s) = s"
proof (induction s)
  case (Cons x s)
  obtain w ws where ws: "splitAt c s = w # ws"
    by (cases "splitAt c s") auto
  show ?case
  proof (cases "x = c")
    case True
    with Cons ws show ?thesis by (simp add: joinWith_Cons)
  next
    case False
    with Cons ws show ?thesis by (cases ws) auto
  qed
qed simp

lemma splitAt_join:
  "ws \<noteq> [] \<Longrightarrow> (\<And>w. w \<in> set ws \<Longrightarrow> c \<notin> set w) \<Longrightarrow> splitAt c (joinWith [c] ws) = ws"
proof (induction ws)
  case (Cons w ws)
  show ?case
  proof (cases "ws = []")
    case True
    with Cons.prems show ?thesis by (simp add: splitAt_no_sep)
  next
    case False
    with Cons show ?thesis by (simp add: joinWith_Cons splitAt_append)
  qed
qed simp

lemma splitAt_eq_iff:
  "splitAt c s = ws \<longleftrightarrow> ws \<noteq> [] \<and> (\<forall>w \<in> set ws. c \<notin> set w) \<and> s = joinWith [c] ws"
  using join_splitAt splitAt_join splitAt_parts splitAt_ne by metis

lemma cutAt_no_sep: "c \<notin> set s \<Longrightarrow> cutAt c s = (s, [], False)"
proof -
  assume "c \<notin> set s"
  then have "dropWhile (\<lambda>x. x \<noteq> c) s = []" by auto
  then show ?thesis unfolding cutAt_def by (simp only: list.case)
qed

lemma cutAt_append: "c \<notin> set b \<Longrightarrow> cutAt c (b @ c # a) = (b, a, True)"
proof -
  assume c: "c \<notin> set b"
  have "dropWhile (\<lambda>x. x \<noteq> c) (b @ c # a) = c # a"
    using c by (subst dropWhile_append2) auto
  moreover have "takeWhile (\<lambda>x. x \<noteq> c) (b @ c # a) = b"
    using c by (subst takeWhile_append2) auto
  ultimately show ?thesis by (simp add: cutAt_def)
qed

lemma cutAt_cases:
  obtains (found) b a where "c \<notin> set b" "s = b @ c # a" "cutAt c s = (b, a, True)"
  | (missing) "c \<notin> set s" "cutAt c s = (s, [], False)"
proof (cases "c \<in> set s")
  case True
  then obtain b a where "s = b @ c # a" "c \<notin> set b"
    by (metis split_list_first)
  then show ?thesis using cutAt_append found by blast
next
  case False
  then show ?thesis using cutAt_no_sep missing by blast
qed

lemma trimRightCh_append [simp]:
  "s \<noteq> [] \<Longrightarrow> last s \<noteq> c \<Longrightarrow> trimRightCh c s = s"
  by (cases s rule: rev_cases) (auto simp: trimRightCh_def)

lemma trimCh_id: "s \<noteq> [] \<Longrightarrow> hd s \<noteq> c \<Longrightarrow> last s \<noteq> c \<Longrightarrow> trimCh c s = s"
  by (cases s) (auto simp: trimCh_def trimLeftCh_def)

lemma stringsCompare_less [simp]: "stringsCompare a b < 0 \<longleftrightarrow> a < b"
  by (auto simp: stringsCompare_def)

lemma stringsCompare_eq [simp]: "stringsCompare a b = 0 \<longleftrightarrow> a = b"
  by (auto simp: stringsCompare_def)

lemma first_sep_unique:
  fixes c :: char
  shows "c \<notin> set p \<Longrightarrow> c \<notin> set q \<Longrightarrow> p @ c # r = q @ c # s \<longleftrightarrow> p = q \<and> r = s"
proof (induction p arbitrary: q)
  case Nil
  then show ?case by (cases q) auto
next
  case (Cons x p)
  then show ?case by (cases q) auto
qed

lemma last_sep_unique:
  fixes c :: char
  assumes "c \<notin> set r" "c \<notin> set s"
  shows "p @ c # r = q @ c # s \<longleftrightarrow> p = q \<and> r = s"
proof -
  have "p @ c # r = q @ c # s \<longleftrightarrow> rev (p @ c # r) = rev (q @ c # s)"
    by (simp only: rev_is_rev_conv)
  also have "\<dots> \<longleftrightarrow> rev r @ c # rev p = rev s @ c # rev q" by simp
  finally show ?thesis using first_sep_unique [of c "rev r" "rev s" "rev p" "rev q"] assms by auto
qed

end
