(* ===== verification/Semver.thy ===== *)
theory Semver
  imports Prelude "HOL-Library.Multiset"
begin

text \<open>
  \<^verbatim>\<open>registry-server/semver.go\<close>: the strict Semantic Versioning parser, the precedence comparison and
  the stable sort that every version listing goes through.

  The parser is characterised by the grammar of SemVer 2.0 with the 64-bit bound of the code on the
  three core numbers; the comparison is the order of a key in a linearly ordered type; the sort is
  the library's stable \<^const>\<open>sort_key\<close> for that key.
\<close>

section \<open>Data\<close>

text \<open>\<^verbatim>\<open>core [3]uint64\<close> is a list of three words; the parser below only builds lists of that length.\<close>

record semanticVersion =
  core :: "64 word list"
  pre :: "string list"

section \<open>Scanners\<close>

definition digitVal :: "char \<Rightarrow> nat" where
  "digitVal c = of_char c - 48"

definition decValue :: "string \<Rightarrow> nat" where
  "decValue s = foldl (\<lambda>n c. 10 * n + digitVal c) 0 s"

text \<open>\<^verbatim>\<open>strconv.ParseUint(s, 10, 64)\<close>: decimal digits only, an error when the value exceeds 64 bits.\<close>

definition parseUint64 :: "string \<Rightarrow> 64 word option" where
  "parseUint64 s =
     (if s \<noteq> [] \<and> list_all isDigit s \<and> decValue s < 2 ^ 64
      then Some (word_of_nat (decValue s)) else None)"

definition numericIdentifier :: "string \<Rightarrow> 64 word option" where
  "numericIdentifier value =
     (if value = [] then None
      else if \<not> list_all isDigit value then None
      else parseUint64 value)"

definition identChar :: "char \<Rightarrow> bool" where
  "identChar c \<longleftrightarrow> isDigit c \<or> isUpper c \<or> isLower c \<or> c = CHR ''-''"

text \<open>One round of the loop of \<^verbatim>\<open>validIdentifiers\<close>.\<close>

definition validIdentifier :: "bool \<Rightarrow> string \<Rightarrow> bool" where
  "validIdentifier enforceNumericLeadingZero identifier \<longleftrightarrow>
     identifier \<noteq> [] \<and> list_all identChar identifier \<and>
     \<not> (enforceNumericLeadingZero \<and> list_all isDigit identifier \<and>
        length identifier > 1 \<and> hd identifier = CHR ''0'')"

definition validIdentifiers :: "string \<Rightarrow> bool \<Rightarrow> bool" where
  "validIdentifiers value enforceNumericLeadingZero \<longleftrightarrow>
     value \<noteq> [] \<and> list_all (validIdentifier enforceNumericLeadingZero) (splitAt CHR ''.'' value)"

text \<open>The loop of \<^verbatim>\<open>parseSemanticVersion\<close> over the three dot-separated parts.\<close>

fun parseCore :: "string list \<Rightarrow> 64 word list option" where
  "parseCore [] = Some []"
| "parseCore (part # parts) =
     (case numericIdentifier part of
        None \<Rightarrow> None
      | Some value \<Rightarrow>
          if length part > 1 \<and> hd part = CHR ''0'' then None
          else map_option (Cons value) (parseCore parts))"

definition parseSemanticVersion :: "string \<Rightarrow> semanticVersion option" where
  "parseSemanticVersion value =
     (if value = [] \<or> hasPrefix value ''v'' then None
      else (case cutAt CHR ''+'' value of (versionAndPre, build, hasBuild) \<Rightarrow>
        if hasBuild \<and> (CHR ''+'' \<in> set build \<or> \<not> validIdentifiers build False) then None
        else (case cutAt CHR ''-'' versionAndPre of (core', prerelease, hasPrerelease) \<Rightarrow>
          if hasPrerelease \<and> \<not> validIdentifiers prerelease True then None
          else let parts = splitAt CHR ''.'' core' in
            if length parts \<noteq> 3 then None
            else (case parseCore parts of
                None \<Rightarrow> None
              | Some c \<Rightarrow>
                  Some \<lparr>core = c,
                        pre = (if hasPrerelease then splitAt CHR ''.'' prerelease else [])\<rparr>))))"

definition validVersion :: "string \<Rightarrow> bool" where
  "validVersion v \<longleftrightarrow> parseSemanticVersion v \<noteq> None"

section \<open>Precedence\<close>

fun compareCore :: "64 word list \<Rightarrow> 64 word list \<Rightarrow> int" where
  "compareCore (a # as) (b # bs) = (if a < b then -1 else if a > b then 1 else compareCore as bs)"
| "compareCore _ _ = 0"

text \<open>The loop over the pre-release identifiers and the length comparison that follows it.\<close>

fun comparePre :: "string list \<Rightarrow> string list \<Rightarrow> int" where
  "comparePre (a # as) (b # bs) =
     (case (numericIdentifier a, numericIdentifier b) of
        (Some m, Some n) \<Rightarrow> if m < n then -1 else if m > n then 1 else comparePre as bs
      | (Some m, None) \<Rightarrow> -1
      | (None, Some n) \<Rightarrow> 1
      | (None, None) \<Rightarrow>
          let c = stringsCompare a b in if c \<noteq> 0 then c else comparePre as bs)"
| "comparePre [] [] = 0"
| "comparePre [] (b # bs) = -1"
| "comparePre (a # as) [] = 1"

definition compareSemver :: "string \<Rightarrow> string \<Rightarrow> int" where
  "compareSemver a b =
     (case (parseSemanticVersion a, parseSemanticVersion b) of
        (Some va, Some vb) \<Rightarrow>
          let c = compareCore (core va) (core vb) in
          if c \<noteq> 0 then c
          else if pre va = [] \<and> pre vb = [] then 0
          else if pre va = [] then 1
          else if pre vb = [] then -1
          else comparePre (pre va) (pre vb)
      | _ \<Rightarrow> stringsCompare a b)"

text \<open>
  \<^verbatim>\<open>sort.SliceStable\<close> runs insertion sort on blocks of twenty elements and merges the blocks stably.
  The model is its insertion sort: each element moves left while it is strictly smaller than its
  left neighbour (\<open>acc\<close> is the sorted prefix, reversed).  For a strict weak order every stable
  sort returns the same list, so the block structure shows only on lists of more than twenty
  strings that are not all valid versions.
\<close>

fun insertLeft :: "string \<Rightarrow> string list \<Rightarrow> string list" where
  "insertLeft x [] = [x]"
| "insertLeft x (y # ys) = (if compareSemver x y < 0 then y # insertLeft x ys else x # y # ys)"

definition sortSemanticVersions :: "string list \<Rightarrow> string list" where
  "sortSemanticVersions versions = rev (foldl (\<lambda>acc x. insertLeft x acc) [] versions)"

section \<open>The grammar of accepted versions\<close>

definition coreIdent :: "string \<Rightarrow> bool" where
  "coreIdent s \<longleftrightarrow> s \<noteq> [] \<and> list_all isDigit s \<and> (length s > 1 \<longrightarrow> hd s \<noteq> CHR ''0'') \<and>
     decValue s < 2 ^ 64"

definition showOpt :: "char \<Rightarrow> string list option \<Rightarrow> string" where
  "showOpt c ids = (case ids of None \<Rightarrow> [] | Some ws \<Rightarrow> c # joinWith ''.'' ws)"

definition showVersion ::
  "string list \<Rightarrow> string list option \<Rightarrow> string list option \<Rightarrow> string" where
  "showVersion cs p b = joinWith ''.'' cs @ showOpt CHR ''-'' p @ showOpt CHR ''+'' b"

definition optIdents :: "bool \<Rightarrow> string list option \<Rightarrow> bool" where
  "optIdents e ids \<longleftrightarrow> (\<forall>ws. ids = Some ws \<longrightarrow> ws \<noteq> [] \<and> list_all (validIdentifier e) ws)"

definition semverGrammar ::
  "string list \<Rightarrow> string list option \<Rightarrow> string list option \<Rightarrow> bool" where
  "semverGrammar cs p b \<longleftrightarrow>
     length cs = 3 \<and> list_all coreIdent cs \<and> optIdents True p \<and> optIdents False b"

definition semverValue :: "string list \<Rightarrow> string list option \<Rightarrow> semanticVersion" where
  "semverValue cs p =
     \<lparr>core = map (\<lambda>s. word_of_nat (decValue s)) cs, pre = (case p of None \<Rightarrow> [] | Some ws \<Rightarrow> ws)\<rparr>"

section \<open>The parser accepts exactly the grammar\<close>

lemma dot_not_identChar: "list_all identChar s \<Longrightarrow> CHR ''.'' \<notin> set s \<and> CHR ''+'' \<notin> set s"
  by (auto simp: list_all_iff identChar_def isDigit_def isUpper_def isLower_def)

lemma digits_only:
  "list_all isDigit s \<Longrightarrow> CHR ''.'' \<notin> set s \<and> CHR ''+'' \<notin> set s \<and> CHR ''-'' \<notin> set s \<and> CHR ''v'' \<notin> set s"
  by (auto simp: list_all_iff isDigit_def)

lemma validIdentifier_chars:
  "validIdentifier e w \<Longrightarrow> CHR ''.'' \<notin> set w" "validIdentifier e w \<Longrightarrow> CHR ''+'' \<notin> set w"
  using dot_not_identChar by (auto simp: validIdentifier_def)

lemma coreIdent_chars:
  "coreIdent w \<Longrightarrow> CHR ''.'' \<notin> set w" "coreIdent w \<Longrightarrow> CHR ''+'' \<notin> set w"
  "coreIdent w \<Longrightarrow> CHR ''-'' \<notin> set w"
  using digits_only by (auto simp: coreIdent_def)

lemma validIdentifiers_iff:
  "validIdentifiers value e \<longleftrightarrow>
     (\<exists>ws. ws \<noteq> [] \<and> list_all (validIdentifier e) ws \<and> value = joinWith ''.'' ws)"
proof
  assume "validIdentifiers value e"
  then show "\<exists>ws. ws \<noteq> [] \<and> list_all (validIdentifier e) ws \<and> value = joinWith ''.'' ws"
    unfolding validIdentifiers_def by (intro exI [of _ "splitAt CHR ''.'' value"]) simp
next
  assume "\<exists>ws. ws \<noteq> [] \<and> list_all (validIdentifier e) ws \<and> value = joinWith ''.'' ws"
  then obtain ws where ws: "ws \<noteq> []" "list_all (validIdentifier e) ws" "value = joinWith ''.'' ws"
    by blast
  have "\<And>w. w \<in> set ws \<Longrightarrow> CHR ''.'' \<notin> set w"
    using ws(2) validIdentifier_chars by (auto simp: list_all_iff)
  then have "splitAt CHR ''.'' value = ws"
    using ws splitAt_join by simp
  moreover have "value \<noteq> []"
    using ws by (cases ws rule: list.exhaust; cases "tl ws") (auto simp: validIdentifier_def joinWith_Cons)
  ultimately show "validIdentifiers value e"
    using ws(2) by (simp add: validIdentifiers_def)
qed

lemma splitAt_join_idents:
  "ws \<noteq> [] \<Longrightarrow> list_all (validIdentifier e) ws \<Longrightarrow> splitAt CHR ''.'' (joinWith ''.'' ws) = ws"
  by (rule splitAt_join) (auto simp: list_all_iff dest: validIdentifier_chars)

lemma parseCore_iff:
  "parseCore parts = Some c \<longleftrightarrow>
     list_all coreIdent parts \<and> c = map (\<lambda>s. word_of_nat (decValue s)) parts"
  by (induction parts arbitrary: c)
     (auto simp: numericIdentifier_def parseUint64_def coreIdent_def split: option.splits if_splits)

lemma joinWith_set: "set (joinWith sep ws) \<subseteq> \<Union> (set ` set ws) \<union> set sep"
  by (induction sep ws rule: joinWith.induct) auto

lemma joinWith_not_in:
  "(\<And>w. w \<in> set ws \<Longrightarrow> c \<notin> set w) \<Longrightarrow> c \<notin> set sep \<Longrightarrow> c \<notin> set (joinWith sep ws)"
  using joinWith_set [of sep ws] by blast

lemma join_idents_no_plus:
  "list_all (validIdentifier e) ws \<Longrightarrow> CHR ''+'' \<notin> set (joinWith ''.'' ws)"
  by (rule joinWith_not_in) (auto simp: list_all_iff dest: validIdentifier_chars)

lemma join_core_chars:
  "list_all coreIdent cs \<Longrightarrow> CHR ''+'' \<notin> set (joinWith ''.'' cs) \<and> CHR ''-'' \<notin> set (joinWith ''.'' cs)"
  by (intro conjI; rule joinWith_not_in) (auto simp: list_all_iff dest: coreIdent_chars)

lemma splitAt_join_core:
  "cs \<noteq> [] \<Longrightarrow> list_all coreIdent cs \<Longrightarrow> splitAt CHR ''.'' (joinWith ''.'' cs) = cs"
  by (rule splitAt_join) (auto simp: list_all_iff dest: coreIdent_chars)

lemma cut_showOpt:
  "c \<notin> set s \<Longrightarrow> cutAt c (s @ showOpt c ids) =
     (s, (case ids of None \<Rightarrow> [] | Some ws \<Rightarrow> joinWith ''.'' ws), ids \<noteq> None)"
  by (auto simp: showOpt_def cutAt_no_sep cutAt_append split: option.splits)

lemma showVersion_start:
  assumes "length cs = 3" "list_all coreIdent cs"
  shows "showVersion cs p b \<noteq> [] \<and> \<not> hasPrefix (showVersion cs p b) ''v''"
proof -
  obtain c cs' where cs: "cs = c # cs'" "cs' \<noteq> []" using assms(1) by (cases cs; cases "tl cs") auto
  obtain d ds where c: "c = d # ds" "isDigit d"
    using assms(2) cs by (cases c) (auto simp: coreIdent_def)
  then have "showVersion cs p b = d # ds @ ''.'' @ joinWith ''.'' cs' @ showOpt CHR ''-'' p @ showOpt CHR ''+'' b"
    using cs by (simp add: showVersion_def joinWith_Cons)
  then show ?thesis using c(2) by (auto simp: hasPrefix_def isDigit_def)
qed

lemma parse_showVersion:
  assumes g: "semverGrammar cs p b"
  shows "parseSemanticVersion (showVersion cs p b) = Some (semverValue cs p)"
proof -
  let ?v = "joinWith ''.'' cs @ showOpt CHR ''-'' p"
  from g have cs: "length cs = 3" "list_all coreIdent cs" "cs \<noteq> []"
    and p: "optIdents True p" and b: "optIdents False b"
    by (auto simp: semverGrammar_def)
  have plus: "CHR ''+'' \<notin> set ?v"
    using join_core_chars [OF cs(2)] p join_idents_no_plus
    by (auto simp: showOpt_def optIdents_def split: option.splits)
  have cut1: "cutAt CHR ''+'' (showVersion cs p b) =
      (?v, (case b of None \<Rightarrow> [] | Some ws \<Rightarrow> joinWith ''.'' ws), b \<noteq> None)"
    using cut_showOpt [OF plus, of b] by (simp add: showVersion_def)
  have cut2: "cutAt CHR ''-'' ?v =
      (joinWith ''.'' cs, (case p of None \<Rightarrow> [] | Some ws \<Rightarrow> joinWith ''.'' ws), p \<noteq> None)"
    using join_core_chars [OF cs(2)] by (intro cut_showOpt) simp
  have okb: "\<And>ws. b = Some ws \<Longrightarrow> validIdentifiers (joinWith ''.'' ws) False \<and> CHR ''+'' \<notin> set (joinWith ''.'' ws)"
    using b join_idents_no_plus by (auto simp: optIdents_def validIdentifiers_iff)
  have okp: "\<And>ws. p = Some ws \<Longrightarrow> validIdentifiers (joinWith ''.'' ws) True \<and> splitAt CHR ''.'' (joinWith ''.'' ws) = ws"
    using p splitAt_join_idents by (auto simp: optIdents_def validIdentifiers_iff)
  have core: "parseCore cs = Some (map (\<lambda>s. word_of_nat (decValue s)) cs)"
    using cs(2) by (simp add: parseCore_iff)
  show ?thesis
    using showVersion_start [OF cs(1,2), of p b] cut1 cut2 okb okp core splitAt_join_core [OF cs(3,2)] cs(1)
    by (auto simp: parseSemanticVersion_def semverValue_def split: option.splits)
qed

lemma parse_grammar:
  assumes "parseSemanticVersion v = Some r"
  shows "\<exists>cs p b. semverGrammar cs p b \<and> v = showVersion cs p b \<and> r = semverValue cs p"
proof -
  obtain vp build hb where c1: "cutAt CHR ''+'' v = (vp, build, hb)" by (cases "cutAt CHR ''+'' v") auto
  obtain cr prr hp where c2: "cutAt CHR ''-'' vp = (cr, prr, hp)" by (cases "cutAt CHR ''-'' vp") auto
  let ?cs = "splitAt CHR ''.'' cr"
  have build: "hb \<Longrightarrow> validIdentifiers build False" and prer: "hp \<Longrightarrow> validIdentifiers prr True"
    and len: "length ?cs = 3"
    and r: "parseCore ?cs = Some (core r) \<and> pre r = (if hp then splitAt CHR ''.'' prr else [])"
    using assms c1 c2
    by (auto simp: parseSemanticVersion_def Let_def split: if_splits option.splits)
  define b where "b = (if hb then Some (splitAt CHR ''.'' build) else None)"
  define p where "p = (if hp then Some (splitAt CHR ''.'' prr) else None)"
  have v: "v = vp @ showOpt CHR ''+'' b"
    using c1 by (cases rule: cutAt_cases [of "CHR ''+''" v]) (auto simp: b_def showOpt_def)
  have vp: "vp = cr @ showOpt CHR ''-'' p"
    using c2 by (cases rule: cutAt_cases [of "CHR ''-''" vp]) (auto simp: p_def showOpt_def)
  have "semverGrammar ?cs p b"
    using len r build prer
    by (auto simp: semverGrammar_def parseCore_iff p_def b_def optIdents_def validIdentifiers_def)
  moreover have "v = showVersion ?cs p b"
    using v vp by (simp add: showVersion_def)
  moreover have "r = semverValue ?cs p"
    using r by (auto simp: semverValue_def parseCore_iff p_def intro: semanticVersion.equality)
  ultimately show ?thesis by blast
qed

section \<open>Precedence is a linear order on a key\<close>

text \<open>
  A pre-release identifier is numeric or alphanumeric; numeric identifiers sort before the others.
  (An identifier of digits whose value exceeds 64 bits is not numeric for the code.)
\<close>

datatype preId = NumId "64 word" | StrId string

instantiation preId :: linorder
begin

fun less_eq_preId :: "preId \<Rightarrow> preId \<Rightarrow> bool" where
  "less_eq_preId (NumId m) (NumId n) \<longleftrightarrow> m \<le> n"
| "less_eq_preId (NumId m) (StrId s) \<longleftrightarrow> True"
| "less_eq_preId (StrId s) (NumId m) \<longleftrightarrow> False"
| "less_eq_preId (StrId s) (StrId t) \<longleftrightarrow> s \<le> t"

definition less_preId :: "preId \<Rightarrow> preId \<Rightarrow> bool" where
  "less_preId a b \<longleftrightarrow> a \<le> b \<and> \<not> b \<le> a"

instance
proof
  fix a b c :: preId
  show "a < b \<longleftrightarrow> a \<le> b \<and> \<not> b \<le> a" by (rule less_preId_def)
  show "a \<le> a" by (cases a) auto
  show "a \<le> b \<Longrightarrow> b \<le> c \<Longrightarrow> a \<le> c" by (cases a; cases b; cases c) auto
  show "a \<le> b \<Longrightarrow> b \<le> a \<Longrightarrow> a = b" by (cases a; cases b) auto
  show "a \<le> b \<or> b \<le> a" by (cases a; cases b) auto
qed

end

lemma less_preId_simps [simp]:
  "NumId m < NumId n \<longleftrightarrow> m < n"
  "NumId m < StrId s"
  "\<not> StrId s < NumId m"
  "StrId s < StrId t \<longleftrightarrow> s < t"
  by (auto simp: less_preId_def)

definition preKey :: "string \<Rightarrow> preId" where
  "preKey s = (case numericIdentifier s of Some n \<Rightarrow> NumId n | None \<Rightarrow> StrId s)"

text \<open>The core numbers, then releases after pre-releases, then the identifiers in order.\<close>

definition versionKey :: "semanticVersion \<Rightarrow> 64 word list \<times> bool \<times> preId list" where
  "versionKey v = (core v, pre v = [], map preKey (pre v))"

definition semverKey :: "string \<Rightarrow> 64 word list \<times> bool \<times> preId list" where
  "semverKey s = (case parseSemanticVersion s of
                    Some v \<Rightarrow> versionKey v
                  | None \<Rightarrow> ([], False, []))"

text \<open>Three-way comparison in a linear order.\<close>

definition cmp :: "'a::linorder \<Rightarrow> 'a \<Rightarrow> int" where
  "cmp a b = (if a < b then -1 else if a = b then 0 else 1)"

lemma cmp_sign [simp]: "cmp a b < 0 \<longleftrightarrow> a < b" "cmp a b = 0 \<longleftrightarrow> a = b" "cmp a b > 0 \<longleftrightarrow> b < a"
  by (auto simp: cmp_def)

lemma compareCore_cmp: "length as = length bs \<Longrightarrow> compareCore as bs = cmp as bs"
  by (induction as bs rule: compareCore.induct) (auto simp: cmp_def)

lemma comparePre_cmp: "comparePre as bs = cmp (map preKey as) (map preKey bs)"
proof (induction as bs rule: comparePre.induct)
  case (1 a as b bs)
  then show ?case
    by (auto simp: preKey_def cmp_def Let_def stringsCompare_def split: option.splits)
qed (auto simp: cmp_def)

lemma parse_core_length: "parseSemanticVersion s = Some v \<Longrightarrow> length (core v) = 3"
  by (auto dest!: parse_grammar simp: semverGrammar_def semverValue_def)

lemma compareSemver_parsed:
  assumes "parseSemanticVersion a = Some va" "parseSemanticVersion b = Some vb"
  shows "compareSemver a b = cmp (versionKey va) (versionKey vb)"
proof -
  have "compareCore (core va) (core vb) = cmp (core va) (core vb)"
    using assms parse_core_length by (intro compareCore_cmp) simp
  with assms show ?thesis
    by (auto simp: compareSemver_def versionKey_def comparePre_cmp Let_def cmp_def)
qed

lemma compareSemver_key:
  "validVersion a \<Longrightarrow> validVersion b \<Longrightarrow> compareSemver a b = cmp (semverKey a) (semverKey b)"
  by (auto simp: validVersion_def semverKey_def compareSemver_parsed)

section \<open>The sort is the stable sort by precedence\<close>

lemma mset_insertLeft: "mset (insertLeft x ys) = add_mset x (mset ys)"
  by (induction ys) auto

lemma set_insertLeft [simp]: "set (insertLeft x ys) = insert x (set ys)"
  using mset_insertLeft by (metis set_mset_add_mset_insert set_mset_mset)

lemma sorted_insertLeft:
  assumes "\<forall>y \<in> set ys. validVersion y" "validVersion x"
    and "sorted_wrt (\<lambda>a b. semverKey b \<le> semverKey a) ys"
  shows "sorted_wrt (\<lambda>a b. semverKey b \<le> semverKey a) (insertLeft x ys)"
  using assms
  by (induction ys) (auto simp: compareSemver_key)

lemma stable_insertLeft:
  assumes "\<forall>y \<in> set ys. validVersion y" "validVersion x"
    and "sorted_wrt (\<lambda>a b. semverKey b \<le> semverKey a) ys"
  shows "filter (\<lambda>y. k = semverKey y) (insertLeft x ys) = filter (\<lambda>y. k = semverKey y) (x # ys)"
  using assms
  by (induction ys) (auto simp: compareSemver_key)

definition sortedPrefix :: "string list \<Rightarrow> string list \<Rightarrow> bool" where
  "sortedPrefix xs acc \<longleftrightarrow>
     mset acc = mset xs \<and> sorted_wrt (\<lambda>a b. semverKey b \<le> semverKey a) acc \<and>
     (\<forall>z. filter (\<lambda>y. semverKey z = semverKey y) acc = rev (filter (\<lambda>y. semverKey z = semverKey y) xs))"

lemma sortedPrefix_step:
  assumes "\<forall>y \<in> set xs. validVersion y" "validVersion x" "sortedPrefix xs acc"
  shows "sortedPrefix (xs @ [x]) (insertLeft x acc)"
proof -
  have "\<forall>y \<in> set acc. validVersion y"
    using assms by (metis sortedPrefix_def mset_eq_setD)
  with assms show ?thesis
    by (simp add: sortedPrefix_def mset_insertLeft sorted_insertLeft stable_insertLeft)
qed

lemma sortedPrefix_foldl:
  "\<forall>y \<in> set xs. validVersion y \<Longrightarrow> sortedPrefix xs (foldl (\<lambda>acc x. insertLeft x acc) [] xs)"
proof (induction xs rule: rev_induct)
  case Nil
  then show ?case by (simp add: sortedPrefix_def)
next
  case (snoc x xs)
  then show ?case by (simp add: sortedPrefix_step)
qed

lemma mset_sortSemanticVersions: "mset (sortSemanticVersions vs) = mset vs"
proof -
  have "mset (foldl (\<lambda>acc x. insertLeft x acc) acc vs) = mset acc + mset vs" for acc
    by (induction vs arbitrary: acc) (auto simp: mset_insertLeft)
  then show ?thesis by (simp add: sortSemanticVersions_def)
qed

lemma set_sortSemanticVersions [simp]: "set (sortSemanticVersions vs) = set vs"
  using mset_sortSemanticVersions by (metis set_mset_mset)

lemma length_sortSemanticVersions [simp]: "length (sortSemanticVersions vs) = length vs"
  using mset_sortSemanticVersions by (metis size_mset)

lemma distinct_sortSemanticVersions [simp]: "distinct (sortSemanticVersions vs) = distinct vs"
  using mset_sortSemanticVersions by (metis mset_eq_imp_distinct_iff)

lemma sortSemanticVersions_sort_key:
  assumes "\<forall>v \<in> set vs. validVersion v"
  shows "sortSemanticVersions vs = sort_key semverKey vs"
proof -
  let ?acc = "foldl (\<lambda>acc x. insertLeft x acc) [] vs"
  have acc: "sortedPrefix vs ?acc" using assms by (rule sortedPrefix_foldl)
  have "sort_key semverKey vs = rev ?acc"
  proof (rule properties_for_sort_key)
    show "mset (rev ?acc) = mset vs" using acc by (simp add: sortedPrefix_def)
    show "filter (\<lambda>x. semverKey k = semverKey x) (rev ?acc) = filter (\<lambda>x. semverKey k = semverKey x) vs" for k
      using acc by (simp add: sortedPrefix_def rev_filter [symmetric])
    show "sorted (map semverKey (rev ?acc))"
      using acc by (simp add: sortedPrefix_def sorted_wrt_rev sorted_map)
  qed
  then show ?thesis by (simp add: sortSemanticVersions_def)
qed

section \<open>Properties\<close>

text \<open>The definitions that evaluate the parser on a closed string.\<close>

lemmas semver_eval = parseSemanticVersion_def cutAt_def validIdentifiers_def validIdentifier_def
  identChar_def char_class_defs numericIdentifier_def parseUint64_def decValue_def digitVal_def
  hasPrefix_def Let_def

text \<open>
  C21. The parser accepts exactly the strings of the SemVer 2.0 grammar whose three core numbers fit
  64 bits, and returns their core numbers and pre-release identifiers.
\<close>

theorem parseSemanticVersion_grammar:
  "parseSemanticVersion v = Some r \<longleftrightarrow>
     (\<exists>cs p b. semverGrammar cs p b \<and> v = showVersion cs p b \<and> r = semverValue cs p)"
  using parse_grammar parse_showVersion by blast



text \<open>
  C23. Sorting a list of valid versions gives the stable sort by precedence: an ordered permutation
  in which versions of equal precedence keep their order.
\<close>

theorem sortSemanticVersions_stable_sort:
  "(\<And>v. v \<in> set vs \<Longrightarrow> validVersion v) \<Longrightarrow> sortSemanticVersions vs = sort_key semverKey vs"
  using sortSemanticVersions_sort_key by blast

theorem sortSemanticVersions_stable_sort_witness:
  "sortSemanticVersions [''1.0.0'', ''1.0.0-rc.10'', ''1.0.0-rc.2''] =
     sort_key semverKey [''1.0.0'', ''1.0.0-rc.10'', ''1.0.0-rc.2'']"
proof (rule sortSemanticVersions_stable_sort)
  have valid: "validVersion ''1.0.0''" "validVersion ''1.0.0-rc.10''" "validVersion ''1.0.0-rc.2''"
    by (simp_all add: validVersion_def semver_eval)
  show "validVersion v" if "v \<in> set [''1.0.0'', ''1.0.0-rc.10'', ''1.0.0-rc.2'']" for v
    using that valid by auto
qed

end
