(* ===== verification/Regexp.thy ===== *)
theory Regexp
  imports Prelude
begin

text \<open>
  The fragment of Go's \<^verbatim>\<open>regexp\<close> package that the registry and the CLI use: literals, bounded and
  unbounded greedy repetitions of a character class, sequences, optional groups and capturing
  groups, in expressions anchored at both ends.

  \<^verbatim>\<open>FindStringSubmatch\<close> returns the leftmost-first match: the one a backtracking search that tries
  the alternatives in order, and greedy repetitions longest first, finds first.  \<open>matchRe\<close> lists
  every way to match a prefix of the input in that order of preference, with the captured
  substrings and the unmatched rest.
\<close>

datatype regex =
    Lit string
  | Rep "char \<Rightarrow> bool" nat "nat option"
  | Seq regex regex
  | Opt regex
  | Group regex

fun longest :: "nat option \<Rightarrow> nat \<Rightarrow> nat" where
  "longest None n = n"
| "longest (Some hi) n = min hi n"

fun matchRe :: "regex \<Rightarrow> string \<Rightarrow> (string list \<times> string) list" where
  "matchRe (Lit w) s = (if hasPrefix s w then [([], drop (length w) s)] else [])"
| "matchRe (Rep P lo hi) s =
     map (\<lambda>k. ([], drop k s)) (rev [lo ..< Suc (longest hi (length (takeWhile P s)))])"
| "matchRe (Seq r1 r2) s =
     concat (map (\<lambda>(c1, s1). map (\<lambda>(c2, s2). (c1 @ c2, s2)) (matchRe r2 s1)) (matchRe r1 s))"
| "matchRe (Opt r) s = matchRe r s @ [([], s)]"
| "matchRe (Group r) s =
     map (\<lambda>(c, s1). (take (length s - length s1) s # c, s1)) (matchRe r s)"

text \<open>The captures of the first match of the whole input, the expression being anchored by \<open>^\<close> and \<open>$\<close>.\<close>

definition findStringSubmatch :: "regex \<Rightarrow> string \<Rightarrow> string list option" where
  "findStringSubmatch r s =
     (case filter (\<lambda>m. snd m = []) (matchRe r s) of [] \<Rightarrow> None | m # _ \<Rightarrow> Some (fst m))"

definition matchString :: "regex \<Rightarrow> string \<Rightarrow> bool" where
  "matchString r s \<longleftrightarrow> findStringSubmatch r s \<noteq> None"

section \<open>The language of an expression\<close>

text \<open>\<open>inLang r w c\<close>: the string \<open>w\<close> is in the language of \<open>r\<close>, with the captures \<open>c\<close>.\<close>

fun inLang :: "regex \<Rightarrow> string \<Rightarrow> string list \<Rightarrow> bool" where
  "inLang (Lit l) w c \<longleftrightarrow> w = l \<and> c = []"
| "inLang (Rep P lo hi) w c \<longleftrightarrow>
     list_all P w \<and> lo \<le> length w \<and> (\<forall>n. hi = Some n \<longrightarrow> length w \<le> n) \<and> c = []"
| "inLang (Seq r1 r2) w c \<longleftrightarrow>
     (\<exists>w1 w2 c1 c2. w = w1 @ w2 \<and> c = c1 @ c2 \<and> inLang r1 w1 c1 \<and> inLang r2 w2 c2)"
| "inLang (Opt r) w c \<longleftrightarrow> inLang r w c \<or> w = [] \<and> c = []"
| "inLang (Group r) w c \<longleftrightarrow> (\<exists>c'. inLang r w c' \<and> c = w # c')"

lemma takeWhile_prefix_length:
  "k \<le> length (takeWhile P s) \<longleftrightarrow> k \<le> length s \<and> list_all P (take k s)"
proof
  assume k: "k \<le> length (takeWhile P s)"
  then have "take k s = take k (takeWhile P s)"
    by (metis takeWhile_eq_take take_take min.absorb_iff2 min.commute)
  moreover have "list_all P (take k (takeWhile P s))"
    by (auto simp: list_all_iff dest!: in_set_takeD set_takeWhileD)
  ultimately show "k \<le> length s \<and> list_all P (take k s)"
    using k length_takeWhile_le by (metis order_trans)
next
  assume "k \<le> length s \<and> list_all P (take k s)"
  then show "k \<le> length (takeWhile P s)"
    by (induction s arbitrary: k) (auto simp: take_Cons split: nat.splits)
qed

lemma mem_rep: "(c, rest) \<in> set (matchRe (Rep P lo hi) s) \<longleftrightarrow> (\<exists>w. s = w @ rest \<and> inLang (Rep P lo hi) w c)"
proof
  assume "(c, rest) \<in> set (matchRe (Rep P lo hi) s)"
  then obtain k where k: "lo \<le> k" "k \<le> longest hi (length (takeWhile P s))" "rest = drop k s" "c = []"
    by auto
  then have "k \<le> length (takeWhile P s)" "\<forall>n. hi = Some n \<longrightarrow> k \<le> n" by (cases hi; auto)+
  with k have "s = take k s @ rest \<and> inLang (Rep P lo hi) (take k s) c"
    by (auto simp: takeWhile_prefix_length)
  then show "\<exists>w. s = w @ rest \<and> inLang (Rep P lo hi) w c" by blast
next
  assume "\<exists>w. s = w @ rest \<and> inLang (Rep P lo hi) w c"
  then obtain w where w: "s = w @ rest" "list_all P w" "lo \<le> length w"
    "\<forall>n. hi = Some n \<longrightarrow> length w \<le> n" "c = []" by auto
  then have "length w \<le> length (takeWhile P s)" by (simp add: takeWhile_prefix_length)
  then have "length w \<le> longest hi (length (takeWhile P s))" using w(4) by (cases hi) auto
  with w(3) have "length w \<in> set (rev [lo ..< Suc (longest hi (length (takeWhile P s)))])"
    by (simp only: set_rev set_upt atLeastLessThan_iff less_Suc_eq_le simp_thms)
  then have "(\<lambda>k. ([] :: string list, drop k s)) (length w) \<in> set (matchRe (Rep P lo hi) s)"
    by (simp only: matchRe.simps set_map image_eqI)
  with w show "(c, rest) \<in> set (matchRe (Rep P lo hi) s)" by simp
qed

lemma matchRe_correct:
  "(c, rest) \<in> set (matchRe r s) \<longleftrightarrow> (\<exists>w. s = w @ rest \<and> inLang r w c)"
proof (induction r arbitrary: c rest s)
  case (Lit l)
  then show ?case by (auto simp: hasPrefix_iff_prefix prefix_def hasPrefix_def)
next
  case (Rep P lo hi)
  then show ?case by (rule mem_rep)
next
  case (Seq r1 r2)
  have "(c, rest) \<in> set (matchRe (Seq r1 r2) s) \<longleftrightarrow>
      (\<exists>c1 s1 c2. (c1, s1) \<in> set (matchRe r1 s) \<and> (c2, rest) \<in> set (matchRe r2 s1) \<and> c = c1 @ c2)"
    by fastforce
  also have "\<dots> \<longleftrightarrow> (\<exists>w. s = w @ rest \<and> inLang (Seq r1 r2) w c)"
    unfolding Seq.IH by (auto; metis append.assoc)
  finally show ?case .
next
  case (Opt r)
  then show ?case by auto
next
  case (Group r)
  have "(c, rest) \<in> set (matchRe (Group r) s) \<longleftrightarrow>
      (\<exists>c'. (c', rest) \<in> set (matchRe r s) \<and> c = take (length s - length rest) s # c')"
    by force
  also have "\<dots> \<longleftrightarrow> (\<exists>w. s = w @ rest \<and> inLang (Group r) w c)"
    unfolding Group.IH by auto
  finally show ?case .
qed

lemma findStringSubmatch_sound: "findStringSubmatch r s = Some c \<Longrightarrow> inLang r s c"
proof -
  assume "findStringSubmatch r s = Some c"
  then obtain m where "m \<in> set (matchRe r s)" "snd m = []" "fst m = c"
    by (auto simp: findStringSubmatch_def filter_eq_Cons_iff split: list.splits)
  then have "(c, []) \<in> set (matchRe r s)" by (metis prod.collapse)
  then show ?thesis by (simp add: matchRe_correct)
qed

lemma findStringSubmatch_complete: "inLang r s c \<Longrightarrow> findStringSubmatch r s \<noteq> None"
proof -
  assume "inLang r s c"
  then have "(c, []) \<in> set (matchRe r s)" by (simp add: matchRe_correct)
  then have "filter (\<lambda>m. snd m = []) (matchRe r s) \<noteq> []"
    by (auto simp: filter_empty_conv intro!: bexI)
  then show ?thesis by (auto simp: findStringSubmatch_def split: list.splits)
qed

lemma matchString_iff: "matchString r s \<longleftrightarrow> (\<exists>c. inLang r s c)"
  using findStringSubmatch_sound findStringSubmatch_complete by (auto simp: matchString_def)

text \<open>
  Rules that read a sequence from the left: a literal, a part without captures, and a capturing group
  around such a part.
\<close>

lemma inLang_Seq_Lit: "inLang (Seq (Lit l) r) w c \<longleftrightarrow> (\<exists>w'. w = l @ w' \<and> inLang r w' c)"
  by auto

lemma inLang_Seq_plain:
  assumes "\<And>w c. inLang r1 w c \<longleftrightarrow> P w \<and> c = []"
  shows "inLang (Seq r1 r) w c \<longleftrightarrow> (\<exists>w1 w'. w = w1 @ w' \<and> P w1 \<and> inLang r w' c)"
  by (auto simp: assms)

lemma inLang_Seq_Group:
  assumes "\<And>w c. inLang r1 w c \<longleftrightarrow> P w \<and> c = []"
  shows "inLang (Seq (Group r1) r) w c \<longleftrightarrow>
    (\<exists>w1 w' c'. w = w1 @ w' \<and> P w1 \<and> c = w1 # c' \<and> inLang r w' c')"
  by (auto simp: assms)

text \<open>When every match captures the same strings, the order of preference does not matter.\<close>

lemma findStringSubmatch_unique:
  assumes "inLang r s c" "\<And>c'. inLang r s c' \<Longrightarrow> f c' = f c"
  shows "\<exists>c'. findStringSubmatch r s = Some c' \<and> f c' = f c"
  using assms findStringSubmatch_complete findStringSubmatch_sound by blast

end
