(* ===== verification/Validation.thy ===== *)
theory Validation
  imports Semver Regexp
begin

text \<open>
  \<^verbatim>\<open>registry-server/validation.go\<close>: the name, host name and version checks on route variables, and
  the allow list \<open>isPublicArtifactPath\<close> that decides which stored files the download endpoint
  serves.  The regular expressions are those of the source over the matcher of theory Regexp.
\<close>

section \<open>The regular expressions\<close>

definition nameChar :: "char \<Rightarrow> bool" where
  "nameChar c \<longleftrightarrow> isAlnum c \<or> c = CHR ''_'' \<or> c = CHR ''-''"

definition hostChar :: "char \<Rightarrow> bool" where
  "hostChar c \<longleftrightarrow> isAlnum c \<or> c = CHR ''.'' \<or> c = CHR ''-''"

definition versionChar :: "char \<Rightarrow> bool" where
  "versionChar c \<longleftrightarrow> isAlnum c \<or> c = CHR ''.'' \<or> c = CHR ''+'' \<or> c = CHR ''-''"

definition hexChar :: "char \<Rightarrow> bool" where
  "hexChar c \<longleftrightarrow> (CHR ''a'' \<le> c \<and> c \<le> CHR ''f'') \<or> isDigit c"

definition artifactNameRE :: regex where
  "artifactNameRE = Seq (Rep isAlnum 1 (Some 1)) (Rep nameChar 0 (Some 63))"

definition hostnameRE :: regex where
  "hostnameRE =
     Seq (Rep isAlnum 1 (Some 1))
         (Opt (Seq (Rep hostChar 0 (Some 251)) (Rep isAlnum 1 (Some 1))))"

definition hashSuffixRE :: regex where
  "hashSuffixRE = Opt (Seq (Lit ''_'') (Rep hexChar 64 (Some 64)))"

definition providerFileRE :: regex where
  "providerFileRE =
     Seq (Lit ''terraform-provider-'') (Seq (Group artifactNameRE) (Seq (Lit ''_'')
       (Seq (Group (Rep versionChar 1 None)) (Seq (Lit ''_'')
         (Seq (Group artifactNameRE) (Seq (Lit ''_'')
           (Seq (Group artifactNameRE) (Seq hashSuffixRE (Lit ''.zip'')))))))))"

definition checksumFileRE :: regex where
  "checksumFileRE =
     Seq (Lit ''terraform-provider-'') (Seq (Group artifactNameRE) (Seq (Lit ''_'')
       (Seq (Group (Rep versionChar 1 None)) (Seq (Lit ''_SHA256SUMS'') (Opt (Lit ''.sig''))))))"

definition moduleFileRE :: regex where
  "moduleFileRE = Seq (Lit ''module'') (Seq hashSuffixRE (Lit ''.tar.gz''))"

section \<open>The checks\<close>

definition validArtifactName :: "string \<Rightarrow> bool" where
  "validArtifactName v \<longleftrightarrow> matchString artifactNameRE v"

definition validHostname :: "string \<Rightarrow> bool" where
  "validHostname v \<longleftrightarrow> matchString hostnameRE v \<and> \<not> containsStr v ''..''"

text \<open>
  \<^verbatim>\<open>FindStringSubmatch\<close> returns the whole match and then the captures, or nothing: \<^verbatim>\<open>len(match) == 5\<close>
  says that there is a match, and \<^verbatim>\<open>match[i]\<close> is the capture \<open>i - 1\<close>.
\<close>

definition isPublicArtifactPath :: "string \<Rightarrow> bool" where
  "isPublicArtifactPath path =
     (let parts = splitAt CHR ''/'' (trimCh CHR ''/'' path) in
      if length parts = 5 \<and> parts ! 0 = ''providers'' then
        (if \<not> validArtifactName (parts ! 1) \<or> \<not> validArtifactName (parts ! 2) \<or>
            \<not> validVersion (parts ! 3) then False
         else (case findStringSubmatch providerFileRE (parts ! 4) of
             Some m \<Rightarrow> m ! 0 = parts ! 2 \<and> m ! 1 = parts ! 3 \<and>
                       validArtifactName (m ! 2) \<and> validArtifactName (m ! 3)
           | None \<Rightarrow> (case findStringSubmatch checksumFileRE (parts ! 4) of
               Some m \<Rightarrow> m ! 0 = parts ! 2 \<and> m ! 1 = parts ! 3
             | None \<Rightarrow> False)))
      else if length parts = 6 \<and> parts ! 0 = ''modules'' \<and> matchString moduleFileRE (parts ! 5) then
        validArtifactName (parts ! 1) \<and> validArtifactName (parts ! 2) \<and>
        validArtifactName (parts ! 3) \<and> validVersion (parts ! 4)
      else False)"

text \<open>
  The loop of \<^verbatim>\<open>routeValidationMiddleware\<close> over the route variables: the first invalid key in the
  order of iteration, which Go leaves open (the request is then refused with status 400).
\<close>

definition routeVarValid :: "string \<Rightarrow> string \<Rightarrow> bool" where
  "routeVarValid key value =
     (if key \<in> {''namespace'', ''name'', ''type'', ''provider'', ''os'', ''arch''} then validArtifactName value
      else if key = ''version'' then validVersion value
      else if key = ''hostname'' then validHostname value
      else True)"

fun routeValidation :: "(string \<times> string) list \<Rightarrow> string option" where
  "routeValidation [] = None"
| "routeValidation ((key, value) # vars) =
     (if \<not> routeVarValid key value then Some key else routeValidation vars)"

section \<open>What the expressions accept\<close>

definition isName :: "string \<Rightarrow> bool" where
  "isName v \<longleftrightarrow> v \<noteq> [] \<and> isAlnum (hd v) \<and> list_all nameChar v \<and> length v \<le> 64"

lemma alnum_nameChar: "isAlnum c \<Longrightarrow> nameChar c"
  by (simp add: nameChar_def)

lemma inLang_single: "inLang (Rep P 1 (Some 1)) w c \<longleftrightarrow> (\<exists>x. w = [x] \<and> P x) \<and> c = []"
  by (cases w) (auto simp: Suc_le_eq)

lemma inLang_artifactName: "inLang artifactNameRE v c \<longleftrightarrow> isName v \<and> c = []"
  unfolding artifactNameRE_def inLang_Seq_plain [OF inLang_single]
proof (cases v)
  case (Cons x s)
  have "(\<exists>w1 w'. v = w1 @ w' \<and> (\<exists>y. w1 = [y] \<and> isAlnum y) \<and> inLang (Rep nameChar 0 (Some 63)) w' c) \<longleftrightarrow>
      isAlnum x \<and> inLang (Rep nameChar 0 (Some 63)) s c"
    using Cons by (auto simp del: inLang.simps) (metis append_Cons append_Nil)
  then show "(\<exists>w1 w'. v = w1 @ w' \<and> (\<exists>y. w1 = [y] \<and> isAlnum y) \<and> inLang (Rep nameChar 0 (Some 63)) w' c) \<longleftrightarrow>
      isName v \<and> c = []"
    using Cons by (auto simp: isName_def alnum_nameChar)
qed (auto simp: isName_def)

lemma validArtifactName_iff: "validArtifactName v \<longleftrightarrow> isName v"
  by (simp add: validArtifactName_def matchString_iff inLang_artifactName)

definition hashSuffix :: "string \<Rightarrow> bool" where
  "hashSuffix h \<longleftrightarrow> h = [] \<or> (\<exists>d. h = CHR ''_'' # d \<and> length d = 64 \<and> list_all hexChar d)"

lemma inLang_hashSuffix: "inLang hashSuffixRE h c \<longleftrightarrow> hashSuffix h \<and> c = []"
  unfolding hashSuffixRE_def hashSuffix_def by (auto 4 4)

definition versionText :: "string \<Rightarrow> bool" where
  "versionText v \<longleftrightarrow> v \<noteq> [] \<and> list_all versionChar v"

lemma inLang_versionText: "inLang (Rep versionChar 1 None) v c \<longleftrightarrow> versionText v \<and> c = []"
  by (cases v) (auto simp: versionText_def)

lemmas inLang_parts = inLang_Seq_Lit inLang_Seq_plain [OF inLang_hashSuffix]
  inLang_Seq_Group [OF inLang_artifactName] inLang_Seq_Group [OF inLang_versionText]

definition providerFile :: "string \<Rightarrow> string \<Rightarrow> string \<Rightarrow> string \<Rightarrow> string \<Rightarrow> string" where
  "providerFile n v os arch h =
     ''terraform-provider-'' @ n @ ''_'' @ v @ ''_'' @ os @ ''_'' @ arch @ h @ ''.zip''"

definition checksumFile :: "string \<Rightarrow> string \<Rightarrow> string \<Rightarrow> string" where
  "checksumFile n v e = ''terraform-provider-'' @ n @ ''_'' @ v @ ''_SHA256SUMS'' @ e"

definition moduleFile :: "string \<Rightarrow> string" where
  "moduleFile h = ''module'' @ h @ ''.tar.gz''"

lemma inLang_moduleFile:
  "inLang moduleFileRE f c \<longleftrightarrow> (\<exists>h. hashSuffix h \<and> f = moduleFile h) \<and> c = []"
  unfolding moduleFileRE_def moduleFile_def inLang_parts by auto

lemma inLang_providerShape:
  "inLang (Seq (Lit a) (Seq (Group artifactNameRE) (Seq (Lit u) (Seq (Group (Rep versionChar 1 None))
       (Seq (Lit u) (Seq (Group artifactNameRE) (Seq (Lit u) (Seq (Group artifactNameRE)
         (Seq hashSuffixRE (Lit z)))))))))) f c \<longleftrightarrow>
     (\<exists>n v os arch h. c = [n, v, os, arch] \<and> f = a @ n @ u @ v @ u @ os @ u @ arch @ h @ z \<and>
        isName n \<and> versionText v \<and> isName os \<and> isName arch \<and> hashSuffix h)"
  (is "?L \<longleftrightarrow> ?R")
proof
  assume ?L
  then show ?R
    unfolding inLang_parts inLang.simps(1)
    by clarify (intro exI conjI, rule refl, rule refl, assumption+)
next
  assume ?R
  then show ?L
    unfolding inLang_parts inLang.simps(1)
    by (elim exE conjE) (intro exI conjI; (assumption | rule refl))
qed

lemma inLang_Opt_Lit: "inLang (Opt (Lit y)) w c \<longleftrightarrow> c = [] \<and> (w = [] \<or> w = y)"
  by auto

lemma inLang_checksumShape:
  "inLang (Seq (Lit a) (Seq (Group artifactNameRE) (Seq (Lit u)
       (Seq (Group (Rep versionChar 1 None)) (Seq (Lit z) (Opt (Lit y))))))) f c \<longleftrightarrow>
     (\<exists>n v e. c = [n, v] \<and> f = a @ n @ u @ v @ z @ e \<and> isName n \<and> versionText v \<and> (e = [] \<or> e = y))"
  (is "?L \<longleftrightarrow> ?R")
proof
  assume ?L
  then show ?R
    unfolding inLang_parts inLang_Opt_Lit
    by clarify (intro exI conjI, rule refl, rule refl, assumption+)
next
  assume ?R
  then show ?L
    unfolding inLang_parts inLang_Opt_Lit
    by (elim exE conjE) (intro exI conjI; (assumption | rule refl))
qed

lemma inLang_providerFile:
  "inLang providerFileRE f c \<longleftrightarrow>
     (\<exists>n v os arch h. c = [n, v, os, arch] \<and> f = providerFile n v os arch h \<and>
        isName n \<and> versionText v \<and> isName os \<and> isName arch \<and> hashSuffix h)"
  unfolding providerFileRE_def providerFile_def by (rule inLang_providerShape)

lemma inLang_checksumFile:
  "inLang checksumFileRE f c \<longleftrightarrow>
     (\<exists>n v e. c = [n, v] \<and> f = checksumFile n v e \<and> isName n \<and> versionText v \<and> (e = [] \<or> e = ''.sig''))"
  unfolding checksumFileRE_def checksumFile_def by (rule inLang_checksumShape)

section \<open>Characters of names and versions\<close>

lemma isName_chars:
  assumes "isName n"
  shows "CHR ''.'' \<notin> set n" "CHR ''/'' \<notin> set n" "CHR ''+'' \<notin> set n" "n \<noteq> []"
proof -
  have "\<forall>c \<in> set n. nameChar c" using assms by (simp add: isName_def list_all_iff)
  moreover have "\<not> nameChar CHR ''.''" "\<not> nameChar CHR ''/''" "\<not> nameChar CHR ''+''"
    by (simp_all add: nameChar_def char_class_defs)
  ultimately show "CHR ''.'' \<notin> set n" "CHR ''/'' \<notin> set n" "CHR ''+'' \<notin> set n" by blast+
  show "n \<noteq> []" using assms by (simp add: isName_def)
qed

lemma versionText_chars:
  assumes "versionText v"
  shows "CHR ''_'' \<notin> set v" "CHR ''/'' \<notin> set v" "v \<noteq> []"
proof -
  have "\<forall>c \<in> set v. versionChar c" using assms by (simp add: versionText_def list_all_iff)
  moreover have "\<not> versionChar CHR ''_''" "\<not> versionChar CHR ''/''"
    by (simp_all add: versionChar_def char_class_defs)
  ultimately show "CHR ''_'' \<notin> set v" "CHR ''/'' \<notin> set v" by blast+
  show "v \<noteq> []" using assms by (simp add: versionText_def)
qed

lemma hashSuffix_chars:
  assumes "hashSuffix h"
  shows "CHR ''.'' \<notin> set h" "CHR ''/'' \<notin> set h"
proof -
  have "\<not> hexChar CHR ''.''" "\<not> hexChar CHR ''/''"
    by (simp_all add: hexChar_def char_class_defs)
  then show "CHR ''.'' \<notin> set h" "CHR ''/'' \<notin> set h"
    using assms by (auto simp: hashSuffix_def list_all_iff)
qed

lemma identChar_versionChar: "identChar c \<Longrightarrow> versionChar c"
  by (auto simp: identChar_def versionChar_def isAlnum_def)

lemma joinWith_all:
  "list_all P sep \<Longrightarrow> list_all (list_all P) ws \<Longrightarrow> list_all P (joinWith sep ws)"
  by (induction sep ws rule: joinWith.induct) auto

lemma optIdents_versionChar:
  "optIdents e ids \<Longrightarrow> versionChar c \<Longrightarrow> list_all versionChar (showOpt c ids)"
proof (cases ids)
  case (Some ws)
  assume a: "optIdents e ids" "versionChar c"
  have "list_all (list_all versionChar) ws"
    using a Some identChar_versionChar by (auto simp: optIdents_def validIdentifier_def list_all_iff)
  then have "list_all versionChar (joinWith ''.'' ws)"
    by (intro joinWith_all) (simp_all add: versionChar_def)
  then show ?thesis using a Some by (simp add: showOpt_def)
qed (simp add: showOpt_def)

lemma core_versionChar: "list_all coreIdent cs \<Longrightarrow> list_all versionChar (joinWith ''.'' cs)"
  by (rule joinWith_all)
     (auto simp: versionChar_def coreIdent_def list_all_iff isAlnum_def)

lemma validVersion_text:
  assumes "validVersion v"
  shows "versionText v" "CHR ''.'' \<in> set v" "isDigit (hd v)"
proof -
  obtain r where "parseSemanticVersion v = Some r" using assms by (auto simp: validVersion_def)
  then obtain cs p b where g: "semverGrammar cs p b" and v: "v = showVersion cs p b"
    using parse_grammar by blast
  from g obtain x y z where cs: "cs = [x, y, z]"
    by (auto simp: semverGrammar_def numeral_3_eq_3 length_Suc_conv)
  have x: "x \<noteq> []" "isDigit (hd x)"
    using g cs by (auto simp: semverGrammar_def coreIdent_def list_all_iff)
  then show "isDigit (hd v)" "CHR ''.'' \<in> set v" using v cs by (simp_all add: showVersion_def)
  have "versionChar CHR ''-''" "versionChar CHR ''+''" by (simp_all add: versionChar_def)
  then have "list_all versionChar v"
    using g v core_versionChar [of cs] optIdents_versionChar [of True p] optIdents_versionChar [of False b]
    by (simp add: showVersion_def semverGrammar_def)
  then show "versionText v" using v cs x by (auto simp: versionText_def showVersion_def)
qed

section \<open>The allow list\<close>

text \<open>The stored files the download endpoint may serve, by the components of their path.\<close>

inductive publicArtifact :: "string list \<Rightarrow> bool" where
  providerZip: "isName ns \<Longrightarrow> isName n \<Longrightarrow> validVersion v \<Longrightarrow> isName os \<Longrightarrow> isName arch \<Longrightarrow> hashSuffix h \<Longrightarrow>
    publicArtifact [''providers'', ns, n, v, providerFile n v os arch h]"
| checksums: "isName ns \<Longrightarrow> isName n \<Longrightarrow> validVersion v \<Longrightarrow> e = [] \<or> e = ''.sig'' \<Longrightarrow>
    publicArtifact [''providers'', ns, n, v, checksumFile n v e]"
| moduleTar: "isName ns \<Longrightarrow> isName n \<Longrightarrow> isName p \<Longrightarrow> validVersion v \<Longrightarrow> hashSuffix h \<Longrightarrow>
    publicArtifact [''modules'', ns, n, p, v, moduleFile h]"

lemma providerFile_dots:
  assumes "isName n" "isName os" "isName arch" "hashSuffix h"
  shows "count_list (providerFile n v os arch h) CHR ''.'' = count_list v CHR ''.'' + 1"
  using isName_chars(1) [OF assms(1)] isName_chars(1) [OF assms(2)] isName_chars(1) [OF assms(3)]
    hashSuffix_chars(1) [OF assms(4)]
  by (simp add: providerFile_def)

lemma name_version_unique:
  assumes eq: "n @ CHR ''_'' # v @ CHR ''_'' # r = n' @ CHR ''_'' # v' @ CHR ''_'' # r'"
    and dots: "CHR ''.'' \<in> set v" "CHR ''.'' \<in> set v'"
    and n: "CHR ''.'' \<notin> set n" "CHR ''.'' \<notin> set n'"
    and v: "CHR ''_'' \<notin> set v" "CHR ''_'' \<notin> set v'"
  shows "n = n' \<and> v = v'"
proof -
  obtain p q where pq: "v = p @ CHR ''.'' # q" "CHR ''.'' \<notin> set p"
    using dots(1) by (metis split_list_first)
  obtain p' q' where pq': "v' = p' @ CHR ''.'' # q'" "CHR ''.'' \<notin> set p'"
    using dots(2) by (metis split_list_first)
  have "(n @ CHR ''_'' # p) @ CHR ''.'' # (q @ CHR ''_'' # r) =
      (n' @ CHR ''_'' # p') @ CHR ''.'' # (q' @ CHR ''_'' # r')"
    using eq pq(1) pq'(1) by simp
  then have "n @ CHR ''_'' # p = n' @ CHR ''_'' # p'" "q @ CHR ''_'' # r = q' @ CHR ''_'' # r'"
    using n pq(2) pq'(2) by (subst (asm) first_sep_unique; simp)+
  then have "n = n' \<and> p = p'" "q = q'"
    using v pq(1) pq'(1) by (auto simp: last_sep_unique first_sep_unique)
  then show ?thesis using pq(1) pq'(1) by simp
qed

lemma providerFile_unique:
  assumes "isName n" "versionText v" "isName os" "isName arch" "hashSuffix h"
    and "isName n'" "versionText v'" "isName os'" "isName arch'" "hashSuffix h'"
    and dot: "CHR ''.'' \<in> set v'"
    and eq: "providerFile n v os arch h = providerFile n' v' os' arch' h'"
  shows "n = n' \<and> v = v'"
proof (rule name_version_unique)
  show "n @ CHR ''_'' # v @ CHR ''_'' # os @ ''_'' @ arch @ h @ ''.zip'' =
      n' @ CHR ''_'' # v' @ CHR ''_'' # os' @ ''_'' @ arch' @ h' @ ''.zip''"
    using eq unfolding providerFile_def same_append_eq by simp
  have "count_list v CHR ''.'' = count_list v' CHR ''.''"
    using eq assms providerFile_dots by (metis add_right_cancel)
  then show "CHR ''.'' \<in> set v" using dot by (metis count_list_0_iff)
qed (use assms isName_chars(1) versionText_chars(1) in blast)+

lemma checksumFile_unique:
  assumes v: "versionText v" "versionText v'" and e: "e = [] \<or> e = ''.sig''" "e' = [] \<or> e' = ''.sig''"
    and eq: "checksumFile n v e = checksumFile n' v' e'"
  shows "n = n' \<and> v = v'"
proof -
  have "last (checksumFile n v e) = last (checksumFile n' v' e')" using eq by simp
  then have "e = e'" using e by (auto simp: checksumFile_def)
  with eq have "n @ CHR ''_'' # v = n' @ CHR ''_'' # v'" by (simp add: checksumFile_def)
  then show ?thesis using versionText_chars(1) v by (simp add: last_sep_unique)
qed

lemma provider_not_checksum: "e = [] \<or> e = ''.sig'' \<Longrightarrow> checksumFile n v e \<noteq> providerFile n' v' os arch h"
proof
  assume e: "e = [] \<or> e = ''.sig''" and eq: "checksumFile n v e = providerFile n' v' os arch h"
  have "last (checksumFile n v e) = last (providerFile n' v' os arch h)" using eq by simp
  then show False using e by (auto simp: checksumFile_def providerFile_def)
qed

lemma find_providerFile:
  assumes "isName n" "validVersion v" "isName os" "isName arch" "hashSuffix h"
  shows "\<exists>os' arch'. findStringSubmatch providerFileRE (providerFile n v os arch h) = Some [n, v, os', arch'] \<and>
    isName os' \<and> isName arch'"
proof -
  let ?f = "providerFile n v os arch h"
  have "inLang providerFileRE ?f [n, v, os, arch]"
    using assms validVersion_text(1) by (auto simp: inLang_providerFile)
  then obtain c where c: "findStringSubmatch providerFileRE ?f = Some c"
    using findStringSubmatch_complete by blast
  then have "inLang providerFileRE ?f c" by (rule findStringSubmatch_sound)
  then obtain n' v' os' arch' h' where
    m: "c = [n', v', os', arch']" "?f = providerFile n' v' os' arch' h'"
    and p: "isName n'" "versionText v'" "isName os'" "isName arch'" "hashSuffix h'"
    by (auto simp: inLang_providerFile)
  have "n' = n \<and> v' = v"
    using providerFile_unique [OF p assms(1) validVersion_text(1) [OF assms(2)] assms(3,4,5)
      validVersion_text(2) [OF assms(2)]] m(2) by simp
  then show ?thesis using c m(1) p by simp
qed

lemma find_checksumFile:
  assumes "isName n" "validVersion v" "e = [] \<or> e = ''.sig''"
  shows "findStringSubmatch providerFileRE (checksumFile n v e) = None"
    and "findStringSubmatch checksumFileRE (checksumFile n v e) = Some [n, v]"
proof -
  let ?f = "checksumFile n v e"
  have "\<not> inLang providerFileRE ?f c" for c
    using provider_not_checksum [OF assms(3)] by (auto simp: inLang_providerFile)
  then show "findStringSubmatch providerFileRE ?f = None"
    using findStringSubmatch_sound by (metis option.exhaust)
  have "inLang checksumFileRE ?f [n, v]"
    using assms validVersion_text(1) by (auto simp: inLang_checksumFile)
  then obtain c where c: "findStringSubmatch checksumFileRE ?f = Some c"
    using findStringSubmatch_complete by blast
  then have "inLang checksumFileRE ?f c" by (rule findStringSubmatch_sound)
  then obtain n' v' e' where m: "c = [n', v']" "?f = checksumFile n' v' e'"
    and p: "versionText v'" "e' = [] \<or> e' = ''.sig''"
    unfolding inLang_checksumFile by blast
  have "n' = n \<and> v' = v"
    using checksumFile_unique [OF p(1) validVersion_text(1) [OF assms(2)] p(2) assms(3) m(2) [symmetric]] .
  then show "findStringSubmatch checksumFileRE ?f = Some [n, v]" using c m(1) by simp
qed

lemma publicArtifact_accepted:
  assumes "publicArtifact (splitAt CHR ''/'' (trimCh CHR ''/'' path))"
  shows "isPublicArtifactPath path"
  using assms
proof cases
  case (providerZip ns n v os arch h)
  then show ?thesis
    using find_providerFile [of n v os arch h]
    by (auto simp: isPublicArtifactPath_def Let_def validArtifactName_iff)
next
  case (checksums ns n v e)
  then show ?thesis
    using find_checksumFile [of n v e]
    by (auto simp: isPublicArtifactPath_def Let_def validArtifactName_iff)
next
  case (moduleTar ns n p v h)
  have "matchString moduleFileRE (moduleFile h)"
    using moduleTar(6) by (auto simp: matchString_iff inLang_moduleFile)
  with moduleTar show ?thesis
    by (simp add: isPublicArtifactPath_def Let_def validArtifactName_iff)
qed

lemma list_of_length5: "length xs = 5 \<Longrightarrow> xs = [xs!0, xs!1, xs!2, xs!3, xs!4]"
  by (auto simp: numeral_eq_Suc length_Suc_conv)

lemma list_of_length6: "length xs = 6 \<Longrightarrow> xs = [xs!0, xs!1, xs!2, xs!3, xs!4, xs!5]"
  by (auto simp: numeral_eq_Suc length_Suc_conv)

lemma accepted_publicArtifact:
  assumes "isPublicArtifactPath path"
  shows "publicArtifact (splitAt CHR ''/'' (trimCh CHR ''/'' path))"
proof -
  let ?ps = "splitAt CHR ''/'' (trimCh CHR ''/'' path)"
  show ?thesis
  proof (cases "length ?ps = 5 \<and> ?ps ! 0 = ''providers''")
    case True
    then have names: "isName (?ps ! 1)" "isName (?ps ! 2)" "validVersion (?ps ! 3)"
      using assms by (auto simp: isPublicArtifactPath_def Let_def validArtifactName_iff split: if_splits)
    have ps: "?ps = [''providers'', ?ps ! 1, ?ps ! 2, ?ps ! 3, ?ps ! 4]"
      using list_of_length5 True by metis
    show ?thesis
    proof (cases "findStringSubmatch providerFileRE (?ps ! 4)")
      case None
      then obtain c where c: "findStringSubmatch checksumFileRE (?ps ! 4) = Some c"
        "c ! 0 = ?ps ! 2" "c ! 1 = ?ps ! 3"
        using assms True names
        by (auto simp: isPublicArtifactPath_def Let_def validArtifactName_iff split: option.splits)
      from findStringSubmatch_sound [OF c(1)] show ?thesis
        using c(2,3) names publicArtifact.checksums by (subst ps) (auto simp: inLang_checksumFile)
    next
      case (Some c)
      then have c: "c ! 0 = ?ps ! 2" "c ! 1 = ?ps ! 3"
        using assms True names
        by (auto simp: isPublicArtifactPath_def Let_def validArtifactName_iff)
      from findStringSubmatch_sound [OF Some] show ?thesis
        using c names publicArtifact.providerZip by (subst ps) (auto simp: inLang_providerFile)
    qed
  next
    case False
    then have len: "length ?ps = 6" "?ps ! 0 = ''modules''" and tar: "matchString moduleFileRE (?ps ! 5)"
      and names: "isName (?ps ! 1)" "isName (?ps ! 2)" "isName (?ps ! 3)" "validVersion (?ps ! 4)"
      using assms by (auto simp: isPublicArtifactPath_def Let_def validArtifactName_iff split: if_splits)
    have ps: "?ps = [''modules'', ?ps ! 1, ?ps ! 2, ?ps ! 3, ?ps ! 4, ?ps ! 5]"
      using list_of_length6 len by metis
    show ?thesis
      using tar names publicArtifact.moduleTar
      by (subst ps) (auto simp: matchString_iff inLang_moduleFile)
  qed
qed

section \<open>Properties\<close>

text \<open>
  C22. The download allow list accepts a path exactly when its components are those of a published
  provider package, of the checksum file or signature of a provider version, or of a module package,
  with valid names and version that agree with the file name.
\<close>

theorem isPublicArtifactPath_allowlist:
  "isPublicArtifactPath path \<longleftrightarrow> publicArtifact (splitAt CHR ''/'' (trimCh CHR ''/'' path))"
  using accepted_publicArtifact publicArtifact_accepted by blast

end
