(* ===== verification/Paths.thy ===== *)
theory Paths
  imports Prelude
begin

text \<open>
  Lexical path handling: the functions of Go's \<^verbatim>\<open>path\<close> and \<^verbatim>\<open>path/filepath\<close> packages (on a Unix
  system, where the separator is the slash) that storage keys and archive entry names go through.
\<close>

section \<open>Clean and Base\<close>

text \<open>
  \<open>cleanGo rooted acc cs\<close> processes the components \<open>cs\<close> from the left; \<open>acc\<close> holds the components
  kept so far, the last one first.
\<close>

fun cleanGo :: "bool \<Rightarrow> string list \<Rightarrow> string list \<Rightarrow> string list" where
  "cleanGo rooted acc [] = rev acc"
| "cleanGo rooted acc (c # cs) =
     (if c = [] \<or> c = ''.'' then cleanGo rooted acc cs
      else if c = ''..'' then
        (case acc of
           [] \<Rightarrow> if rooted then cleanGo rooted [] cs else cleanGo rooted [c] cs
         | a # as \<Rightarrow> if a = ''..'' then cleanGo rooted (c # acc) cs else cleanGo rooted as cs)
      else cleanGo rooted (c # acc) cs)"

definition cleanComps :: "string \<Rightarrow> string list" where
  "cleanComps s = cleanGo (hasPrefix s ''/'') [] (splitAt CHR ''/'' s)"

text \<open>\<^verbatim>\<open>path.Clean\<close>.\<close>

definition pathClean :: "string \<Rightarrow> string" where
  "pathClean s =
     (if s = [] then ''.''
      else if hasPrefix s ''/'' then ''/'' @ joinWith ''/'' (cleanComps s)
      else if cleanComps s = [] then ''.''
      else joinWith ''/'' (cleanComps s))"

text \<open>\<^verbatim>\<open>path.Base\<close>.\<close>

definition pathBase :: "string \<Rightarrow> string" where
  "pathBase s =
     (if s = [] then ''.''
      else let t = trimRightCh CHR ''/'' s in
        if t = [] then ''/'' else last (splitAt CHR ''/'' t))"

section \<open>Walking a relative path\<close>

text \<open>
  The specification: \<open>staysInside d cs\<close> says that a walk that starts \<open>d\<close> levels below a directory
  and follows the components \<open>cs\<close> never leaves that directory.
\<close>

fun staysInside :: "nat \<Rightarrow> string list \<Rightarrow> bool" where
  "staysInside d [] \<longleftrightarrow> True"
| "staysInside d (c # cs) \<longleftrightarrow>
     (if c = [] \<or> c = ''.'' then staysInside d cs
      else if c = ''..'' then 0 < d \<and> staysInside (d - 1) cs
      else staysInside (Suc d) cs)"

lemma cleanGo_set:
  "set (cleanGo rooted acc cs) \<subseteq> set acc \<union> {c \<in> set cs. c \<noteq> [] \<and> c \<noteq> ''.''}"
proof (induction cs arbitrary: acc)
  case (Cons c cs)
  consider (skip) "c = [] \<or> c = ''.''" | (up) "c = ''..''" | (down) "c \<noteq> []" "c \<noteq> ''.''" "c \<noteq> ''..''"
    by blast
  then show ?case
  proof cases
    case skip
    then show ?thesis using Cons.IH [of acc] by auto
  next
    case up
    have "set (cleanGo rooted (c # acc) cs) \<subseteq> insert c (set acc) \<union> {c \<in> set cs. c \<noteq> [] \<and> c \<noteq> ''.''}"
      using Cons.IH [of "c # acc"] by simp
    moreover have "set (cleanGo rooted (tl acc) cs) \<subseteq> set acc \<union> {c \<in> set cs. c \<noteq> [] \<and> c \<noteq> ''.''}"
      using Cons.IH [of "tl acc"] by (cases acc) auto
    ultimately show ?thesis using up by (cases acc) (auto split: if_splits)
  next
    case down
    then show ?thesis using Cons.IH [of "c # acc"] by auto
  qed
qed simp

lemma cleanGo_inside:
  "staysInside (length acc) cs \<Longrightarrow> ''..'' \<notin> set acc \<Longrightarrow> ''..'' \<notin> set (cleanGo False acc cs)"
proof (induction cs arbitrary: acc)
  case (Cons c cs)
  consider (skip) "c = [] \<or> c = ''.''" | (up) "c = ''..''" | (down) "c \<noteq> []" "c \<noteq> ''.''" "c \<noteq> ''..''"
    by blast
  then show ?case
  proof cases
    case up
    then show ?thesis using Cons.prems Cons.IH [of "tl acc"] by (cases acc) auto
  next
    case down
    then show ?thesis using Cons.prems Cons.IH [of "c # acc"] by simp
  qed (use Cons in simp)
qed simp

lemma cleanGo_dotdot_kept:
  "acc \<noteq> [] \<Longrightarrow> last acc = ''..'' \<Longrightarrow> cleanGo False acc cs \<noteq> [] \<and> hd (cleanGo False acc cs) = ''..''"
proof (induction cs arbitrary: acc)
  case Nil
  then show ?case by (simp add: hd_rev)
next
  case (Cons c cs)
  consider (skip) "c = [] \<or> c = ''.''" | (up) "c = ''..''" | (down) "c \<noteq> []" "c \<noteq> ''.''" "c \<noteq> ''..''"
    by blast
  then show ?case
  proof cases
    case up
    obtain a as where acc: "acc = a # as" using Cons.prems(1) by (cases acc) auto
    show ?thesis
    proof (cases "a = ''..''")
      case True
      then show ?thesis using Cons.prems Cons.IH [of "c # acc"] up acc by simp
    next
      case False
      then show ?thesis using Cons.prems Cons.IH [of as] up acc by (simp split: if_splits)
    qed
  next
    case down
    then show ?thesis using Cons.prems Cons.IH [of "c # acc"] by simp
  qed (use Cons in simp)
qed

lemma cleanGo_outside:
  "\<not> staysInside (length acc) cs \<Longrightarrow> ''..'' \<notin> set acc \<Longrightarrow>
     cleanGo False acc cs \<noteq> [] \<and> hd (cleanGo False acc cs) = ''..''"
proof (induction cs arbitrary: acc)
  case (Cons c cs)
  consider (skip) "c = [] \<or> c = ''.''" | (up) "c = ''..''" | (down) "c \<noteq> []" "c \<noteq> ''.''" "c \<noteq> ''..''"
    by blast
  then show ?case
  proof cases
    case up
    then show ?thesis
      using Cons.prems Cons.IH [of "tl acc"] cleanGo_dotdot_kept [of "[''..'']" cs]
      by (cases acc) auto
  next
    case down
    then show ?thesis using Cons.prems Cons.IH [of "c # acc"] by simp
  qed (use Cons in simp)
qed simp

text \<open>The components of a cleaned path are proper: not empty, not a dot, without slashes.\<close>

lemma cleanComps_proper:
  "c \<in> set (cleanComps s) \<Longrightarrow> c \<noteq> [] \<and> c \<noteq> ''.'' \<and> CHR ''/'' \<notin> set c"
  using cleanGo_set [of "hasPrefix s ''/''" "[]" "splitAt CHR ''/'' s"] splitAt_parts
  by (fastforce simp: cleanComps_def)

lemma splitAt_pathClean:
  "\<not> hasPrefix s ''/'' \<Longrightarrow> cleanComps s \<noteq> [] \<Longrightarrow> splitAt CHR ''/'' (pathClean s) = cleanComps s"
proof -
  assume a: "\<not> hasPrefix s ''/''" "cleanComps s \<noteq> []"
  then have "s \<noteq> []" by (auto simp: cleanComps_def)
  with a have "pathClean s = joinWith ''/'' (cleanComps s)" by (simp add: pathClean_def)
  moreover have "splitAt CHR ''/'' (joinWith ''/'' (cleanComps s)) = cleanComps s"
    using a(2) cleanComps_proper by (intro splitAt_join) blast+
  ultimately show ?thesis by simp
qed

text \<open>The test that the code writes on the cleaned string.\<close>

definition escapes :: "string \<Rightarrow> bool" where
  "escapes clean \<longleftrightarrow> clean = ''..'' \<or> hasPrefix clean ''../''"

lemma escapes_split: "escapes p \<longleftrightarrow> hd (splitAt CHR ''/'' p) = ''..''"
proof -
  have "hd (splitAt CHR ''/'' p) = fst (cutAt CHR ''/'' p)"
    by (cases rule: cutAt_cases [of "CHR ''/''" p]) (auto simp: splitAt_no_sep splitAt_append)
  moreover have "fst (cutAt CHR ''/'' p) = ''..'' \<longleftrightarrow> escapes p"
  proof (cases rule: cutAt_cases [of "CHR ''/''" p])
    case (found b a)
    have "escapes (b @ CHR ''/'' # a) \<longleftrightarrow> (\<exists>r. b @ CHR ''/'' # a = ''..'' @ CHR ''/'' # r)"
      unfolding escapes_def hasPrefix_iff_prefix prefix_def
      by (auto simp: append_eq_Cons_conv)
    also have "\<dots> \<longleftrightarrow> b = ''..''"
      using found(1) by (subst first_sep_unique) auto
    finally show ?thesis using found by simp
  next
    case missing
    then show ?thesis
      by (auto simp: escapes_def hasPrefix_iff_prefix prefix_def)
  qed
  ultimately show ?thesis by simp
qed

lemma escapes_clean_iff:
  assumes "s \<noteq> []" "\<not> hasPrefix s ''/''"
  shows "escapes (pathClean s) \<longleftrightarrow> \<not> staysInside 0 (splitAt CHR ''/'' s)"
proof (cases "cleanComps s = []")
  case True
  then have "staysInside 0 (splitAt CHR ''/'' s)"
    using cleanGo_outside [of "[]" "splitAt CHR ''/'' s"] assms(2) by (auto simp: cleanComps_def)
  then show ?thesis using True assms by (simp add: pathClean_def escapes_def hasPrefix_def)
next
  case False
  then have "escapes (pathClean s) \<longleftrightarrow> hd (cleanComps s) = ''..''"
    using splitAt_pathClean assms(2) by (simp add: escapes_split)
  also have "\<dots> \<longleftrightarrow> \<not> staysInside 0 (splitAt CHR ''/'' s)"
    using cleanGo_outside [of "[]" "splitAt CHR ''/'' s"] cleanGo_inside [of "[]" "splitAt CHR ''/'' s"]
      hd_in_set [OF False] assms(2)
    unfolding cleanComps_def by (metis (full_types) empty_iff list.set(1) list.size(3))
  finally show ?thesis .
qed

end
