(* ===== verification/Archive.thy ===== *)
theory Archive
  imports Validation Paths
begin

unbundle bit_operations_syntax

text \<open>
  \<^verbatim>\<open>registry-server/archive_validation.go\<close>: the checks an uploaded provider ZIP or module tarball
  passes before it is published.

  The decoders of \<^verbatim>\<open>archive/zip\<close>, \<^verbatim>\<open>archive/tar\<close> and \<^verbatim>\<open>compress/gzip\<close> enter as what the code reads
  from them: the entries with their headers, and for each entry what reading its data to the end
  returns.  \<^verbatim>\<open>int64\<close> and \<^verbatim>\<open>uint64\<close> values are 64-bit words, read as signed (\<^const>\<open>sint\<close>) or unsigned
  (\<^const>\<open>unat\<close>) where the source compares them so.
\<close>

section \<open>Archive entries\<close>

text \<open>A ZIP entry: name, \<^verbatim>\<open>os.FileMode\<close> bits, declared size, and the results of \<^verbatim>\<open>Open\<close>, \<^verbatim>\<open>io.Copy\<close> and \<^verbatim>\<open>Close\<close>.\<close>

record zipEntry =
  zName :: string
  zMode :: "32 word"
  zUncompressedSize64 :: "64 word"
  zOpen :: "error option"
  zCopy :: "64 word \<times> error option"
  zClose :: "error option"

text \<open>A tar entry: name, type flag, declared size, and the result of copying its data.\<close>

record tarEntry =
  tName :: string
  tTypeflag :: char
  tSize :: "64 word"
  tCopy :: "64 word \<times> error option"

text \<open>
  A module tarball as the code reads it: the outcome of \<^verbatim>\<open>gzip.NewReader\<close>, the entries, how the
  sequence of \<^verbatim>\<open>Next\<close> calls ends (\<open>None\<close> is \<^verbatim>\<open>io.EOF\<close>), and the outcomes of draining and closing the
  gzip stream.
\<close>

record tarball =
  gzOpen :: "error option"
  tarEntries :: "tarEntry list"
  tarEnd :: "error option"
  gzTrailer :: "error option"
  gzClose :: "error option"

text \<open>The mode bits of \<^verbatim>\<open>os.FileMode\<close>.\<close>

definition modeDir :: "32 word" where "modeDir = push_bit 31 1"
definition modeSymlink :: "32 word" where "modeSymlink = push_bit 27 1"
definition modeType :: "32 word" where
  "modeType = modeDir OR modeSymlink OR push_bit 26 1 OR push_bit 25 1 OR push_bit 24 1 OR
     push_bit 21 1 OR push_bit 19 1"

definition modeIsDir :: "32 word \<Rightarrow> bool" where "modeIsDir m \<longleftrightarrow> m AND modeDir \<noteq> 0"
definition modeIsRegular :: "32 word \<Rightarrow> bool" where "modeIsRegular m \<longleftrightarrow> m AND modeType = 0"

section \<open>Operations\<close>

definition archivePathSafe :: "string \<Rightarrow> bool" where
  "archivePathSafe name =
     (if name = [] \<or> CHR 0x5C \<in> set name \<or> hasPrefix name ''/'' then False
      else let clean = pathClean name in
        if clean = ''.'' then name = ''.'' \<or> name = ''./''
        else clean \<noteq> ''..'' \<and> \<not> hasPrefix clean ''../'')"

definition expandedArchiveLimit :: "64 word \<Rightarrow> 64 word" where
  "expandedArchiveLimit uploadLimit =
     (let maxExpanded = push_bit 30 20 in
      if sint uploadLimit \<le> 0 \<or> sint uploadLimit > sint maxExpanded div 20 then maxExpanded
      else uploadLimit * 20)"

definition providerBinaryNameMatches :: "string \<Rightarrow> string \<Rightarrow> bool" where
  "providerBinaryNameMatches base0 prfx =
     (let base = trimSuffix base0 ''.exe'' in
      if base = prfx then True
      else (case cutPrefix base (prfx @ ''_v'') of (version, found) \<Rightarrow>
        if \<not> found then False
        else (case cutStr ''_x'' version of (versionOnly, protocol, hasProtocol) \<Rightarrow>
          if hasProtocol then
            (if protocol = [] then False
             else if \<not> list_all isDigit protocol then False
             else validVersion versionOnly)
          else validVersion version)))"

text \<open>The loop of \<^verbatim>\<open>validateProviderArchive\<close>; \<open>Inr foundBinary\<close> when every entry passes.\<close>

fun validateZipEntries ::
  "string \<Rightarrow> 64 word \<Rightarrow> 64 word \<Rightarrow> bool \<Rightarrow> zipEntry list \<Rightarrow> bool result" where
  "validateZipEntries binaryPrefix limit expanded foundBinary [] = Inr foundBinary"
| "validateZipEntries binaryPrefix limit expanded foundBinary (entry # entries) =
     (if \<not> archivePathSafe (zName entry) then
        Inl (Errorf ''invalid provider ZIP: unsafe path %q'' [zName entry])
      else if zMode entry AND modeSymlink \<noteq> 0 \<or> (\<not> modeIsRegular (zMode entry) \<and> \<not> modeIsDir (zMode entry)) then
        Inl (Errorf ''invalid provider ZIP: unsupported entry %q'' [zName entry])
      else if modeIsDir (zMode entry) then
        validateZipEntries binaryPrefix limit expanded foundBinary entries
      else if zUncompressedSize64 entry > limit - expanded then
        Inl (Errorf ''invalid provider ZIP: expanded size exceeds %d bytes'' [showInt (sint limit)])
      else
        let expanded' = expanded + zUncompressedSize64 entry in
        (case zOpen entry of
           Some err \<Rightarrow> Inl (Wrapf ''invalid provider ZIP entry %q: %w'' [zName entry] err)
         | None \<Rightarrow>
           (case zCopy entry of (written, copyErr) \<Rightarrow>
             (case copyErr of
                Some err \<Rightarrow> Inl (Wrapf ''invalid provider ZIP entry %q: %w'' [zName entry] err)
              | None \<Rightarrow>
                (case zClose entry of
                   Some err \<Rightarrow> Inl (Wrapf ''invalid provider ZIP entry %q: %w'' [zName entry] err)
                 | None \<Rightarrow>
                   if written \<noteq> zUncompressedSize64 entry then
                     Inl (Errorf ''invalid provider ZIP entry %q: unexpected expanded size'' [zName entry])
                   else
                     validateZipEntries binaryPrefix limit expanded'
                       (foundBinary \<or> providerBinaryNameMatches (pathBase (zName entry)) binaryPrefix)
                       entries)))))"

definition validateProviderArchive ::
  "(bytes \<Rightarrow> zipEntry list result) \<Rightarrow> bytes \<Rightarrow> string \<Rightarrow> 64 word \<Rightarrow> error option" where
  "validateProviderArchive zipNewReader content providerName uploadLimit =
     (case zipNewReader content of
        Inl err \<Rightarrow> Some (Wrapf ''invalid provider ZIP: %w'' [] err)
      | Inr zrFile \<Rightarrow>
        let binaryPrefix = ''terraform-provider-'' @ providerName;
            limit = expandedArchiveLimit uploadLimit in
        (case validateZipEntries binaryPrefix limit 0 False zrFile of
           Inl err \<Rightarrow> Some err
         | Inr foundBinary \<Rightarrow>
             if \<not> foundBinary then Some (Errorf ''invalid provider ZIP: missing %s binary'' [binaryPrefix])
             else None))"

definition typeReg :: char where "typeReg = CHR ''0''"
definition typeDir :: char where "typeDir = CHR ''5''"

text \<open>The loop of \<^verbatim>\<open>validateModuleArchive\<close>; \<open>Inr foundConfig\<close> when the archive ends normally.\<close>

fun validateTarEntries ::
  "64 word \<Rightarrow> 64 word \<Rightarrow> bool \<Rightarrow> tarEntry list \<Rightarrow> error option \<Rightarrow> bool result" where
  "validateTarEntries uploadLimit remaining foundConfig [] ending =
     (case ending of
        None \<Rightarrow> Inr foundConfig
      | Some err \<Rightarrow> Inl (Wrapf ''invalid module tar.gz: %w'' [] err))"
| "validateTarEntries uploadLimit remaining foundConfig (header # headers) ending =
     (if \<not> archivePathSafe (tName header) then
        Inl (Errorf ''invalid module tar.gz: unsafe path %q'' [tName header])
      else if tTypeflag header = typeDir then
        validateTarEntries uploadLimit remaining foundConfig headers ending
      else if tTypeflag header \<noteq> typeReg then
        Inl (Errorf ''invalid module tar.gz: links and special entries are not allowed: %q'' [tName header])
      else if sint (tSize header) < 0 \<or> sint (tSize header) > sint remaining then
        Inl (Errorf ''invalid module tar.gz: expanded size exceeds %d bytes''
               [showInt (sint (expandedArchiveLimit uploadLimit))])
      else (case tCopy header of (written, err) \<Rightarrow>
        if err \<noteq> None \<or> written \<noteq> tSize header then
          Inl (Wrapf ''invalid module tar.gz entry %q: %w'' [tName header]
                 (case err of None \<Rightarrow> ErrUnexpectedEOF | Some e \<Rightarrow> e))
        else
          let base = pathBase (tName header) in
          validateTarEntries uploadLimit (remaining - written)
            (foundConfig \<or> hasSuffix base ''.tf'' \<or> hasSuffix base ''.tf.json'') headers ending))"

definition validateModuleArchive ::
  "(bytes \<Rightarrow> tarball) \<Rightarrow> bytes \<Rightarrow> 64 word \<Rightarrow> error option" where
  "validateModuleArchive openTarGz content uploadLimit =
     (let tb = openTarGz content in
      case gzOpen tb of
        Some err \<Rightarrow> Some (Wrapf ''invalid module tar.gz: %w'' [] err)
      | None \<Rightarrow>
        (case validateTarEntries uploadLimit (expandedArchiveLimit uploadLimit) False (tarEntries tb) (tarEnd tb) of
           Inl err \<Rightarrow> Some err
         | Inr foundConfig \<Rightarrow>
           (case gzTrailer tb of
              Some err \<Rightarrow> Some (Wrapf ''invalid module tar.gz trailer: %w'' [] err)
            | None \<Rightarrow>
              (case gzClose tb of
                 Some err \<Rightarrow> Some (Wrapf ''invalid module tar.gz: %w'' [] err)
               | None \<Rightarrow>
                 if \<not> foundConfig
                 then Some (Errorf ''invalid module tar.gz: no Terraform configuration files'' [])
                 else None))))"

section \<open>The expansion limit\<close>

lemma maxExpanded_value: "push_bit 30 20 = (21474836480 :: 64 word)"
  by (simp add: push_bit_eq_mult)

lemma expandedArchiveLimit_cases:
  "unat (expandedArchiveLimit u) =
     (if 0 < sint u \<and> sint u \<le> 1073741824 then 20 * nat (sint u) else 21474836480)"
proof (cases "0 < sint u \<and> sint u \<le> 1073741824")
  case True
  then have u: "uint u = sint u" by (subst uint_sint) (simp add: take_bit_int_eq_self)
  have "unat u = nat (sint u)" using u by (metis unat_eq_nat_uint)
  moreover have "unat (u * 20) = unat u * 20"
    using True calculation by (subst unat_mult_lem [THEN iffD1]) auto
  ultimately show ?thesis using True by (simp add: expandedArchiveLimit_def maxExpanded_value)
next
  case False
  then show ?thesis by (auto simp: expandedArchiveLimit_def maxExpanded_value)
qed

lemma expandedArchiveLimit_bound: "unat (expandedArchiveLimit u) \<le> 20 * 2 ^ 30"
  by (auto simp: expandedArchiveLimit_cases)

lemma sint_cases:
  fixes w :: "64 word"
  shows "sint w = (if unat w < 2 ^ 63 then int (unat w) else int (unat w) - 2 ^ 64)"
proof -
  have "int (unat w) < 2 ^ 64" using unsigned_less [of w] by simp
  moreover have "sint w = (int (unat w) + 2 ^ 63) mod 2 ^ 64 - 2 ^ 63"
    by (simp add: sint_uint signed_take_bit_eq_take_bit_shift take_bit_eq_mod)
  moreover have "(u + 2 ^ 63) mod 2 ^ 64 = (if u < 2 ^ 63 then u + 2 ^ 63 else u - 2 ^ 63)"
    if "0 \<le> u" "u < 2 ^ 64" for u :: int
  proof (cases "u < 2 ^ 63")
    case False
    then have "(u - 2 ^ 63) mod 2 ^ 64 = u - 2 ^ 63" using that by (intro mod_pos_pos_trivial) simp_all
    moreover have "(u + 2 ^ 63) mod 2 ^ 64 = (u - 2 ^ 63) mod (2 ^ 64 :: int)"
      using mod_add_self2 [of "u - 2 ^ 63" "2 ^ 64 :: int"] by (simp add: add.commute)
    ultimately show ?thesis using False by simp
  qed (use that in simp)
  ultimately have "sint w = (if int (unat w) < 2 ^ 63 then int (unat w) + 2 ^ 63 else int (unat w) - 2 ^ 63) - 2 ^ 63"
    by (simp only: of_nat_0_le_iff)
  then show ?thesis by (simp only: of_nat_less_numeral_power_cancel_iff split: if_split) simp
qed

lemma sint_small: "unat (w :: 64 word) < 2 ^ 63 \<Longrightarrow> sint w = int (unat w)"
  by (subst sint_cases) simp

lemma sint_large: "\<not> unat (w :: 64 word) < 2 ^ 63 \<Longrightarrow> sint w < 0"
  using unsigned_less [of w] by (subst sint_cases) simp

lemma unat_lt_power: "unat (c :: 'a::len word) < 2 ^ LENGTH('a)"
  by (rule unsigned_less)

lemma unat_add_le_limit:
  fixes a b c :: "64 word"
  assumes "unat a + unat b \<le> unat c"
  shows "unat (a + b) = unat a + unat b"
  using assms unat_lt_power by (intro unat_add_lem [THEN iffD1]) (rule le_less_trans)

section \<open>Entry names\<close>

text \<open>
  The specification of a safe entry name: relative, written with slashes only, and the walk along
  its components from the extraction directory never goes above it.  A name that denotes the
  extraction directory itself is accepted in its two plain spellings.
\<close>

definition safeEntryName :: "string \<Rightarrow> bool" where
  "safeEntryName name \<longleftrightarrow>
     name \<noteq> [] \<and> hd name \<noteq> CHR ''/'' \<and> CHR 0x5C \<notin> set name \<and>
     staysInside 0 (splitAt CHR ''/'' name) \<and>
     (cleanComps name = [] \<longrightarrow> name \<in> {''.'', ''./''})"

lemma hasPrefix_slash: "name \<noteq> [] \<Longrightarrow> hasPrefix name ''/'' \<longleftrightarrow> hd name = CHR ''/''"
  by (cases name) (auto simp: hasPrefix_def)

lemma pathClean_dot_iff:
  assumes "name \<noteq> []" "\<not> hasPrefix name ''/''"
  shows "pathClean name = ''.'' \<longleftrightarrow> cleanComps name = []"
proof
  assume dot: "pathClean name = ''.''"
  show "cleanComps name = []"
  proof (rule ccontr)
    assume ne: "cleanComps name \<noteq> []"
    then have "cleanComps name = [''.'']"
      using splitAt_pathClean [OF assms(2) ne] dot by simp
    then show False using cleanComps_proper [of "''.''" name] by simp
  qed
qed (use assms in \<open>simp add: pathClean_def\<close>)

lemma archivePathSafe_iff: "archivePathSafe name \<longleftrightarrow> safeEntryName name"
proof (cases "name = [] \<or> CHR 0x5C \<in> set name \<or> hasPrefix name ''/''")
  case True
  then show ?thesis
    unfolding archivePathSafe_def safeEntryName_def using hasPrefix_slash by auto
next
  case False
  then have ne: "name \<noteq> []" and rel: "\<not> hasPrefix name ''/''" by auto
  have "archivePathSafe name \<longleftrightarrow>
      (if pathClean name = ''.'' then name = ''.'' \<or> name = ''./'' else \<not> escapes (pathClean name))"
    using False by (simp add: archivePathSafe_def Let_def escapes_def)
  also have "\<dots> \<longleftrightarrow> safeEntryName name"
    using False ne hasPrefix_slash [OF ne] pathClean_dot_iff [OF ne rel] escapes_clean_iff [OF ne rel]
    by (auto simp: safeEntryName_def escapes_def hasPrefix_def)
  finally show ?thesis .
qed

section \<open>Accepted archives\<close>

text \<open>
  The specification of an accepted ZIP entry, with its mode bits spelled out: a directory or a
  regular file, and a regular file's data reads completely, with the declared length.
\<close>

definition zipEntryOk :: "zipEntry \<Rightarrow> bool" where
  "zipEntryOk e \<longleftrightarrow>
     safeEntryName (zName e) \<and> \<not> bit (zMode e) 27 \<and>
     (bit (zMode e) 31 \<or>
       (\<forall>n \<in> {19, 21, 24, 25, 26}. \<not> bit (zMode e) n) \<and>
       zOpen e = None \<and> zCopy e = (zUncompressedSize64 e, None) \<and> zClose e = None)"

definition zipFiles :: "zipEntry list \<Rightarrow> zipEntry list" where
  "zipFiles es = filter (\<lambda>e. \<not> bit (zMode e) 31) es"

definition tarEntryOk :: "tarEntry \<Rightarrow> bool" where
  "tarEntryOk e \<longleftrightarrow>
     safeEntryName (tName e) \<and>
     (tTypeflag e = typeDir \<or> tTypeflag e = typeReg \<and> tCopy e = (tSize e, None))"

definition tarFiles :: "tarEntry list \<Rightarrow> tarEntry list" where
  "tarFiles es = filter (\<lambda>e. tTypeflag e = typeReg) es"

lemma and_or_zero:
  "m AND (a OR b) = 0 \<longleftrightarrow> m AND a = 0 \<and> m AND (b :: 'a::len word) = 0"
  by (metis bit.conj_disj_distrib bit.disj_zero_right or_eq_0_iff)

lemma mode_bits:
  "m AND modeSymlink \<noteq> 0 \<longleftrightarrow> bit m 27"
  "modeIsDir m \<longleftrightarrow> bit m 31"
  "modeIsRegular m \<longleftrightarrow> (\<forall>n \<in> {19, 21, 24, 25, 26, 27, 31}. \<not> bit m n)"
proof -
  have mask: "m AND push_bit n 1 = 0 \<longleftrightarrow> \<not> bit m n" if "n < 32" for n
  proof -
    have "bit (m AND push_bit n 1) k \<longleftrightarrow> k = n \<and> bit m n" for k
      using that by (auto simp: bit_and_iff bit_exp_iff)
    moreover have "m AND push_bit n 1 = 0 \<longleftrightarrow> (\<forall>k. \<not> bit (m AND push_bit n 1) k)"
      by (metis bit_0_eq bit_eqI bot_apply bot_bool_def)
    ultimately show ?thesis by blast
  qed
  show "m AND modeSymlink \<noteq> 0 \<longleftrightarrow> bit m 27" using mask [of 27] by (simp add: modeSymlink_def)
  show "modeIsDir m \<longleftrightarrow> bit m 31" using mask [of 31] by (simp add: modeIsDir_def modeDir_def)
  have "modeIsRegular m \<longleftrightarrow> (\<forall>n \<in> {31, 27, 26, 25, 24, 21, 19}. m AND push_bit n 1 = 0)"
    unfolding modeIsRegular_def modeType_def modeDir_def modeSymlink_def and_or_zero by blast
  also have "\<dots> \<longleftrightarrow> (\<forall>n \<in> {31, 27, 26, 25, 24, 21, 19}. \<not> bit m n)"
    by (intro ball_cong refl mask) auto
  finally show "modeIsRegular m \<longleftrightarrow> (\<forall>n \<in> {19, 21, 24, 25, 26, 27, 31}. \<not> bit m n)" by auto
qed

lemma zipEntryOk_iff:
  "zipEntryOk e \<longleftrightarrow>
     archivePathSafe (zName e) \<and>
     \<not> (zMode e AND modeSymlink \<noteq> 0 \<or> (\<not> modeIsRegular (zMode e) \<and> \<not> modeIsDir (zMode e))) \<and>
     (modeIsDir (zMode e) \<or>
        zOpen e = None \<and> zCopy e = (zUncompressedSize64 e, None) \<and> zClose e = None)"
  by (auto simp: zipEntryOk_def archivePathSafe_iff mode_bits)

lemma validateZipEntries_iff:
  assumes "unat expanded \<le> unat limit"
  shows "validateZipEntries prfx limit expanded found es = Inr r \<longleftrightarrow>
     list_all zipEntryOk es \<and>
     unat expanded + (\<Sum>e\<leftarrow>zipFiles es. unat (zUncompressedSize64 e)) \<le> unat limit \<and>
     r = (found \<or> (\<exists>e \<in> set (zipFiles es). providerBinaryNameMatches (pathBase (zName e)) prfx))"
  using assms
proof (induction es arbitrary: expanded found)
  case Nil
  then show ?case by (auto simp: zipFiles_def)
next
  case (Cons e es)
  show ?case
  proof (cases "zipEntryOk e \<and> \<not> modeIsDir (zMode e)")
    case False
    then show ?thesis
      using Cons by (auto simp: zipEntryOk_iff zipFiles_def mode_bits(2) split: option.splits prod.splits if_splits)
  next
    case ok: True
    show ?thesis
    proof (cases "zUncompressedSize64 e > limit - expanded")
      case True
      then have "unat expanded + unat (zUncompressedSize64 e) > unat limit"
        using Cons.prems by (simp add: word_less_nat_alt unat_sub word_le_nat_alt)
      then show ?thesis using ok True by (auto simp: zipEntryOk_iff zipFiles_def mode_bits(2))
    next
      case fits: False
      then have le: "unat expanded + unat (zUncompressedSize64 e) \<le> unat limit"
        using Cons.prems by (simp add: word_less_nat_alt unat_sub word_le_nat_alt)
      have reads: "zOpen e = None" "zCopy e = (zUncompressedSize64 e, None)" "zClose e = None"
        using ok by (auto simp: zipEntryOk_iff)
      have step: "validateZipEntries prfx limit expanded found (e # es) =
          validateZipEntries prfx limit (expanded + zUncompressedSize64 e)
            (found \<or> providerBinaryNameMatches (pathBase (zName e)) prfx) es"
        using ok fits reads by (auto simp: zipEntryOk_iff)
      have files: "zipFiles (e # es) = e # zipFiles es"
        using ok by (simp add: zipFiles_def mode_bits(2))
      show ?thesis
        using ok le unat_add_le_limit [OF le] unfolding step files by (simp add: Cons.IH add.assoc disj_assoc)
    qed
  qed
qed

lemma validateTarEntries_iff:
  assumes "unat remaining < 2 ^ 63"
  shows "validateTarEntries u remaining found es ending = Inr r \<longleftrightarrow>
     ending = None \<and> list_all tarEntryOk es \<and>
     (\<Sum>e\<leftarrow>tarFiles es. unat (tSize e)) \<le> unat remaining \<and>
     r = (found \<or> (\<exists>e \<in> set (tarFiles es). hasSuffix (pathBase (tName e)) ''.tf'' \<or>
                                            hasSuffix (pathBase (tName e)) ''.tf.json''))"
  using assms
proof (induction es arbitrary: remaining found)
  case Nil
  then show ?case by (auto simp: tarFiles_def split: option.splits)
next
  case (Cons e es)
  have types: "typeDir \<noteq> typeReg" by (simp add: typeDir_def typeReg_def)
  show ?case
  proof (cases "tarEntryOk e \<and> tTypeflag e = typeReg")
    case False
    then show ?thesis
      using Cons types
      by (auto simp: tarEntryOk_def archivePathSafe_iff tarFiles_def split: option.splits prod.splits if_splits)
  next
    case ok: True
    have copy: "tCopy e = (tSize e, None)" using ok types by (auto simp: tarEntryOk_def)
    have files: "tarFiles (e # es) = e # tarFiles es" using ok by (simp add: tarFiles_def)
    have size: "(sint (tSize e) < 0 \<or> sint (tSize e) > sint remaining) \<longleftrightarrow> unat remaining < unat (tSize e)"
      using Cons.prems sint_small [of remaining] sint_small [of "tSize e"] sint_large [of "tSize e"]
      by (cases "unat (tSize e) < 2 ^ 63") (simp_all only: of_nat_less_iff, simp_all)
    show ?thesis
    proof (cases "unat (tSize e) \<le> unat remaining")
      case True
      then have "unat (remaining - tSize e) = unat remaining - unat (tSize e)"
        by (simp add: unat_sub word_le_nat_alt)
      moreover have "validateTarEntries u remaining found (e # es) ending =
          validateTarEntries u (remaining - tSize e)
            (found \<or> hasSuffix (pathBase (tName e)) ''.tf'' \<or> hasSuffix (pathBase (tName e)) ''.tf.json'') es ending"
        using ok types True size copy by (simp add: tarEntryOk_def archivePathSafe_iff Let_def)
      ultimately show ?thesis
        using ok True Cons.prems by (simp add: files Cons.IH disj_assoc le_diff_conv2 add.commute)
    next
      case False
      then show ?thesis using ok types size by (auto simp: tarEntryOk_def archivePathSafe_iff tarFiles_def)
    qed
  qed
qed

section \<open>Binary names\<close>

text \<open>
  The specification of the base name of a provider binary, without its \<^verbatim>\<open>.exe\<close>: the plain name, or
  the name with a semantic version and, at most, a protocol number.
\<close>

definition providerBinary :: "string \<Rightarrow> string \<Rightarrow> bool" where
  "providerBinary prfx b \<longleftrightarrow>
     b = prfx \<or>
     (\<exists>v. validVersion v \<and> b = prfx @ ''_v'' @ v) \<or>
     (\<exists>v x. validVersion v \<and> x \<noteq> [] \<and> list_all isDigit x \<and> b = prfx @ ''_v'' @ v @ ''_x'' @ x)"

lemma cutStr_found: "cutStr p s = (b, a, True) \<Longrightarrow> s = b @ p @ a"
proof (induction s arbitrary: b)
  case Nil
  then show ?case by (simp split: if_splits)
next
  case (Cons c s)
  then show ?case
    by (auto simp: hasPrefix_iff_prefix prefix_def split: if_splits prod.splits)
qed

lemma cutStr_missing: "cutStr p s = (b, a, False) \<Longrightarrow> b = s \<and> (\<nexists>u w. s = u @ p @ w)"
proof (induction s arbitrary: b)
  case Nil
  then show ?case by (simp split: if_splits)
next
  case (Cons c s)
  from Cons.prems obtain b' where b': "\<not> hasPrefix (c # s) p" "cutStr p s = (b', a, False)" "b = c # b'"
    by (auto split: if_splits prod.splits)
  with Cons.IH have ih: "b' = s" "\<nexists>u w. s = u @ p @ w" by auto
  have "\<nexists>u w. c # s = u @ p @ w"
  proof
    assume "\<exists>u w. c # s = u @ p @ w"
    then obtain u w where "c # s = u @ p @ w" by blast
    then show False using b'(1) ih(2) by (cases u) (auto simp: hasPrefix_iff_prefix)
  qed
  then show ?case using ih b' by simp
qed

lemma cutStr_first:
  assumes "hd p \<notin> set b" "p \<noteq> []"
  shows "cutStr p (b @ p @ a) = (b, a, True)"
  using assms
proof (induction b)
  case Nil
  then show ?case by (cases p) (auto simp: hasPrefix_def)
next
  case (Cons c b)
  then have "\<not> hasPrefix (c # b @ p @ a) p" by (cases p) (auto simp: hasPrefix_def)
  with Cons show ?case by simp
qed

lemma providerBinaryNameMatches_iff:
  "providerBinaryNameMatches base prfx \<longleftrightarrow> providerBinary prfx (trimSuffix base ''.exe'')"
proof -
  define b where "b = trimSuffix base ''.exe''"
  have valid: "CHR ''_'' \<notin> set v" if "validVersion v" for v
    using validVersion_text(1) [OF that] versionText_chars by blast
  define tagged where "tagged v \<longleftrightarrow> validVersion v \<or> (\<exists>w x. validVersion w \<and> x \<noteq> [] \<and> list_all isDigit x \<and> v = w @ ''_x'' @ x)" for v
  have loop: "(case cutStr ''_x'' v of (w, x, found) \<Rightarrow>
        if found then (if x = [] then False else if \<not> list_all isDigit x then False else validVersion w)
        else validVersion v) \<longleftrightarrow> tagged v" for v
  proof (cases "cutStr ''_x'' v")
    case (fields w x found)
    show ?thesis
    proof (cases found)
      case True
      then have v: "v = w @ ''_x'' @ x" using cutStr_found [of "''_x''" v w x] fields by simp
      then have "\<not> validVersion v" using valid [of v] by auto
      moreover have "w' = w \<and> x' = x" if "validVersion w'" "v = w' @ ''_x'' @ x'" for w' x'
        using cutStr_first [of "''_x''" w' x'] valid [OF that(1)] that(2) fields by simp
      ultimately show ?thesis using fields True v unfolding tagged_def by auto
    next
      case False
      then show ?thesis using cutStr_missing [of "''_x''" v w x] fields by (auto simp: tagged_def)
    qed
  qed
  have "providerBinaryNameMatches base prfx \<longleftrightarrow> b = prfx \<or> (\<exists>v. b = prfx @ ''_v'' @ v \<and> tagged v)"
    unfolding providerBinaryNameMatches_def b_def [symmetric] Let_def loop cutPrefix_def
    by (auto simp: hasPrefix_iff_prefix prefix_def)
  also have "\<dots> \<longleftrightarrow> providerBinary prfx b" by (auto simp: providerBinary_def tagged_def)
  finally show ?thesis by (simp add: b_def)
qed

section \<open>Properties\<close>

text \<open>
  C9. A provider upload passes \<^verbatim>\<open>validateProviderArchive\<close> exactly when the ZIP directory is readable,
  every entry has a safe name and is a directory or a regular file (no symbolic link, no special
  file) whose data reads to the end with the declared length, the true sum of the declared sizes
  stays within the expansion limit (so none of the 64-bit conversions and additions of the loop wraps
  around), and some file is named as the provider's binary.
\<close>

theorem validateProviderArchive_accepts:
  "validateProviderArchive zipNewReader content providerName uploadLimit = None \<longleftrightarrow>
     (\<exists>es. zipNewReader content = Inr es \<and> list_all zipEntryOk es \<and>
        (\<Sum>e\<leftarrow>zipFiles es. unat (zUncompressedSize64 e)) \<le> unat (expandedArchiveLimit uploadLimit) \<and>
        (\<exists>e \<in> set (zipFiles es). providerBinary (''terraform-provider-'' @ providerName)
                                (trimSuffix (pathBase (zName e)) ''.exe'')))"
proof (cases "zipNewReader content")
  case (Inl err)
  then show ?thesis by (simp add: validateProviderArchive_def)
next
  case (Inr es)
  define prfx where "prfx = ''terraform-provider-'' @ providerName"
  have "validateProviderArchive zipNewReader content providerName uploadLimit = None \<longleftrightarrow>
      validateZipEntries prfx (expandedArchiveLimit uploadLimit) 0 False es = Inr True"
    unfolding validateProviderArchive_def prfx_def [symmetric] Let_def Inr by (simp split: sum.split)
  also have "\<dots> \<longleftrightarrow> list_all zipEntryOk es \<and>
      (\<Sum>e\<leftarrow>zipFiles es. unat (zUncompressedSize64 e)) \<le> unat (expandedArchiveLimit uploadLimit) \<and>
      (\<exists>e \<in> set (zipFiles es). providerBinary prfx (trimSuffix (pathBase (zName e)) ''.exe''))"
    by (subst validateZipEntries_iff) (simp_all add: providerBinaryNameMatches_iff)
  finally show ?thesis unfolding prfx_def by (simp add: Inr)
qed

lemma validateModuleArchive_iff:
  "validateModuleArchive openTarGz content uploadLimit = None \<longleftrightarrow>
     (let tb = openTarGz content in
        gzOpen tb = None \<and> tarEnd tb = None \<and> gzTrailer tb = None \<and> gzClose tb = None \<and>
        list_all tarEntryOk (tarEntries tb) \<and>
        (\<Sum>e\<leftarrow>tarFiles (tarEntries tb). unat (tSize e)) \<le> unat (expandedArchiveLimit uploadLimit) \<and>
        (\<exists>e \<in> set (tarFiles (tarEntries tb)).
           hasSuffix (pathBase (tName e)) ''.tf'' \<or> hasSuffix (pathBase (tName e)) ''.tf.json''))"
proof -
  define tb where "tb = openTarGz content"
  define res where "res = validateTarEntries uploadLimit (expandedArchiveLimit uploadLimit) False (tarEntries tb) (tarEnd tb)"
  have "validateModuleArchive openTarGz content uploadLimit = None \<longleftrightarrow>
      gzOpen tb = None \<and> res = Inr True \<and> gzTrailer tb = None \<and> gzClose tb = None"
    unfolding validateModuleArchive_def tb_def [symmetric] Let_def res_def [symmetric]
    by (simp split: option.split sum.split)
  moreover have "unat (expandedArchiveLimit uploadLimit) < 2 ^ 63"
    by (rule le_less_trans [OF expandedArchiveLimit_bound]) simp
  ultimately show ?thesis
    unfolding tb_def [symmetric] Let_def res_def by (simp add: validateTarEntries_iff conj_ac)
qed

text \<open>
  C10. A module upload passes \<^verbatim>\<open>validateModuleArchive\<close> exactly when the gzip and tar streams read
  completely, every entry has a safe name and is a directory or a regular file whose data has the
  declared length, the sum of the declared sizes (none of them negative) stays within the expansion
  limit, and some file is a Terraform configuration.
\<close>

theorem validateModuleArchive_accepts:
  "validateModuleArchive openTarGz content uploadLimit = None \<longleftrightarrow>
     (let tb = openTarGz content in
        gzOpen tb = None \<and> tarEnd tb = None \<and> gzTrailer tb = None \<and> gzClose tb = None \<and>
        list_all tarEntryOk (tarEntries tb) \<and>
        (\<Sum>e\<leftarrow>tarFiles (tarEntries tb). unat (tSize e)) \<le> unat (expandedArchiveLimit uploadLimit) \<and>
        (\<exists>e \<in> set (tarFiles (tarEntries tb)).
           hasSuffix (pathBase (tName e)) ''.tf'' \<or> hasSuffix (pathBase (tName e)) ''.tf.json''))"
  by (rule validateModuleArchive_iff)

text \<open>
  C24. The names the archive checks accept are exactly the relative, slash-separated names that denote
  something inside the extraction directory: following the components from the directory never goes
  above it, whatever mixture of \<^verbatim>\<open>.\<close>, \<^verbatim>\<open>..\<close> and empty components the name has.
\<close>

theorem archivePathSafe_confined: "archivePathSafe name \<longleftrightarrow> safeEntryName name"
  by (rule archivePathSafe_iff)

text \<open>
  C25. The expansion limit is twenty times the upload limit, never more than 20 GiB, and the
  multiplication does not wrap around: for every 64-bit upload limit, negative ones included, the
  value read as an unsigned number is the value read as a signed one.
\<close>

theorem expandedArchiveLimit_exact:
  "sint (expandedArchiveLimit u) =
     (if 0 < sint u \<and> sint u \<le> 2 ^ 30 then 20 * sint u else 20 * 2 ^ 30)"
proof -
  have "sint (expandedArchiveLimit u) = int (unat (expandedArchiveLimit u))"
    by (rule sint_small) (rule le_less_trans [OF expandedArchiveLimit_bound], simp)
  then show ?thesis by (simp add: expandedArchiveLimit_cases)
qed

end
