(* ===== verification/Json.thy ===== *)
theory Json
  imports Prelude
begin

text \<open>
  The part of Go's \<^verbatim>\<open>encoding/json\<close> that the registry stores its indexes and metadata with: the
  byte-level encoder (\<^verbatim>\<open>Marshal\<close>, \<^verbatim>\<open>MarshalIndent\<close> with HTML-safe escapes), the byte-level decoder
  (\<^verbatim>\<open>Unmarshal\<close>, \<^verbatim>\<open>Decoder.Decode\<close>) and the rules by which a JSON value fills a struct.  The theorem of
  this theory is the round trip: decoding what was encoded gives the value back, with every byte
  that is not part of a valid UTF-8 sequence replaced by U+FFFD.
\<close>

section \<open>Values\<close>

text \<open>A number is kept as its text; the keys of an object keep their order and may repeat.\<close>

datatype json =
    JNull
  | JBool bool
  | JNum string
  | JStr string
  | JArr "json list"
  | JObj "(string \<times> json) list"

section \<open>UTF-8\<close>

definition byteIn :: "nat \<Rightarrow> nat \<Rightarrow> char \<Rightarrow> bool" where
  "byteIn lo hi c \<longleftrightarrow> lo \<le> of_char c \<and> of_char c \<le> hi"

abbreviation contByte :: "char \<Rightarrow> bool" where
  "contByte \<equiv> byteIn 0x80 0xBF"

text \<open>The number of bytes of the valid multi-byte sequence at the head, as \<^verbatim>\<open>utf8.DecodeRune\<close> finds it.\<close>

fun runeLen :: "string \<Rightarrow> nat option" where
  "runeLen [] = None"
| "runeLen (b0 # s) =
     (if byteIn 0xC2 0xDF b0 then
        (case s of b1 # _ \<Rightarrow> if contByte b1 then Some 2 else None | _ \<Rightarrow> None)
      else if byteIn 0xE0 0xEF b0 then
        (case s of b1 # b2 # _ \<Rightarrow>
           if byteIn (if b0 = CHR 0xE0 then 0xA0 else 0x80) (if b0 = CHR 0xED then 0x9F else 0xBF) b1 \<and>
              contByte b2 then Some 3 else None
         | _ \<Rightarrow> None)
      else if byteIn 0xF0 0xF4 b0 then
        (case s of b1 # b2 # b3 # _ \<Rightarrow>
           if byteIn (if b0 = CHR 0xF0 then 0x90 else 0x80) (if b0 = CHR 0xF4 then 0x8F else 0xBF) b1 \<and>
              contByte b2 \<and> contByte b3 then Some 4 else None
         | _ \<Rightarrow> None)
      else None)"

definition chunkLen :: "string \<Rightarrow> nat" where
  "chunkLen s = (case runeLen s of Some n \<Rightarrow> n | None \<Rightarrow> 1)"

text \<open>The text cut into runes; a byte that starts no valid sequence is a chunk of its own.\<close>

lemma runeLen_bounds: "runeLen s = Some n \<Longrightarrow> 2 \<le> n \<and> n \<le> length s"
  by (cases s) (auto split: if_splits list.splits)

lemma chunkLen_pos [simp]: "0 < chunkLen s"
  by (auto simp: chunkLen_def dest: runeLen_bounds split: option.split)

function runes :: "string \<Rightarrow> string list" where
  "runes [] = []"
| "runes (c # s) = take (chunkLen (c # s)) (c # s) # runes (drop (chunkLen (c # s)) (c # s))"
  by pat_completeness auto
termination by (relation "measure length") (auto simp: less_diff_conv2)

definition replacementChar :: string where
  "replacementChar = [CHR 0xEF, CHR 0xBF, CHR 0xBD]"

definition validRune :: "string \<Rightarrow> string" where
  "validRune r = (case r of [c] \<Rightarrow> if of_char c < (0x80 :: nat) then [c] else replacementChar | _ \<Rightarrow> r)"

text \<open>\<^verbatim>\<open>strings.ToValidUTF8\<close> as the decoder applies it, byte by byte.\<close>

definition toValidUTF8 :: "string \<Rightarrow> string" where
  "toValidUTF8 s = concat (map validRune (runes s))"

section \<open>The encoder\<close>

definition hexDigit :: "nat \<Rightarrow> char" where
  "hexDigit n = ''0123456789abcdef'' ! n"

definition escapeByte :: "char \<Rightarrow> string" where
  "escapeByte c =
     (if c = CHR 0x22 \<or> c = CHR 0x5C then [CHR 0x5C, c]
      else if c = CHR 0x08 then [CHR 0x5C, CHR ''b'']
      else if c = CHR 0x0C then [CHR 0x5C, CHR ''f'']
      else if c = CHR 0x0A then [CHR 0x5C, CHR ''n'']
      else if c = CHR 0x0D then [CHR 0x5C, CHR ''r'']
      else if c = CHR 0x09 then [CHR 0x5C, CHR ''t'']
      else if of_char c < (0x20 :: nat) \<or> c = CHR ''<'' \<or> c = CHR ''>'' \<or> c = CHR ''&'' then
        CHR 0x5C # ''u00'' @ [hexDigit (of_char c div 16), hexDigit (of_char c mod 16)]
      else [c])"

definition escapeRune :: "string \<Rightarrow> string" where
  "escapeRune r =
     (case r of [c] \<Rightarrow> if of_char c < (0x80 :: nat) then escapeByte c else CHR 0x5C # ''ufffd''
      | _ \<Rightarrow> if r = [CHR 0xE2, CHR 0x80, CHR 0xA8] then CHR 0x5C # ''u2028''
             else if r = [CHR 0xE2, CHR 0x80, CHR 0xA9] then CHR 0x5C # ''u2029''
             else r)"

definition encodeString :: "string \<Rightarrow> string" where
  "encodeString s = CHR 0x22 # concat (map escapeRune (runes s)) @ [CHR 0x22]"

text \<open>
  The printer, with the white space as parameters: \<open>nl d\<close> starts a line at depth \<open>d\<close> and \<open>sp\<close> follows
  a colon.
\<close>

fun printJson :: "(nat \<Rightarrow> string) \<Rightarrow> string \<Rightarrow> nat \<Rightarrow> json \<Rightarrow> string" where
  "printJson nl sp d JNull = ''null''"
| "printJson nl sp d (JBool b) = (if b then ''true'' else ''false'')"
| "printJson nl sp d (JNum t) = t"
| "printJson nl sp d (JStr s) = encodeString s"
| "printJson nl sp d (JArr js) =
     (if js = [] then ''[]''
      else CHR ''['' # nl (Suc d) @
        joinWith (CHR '','' # nl (Suc d)) (map (printJson nl sp (Suc d)) js) @ nl d @ '']'')"
| "printJson nl sp d (JObj kvs) =
     (if kvs = [] then ''{}''
      else CHR ''{'' # nl (Suc d) @
        joinWith (CHR '','' # nl (Suc d))
          (map (\<lambda>(k, j). encodeString k @ CHR '':'' # sp @ printJson nl sp (Suc d) j) kvs) @ nl d @ ''}'')"

definition marshal :: "json \<Rightarrow> string" where
  "marshal j = printJson (\<lambda>_. []) [] 0 j"

text \<open>\<^verbatim>\<open>json.MarshalIndent(v, "", "  ")\<close>.\<close>

definition marshalIndent :: "json \<Rightarrow> string" where
  "marshalIndent j = printJson (\<lambda>d. CHR 0x0A # replicate (2 * d) CHR '' '') '' '' 0 j"

text \<open>\<^verbatim>\<open>Encoder.Encode\<close> ends the value with a newline.\<close>

definition encodeLine :: "json \<Rightarrow> string" where
  "encodeLine j = marshal j @ [CHR 0x0A]"

section \<open>The decoder\<close>

definition isWs :: "char \<Rightarrow> bool" where
  "isWs c \<longleftrightarrow> c = CHR '' '' \<or> c = CHR 0x09 \<or> c = CHR 0x0A \<or> c = CHR 0x0D"

definition skipWs :: "string \<Rightarrow> string" where
  "skipWs s = dropWhile isWs s"

definition hexVal :: "char \<Rightarrow> nat option" where
  "hexVal c =
     (if isDigit c then Some (of_char c - 48)
      else if CHR ''a'' \<le> c \<and> c \<le> CHR ''f'' then Some (of_char c - 87)
      else if CHR ''A'' \<le> c \<and> c \<le> CHR ''F'' then Some (of_char c - 55)
      else None)"

text \<open>Four hexadecimal digits and what follows them.\<close>

fun hex4 :: "string \<Rightarrow> (nat \<times> string) option" where
  "hex4 (a # b # c # d # s) =
     (case (hexVal a, hexVal b, hexVal c, hexVal d) of
        (Some i, Some j, Some k, Some l) \<Rightarrow> Some (((i * 16 + j) * 16 + k) * 16 + l, s)
      | _ \<Rightarrow> None)"
| "hex4 _ = None"

text \<open>\<^verbatim>\<open>utf8.AppendRune\<close>.\<close>

definition encodeRune :: "nat \<Rightarrow> string" where
  "encodeRune r =
     (if r < 0x80 then [char_of r]
      else if r < 0x800 then [char_of (0xC0 + r div 64), char_of (0x80 + r mod 64)]
      else if 0xD800 \<le> r \<and> r < 0xE000 \<or> 0x110000 \<le> r then replacementChar
      else if r < 0x10000 then
        [char_of (0xE0 + r div 4096), char_of (0x80 + r div 64 mod 64), char_of (0x80 + r mod 64)]
      else [char_of (0xF0 + r div 262144), char_of (0x80 + r div 4096 mod 64),
            char_of (0x80 + r div 64 mod 64), char_of (0x80 + r mod 64)])"

definition simpleEscape :: "char \<Rightarrow> char option" where
  "simpleEscape e =
     (if e = CHR 0x22 \<or> e = CHR 0x5C \<or> e = CHR ''/'' then Some e
      else if e = CHR ''b'' then Some CHR 0x08
      else if e = CHR ''f'' then Some CHR 0x0C
      else if e = CHR ''n'' then Some CHR 0x0A
      else if e = CHR ''r'' then Some CHR 0x0D
      else if e = CHR ''t'' then Some CHR 0x09
      else None)"

text \<open>
  What follows \<^verbatim>\<open>\\u\<close>: the rune and the rest.  A surrogate is combined with a second escape that
  completes it, and is U+FFFD by itself otherwise.
\<close>

definition unicodeEscape :: "string \<Rightarrow> (string \<times> string) option" where
  "unicodeEscape s =
     (case hex4 s of
        None \<Rightarrow> None
      | Some (r, rest) \<Rightarrow>
          if 0xD800 \<le> r \<and> r < 0xE000 then
            (case (if take 2 rest = [CHR 0x5C, CHR ''u''] then hex4 (drop 2 rest) else None) of
               Some (r1, rest1) \<Rightarrow>
                 if r < 0xDC00 \<and> 0xDC00 \<le> r1 \<and> r1 < 0xE000
                 then Some (encodeRune (0x10000 + (r - 0xD800) * 0x400 + (r1 - 0xDC00)), rest1)
                 else Some (replacementChar, rest)
             | None \<Rightarrow> Some (replacementChar, rest))
          else Some (encodeRune r, rest))"

lemma hex4_length: "hex4 s = Some (r, rest) \<Longrightarrow> length rest < length s"
  by (induction s rule: hex4.induct) (auto split: option.splits)

lemma unicodeEscape_length: "unicodeEscape s = Some (r, rest) \<Longrightarrow> length rest < length s"
proof -
  assume u: "unicodeEscape s = Some (r, rest)"
  then obtain v t where h: "hex4 s = Some (v, t)"
    by (auto simp: unicodeEscape_def split: option.splits)
  have drop2: "length q < length t" if "hex4 (drop 2 t) = Some (p, q)" for p q
    using hex4_length [OF that] by simp
  show ?thesis
    using u h hex4_length [OF h] drop2
    by (auto simp: unicodeEscape_def split: option.splits if_splits prod.splits dest!: drop2)
qed

text \<open>The text of a string after its opening quote, and what follows the closing one.\<close>

function parseStr :: "string \<Rightarrow> (string \<times> string) option" where
  "parseStr [] = None"
| "parseStr (c # s) =
     (if c = CHR 0x22 then Some ([], s)
      else if c = CHR 0x5C then
        (case s of
           [] \<Rightarrow> None
         | e # t \<Rightarrow>
             if e = CHR ''u'' then
               (case unicodeEscape t of
                  None \<Rightarrow> None
                | Some (r, rest) \<Rightarrow> map_option (apfst (append r)) (parseStr rest))
             else
               (case simpleEscape e of
                  None \<Rightarrow> None
                | Some x \<Rightarrow> map_option (apfst (Cons x)) (parseStr t)))
      else if of_char c < (0x20 :: nat) then None
      else map_option (apfst (append (validRune (take (chunkLen (c # s)) (c # s)))))
             (parseStr (drop (chunkLen (c # s)) (c # s))))"
  by pat_completeness auto
termination
  by (relation "measure length") (auto simp: less_diff_conv2 dest: unicodeEscape_length)

text \<open>The grammar of number literals.\<close>

definition numChar :: "char \<Rightarrow> bool" where
  "numChar c \<longleftrightarrow> isDigit c \<or> c \<in> set ''+-.eE''"

definition expPart :: "string \<Rightarrow> bool" where
  "expPart s \<longleftrightarrow> s = [] \<or>
     (hd s \<in> set ''eE'' \<and>
      (let t = (case tl s of [] \<Rightarrow> [] | x # u \<Rightarrow> if x \<in> set ''+-'' then u else x # u) in t \<noteq> [] \<and> list_all isDigit t))"

definition fracPart :: "string \<Rightarrow> bool" where
  "fracPart s \<longleftrightarrow>
     (case s of
        CHR ''.'' # t \<Rightarrow> takeWhile isDigit t \<noteq> [] \<and> expPart (dropWhile isDigit t)
      | _ \<Rightarrow> expPart s)"

definition validNumber :: "string \<Rightarrow> bool" where
  "validNumber t \<longleftrightarrow>
     (let u = (case t of CHR ''-'' # u \<Rightarrow> u | _ \<Rightarrow> t); ds = takeWhile isDigit u in
      ds \<noteq> [] \<and> (length ds > 1 \<longrightarrow> hd ds \<noteq> CHR ''0'') \<and> fracPart (dropWhile isDigit u))"

text \<open>
  One value at the head of the input.  The first argument is fuel, which the length of the input
  bounds; the second is the nesting depth still allowed (\<^verbatim>\<open>maxNestingDepth\<close> of the scanner).
\<close>

fun parseValue :: "nat \<Rightarrow> nat \<Rightarrow> string \<Rightarrow> (json \<times> string) option"
  and parseElems :: "nat \<Rightarrow> nat \<Rightarrow> string \<Rightarrow> (json list \<times> string) option"
  and parseMembers :: "nat \<Rightarrow> nat \<Rightarrow> string \<Rightarrow> ((string \<times> json) list \<times> string) option" where
  "parseValue 0 d s = None"
| "parseValue (Suc n) d s =
     (case skipWs s of
        [] \<Rightarrow> None
      | c # t \<Rightarrow>
          if c = CHR 0x22 then map_option (apfst JStr) (parseStr t)
          else if c = CHR ''['' then
            (if d = 0 then None
             else if take 1 (skipWs t) = '']'' then Some (JArr [], drop 1 (skipWs t))
             else map_option (apfst JArr) (parseElems n (d - 1) t))
          else if c = CHR ''{'' then
            (if d = 0 then None
             else if take 1 (skipWs t) = ''}'' then Some (JObj [], drop 1 (skipWs t))
             else map_option (apfst JObj) (parseMembers n (d - 1) t))
          else if hasPrefix (c # t) ''null'' then Some (JNull, drop 4 (c # t))
          else if hasPrefix (c # t) ''true'' then Some (JBool True, drop 4 (c # t))
          else if hasPrefix (c # t) ''false'' then Some (JBool False, drop 5 (c # t))
          else if validNumber (takeWhile numChar (c # t)) then
            Some (JNum (takeWhile numChar (c # t)), dropWhile numChar (c # t))
          else None)"
| "parseElems 0 d s = None"
| "parseElems (Suc n) d s =
     (case parseValue n d s of
        None \<Rightarrow> None
      | Some (j, t) \<Rightarrow>
          (case skipWs t of
             [] \<Rightarrow> None
           | c # u \<Rightarrow>
               if c = CHR '','' then map_option (apfst (Cons j)) (parseElems n d u)
               else if c = CHR '']'' then Some ([j], u)
               else None))"
| "parseMembers 0 d s = None"
| "parseMembers (Suc n) d s =
     (case skipWs s of
        [] \<Rightarrow> None
      | q # s1 \<Rightarrow>
          if q \<noteq> CHR 0x22 then None
          else (case parseStr s1 of
             None \<Rightarrow> None
           | Some (k, s2) \<Rightarrow>
               (case skipWs s2 of
                  [] \<Rightarrow> None
                | c # s3 \<Rightarrow>
                    if c \<noteq> CHR '':'' then None
                    else (case parseValue n d s3 of
                       None \<Rightarrow> None
                     | Some (j, t) \<Rightarrow>
                         (case skipWs t of
                            [] \<Rightarrow> None
                          | e # u \<Rightarrow>
                              if e = CHR '','' then map_option (apfst (Cons (k, j))) (parseMembers n d u)
                              else if e = CHR ''}'' then Some ([(k, j)], u)
                              else None)))))"

definition maxNestingDepth :: nat where
  "maxNestingDepth = 10000"

definition parseFuel :: "string \<Rightarrow> nat" where
  "parseFuel s = 2 * length s + 2"

text \<open>The syntax phase of \<^verbatim>\<open>json.Unmarshal\<close>: one value and nothing but white space after it.\<close>

definition unmarshal :: "string \<Rightarrow> json option" where
  "unmarshal s =
     (case parseValue (parseFuel s) maxNestingDepth s of
        Some (j, rest) \<Rightarrow> if skipWs rest = [] then Some j else None
      | None \<Rightarrow> None)"

text \<open>\<^verbatim>\<open>Decoder.Decode\<close> reads the first value of a stream and leaves the rest.\<close>

definition decodeFirst :: "string \<Rightarrow> json option" where
  "decodeFirst s = map_option fst (parseValue (parseFuel s) maxNestingDepth s)"

section \<open>Runes\<close>

lemma runeLen_ascii: "of_char c < (0x80 :: nat) \<Longrightarrow> runeLen (c # s) = None"
  by (auto simp: byteIn_def)

lemma runeLen_head: "runeLen (c # s) = Some n \<Longrightarrow> 0xC2 \<le> (of_char c :: nat)"
  by (auto simp: byteIn_def split: if_splits)

lemma runeLen_take: "runeLen s = Some n \<Longrightarrow> runeLen (take n s @ t) = Some n"
proof (cases s)
  case (Cons b0 s')
  assume r: "runeLen s = Some n"
  show ?thesis
  proof (cases s')
    case Nil
    then show ?thesis using r Cons by (simp split: if_splits)
  next
    case (Cons b1 s2)
    then show ?thesis
      using r \<open>s = b0 # s'\<close> by (auto split: if_splits list.splits)
  qed
qed simp

lemma concat_runes [simp]: "concat (runes s) = s"
  by (induction s rule: runes.induct) (simp_all del: runes.simps(2) add: runes.simps)

text \<open>The chunks of a text: single bytes, or whole valid sequences.\<close>

definition isChunk :: "string \<Rightarrow> bool" where
  "isChunk r \<longleftrightarrow> (\<exists>c. r = [c]) \<or> runeLen r = Some (length r)"

lemma runes_chunks: "list_all isChunk (runes s)"
proof (induction s rule: runes.induct)
  case (2 c s)
  have "isChunk (take (chunkLen (c # s)) (c # s))"
  proof (cases "runeLen (c # s)")
    case None
    then show ?thesis by (simp add: chunkLen_def isChunk_def)
  next
    case (Some n)
    then have "runeLen (take n (c # s)) = Some n" using runeLen_take [of "c # s" n "[]"] by simp
    moreover have "n \<le> length (c # s)" using runeLen_bounds [OF Some] by simp
    ultimately show ?thesis using Some by (simp add: chunkLen_def isChunk_def)
  qed
  then show ?case using 2 by simp
qed simp

text \<open>Valid text: every byte belongs to an ASCII character or a valid sequence.\<close>

definition validUTF8 :: "string \<Rightarrow> bool" where
  "validUTF8 s \<longleftrightarrow> toValidUTF8 s = s"

lemma runes_ascii: "list_all (\<lambda>c. of_char c < (0x80 :: nat)) s \<Longrightarrow> runes s = map (\<lambda>c. [c]) s"
  by (induction s) (simp_all add: chunkLen_def runeLen_ascii del: runeLen.simps)

lemma validUTF8_ascii: "list_all (\<lambda>c. of_char c < (0x80 :: nat)) s \<Longrightarrow> validUTF8 s"
proof -
  assume a: "list_all (\<lambda>c. of_char c < (0x80 :: nat)) s"
  then have "map validRune (runes s) = map (\<lambda>c. [c]) s"
    by (auto simp: runes_ascii validRune_def list_all_iff)
  then show ?thesis by (simp add: validUTF8_def toValidUTF8_def)
qed

section \<open>Strings survive encoding\<close>

lemma hexVal_hexDigit: "n < 16 \<Longrightarrow> hexVal (hexDigit n) = Some n"
proof -
  assume "n < 16"
  then have "n \<in> {0, 1, 2, 3, 4, 5, 6, 7, 8, 9, 10, 11, 12, 13, 14, 15}"
    unfolding insert_iff empty_iff by presburger
  then show ?thesis by (elim insertE emptyE) (simp_all add: hexDigit_def hexVal_def isDigit_def)
qed

lemma parseStr_u00:
  assumes "(of_char c :: nat) < 0x80"
  shows "parseStr (CHR 0x5C # ''u00'' @ [hexDigit (of_char c div 16), hexDigit (of_char c mod 16)] @ t) =
    map_option (apfst (append [c])) (parseStr t)"
proof -
  have "hexVal (hexDigit (of_char c div 16)) = Some (of_char c div 16)"
    "hexVal (hexDigit (of_char c mod 16)) = Some (of_char c mod 16)"
    using assms by (intro hexVal_hexDigit; simp)+
  moreover have "hexVal CHR ''0'' = Some 0" by (simp add: hexVal_def isDigit_def)
  ultimately have "hex4 (''00'' @ [hexDigit (of_char c div 16), hexDigit (of_char c mod 16)] @ t) = Some (of_char c, t)"
    by simp
  then show ?thesis using assms by (simp add: unicodeEscape_def encodeRune_def)
qed

lemma parseStr_plain:
  assumes "c \<noteq> CHR 0x22" "c \<noteq> CHR 0x5C" "\<not> (of_char c :: nat) < 0x20" "(of_char c :: nat) < 0x80"
  shows "parseStr (c # t) = map_option (apfst (append [c])) (parseStr t)"
  using assms runeLen_ascii [OF assms(4), of t] by (simp add: chunkLen_def validRune_def)

lemma parseStr_simple:
  "e \<noteq> CHR ''u'' \<Longrightarrow> simpleEscape e = Some x \<Longrightarrow>
     parseStr (CHR 0x5C # e # t) = map_option (apfst (append [x])) (parseStr t)"
  by (simp add: append_def)

lemma parseStr_escapeByte:
  assumes "(of_char c :: nat) < 0x80"
  shows "parseStr (escapeByte c @ t) = map_option (apfst (append [c])) (parseStr t)"
proof -
  consider (quote) "c = CHR 0x22 \<or> c = CHR 0x5C"
    | (short) "c \<in> {CHR 0x08, CHR 0x0C, CHR 0x0A, CHR 0x0D, CHR 0x09}"
    | (hex) "c \<noteq> CHR 0x22" "c \<noteq> CHR 0x5C" "c \<notin> {CHR 0x08, CHR 0x0C, CHR 0x0A, CHR 0x0D, CHR 0x09}"
        "of_char c < (0x20 :: nat) \<or> c = CHR ''<'' \<or> c = CHR ''>'' \<or> c = CHR ''&''"
    | (plain) "c \<noteq> CHR 0x22" "c \<noteq> CHR 0x5C" "c \<notin> {CHR 0x08, CHR 0x0C, CHR 0x0A, CHR 0x0D, CHR 0x09}"
        "\<not> (of_char c < (0x20 :: nat) \<or> c = CHR ''<'' \<or> c = CHR ''>'' \<or> c = CHR ''&'')"
    by blast
  then show ?thesis
  proof cases
    case quote
    then obtain e where e: "escapeByte c = [CHR 0x5C, e]" "e \<noteq> CHR ''u''" "simpleEscape e = Some c"
      by (elim disjE) (simp_all add: escapeByte_def simpleEscape_def)
    then show ?thesis using parseStr_simple [OF e(2,3), of t] by (simp only: append_Cons append_Nil)
  next
    case short
    then obtain e where e: "escapeByte c = [CHR 0x5C, e]" "e \<noteq> CHR ''u''" "simpleEscape e = Some c"
      by (elim insertE emptyE) (simp_all add: escapeByte_def simpleEscape_def)
    then show ?thesis using parseStr_simple [OF e(2,3), of t] by (simp only: append_Cons append_Nil)
  next
    case hex
    then have "escapeByte c = CHR 0x5C # ''u00'' @ [hexDigit (of_char c div 16), hexDigit (of_char c mod 16)]"
      unfolding escapeByte_def by (simp only: insert_iff empty_iff if_False if_True simp_thms de_Morgan_disj)
    then show ?thesis using parseStr_u00 [OF assms, of t] by (simp only: append_Cons append_assoc)
  next
    case plain
    then have "escapeByte c = [c]"
      unfolding escapeByte_def by (simp only: insert_iff empty_iff if_False if_True simp_thms de_Morgan_disj)
    moreover have ge: "\<not> (of_char c :: nat) < 0x20" using plain(4) by blast
    note parseStr_plain [OF plain(1,2) ge assms, of t]
    ultimately show ?thesis by (simp only: append_Cons append_Nil)
  qed
qed

lemma parseStr_copy:
  assumes "runeLen r = Some (length r)"
  shows "parseStr (r @ t) = map_option (apfst (append r)) (parseStr t)"
proof -
  obtain c r' where r: "r = c # r'" using assms by (cases r) auto
  have big: "0xC2 \<le> (of_char c :: nat)" using runeLen_head assms r by blast
  then have ne: "c \<noteq> CHR 0x22" "c \<noteq> CHR 0x5C" by auto
  have n: "chunkLen (r @ t) = length r"
    using runeLen_take [OF assms, of t] by (simp add: chunkLen_def)
  have "r' \<noteq> []" using runeLen_bounds [OF assms] r by auto
  then have "validRune r = r" using r by (auto simp: validRune_def split: list.split)
  then show ?thesis
    using n big ne parseStr.simps(2) [of c "r' @ t"] r by (simp del: parseStr.simps)
qed

lemma char_of_consts:
  "char_of (239 :: nat) = CHR 0xEF" "char_of (191 :: nat) = CHR 0xBF" "char_of (189 :: nat) = CHR 0xBD"
  "char_of (226 :: nat) = CHR 0xE2" "char_of (128 :: nat) = CHR 0x80" "char_of (168 :: nat) = CHR 0xA8"
  "char_of (169 :: nat) = CHR 0xA9"
  by (simp_all add: char_of_eq_iff)

lemma parseStr_escapeRune:
  assumes "isChunk r"
  shows "parseStr (escapeRune r @ t) = map_option (apfst (append (validRune r))) (parseStr t)"
proof -
  have num: "hexVal CHR ''f'' = Some 15" "hexVal CHR ''d'' = Some 13" "hexVal CHR ''2'' = Some 2"
    "hexVal CHR ''0'' = Some 0" "hexVal CHR ''8'' = Some 8" "hexVal CHR ''9'' = Some 9"
    by (simp_all add: hexVal_def isDigit_def)
  show ?thesis
  proof (cases "\<exists>c. r = [c]")
    case True
    then obtain c where r: "r = [c]" by blast
    show ?thesis
    proof (cases "of_char c < (0x80 :: nat)")
      case True
      then show ?thesis using parseStr_escapeByte [OF True, of t] r by (simp add: escapeRune_def validRune_def)
    next
      case False
      then show ?thesis
        using r by (simp add: escapeRune_def validRune_def unicodeEscape_def num encodeRune_def replacementChar_def char_of_consts)
    qed
  next
    case False
    then have len: "runeLen r = Some (length r)" using assms by (auto simp: isChunk_def)
    have v: "validRune r = r" using False by (auto simp: validRune_def split: list.split)
    have e: "escapeRune r = (if r = [CHR 0xE2, CHR 0x80, CHR 0xA8] then CHR 0x5C # ''u2028''
             else if r = [CHR 0xE2, CHR 0x80, CHR 0xA9] then CHR 0x5C # ''u2029'' else r)"
      using False by (auto simp: escapeRune_def split: list.split)
    consider "r = [CHR 0xE2, CHR 0x80, CHR 0xA8]" | "r = [CHR 0xE2, CHR 0x80, CHR 0xA9]" | "escapeRune r = r"
      using e by (auto split: if_splits)
    then show ?thesis
    proof cases
      case 3
      then show ?thesis using parseStr_copy [OF len, of t] v by simp
    qed (simp_all add: escapeRune_def validRune_def unicodeEscape_def num encodeRune_def char_of_consts)
  qed
qed

lemma parseStr_runes:
  "list_all isChunk rs \<Longrightarrow>
     parseStr (concat (map escapeRune rs) @ CHR 0x22 # t) = Some (concat (map validRune rs), t)"
proof (induction rs)
  case (Cons r rs)
  then show ?case by (simp add: parseStr_escapeRune)
qed simp

lemma parseStr_encodeString: "parseStr (tl (encodeString s) @ t) = Some (toValidUTF8 s, t)"
  using parseStr_runes [OF runes_chunks] by (simp add: encodeString_def toValidUTF8_def)

section \<open>The fuel of the parser\<close>

lemma skipWs_length: "length (skipWs s) \<le> length s"
  by (simp add: skipWs_def length_dropWhile_le)

lemma parseStr_length: "parseStr s = Some (r, t) \<Longrightarrow> length t < length s"
proof (induction s arbitrary: r rule: parseStr.induct)
  case (2 c s)
  consider (quote) "c = CHR 0x22" | (esc) "c \<noteq> CHR 0x22" "c = CHR 0x5C" | (plain) "c \<noteq> CHR 0x22" "c \<noteq> CHR 0x5C"
    by blast
  then show ?case
  proof cases
    case esc
    show ?thesis
    proof (cases s)
      case Nil
      then show ?thesis using esc 2 by simp
    next
      case (Cons e u)
      show ?thesis
      proof (cases "e = CHR ''u''")
        case True
        then obtain x y where xy: "unicodeEscape u = Some (x, y)" "\<exists>v. parseStr y = Some (v, t)"
          using esc Cons 2(4) by (auto split: option.splits)
        then have "length t < length y" using 2(1) [OF esc Cons True xy(1)] by auto
        then show ?thesis using unicodeEscape_length [OF xy(1)] Cons by simp
      next
        case False
        then obtain x where x: "simpleEscape e = Some x" "\<exists>v. parseStr u = Some (v, t)"
          using esc Cons 2(4) by (auto split: option.splits)
        then have "length t < length u" using 2(2) [OF esc Cons False x(1)] by auto
        then show ?thesis using Cons by simp
      qed
    qed
  next
    case plain
    then have ge: "\<not> of_char c < (0x20::nat)" and "\<exists>v. parseStr (drop (chunkLen (c # s)) (c # s)) = Some (v, t)"
      using 2(4) by (auto split: if_splits)
    then have "length t < length (drop (chunkLen (c # s)) (c # s))" using 2(3) [OF plain ge] by auto
    then show ?thesis by simp
  qed (use 2 in simp)
qed simp


lemma parse_shrinks_step:
  assumes "skipWs s = c # u" "length t \<le> length u"
  shows "length t < length s"
  using assms skipWs_length [of s] by simp

lemma number_shrinks:
  assumes "validNumber (takeWhile numChar (c # u))"
  shows "length (dropWhile numChar (c # u)) \<le> length u"
proof (cases "numChar c")
  case True
  then show ?thesis by (simp add: length_dropWhile_le)
next
  case False
  then show ?thesis using assms by (simp add: validNumber_def)
qed

lemma parse_shrinks:
  shows "parseValue n d s = Some (j, t) \<Longrightarrow> length t < length s"
    and "parseElems n d s = Some (js, t) \<Longrightarrow> length t < length s"
    and "parseMembers n d s = Some (kvs, t) \<Longrightarrow> length t < length s"
proof (induction n arbitrary: d s j t js kvs)
  case (Suc n)
  {
    case 1
    then obtain c u where cu: "skipWs s = c # u" by (auto split: list.splits)
    have "length t \<le> length u"
      using 1 cu Suc.IH(2) [of "d - 1" u _ t] Suc.IH(3) [of "d - 1" u _ t] parseStr_length [of u _ t]
        number_shrinks [of c u] skipWs_length [of u]
      by (auto simp del: validNumber_def split: if_splits simp: less_imp_le)
    then show ?case using cu parse_shrinks_step by blast
  next
    case 2
    then obtain j r where r: "parseValue n d s = Some (j, r)" by (auto split: option.splits)
    then obtain c u where cu: "skipWs r = c # u" using 2 by (auto split: list.splits)
    have "length t \<le> length u"
      using 2 r cu Suc.IH(2) [of d u _ t] by (auto split: if_splits simp: less_imp_le)
    then show ?case using parse_shrinks_step [OF cu, of t] Suc.IH(1) [OF r] by simp
  next
    case 3
    then obtain u where u: "skipWs s = CHR 0x22 # u" by (auto split: list.splits if_splits)
    then obtain k v where k: "parseStr u = Some (k, v)" using 3 by (auto split: option.splits)
    then obtain w where w: "skipWs v = CHR '':'' # w" using 3 u by (auto split: list.splits if_splits)
    then obtain j r where r: "parseValue n d w = Some (j, r)" using 3 u k by (auto split: option.splits)
    then obtain c x where x: "skipWs r = c # x" using 3 u k w by (auto split: list.splits)
    have "length t \<le> length x"
      using 3 u k w r x Suc.IH(3) [of d x _ t] by (auto split: if_splits simp: less_imp_le)
    then show ?case
      using parse_shrinks_step [OF x, of t] Suc.IH(1) [OF r] parse_shrinks_step [OF w, of r] parseStr_length [OF k]
        parse_shrinks_step [OF u, of t] by simp
  }
qed simp_all

lemma parse_fuel:
  shows "2 * length s < n \<Longrightarrow> parseValue (Suc n) d s = parseValue n d s"
    and "2 * length s + 1 < n \<Longrightarrow> parseElems (Suc n) d s = parseElems n d s"
    and "2 * length s + 1 < n \<Longrightarrow> parseMembers (Suc n) d s = parseMembers n d s"
proof (induction n arbitrary: d s)
  case (Suc n)
  {
    case 1
    show ?case
    proof (cases "skipWs s")
      case (Cons c u)
      then have "length u < length s" using skipWs_length [of s] by simp
      then have "2 * length u + 1 < n" using 1 by simp
      then show ?thesis
        using Suc.IH(2) [of u "d - 1"] Suc.IH(3) [of u "d - 1"] Cons
        by (subst (1 2) parseValue.simps) simp
    qed simp
  next
    case 2
    then have v: "parseValue (Suc n) d s = parseValue n d s" using Suc.IH(1) by simp
    have rec: "parseElems (Suc n) d u = parseElems n d u"
      if "parseValue n d s = Some (j, r)" "skipWs r = c # u" for j r c u
      using parse_shrinks(1) [OF that(1)] parse_shrinks_step [OF that(2), of u] 2 by (intro Suc.IH(2)) simp
    show ?case
      unfolding parseElems.simps(2) [of "Suc n" d s] parseElems.simps(2) [of n d s] v
      by (auto simp: rec simp del: parseElems.simps parseValue.simps split: option.split list.split)
  next
    case 3
    have v: "parseValue (Suc n) d w = parseValue n d w"
      if "skipWs s = q # u" "parseStr u = Some (k, x)" "skipWs x = c # w" for q u k x c w
      using parse_shrinks_step [OF that(1), of w] parseStr_length [OF that(2)] parse_shrinks_step [OF that(3), of w] 3
      by (intro Suc.IH(1)) simp
    have rec: "parseMembers (Suc n) d y = parseMembers n d y"
      if "skipWs s = q # u" "parseStr u = Some (k, x)" "skipWs x = c # w" "parseValue n d w = Some (j, r)" "skipWs r = e # y"
      for q u k x c w j r e y
      using parse_shrinks_step [OF that(1), of y] parseStr_length [OF that(2)] parse_shrinks_step [OF that(3), of y]
        parse_shrinks(1) [OF that(4)] parse_shrinks_step [OF that(5), of y] 3
      by (intro Suc.IH(3)) simp
    show ?case
      unfolding parseMembers.simps(2) [of "Suc n" d s] parseMembers.simps(2) [of n d s]
      by (auto simp: v rec simp del: parseMembers.simps parseValue.simps split: option.split list.split)
  }
qed simp_all

text \<open>The fuel is not a limit of the parser: any larger amount gives the same answer.\<close>

lemma parseValue_fuel: "parseFuel s \<le> n \<Longrightarrow> parseValue n d s = parseValue (parseFuel s) d s"
proof (induction n rule: dec_induct)
  case (step m)
  then show ?case using parse_fuel(1) [of s m d] by (simp add: parseFuel_def del: parseValue.simps)
qed simp

section \<open>Values survive encoding\<close>

text \<open>What decoding gives back: the strings as valid UTF-8, everything else unchanged.\<close>

fun validJson :: "json \<Rightarrow> json" where
  "validJson (JStr s) = JStr (toValidUTF8 s)"
| "validJson (JArr js) = JArr (map validJson js)"
| "validJson (JObj kvs) = JObj (map (\<lambda>(k, j). (toValidUTF8 k, validJson j)) kvs)"
| "validJson j = j"

text \<open>Values the encoder produces: number literals are numbers, and the depth is bounded.\<close>

fun encodable :: "nat \<Rightarrow> json \<Rightarrow> bool" where
  "encodable d (JNum t) \<longleftrightarrow> validNumber t \<and> list_all numChar t \<and> t \<noteq> []"
| "encodable d (JArr js) \<longleftrightarrow> 0 < d \<and> list_all (encodable (d - 1)) js"
| "encodable d (JObj kvs) \<longleftrightarrow> 0 < d \<and> list_all (\<lambda>(k, j). encodable (d - 1) j) kvs"
| "encodable d j \<longleftrightarrow> True"

lemma skipWs_append: "list_all isWs w \<Longrightarrow> skipWs (w @ s) = skipWs s"
  unfolding skipWs_def by (rule dropWhile_append2) (simp add: list_all_iff)

lemma skipWs_id: "s \<noteq> [] \<Longrightarrow> \<not> isWs (hd s) \<Longrightarrow> skipWs s = s"
  by (cases s) (auto simp: skipWs_def)

lemma parseValue_ws:
  "list_all isWs w \<Longrightarrow> parseValue n d (w @ s) = parseValue n d s"
  by (cases n) (simp_all add: skipWs_append)

lemma encodeString_Cons: "encodeString s = CHR 0x22 # tl (encodeString s)"
  by (simp add: encodeString_def)

text \<open>The first byte of a printed value is no white space and no closing bracket.\<close>

definition valueStart :: "char \<Rightarrow> bool" where
  "valueStart c \<longleftrightarrow> c \<in> {CHR 0x22, CHR ''['', CHR ''{'', CHR ''n'', CHR ''t'', CHR ''f''} \<or> numChar c"

lemma print_start:
  "encodable d j \<Longrightarrow> printJson nl sp e j \<noteq> [] \<and> valueStart (hd (printJson nl sp e j))"
  by (cases j) (auto simp: valueStart_def encodeString_def list_all_iff)

lemma valueStart_noWs: "valueStart c \<Longrightarrow> \<not> isWs c \<and> c \<noteq> CHR '']'' \<and> c \<noteq> CHR ''}''"
  by (auto simp: valueStart_def isWs_def numChar_def isDigit_def)

lemma numChar_start:
  "numChar c \<Longrightarrow> \<not> isWs c \<and> c \<noteq> CHR 0x22 \<and> c \<noteq> CHR ''['' \<and> c \<noteq> CHR ''{'' \<and>
     c \<noteq> CHR ''n'' \<and> c \<noteq> CHR ''t'' \<and> c \<noteq> CHR ''f''"
  by (auto simp: isWs_def numChar_def isDigit_def)

lemma parseValue_num:
  assumes t: "list_all numChar t" "t \<noteq> []" "validNumber t"
    and rest: "rest = [] \<or> \<not> numChar (hd rest)"
  shows "parseValue (Suc n) d (t @ rest) = Some (JNum t, rest)"
proof -
  obtain c u where tc: "t = c # u" using t(2) by (cases t) auto
  have start: "\<not> isWs c \<and> c \<noteq> CHR 0x22 \<and> c \<noteq> CHR ''['' \<and> c \<noteq> CHR ''{'' \<and> c \<noteq> CHR ''n'' \<and> c \<noteq> CHR ''t'' \<and> c \<noteq> CHR ''f''"
    using numChar_start [of c] t(1) tc by simp
  have "dropWhile numChar (t @ rest) = dropWhile numChar rest"
    using t(1) by (subst dropWhile_append2) (auto simp: list_all_iff)
  moreover have "takeWhile numChar (t @ rest) = t @ takeWhile numChar rest"
    using t(1) by (subst takeWhile_append2) (auto simp: list_all_iff)
  moreover have "dropWhile numChar rest = rest \<and> takeWhile numChar rest = []"
    using rest by (cases rest) auto
  moreover have "skipWs (t @ rest) = t @ rest" using start tc by (intro skipWs_id) auto
  ultimately show ?thesis using start tc t(3) by (simp add: hasPrefix_def)
qed

text \<open>The separators the printers use.\<close>

locale printer =
  fixes nl :: "nat \<Rightarrow> string" and sp :: string
  assumes nl_ws: "list_all isWs (nl d)"
    and sp_ws: "list_all isWs sp"
begin

definition elemsText :: "nat \<Rightarrow> string list \<Rightarrow> string" where
  "elemsText d ts = joinWith (CHR '','' # nl (Suc d)) ts @ nl d"

lemma elemsText_Cons:
  "elemsText d (t # ts) = t @ (if ts = [] then nl d else CHR '','' # nl (Suc d) @ elemsText d ts)"
  by (cases ts) (simp_all add: elemsText_def)

definition parsesTo :: "nat \<Rightarrow> nat \<Rightarrow> json \<Rightarrow> bool" where
  "parsesTo d e j \<longleftrightarrow>
     (\<forall>n rest. length (printJson nl sp e j) \<le> n \<longrightarrow> (rest = [] \<or> \<not> numChar (hd rest)) \<longrightarrow>
        parseValue n d (printJson nl sp e j @ rest) = Some (validJson j, rest))"

lemma parsesToD:
  "parsesTo d e j \<Longrightarrow> length (printJson nl sp e j) \<le> n \<Longrightarrow> rest = [] \<or> \<not> numChar (hd rest) \<Longrightarrow>
     parseValue n d (printJson nl sp e j @ rest) = Some (validJson j, rest)"
  unfolding parsesTo_def by blast

lemma nl_rest: "nl d @ c # s = [] \<or> \<not> numChar (hd (nl d @ c # s))" if "\<not> numChar c"
proof -
  have "\<not> numChar x" if "isWs x" for x using that numChar_start by blast
  then show ?thesis using nl_ws [of d] that by (cases "nl d") auto
qed

lemma parseElems_print:
  "js \<noteq> [] \<Longrightarrow> (\<And>j. j \<in> set js \<Longrightarrow> parsesTo d (Suc e) j) \<Longrightarrow>
     length (elemsText e (map (printJson nl sp (Suc e)) js)) < n \<Longrightarrow>
     parseElems n d (elemsText e (map (printJson nl sp (Suc e)) js) @ CHR '']'' # rest) =
       Some (map validJson js, rest)"
proof (induction js arbitrary: n)
  case (Cons j js)
  obtain m where n: "n = Suc m" using Cons.prems(3) by (cases n) auto
  have nc: "\<not> numChar CHR '']''" "\<not> numChar CHR '',''" by (simp_all add: numChar_def isDigit_def)
  have ws: "\<not> isWs CHR '']''" "\<not> isWs CHR '',''" by (simp_all add: isWs_def)
  let ?t = "printJson nl sp (Suc e) j"
  have j: "parseValue m d (?t @ r) = Some (validJson j, r)"
    if "r = [] \<or> \<not> numChar (hd r)" for r
    using Cons.prems(2,3) that n by (intro parsesToD) (simp_all add: elemsText_Cons)
  show ?case
  proof (cases "js = []")
    case True
    then show ?thesis
      using j [OF nl_rest [OF nc(1)], of e rest] n skipWs_append [OF nl_ws, of e "CHR '']'' # rest"] ws
      by (simp add: elemsText_Cons skipWs_id)
  next
    case False
    let ?ts = "map (printJson nl sp (Suc e)) js"
    have shape: "elemsText e (?t # ?ts) = ?t @ CHR '','' # nl (Suc e) @ elemsText e ?ts"
      using False by (simp add: elemsText_Cons)
    have tail: "parseElems m d (nl (Suc e) @ elemsText e ?ts @ CHR '']'' # rest) = Some (map validJson js, rest)"
    proof -
      have "length (elemsText e ?ts) < m" using Cons.prems(3) shape n by simp
      then have "parseElems m d (elemsText e ?ts @ CHR '']'' # rest) = Some (map validJson js, rest)"
        using Cons.IH [OF False] Cons.prems(2) by simp
      moreover have "parseElems m d (nl (Suc e) @ s) = parseElems m d s" for s
        by (cases m) (simp_all add: parseValue_ws [OF nl_ws])
      ultimately show ?thesis by simp
    qed
    then show ?thesis using shape j [of "CHR '','' # nl (Suc e) @ elemsText e ?ts @ CHR '']'' # rest"] nc n ws
      by (simp add: skipWs_id)
  qed
qed simp

definition memberText :: "nat \<Rightarrow> string \<times> json \<Rightarrow> string" where
  "memberText e kv = encodeString (fst kv) @ CHR '':'' # sp @ printJson nl sp e (snd kv)"

lemma parseElems_ws: "parseElems m d (nl e @ s) = parseElems m d s"
  by (cases m) (simp_all add: parseValue_ws [OF nl_ws])

lemma start_elems:
  assumes "js \<noteq> []" "list_all (encodable d) js"
  shows "take 1 (skipWs (elemsText e (map (printJson nl sp f) js) @ t)) \<noteq> '']''"
proof -
  obtain j js' where js: "js = j # js'" using assms(1) by (cases js) auto
  have "encodable d j" using assms(2) js by simp
  then obtain c u where p: "printJson nl sp f j = c # u" "valueStart c"
    using print_start [of d j nl sp f] by (cases "printJson nl sp f j") auto
  then have "\<not> isWs c" "c \<noteq> CHR '']''" using valueStart_noWs by blast+
  then show ?thesis using js p by (simp add: elemsText_Cons skipWs_def)
qed

lemma parseMembers_ws: "parseMembers m d (nl e @ s) = parseMembers m d s"
  by (cases m) (simp_all add: skipWs_append [OF nl_ws])

lemma parseMembers_print:
  "kvs \<noteq> [] \<Longrightarrow> (\<And>k j. (k, j) \<in> set kvs \<Longrightarrow> parsesTo d (Suc e) j) \<Longrightarrow>
     length (elemsText e (map (memberText (Suc e)) kvs)) < n \<Longrightarrow>
     parseMembers n d (elemsText e (map (memberText (Suc e)) kvs) @ CHR ''}'' # rest) =
       Some (map (\<lambda>(k, j). (toValidUTF8 k, validJson j)) kvs, rest)"
proof (induction kvs arbitrary: n)
  case (Cons kv kvs)
  obtain m where n: "n = Suc m" using Cons.prems(3) by (cases n) auto
  obtain k j where kv: "kv = (k, j)" by (cases kv)
  have nc: "\<not> numChar CHR ''}''" "\<not> numChar CHR '',''" by (simp_all add: numChar_def isDigit_def)
  have ws: "\<not> isWs CHR ''}''" "\<not> isWs CHR '',''" "\<not> isWs CHR 0x22" "\<not> isWs CHR '':''" by (simp_all add: isWs_def)
  let ?t = "printJson nl sp (Suc e) j"
  have len: "length ?t \<le> m"
    using Cons.prems(3) n kv by (simp add: elemsText_Cons memberText_def encodeString_def)
  have j: "parseValue m d (sp @ ?t @ r) = Some (validJson j, r)"
    if "r = [] \<or> \<not> numChar (hd r)" for r
    using Cons.prems(2) [of k j] len that kv
    by (subst parseValue_ws [OF sp_ws], intro parsesToD) simp_all
  have key: "parseMembers (Suc m) d (memberText (Suc e) kv @ r) =
      (case parseValue m d (sp @ ?t @ r) of
         None \<Rightarrow> None
       | Some (j, t) \<Rightarrow>
           (case skipWs t of
              [] \<Rightarrow> None
            | f # u \<Rightarrow>
                if f = CHR '','' then map_option (apfst (Cons (toValidUTF8 k, j))) (parseMembers m d u)
                else if f = CHR ''}'' then Some ([(toValidUTF8 k, j)], u)
                else None))" for r
  proof -
    have "skipWs (memberText (Suc e) kv @ r) = CHR 0x22 # tl (encodeString k) @ CHR '':'' # sp @ ?t @ r"
      using ws kv by (simp add: memberText_def skipWs_id encodeString_def)
    then show ?thesis
      using ws by (simp add: parseStr_encodeString skipWs_id)
  qed
  show ?case
  proof (cases "kvs = []")
    case True
    then show ?thesis
      using j [OF nl_rest [OF nc(1)], of e rest] n skipWs_append [OF nl_ws, of e "CHR ''}'' # rest"] ws kv
      by (simp add: elemsText_Cons skipWs_id key [unfolded kv] del: parseMembers.simps)
  next
    case False
    let ?ts = "map (memberText (Suc e)) kvs"
    have shape: "elemsText e (memberText (Suc e) kv # ?ts) = memberText (Suc e) kv @ CHR '','' # nl (Suc e) @ elemsText e ?ts"
      using False by (simp add: elemsText_Cons)
    have "length (elemsText e ?ts) < m" using Cons.prems(3) shape n by simp
    then have "parseMembers m d (elemsText e ?ts @ CHR ''}'' # rest) =
        Some (map (\<lambda>(k, j). (toValidUTF8 k, validJson j)) kvs, rest)"
      using Cons.IH [OF False, of m] Cons.prems(2) by (metis list.set_intros(2))
    then show ?thesis
      using shape j [of "CHR '','' # nl (Suc e) @ elemsText e ?ts @ CHR ''}'' # rest"] nc n ws kv
      by (simp add: skipWs_id key [unfolded kv] parseMembers_ws del: parseMembers.simps)
  qed
qed simp

lemma start_members:
  "kvs \<noteq> [] \<Longrightarrow> take 1 (skipWs (elemsText e (map (memberText f) kvs) @ t)) \<noteq> ''}''"
  by (cases kvs) (simp_all add: elemsText_Cons memberText_def encodeString_def skipWs_def isWs_def)

lemma parse_print: "encodable d j \<Longrightarrow> parsesTo d e j"
proof (induction d j arbitrary: e rule: encodable.induct [case_names num arr obj null bool str])
  case (num d t)
  then have t: "list_all numChar t" "t \<noteq> []" "validNumber t" by simp_all
  show ?case unfolding parsesTo_def
  proof (intro allI impI)
    fix n and rest :: string
    assume "length (printJson nl sp e (JNum t)) \<le> n" and r: "rest = [] \<or> \<not> numChar (hd rest)"
    then obtain m where "n = Suc m" using t(2) by (cases n) auto
    then show "parseValue n d (printJson nl sp e (JNum t) @ rest) = Some (validJson (JNum t), rest)"
      using parseValue_num [OF t r] by simp
  qed
next
  case (arr d js)
  show ?case unfolding parsesTo_def
  proof (intro allI impI)
    fix n and rest :: string
    assume len: "length (printJson nl sp e (JArr js)) \<le> n"
    then obtain m where n: "n = Suc m" by (cases n) (auto split: if_splits)
    show "parseValue n d (printJson nl sp e (JArr js) @ rest) = Some (validJson (JArr js), rest)"
    proof (cases "js = []")
      case True
      then show ?thesis using arr n by (simp add: skipWs_id isWs_def)
    next
      case False
      let ?ts = "map (printJson nl sp (Suc e)) js"
      have shape: "printJson nl sp e (JArr js) = CHR ''['' # nl (Suc e) @ elemsText e ?ts @ '']''"
        using False by (simp add: elemsText_def)
      have "parseElems m (d - 1) (elemsText e ?ts @ CHR '']'' # rest) = Some (map validJson js, rest)"
      proof (rule parseElems_print [OF False])
        show "parsesTo (d - 1) (Suc e) j" if "j \<in> set js" for j using arr that by (auto simp: list_all_iff)
        show "length (elemsText e ?ts) < m" using len n unfolding shape by simp
      qed
      moreover have "take 1 (skipWs (nl (Suc e) @ elemsText e ?ts @ CHR '']'' # rest)) \<noteq> '']''"
        using start_elems [OF False, of "d - 1"] arr(2) by (simp add: skipWs_append [OF nl_ws])
      ultimately show ?thesis using arr(2) n
        unfolding shape by (simp add: skipWs_id isWs_def parseElems_ws)
    qed
  qed
next
  case (obj d kvs)
  have IH: "parsesTo (d - 1) e' j" if "(k, j) \<in> set kvs" for k j e'
    using obj that by (auto simp: list_all_iff)
  show ?case unfolding parsesTo_def
  proof (intro allI impI)
    fix n and rest :: string
    assume len: "length (printJson nl sp e (JObj kvs)) \<le> n"
    then obtain m where n: "n = Suc m" by (cases n) (auto split: if_splits)
    show "parseValue n d (printJson nl sp e (JObj kvs) @ rest) = Some (validJson (JObj kvs), rest)"
    proof (cases "kvs = []")
      case True
      then show ?thesis using obj n by (simp add: skipWs_id isWs_def)
    next
      case False
      let ?ts = "map (memberText (Suc e)) kvs"
      have shape: "printJson nl sp e (JObj kvs) = CHR ''{'' # nl (Suc e) @ elemsText e ?ts @ ''}''"
        using False by (simp add: elemsText_def memberText_def [abs_def] case_prod_unfold)
      have "parseMembers m (d - 1) (elemsText e ?ts @ CHR ''}'' # rest) =
          Some (map (\<lambda>(k, j). (toValidUTF8 k, validJson j)) kvs, rest)"
      proof (rule parseMembers_print [OF False])
        show "parsesTo (d - 1) (Suc e) j" if "(k, j) \<in> set kvs" for k j using IH that by blast
        show "length (elemsText e ?ts) < m" using len n unfolding shape by simp
      qed
      moreover have "take 1 (skipWs (nl (Suc e) @ elemsText e ?ts @ CHR ''}'' # rest)) \<noteq> ''}''"
        using start_members [OF False] by (simp add: skipWs_append [OF nl_ws])
      ultimately show ?thesis using obj(2) n
        unfolding shape by (simp add: skipWs_id isWs_def parseMembers_ws)
    qed
  qed
next
  case (null d)
  show ?case unfolding parsesTo_def by (auto simp: skipWs_def isWs_def hasPrefix_def dest!: Suc_le_D)
next
  case (bool d v)
  show ?case unfolding parsesTo_def by (auto simp: skipWs_def isWs_def hasPrefix_def dest!: Suc_le_D)
next
  case (str d s)
  show ?case unfolding parsesTo_def
  proof (intro allI impI)
    fix n and rest :: string
    assume "length (printJson nl sp e (JStr s)) \<le> n"
    then obtain m where "n = Suc m" by (cases n) (auto simp: encodeString_def)
    moreover have "skipWs (encodeString s @ rest) = CHR 0x22 # tl (encodeString s) @ rest"
      by (simp add: encodeString_def skipWs_id isWs_def)
    ultimately show "parseValue n d (printJson nl sp e (JStr s) @ rest) = Some (validJson (JStr s), rest)"
      by (simp add: parseStr_encodeString)
  qed
qed

lemma parse_printed:
  assumes "encodable d j" "skipWs t = []" "length (printJson nl sp 0 j @ t) \<le> n"
  shows "parseValue n d (printJson nl sp 0 j @ t) = Some (validJson j, t)"
proof (rule parsesToD [OF parse_print [OF assms(1)]])
  have "isWs (hd t)" if "t \<noteq> []" using that assms(2) by (cases t) (auto simp: skipWs_def split: if_splits)
  then show "t = [] \<or> \<not> numChar (hd t)" using numChar_start by blast
qed (use assms(3) in simp)

end

interpretation compact: printer "\<lambda>_. []" "[]"
  by unfold_locales simp_all

interpretation indented: printer "\<lambda>d. CHR 0x0A # replicate (2 * d) CHR '' ''" "'' ''"
  by unfold_locales (simp_all add: isWs_def list_all_iff)

lemma unmarshal_marshal:
  assumes "encodable maxNestingDepth j"
  shows "unmarshal (marshal j) = Some (validJson j)"
  using compact.parse_printed [OF assms, of "[]" "parseFuel (marshal j)"]
  by (simp add: unmarshal_def marshal_def parseFuel_def skipWs_def)

lemma unmarshal_marshalIndent:
  assumes "encodable maxNestingDepth j"
  shows "unmarshal (marshalIndent j) = Some (validJson j)"
  using indented.parse_printed [OF assms, of "[]" "parseFuel (marshalIndent j)"]
  by (simp add: unmarshal_def marshalIndent_def parseFuel_def skipWs_def)

lemma unmarshal_encodeLine:
  assumes "encodable maxNestingDepth j"
  shows "unmarshal (encodeLine j) = Some (validJson j)"
  using compact.parse_printed [OF assms, of "[CHR 0x0A]" "parseFuel (encodeLine j)"]
  by (simp add: unmarshal_def marshal_def encodeLine_def parseFuel_def skipWs_def isWs_def)

section \<open>Filling structs\<close>

text \<open>
  A decoder takes the value already in place and a JSON value, and returns the new value with a flag
  that is \<open>False\<close> when a type error was recorded; decoding goes on after such an error.
\<close>

type_synonym 'a decoder = "'a \<Rightarrow> json \<Rightarrow> 'a \<times> bool"

definition decodeString :: "string decoder" where
  "decodeString old j =
     (case j of JNull \<Rightarrow> (old, True) | JStr s \<Rightarrow> (s, True) | _ \<Rightarrow> (old, False))"

definition decodeBool :: "bool decoder" where
  "decodeBool old j =
     (case j of JNull \<Rightarrow> (old, True) | JBool b \<Rightarrow> (b, True) | _ \<Rightarrow> (old, False))"

text \<open>
  A slice, where \<open>None\<close> is the nil slice; elements already present are decoded over, and an element
  beyond them starts from the zero value.
\<close>

fun decodeElems :: "'a decoder \<Rightarrow> 'a \<Rightarrow> 'a list \<Rightarrow> json list \<Rightarrow> 'a list \<times> bool" where
  "decodeElems dec zero olds [] = ([], True)"
| "decodeElems dec zero olds (j # js) =
     (let (x, ok) = dec (case olds of [] \<Rightarrow> zero | old # _ \<Rightarrow> old) j;
          (xs, oks) = decodeElems dec zero (tl olds) js in
      (x # xs, ok \<and> oks))"

definition decodeSlice :: "'a decoder \<Rightarrow> 'a \<Rightarrow> 'a list option decoder" where
  "decodeSlice dec zero old j =
     (case j of
        JNull \<Rightarrow> (None, True)
      | JArr js \<Rightarrow> (let (xs, ok) = decodeElems dec zero (case old of None \<Rightarrow> [] | Some ys \<Rightarrow> ys) js in (Some xs, ok))
      | _ \<Rightarrow> (old, False))"

text \<open>
  A \<^verbatim>\<open>map[string]string\<close> is an association list sorted by key, without repetitions; \<open>None\<close> is the nil
  map.
\<close>

fun insertKey :: "string \<Rightarrow> 'a \<Rightarrow> (string \<times> 'a) list \<Rightarrow> (string \<times> 'a) list" where
  "insertKey k v [] = [(k, v)]"
| "insertKey k v ((k', v') # m) =
     (if k < k' then (k, v) # (k', v') # m else if k = k' then (k, v) # m else (k', v') # insertKey k v m)"

definition decodeMap :: "(string \<times> string) list option decoder" where
  "decodeMap old j =
     (case j of
        JNull \<Rightarrow> (None, True)
      | JObj kvs \<Rightarrow>
          (let (m, ok) =
             foldl (\<lambda>(m, ok) (k, v). let (x, ok') = decodeString [] v in (insertKey k x m, ok \<and> ok'))
               (case old of None \<Rightarrow> [] | Some m \<Rightarrow> m, True) kvs
           in (Some m, ok))
      | _ \<Rightarrow> (old, False))"

text \<open>
  The field of a key: the exact name, or else the first name that is equal under case folding (where
  the Kelvin sign folds to K and the long s to S).
\<close>

definition foldRune :: "string \<Rightarrow> string" where
  "foldRune r =
     (case r of [c] \<Rightarrow> if isLower c then [char_of (of_char c - 32 :: nat)] else [c]
      | _ \<Rightarrow> if r = [CHR 0xC5, CHR 0xBF] then ''S''
             else if r = [CHR 0xE2, CHR 0x84, CHR 0xAA] then ''K'' else r)"

definition foldName :: "string \<Rightarrow> string" where
  "foldName s = concat (map foldRune (runes s))"

definition findField :: "string list \<Rightarrow> string \<Rightarrow> string option" where
  "findField names k =
     (if k \<in> set names then Some k else find (\<lambda>n. foldName n = foldName k) names)"

definition decodeStruct :: "string list \<Rightarrow> (string \<Rightarrow> 'a decoder) \<Rightarrow> 'a decoder" where
  "decodeStruct names setField old j =
     (case j of
        JNull \<Rightarrow> (old, True)
      | JObj kvs \<Rightarrow>
          foldl (\<lambda>(x, ok) (k, v).
              case findField names k of
                None \<Rightarrow> (x, ok)
              | Some f \<Rightarrow> let (x', ok') = setField f x v in (x', ok \<and> ok'))
            (old, True) kvs
      | _ \<Rightarrow> (old, False))"

text \<open>\<^verbatim>\<open>json.Unmarshal\<close>: a syntax error leaves the value alone; a type error leaves it partly filled.\<close>

definition unmarshalInto :: "'a decoder \<Rightarrow> 'a \<Rightarrow> string \<Rightarrow> 'a \<times> error option" where
  "unmarshalInto dec old data =
     (case unmarshal data of
        None \<Rightarrow> (old, Some ErrJSON)
      | Some j \<Rightarrow> (let (x, ok) = dec old j in (x, if ok then None else Some ErrJSON)))"

lemma findField_exact [simp]: "k \<in> set names \<Longrightarrow> findField names k = Some k"
  by (simp add: findField_def)

lemma decodeElems_fresh:
  "(\<And>x. x \<in> set xs \<Longrightarrow> dec zero (enc x) = (x, True)) \<Longrightarrow> decodeElems dec zero [] (map enc xs) = (xs, True)"
  by (induction xs) auto

lemma insertKey_last: "(\<And>k' v'. (k', v') \<in> set m \<Longrightarrow> k' < k) \<Longrightarrow> insertKey k v m = m @ [(k, v)]"
proof (induction m)
  case (Cons kv m)
  then show ?case by (cases kv) (fastforce dest: order.strict_trans2 simp: not_less_iff_gr_or_eq)
qed simp

lemma decodeMap_fold:
  assumes "sorted_wrt (\<lambda>a b. fst a < fst b) (m @ kvs)"
  shows "foldl (\<lambda>(m, ok) (k, v). let (x, ok') = decodeString [] v in (insertKey k x m, ok \<and> ok')) (m, True)
           (map (\<lambda>(k, v). (k, JStr v)) kvs) = (m @ kvs, True)"
  using assms
proof (induction kvs arbitrary: m)
  case (Cons kv kvs)
  obtain k v where kv: "kv = (k, v)" by (cases kv)
  have "insertKey k v m = m @ [(k, v)]"
    using Cons.prems kv by (intro insertKey_last) (auto simp: sorted_wrt_append)
  then show ?case using Cons.IH [of "m @ [(k, v)]"] Cons.prems kv by (simp add: decodeString_def)
qed simp

lemma decodeMap_sorted:
  assumes "sorted_wrt (\<lambda>a b. fst a < fst b) kvs"
  shows "decodeMap None (JObj (map (\<lambda>(k, v). (k, JStr v)) kvs)) = (Some kvs, True)"
  using decodeMap_fold [of "[]" kvs] assms by (simp add: decodeMap_def)

text \<open>What was encoded from valid text decodes to itself.\<close>

fun utf8Json :: "json \<Rightarrow> bool" where
  "utf8Json (JStr s) \<longleftrightarrow> validUTF8 s"
| "utf8Json (JArr js) \<longleftrightarrow> list_all utf8Json js"
| "utf8Json (JObj kvs) \<longleftrightarrow> list_all (\<lambda>(k, j). validUTF8 k \<and> utf8Json j) kvs"
| "utf8Json j \<longleftrightarrow> True"

lemma validJson_id: "utf8Json j \<Longrightarrow> validJson j = j"
proof (induction j rule: utf8Json.induct)
  case (2 js)
  then show ?case by (auto simp: list_all_iff intro: map_idI)
next
  case (3 kvs)
  then have "map (\<lambda>(k, j). (toValidUTF8 k, validJson j)) kvs = kvs"
    by (intro map_idI) (auto simp: list_all_iff validUTF8_def)
  then show ?case by simp
qed (simp_all add: validUTF8_def)

lemma unmarshalInto_marshal:
  assumes "encodable maxNestingDepth j" "utf8Json j"
  shows "unmarshalInto dec old (marshal j) = (let (x, ok) = dec old j in (x, if ok then None else Some ErrJSON))"
    "unmarshalInto dec old (marshalIndent j) = (let (x, ok) = dec old j in (x, if ok then None else Some ErrJSON))"
  using assms by (simp_all add: unmarshalInto_def unmarshal_marshal unmarshal_marshalIndent validJson_id)

end
