(* ===== verification/Metadata.thy ===== *)
theory Metadata
  imports Json Semver
begin

text \<open>
  The records the registry keeps as JSON files: the version index, the per-version metadata and the
  per-platform metadata of \<^verbatim>\<open>registry-server/storage.go\<close>, and the module artifact record of
  \<^verbatim>\<open>registry-server/main.go\<close>, with the encoders and decoders their struct tags define.  The theorems are
  the round trips of these files.
\<close>

section \<open>Data\<close>

text \<open>\<open>None\<close> is Go's nil slice or nil map; a map is an association list sorted by key.\<close>

record Index =
  Versions :: "string list option"
  IMetadata :: "(string \<times> string) list option"

record PlatformMeta =
  OS :: string
  Arch :: string
  Filename :: string
  Shasum :: string
  Protocols :: "string list option"

record VersionMetadata =
  VVersion :: string
  Description :: string
  Deprecated :: bool
  Deprecation :: string
  GPGKeyID :: string
  GPGKeyArmor :: string
  Platforms :: "PlatformMeta list option"
  VMetadata :: "(string \<times> string) list option"

record ModuleArtifactMeta =
  MFilename :: string
  SHA256 :: string

text \<open>The zero values.\<close>

definition zeroIndex :: Index where
  "zeroIndex = \<lparr>Versions = None, IMetadata = None\<rparr>"

definition zeroPlatformMeta :: PlatformMeta where
  "zeroPlatformMeta = \<lparr>OS = [], Arch = [], Filename = [], Shasum = [], Protocols = None\<rparr>"

definition zeroVersionMetadata :: VersionMetadata where
  "zeroVersionMetadata =
     \<lparr>VVersion = [], Description = [], Deprecated = False, Deprecation = [], GPGKeyID = [],
      GPGKeyArmor = [], Platforms = None, VMetadata = None\<rparr>"

definition zeroModuleArtifactMeta :: ModuleArtifactMeta where
  "zeroModuleArtifactMeta = \<lparr>MFilename = [], SHA256 = []\<rparr>"

section \<open>Encoders\<close>

text \<open>\<^verbatim>\<open>omitempty\<close> leaves out an empty string, a false flag and an empty or nil slice or map.\<close>

definition encodeSlice :: "('a \<Rightarrow> json) \<Rightarrow> 'a list option \<Rightarrow> json" where
  "encodeSlice enc xs = (case xs of None \<Rightarrow> JNull | Some ys \<Rightarrow> JArr (map enc ys))"

definition encodeMap :: "(string \<times> string) list option \<Rightarrow> json" where
  "encodeMap m = (case m of None \<Rightarrow> JNull | Some kvs \<Rightarrow> JObj (map (\<lambda>(k, v). (k, JStr v)) kvs))"

definition isEmpty :: "'a list option \<Rightarrow> bool" where
  "isEmpty xs \<longleftrightarrow> xs = None \<or> xs = Some []"

definition optional :: "bool \<Rightarrow> string \<Rightarrow> json \<Rightarrow> (string \<times> json) list" where
  "optional omit k j = (if omit then [] else [(k, j)])"

definition encodeIndex :: "Index \<Rightarrow> json" where
  "encodeIndex idx =
     JObj ((''versions'', encodeSlice JStr (Versions idx)) #
           optional (isEmpty (IMetadata idx)) ''metadata'' (encodeMap (IMetadata idx)))"

definition encodePlatformMeta :: "PlatformMeta \<Rightarrow> json" where
  "encodePlatformMeta pm =
     JObj ([(''os'', JStr (OS pm)), (''arch'', JStr (Arch pm)), (''filename'', JStr (Filename pm)),
            (''shasum'', JStr (Shasum pm))] @
           optional (isEmpty (Protocols pm)) ''protocols'' (encodeSlice JStr (Protocols pm)))"

definition encodeVersionMetadata :: "VersionMetadata \<Rightarrow> json" where
  "encodeVersionMetadata m =
     JObj ([(''version'', JStr (VVersion m))] @
           optional (Description m = []) ''description'' (JStr (Description m)) @
           optional (\<not> Deprecated m) ''deprecated'' (JBool (Deprecated m)) @
           optional (Deprecation m = []) ''deprecation_message'' (JStr (Deprecation m)) @
           optional (GPGKeyID m = []) ''gpg_key_id'' (JStr (GPGKeyID m)) @
           optional (GPGKeyArmor m = []) ''gpg_key_armor'' (JStr (GPGKeyArmor m)) @
           optional (isEmpty (Platforms m)) ''platforms'' (encodeSlice encodePlatformMeta (Platforms m)) @
           optional (isEmpty (VMetadata m)) ''metadata'' (encodeMap (VMetadata m)))"

definition encodeModuleArtifactMeta :: "ModuleArtifactMeta \<Rightarrow> json" where
  "encodeModuleArtifactMeta m = JObj [(''filename'', JStr (MFilename m)), (''sha256'', JStr (SHA256 m))]"

section \<open>Decoders\<close>

definition setIndexField :: "string \<Rightarrow> Index decoder" where
  "setIndexField f idx j =
     (if f = ''versions'' then
        (let (x, ok) = decodeSlice decodeString [] (Versions idx) j in (idx\<lparr>Versions := x\<rparr>, ok))
      else (let (x, ok) = decodeMap (IMetadata idx) j in (idx\<lparr>IMetadata := x\<rparr>, ok)))"

definition decodeIndex :: "Index decoder" where
  "decodeIndex = decodeStruct [''versions'', ''metadata''] setIndexField"

definition setPlatformField :: "string \<Rightarrow> PlatformMeta decoder" where
  "setPlatformField f pm j =
     (if f = ''os'' then (let (x, ok) = decodeString (OS pm) j in (pm\<lparr>OS := x\<rparr>, ok))
      else if f = ''arch'' then (let (x, ok) = decodeString (Arch pm) j in (pm\<lparr>Arch := x\<rparr>, ok))
      else if f = ''filename'' then (let (x, ok) = decodeString (Filename pm) j in (pm\<lparr>Filename := x\<rparr>, ok))
      else if f = ''shasum'' then (let (x, ok) = decodeString (Shasum pm) j in (pm\<lparr>Shasum := x\<rparr>, ok))
      else (let (x, ok) = decodeSlice decodeString [] (Protocols pm) j in (pm\<lparr>Protocols := x\<rparr>, ok)))"

definition decodePlatformMeta :: "PlatformMeta decoder" where
  "decodePlatformMeta =
     decodeStruct [''os'', ''arch'', ''filename'', ''shasum'', ''protocols''] setPlatformField"

definition setVersionField :: "string \<Rightarrow> VersionMetadata decoder" where
  "setVersionField f m j =
     (if f = ''version'' then (let (x, ok) = decodeString (VVersion m) j in (m\<lparr>VVersion := x\<rparr>, ok))
      else if f = ''description'' then (let (x, ok) = decodeString (Description m) j in (m\<lparr>Description := x\<rparr>, ok))
      else if f = ''deprecated'' then (let (x, ok) = decodeBool (Deprecated m) j in (m\<lparr>Deprecated := x\<rparr>, ok))
      else if f = ''deprecation_message'' then
        (let (x, ok) = decodeString (Deprecation m) j in (m\<lparr>Deprecation := x\<rparr>, ok))
      else if f = ''gpg_key_id'' then (let (x, ok) = decodeString (GPGKeyID m) j in (m\<lparr>GPGKeyID := x\<rparr>, ok))
      else if f = ''gpg_key_armor'' then (let (x, ok) = decodeString (GPGKeyArmor m) j in (m\<lparr>GPGKeyArmor := x\<rparr>, ok))
      else if f = ''platforms'' then
        (let (x, ok) = decodeSlice decodePlatformMeta zeroPlatformMeta (Platforms m) j in (m\<lparr>Platforms := x\<rparr>, ok))
      else (let (x, ok) = decodeMap (VMetadata m) j in (m\<lparr>VMetadata := x\<rparr>, ok)))"

definition decodeVersionMetadata :: "VersionMetadata decoder" where
  "decodeVersionMetadata =
     decodeStruct [''version'', ''description'', ''deprecated'', ''deprecation_message'', ''gpg_key_id'',
                   ''gpg_key_armor'', ''platforms'', ''metadata''] setVersionField"

definition setModuleField :: "string \<Rightarrow> ModuleArtifactMeta decoder" where
  "setModuleField f m j =
     (if f = ''filename'' then (let (x, ok) = decodeString (MFilename m) j in (m\<lparr>MFilename := x\<rparr>, ok))
      else (let (x, ok) = decodeString (SHA256 m) j in (m\<lparr>SHA256 := x\<rparr>, ok)))"

definition decodeModuleArtifactMeta :: "ModuleArtifactMeta decoder" where
  "decodeModuleArtifactMeta = decodeStruct [''filename'', ''sha256''] setModuleField"

section \<open>Round trips\<close>

text \<open>
  The values that a file can hold: valid text, and the empty slices and maps that \<^verbatim>\<open>omitempty\<close> drops
  are nil.
\<close>

definition textSlice :: "string list option \<Rightarrow> bool" where
  "textSlice xs \<longleftrightarrow> (case xs of None \<Rightarrow> True | Some ys \<Rightarrow> list_all validUTF8 ys)"

definition textMap :: "(string \<times> string) list option \<Rightarrow> bool" where
  "textMap m \<longleftrightarrow>
     (case m of None \<Rightarrow> True
      | Some kvs \<Rightarrow> kvs \<noteq> [] \<and> sorted_wrt (\<lambda>a b. fst a < fst b) kvs \<and>
          list_all (\<lambda>(k, v). validUTF8 k \<and> validUTF8 v) kvs)"

definition indexOk :: "Index \<Rightarrow> bool" where
  "indexOk idx \<longleftrightarrow> textSlice (Versions idx) \<and> textMap (IMetadata idx)"

definition platformOk :: "PlatformMeta \<Rightarrow> bool" where
  "platformOk pm \<longleftrightarrow> validUTF8 (OS pm) \<and> validUTF8 (Arch pm) \<and> validUTF8 (Filename pm) \<and>
     validUTF8 (Shasum pm) \<and> textSlice (Protocols pm) \<and> Protocols pm \<noteq> Some []"

definition versionMetadataOk :: "VersionMetadata \<Rightarrow> bool" where
  "versionMetadataOk m \<longleftrightarrow> validUTF8 (VVersion m) \<and> validUTF8 (Description m) \<and> validUTF8 (Deprecation m) \<and>
     validUTF8 (GPGKeyID m) \<and> validUTF8 (GPGKeyArmor m) \<and>
     (case Platforms m of None \<Rightarrow> True | Some ps \<Rightarrow> ps \<noteq> [] \<and> list_all platformOk ps) \<and> textMap (VMetadata m)"

definition moduleMetaOk :: "ModuleArtifactMeta \<Rightarrow> bool" where
  "moduleMetaOk m \<longleftrightarrow> validUTF8 (MFilename m) \<and> validUTF8 (SHA256 m)"

lemma decodeSlice_strings: "decodeSlice decodeString [] None (encodeSlice JStr xs) = (xs, True)"
  using decodeElems_fresh [of _ decodeString "[]" JStr]
  by (cases xs) (auto simp: decodeSlice_def encodeSlice_def decodeString_def)

lemma decodeMap_encode: "textMap m \<Longrightarrow> decodeMap None (encodeMap m) = (m, True)"
  by (cases m) (simp_all add: encodeMap_def decodeMap_sorted textMap_def, simp add: decodeMap_def)

lemma decodeStruct_Nil: "decodeStruct names setF x (JObj []) = (x, True)"
  by (simp add: decodeStruct_def)

lemma decodeStruct_Cons:
  assumes "k \<in> set names" "setF k x v = (y, True)"
  shows "decodeStruct names setF x (JObj ((k, v) # kvs)) = decodeStruct names setF y (JObj kvs)"
  using assms by (simp add: decodeStruct_def)

lemma decodeStruct_optional:
  assumes "\<not> omit \<Longrightarrow> k \<in> set names \<and> setF k x v = (y, True)" "omit \<Longrightarrow> x = y"
  shows "decodeStruct names setF x (JObj (optional omit k v @ kvs)) = decodeStruct names setF y (JObj kvs)"
  using assms by (simp add: decodeStruct_Cons optional_def)

lemma decodeIndex_encode:
  assumes "indexOk idx"
  shows "decodeIndex zeroIndex (encodeIndex idx) = (idx, True)"
proof -
  have "decodeMap None (encodeMap (IMetadata idx)) = (IMetadata idx, True)"
    using assms decodeMap_encode by (simp add: indexOk_def)
  moreover have "isEmpty (IMetadata idx) \<Longrightarrow> IMetadata idx = None"
    using assms by (auto simp: indexOk_def textMap_def isEmpty_def)
  ultimately show ?thesis
    by (cases idx) (auto simp: decodeIndex_def encodeIndex_def zeroIndex_def setIndexField_def optional_def
      decodeSlice_strings decodeStruct_def)
qed

lemma decodePlatformMeta_encode:
  assumes "platformOk pm"
  shows "decodePlatformMeta zeroPlatformMeta (encodePlatformMeta pm) = (pm, True)"
  using assms
  by (cases pm) (auto simp: decodePlatformMeta_def encodePlatformMeta_def zeroPlatformMeta_def setPlatformField_def
    optional_def decodeSlice_strings decodeStruct_def platformOk_def isEmpty_def decodeString_def)

lemma decodeModuleArtifactMeta_encode:
  "decodeModuleArtifactMeta zeroModuleArtifactMeta (encodeModuleArtifactMeta m) = (m, True)"
  by (cases m) (simp add: decodeModuleArtifactMeta_def encodeModuleArtifactMeta_def zeroModuleArtifactMeta_def
    setModuleField_def decodeStruct_def decodeString_def)

lemma decodeSlice_platforms:
  assumes "case ps of None \<Rightarrow> True | Some qs \<Rightarrow> list_all platformOk qs"
  shows "decodeSlice decodePlatformMeta zeroPlatformMeta None (encodeSlice encodePlatformMeta ps) = (ps, True)"
proof (cases ps)
  case (Some qs)
  then have "decodeElems decodePlatformMeta zeroPlatformMeta [] (map encodePlatformMeta qs) = (qs, True)"
    using assms by (intro decodeElems_fresh decodePlatformMeta_encode) (simp add: list_all_iff)
  then show ?thesis using Some by (simp add: decodeSlice_def encodeSlice_def)
qed (simp add: decodeSlice_def encodeSlice_def)

lemma decodeVersionMetadata_encode:
  assumes "versionMetadataOk m"
  shows "decodeVersionMetadata zeroVersionMetadata (encodeVersionMetadata m) = (m, True)"
proof -
  define dec where "dec = decodeStruct [''version'', ''description'', ''deprecated'', ''deprecation_message'',
    ''gpg_key_id'', ''gpg_key_armor'', ''platforms'', ''metadata''] setVersionField"
  define m1 where "m1 = zeroVersionMetadata\<lparr>VVersion := VVersion m\<rparr>"
  define m2 where "m2 = m1\<lparr>Description := Description m\<rparr>"
  define m3 where "m3 = m2\<lparr>Deprecated := Deprecated m\<rparr>"
  define m4 where "m4 = m3\<lparr>Deprecation := Deprecation m\<rparr>"
  define m5 where "m5 = m4\<lparr>GPGKeyID := GPGKeyID m\<rparr>"
  define m6 where "m6 = m5\<lparr>GPGKeyArmor := GPGKeyArmor m\<rparr>"
  define m7 where "m7 = m6\<lparr>Platforms := Platforms m\<rparr>"
  note ms = m1_def m2_def m3_def m4_def m5_def m6_def m7_def zeroVersionMetadata_def
  have sets: "setVersionField ''version'' zeroVersionMetadata (JStr (VVersion m)) = (m1, True)"
    "setVersionField ''description'' m1 (JStr (Description m)) = (m2, True)"
    "setVersionField ''deprecated'' m2 (JBool (Deprecated m)) = (m3, True)"
    "setVersionField ''deprecation_message'' m3 (JStr (Deprecation m)) = (m4, True)"
    "setVersionField ''gpg_key_id'' m4 (JStr (GPGKeyID m)) = (m5, True)"
    "setVersionField ''gpg_key_armor'' m5 (JStr (GPGKeyArmor m)) = (m6, True)"
    by (simp_all add: setVersionField_def ms decodeString_def decodeBool_def)
  have ps: "setVersionField ''platforms'' m6 (encodeSlice encodePlatformMeta (Platforms m)) = (m7, True)"
    using assms decodeSlice_platforms [of "Platforms m"]
    by (simp add: setVersionField_def ms versionMetadataOk_def split: option.splits)
  have mm: "setVersionField ''metadata'' m7 (encodeMap (VMetadata m)) = (m, True)"
    using assms decodeMap_encode [of "VMetadata m"] by (simp add: setVersionField_def ms versionMetadataOk_def)
  have skips: "Description m = [] \<Longrightarrow> m1 = m2" "\<not> Deprecated m \<Longrightarrow> m2 = m3" "Deprecation m = [] \<Longrightarrow> m3 = m4"
    "GPGKeyID m = [] \<Longrightarrow> m4 = m5" "GPGKeyArmor m = [] \<Longrightarrow> m5 = m6"
    "isEmpty (Platforms m) \<Longrightarrow> m6 = m7" "isEmpty (VMetadata m) \<Longrightarrow> m7 = m"
    using assms by (auto simp: ms versionMetadataOk_def isEmpty_def textMap_def split: option.splits)
  show ?thesis
    unfolding decodeVersionMetadata_def encodeVersionMetadata_def append_Cons append_Nil
    using sets ps mm skips
      decodeStruct_optional [where kvs = "[]", of "isEmpty (VMetadata m)" "''metadata''" _ setVersionField m7 _ m]
    by (simp add: decodeStruct_Cons decodeStruct_optional decodeStruct_Nil)
qed

lemma encodable_flat: "encodable (Suc d) (encodeSlice JStr xs)" "encodable (Suc d) (encodeMap m)"
  by (auto simp: encodeSlice_def encodeMap_def list_all_iff split: option.splits)

lemma utf8_flat: "textSlice xs \<Longrightarrow> utf8Json (encodeSlice JStr xs)" "textMap m \<Longrightarrow> utf8Json (encodeMap m)"
  by (auto simp: encodeSlice_def encodeMap_def textSlice_def textMap_def list_all_iff split: option.splits)

lemma encodable_optional [simp]:
  "list_all (\<lambda>(k, j). encodable d j) (optional omit k j) \<longleftrightarrow> omit \<or> encodable d j"
  "list_all (\<lambda>(k, j). validUTF8 k \<and> utf8Json j) (optional omit k j) \<longleftrightarrow> omit \<or> (validUTF8 k \<and> utf8Json j)"
  by (auto simp: optional_def)

lemma encodable_platform: "encodable (Suc (Suc d)) (encodePlatformMeta pm)"
  by (simp add: encodePlatformMeta_def encodable_flat)

lemma utf8_platform: "platformOk pm \<Longrightarrow> utf8Json (encodePlatformMeta pm)"
  by (simp add: encodePlatformMeta_def utf8_flat platformOk_def validUTF8_ascii)

lemma encodable_index: "encodable (Suc (Suc d)) (encodeIndex idx)"
  by (simp add: encodeIndex_def encodable_flat)

lemma utf8_index: "indexOk idx \<Longrightarrow> utf8Json (encodeIndex idx)"
  by (simp add: encodeIndex_def utf8_flat indexOk_def validUTF8_ascii)

lemma encodable_platforms: "encodable (Suc (Suc (Suc d))) (encodeSlice encodePlatformMeta ps)"
  by (auto simp: encodable_platform encodeSlice_def list_all_iff split: option.splits)

lemma utf8_platforms:
  "(case ps of None \<Rightarrow> True | Some qs \<Rightarrow> list_all platformOk qs) \<Longrightarrow> utf8Json (encodeSlice encodePlatformMeta ps)"
  by (auto simp: utf8_platform encodeSlice_def list_all_iff split: option.splits)

lemma encodable_versionMetadata: "encodable (Suc (Suc (Suc (Suc d)))) (encodeVersionMetadata m)"
  by (simp add: encodeVersionMetadata_def encodable_flat encodable_platforms)

lemma utf8_versionMetadata: "versionMetadataOk m \<Longrightarrow> utf8Json (encodeVersionMetadata m)"
  using utf8_platforms [of "Platforms m"]
  by (simp add: encodeVersionMetadata_def utf8_flat versionMetadataOk_def validUTF8_ascii split: option.splits)

lemma depth_ok: "maxNestingDepth = Suc (Suc (Suc (Suc 9996)))"
  by (simp add: maxNestingDepth_def)

lemma encodable_max:
  "encodable maxNestingDepth (encodeIndex idx)"
  "encodable maxNestingDepth (encodePlatformMeta pm)"
  "encodable maxNestingDepth (encodeVersionMetadata m)"
  unfolding depth_ok by (rule encodable_index encodable_platform encodable_versionMetadata)+

section \<open>Files\<close>

lemma index_file:
  "indexOk idx \<Longrightarrow> unmarshalInto decodeIndex zeroIndex (marshalIndent (encodeIndex idx)) = (idx, None)"
  by (subst unmarshalInto_marshal) (simp_all add: encodable_max utf8_index decodeIndex_encode)

lemma platform_file:
  "platformOk pm \<Longrightarrow> unmarshalInto decodePlatformMeta zeroPlatformMeta (marshal (encodePlatformMeta pm)) = (pm, None)"
  by (subst unmarshalInto_marshal) (simp_all add: encodable_max utf8_platform decodePlatformMeta_encode)

lemma versionMetadata_file:
  "versionMetadataOk m \<Longrightarrow>
     unmarshalInto decodeVersionMetadata zeroVersionMetadata (marshalIndent (encodeVersionMetadata m)) = (m, None)"
  by (subst unmarshalInto_marshal)
     (simp_all add: encodable_max utf8_versionMetadata decodeVersionMetadata_encode)

lemma moduleArtifact_file:
  assumes "moduleMetaOk m"
  shows "unmarshalInto decodeModuleArtifactMeta zeroModuleArtifactMeta (marshal (encodeModuleArtifactMeta m)) = (m, None)"
proof -
  have "utf8Json (encodeModuleArtifactMeta m)" "encodable maxNestingDepth (encodeModuleArtifactMeta m)"
    using assms by (simp_all add: encodeModuleArtifactMeta_def moduleMetaOk_def validUTF8_ascii maxNestingDepth_def)
  then show ?thesis by (subst unmarshalInto_marshal) (simp_all add: decodeModuleArtifactMeta_encode)
qed

section \<open>Properties\<close>

text \<open>
  C26. The registry reads back every record it writes: a version index and a version's metadata written
  by \<^verbatim>\<open>MarshalIndent\<close>, and a platform record written by \<^verbatim>\<open>Marshal\<close>, decode without error to the record
  that was encoded, for all valid UTF-8 texts, quotes, control characters and HTML characters
  included.
\<close>

theorem metadata_files_roundtrip:
  assumes "indexOk idx" "versionMetadataOk m" "platformOk pm"
  shows "unmarshalInto decodeIndex zeroIndex (marshalIndent (encodeIndex idx)) = (idx, None) \<and>
    unmarshalInto decodeVersionMetadata zeroVersionMetadata (marshalIndent (encodeVersionMetadata m)) = (m, None) \<and>
    unmarshalInto decodePlatformMeta zeroPlatformMeta (marshal (encodePlatformMeta pm)) = (pm, None)"
  using index_file versionMetadata_file platform_file assms by blast

theorem metadata_files_roundtrip_witness:
  "let idx = \<lparr>Versions = Some [''1.0.0'', ''1.1.0-rc.1''], IMetadata = Some [(''1.0.0'', ''<first>'')]\<rparr>;
       pm = \<lparr>OS = ''linux'', Arch = ''amd64'', Filename = ''p.zip'', Shasum = ''ab'', Protocols = Some [''5.0'']\<rparr>;
       m = zeroVersionMetadata\<lparr>VVersion := ''1.0.0'', Deprecated := True, Deprecation := [CHR 0x22, CHR 0x0A],
                               Platforms := Some [pm]\<rparr> in
   indexOk idx \<and> versionMetadataOk m \<and> platformOk pm \<and>
   unmarshalInto decodeVersionMetadata zeroVersionMetadata (marshalIndent (encodeVersionMetadata m)) = (m, None)"
proof -
  define idx where "idx = \<lparr>Versions = Some [''1.0.0'', ''1.1.0-rc.1''], IMetadata = Some [(''1.0.0'', ''<first>'')]\<rparr>"
  define pm where "pm = \<lparr>OS = ''linux'', Arch = ''amd64'', Filename = ''p.zip'', Shasum = ''ab'', Protocols = Some [''5.0'']\<rparr>"
  define m where "m = zeroVersionMetadata\<lparr>VVersion := ''1.0.0'', Deprecated := True, Deprecation := [CHR 0x22, CHR 0x0A],
    Platforms := Some [pm]\<rparr>"
  have i: "indexOk idx" by (simp add: idx_def indexOk_def textSlice_def textMap_def validUTF8_ascii)
  have p: "platformOk pm" by (simp add: pm_def platformOk_def textSlice_def validUTF8_ascii)
  have v: "versionMetadataOk m"
    using p by (simp add: m_def versionMetadataOk_def textMap_def validUTF8_ascii zeroVersionMetadata_def)
  show ?thesis
    using metadata_files_roundtrip [OF i v p] i v p
    unfolding Let_def idx_def [symmetric] pm_def [symmetric] m_def [symmetric] by blast
qed

end
