(* ===== verification/Counters.thy ===== *)
theory Counters
  imports Prelude
begin

text \<open>
  The counters of \<^verbatim>\<open>registry-server/metrics.go\<close>.  They are atomic 64-bit integers that every handler can
  increment, so they are part of the state all programs of the model run on.
\<close>

text \<open>\<^verbatim>\<open>startTime\<close> is in nanoseconds.\<close>

record RegistryMetrics =
  RequestsTotal :: "64 word"
  RequestsOK :: "64 word"
  RequestsErr :: "64 word"
  ProviderUploads :: "64 word"
  ProviderDownloads :: "64 word"
  ModuleUploads :: "64 word"
  ModuleDownloads :: "64 word"
  AuthFailures :: "64 word"
  RateLimitHits :: "64 word"
  ScanQueuedTotal :: "64 word"
  ScanCompletedTotal :: "64 word"
  ScanErrorTotal :: "64 word"
  ScanQueueDepth :: "64 word"
  ScanRunning :: "64 word"
  ScanFindingsCritical :: "64 word"
  ScanFindingsHigh :: "64 word"
  ScanFindingsMedium :: "64 word"
  ScanFindingsLow :: "64 word"
  startTime :: int

definition NewMetrics :: "int \<Rightarrow> RegistryMetrics" where
  "NewMetrics now =
     \<lparr>RequestsTotal = 0, RequestsOK = 0, RequestsErr = 0, ProviderUploads = 0, ProviderDownloads = 0,
      ModuleUploads = 0, ModuleDownloads = 0, AuthFailures = 0, RateLimitHits = 0, ScanQueuedTotal = 0,
      ScanCompletedTotal = 0, ScanErrorTotal = 0, ScanQueueDepth = 0, ScanRunning = 0,
      ScanFindingsCritical = 0, ScanFindingsHigh = 0, ScanFindingsMedium = 0, ScanFindingsLow = 0,
      startTime = now\<rparr>"

end
