(* ===== verification/OS.thy ===== *)
theory OS
  imports Paths Counters "HOL-Library.State_Monad"
begin

text \<open>
  The operating system under the storage layer: a file system with directories, regular files and
  symbolic links, and the calls of Go's \<^verbatim>\<open>os\<close> and \<^verbatim>\<open>path/filepath\<close> packages that the registry makes.

  Every call may fail or the machine may stop in it.  Which calls do is given by a list of faults in
  the state, one per call, so that a theorem over all states speaks of every failure and every crash
  point.  After a crash no call has an effect any more: the final state is what the disk holds, which
  is also what a concurrent reader could have seen at that moment.
\<close>

section \<open>The state\<close>

text \<open>Absolute paths are lists of components; a file has its contents, whether they are synced, and a time stamp.\<close>

type_synonym path = "string list"

datatype node =
    File bytes bool int
  | Dir
  | Link string int

type_synonym fsys = "(path \<times> node) list"

text \<open>
  \<open>Fail k\<close> is an I/O error and \<open>Crash k\<close> the end of the process, in a call that may have done the first
  \<open>k\<close> units of its work.
\<close>

datatype fault = Pass | Fail nat | Crash nat

text \<open>
  \<open>rand\<close> holds the random numbers to come; \<open>held\<close> the names of the locked mutexes and \<open>stuck\<close>
  whether the program has tried to lock one of them again, which never returns; \<open>metrics\<close> the counters of
  the process.
\<close>

record world =
  fs :: fsys
  faults :: "fault list"
  crashed :: bool
  clock :: int
  rand :: "nat list"
  held :: "string list"
  stuck :: bool
  metrics :: RegistryMetrics

type_synonym 'a io = "(world, 'a) state"

definition fsGet :: "fsys \<Rightarrow> path \<Rightarrow> node option" where
  "fsGet f p = (if p = [] then Some Dir else map_of f p)"

definition fsPut :: "path \<Rightarrow> node \<Rightarrow> fsys \<Rightarrow> fsys" where
  "fsPut p n f = (p, n) # filter (\<lambda>(k, _). k \<noteq> p) f"

definition fsDel :: "path \<Rightarrow> fsys \<Rightarrow> fsys" where
  "fsDel p f = filter (\<lambda>(k, _). k \<noteq> p) f"

definition fsDelTree :: "path \<Rightarrow> fsys \<Rightarrow> fsys" where
  "fsDelTree p f = filter (\<lambda>(k, _). \<not> prefix p k) f"

definition fsMove :: "path \<Rightarrow> path \<Rightarrow> fsys \<Rightarrow> fsys" where
  "fsMove src dst f =
     map (\<lambda>(k, n). (if prefix src k then dst @ drop (length src) k else k, n))
       (filter (\<lambda>(k, _). \<not> prefix dst k) f)"

definition hasChildren :: "fsys \<Rightarrow> path \<Rightarrow> bool" where
  "hasChildren f p \<longleftrightarrow> list_ex (\<lambda>(k, _). strict_prefix p k) f"

section \<open>Path resolution\<close>

text \<open>
  The walk of the kernel and of \<^verbatim>\<open>filepath.EvalSymlinks\<close>: \<open>acc\<close> is the directory reached, \<open>n\<close> the number
  of symbolic links that may still be followed.  With \<open>create\<close> the last component may be missing.
\<close>

function canon :: "bool \<Rightarrow> fsys \<Rightarrow> nat \<Rightarrow> path \<Rightarrow> string list \<Rightarrow> path result" where
  "canon create f n acc [] = Inr acc"
| "canon create f n acc (c # cs) =
     (if c = [] \<or> c = ''.'' then canon create f n acc cs
      else if c = ''..'' then canon create f n (butlast acc) cs
      else case fsGet f (acc @ [c]) of
             None \<Rightarrow> if create \<and> cs = [] then Inr (acc @ [c]) else Inl ErrNotExist
           | Some Dir \<Rightarrow> canon create f n (acc @ [c]) cs
           | Some (File _ _ _) \<Rightarrow> if cs = [] then Inr (acc @ [c]) else Inl ErrNotDir
           | Some (Link target _) \<Rightarrow>
               (case n of
                  0 \<Rightarrow> Inl ErrLoop
                | Suc m \<Rightarrow> canon create f m (if hasPrefix target ''/'' then [] else acc)
                            (splitAt CHR ''/'' target @ cs)))"
  by pat_completeness auto
termination
  by (relation "measures [\<lambda>(_, _, n, _, _). n, \<lambda>(_, _, _, _, cs). length cs]") auto

text \<open>The link limits of the Linux kernel and of \<^verbatim>\<open>EvalSymlinks\<close>.\<close>

definition kernelLinks :: nat where "kernelLinks = 40"
definition evalLinks :: nat where "evalLinks = 255"

text \<open>The place of the last component, which is not followed itself.\<close>

definition place :: "fsys \<Rightarrow> path \<Rightarrow> path result" where
  "place f p =
     (if p = [] then Inr []
      else case canon False f kernelLinks [] (butlast p) of
             Inl e \<Rightarrow> Inl e
           | Inr d \<Rightarrow> if fsGet f d = Some Dir then Inr (d @ [last p]) else Inl ErrNotDir)"

text \<open>
  A path string as the kernel reads it from the working directory: empty components and dots do nothing, except
  that a last one asks for a directory.
\<close>

definition osPath :: "path \<Rightarrow> string \<Rightarrow> path" where
  "osPath cwd p =
     (let parts = splitAt CHR ''/'' p; comps = filter (\<lambda>c. c \<noteq> [] \<and> c \<noteq> ''.'') parts in
      (if hasPrefix p ''/'' then [] else cwd) @ comps @
      (if comps \<noteq> [] \<and> (last parts = [] \<or> last parts = ''.'') then [''.''] else []))"

text \<open>\<^verbatim>\<open>os.Getenv\<close>: of several entries with one key the first counts (\<^verbatim>\<open>copyenv\<close> of package \<^verbatim>\<open>syscall\<close>).\<close>

definition lookupEnv :: "string list \<Rightarrow> string \<Rightarrow> string" where
  "lookupEnv env key =
     (case find (\<lambda>entry. case cutAt CHR ''='' entry of (k, _, found) \<Rightarrow> found \<and> k = key) env of
        None \<Rightarrow> []
      | Some entry \<Rightarrow> (case cutAt CHR ''='' entry of (_, v, _) \<Rightarrow> v))"

section \<open>Calls\<close>

text \<open>One call: \<open>part k\<close> is what the first \<open>k\<close> units of its work do, \<open>act\<close> the whole of it.\<close>

definition syscall :: "(nat \<Rightarrow> world \<Rightarrow> world) \<Rightarrow> (world \<Rightarrow> 'a result \<times> world) \<Rightarrow> 'a result io" where
  "syscall part act = State (\<lambda>w.
     if crashed w then (Inl ErrCrashed, w)
     else case faults w of
            [] \<Rightarrow> act w
          | Pass # fls \<Rightarrow> act (w\<lparr>faults := fls\<rparr>)
          | Fail k # fls \<Rightarrow> (Inl ErrIO, part k (w\<lparr>faults := fls\<rparr>))
          | Crash k # fls \<Rightarrow> (Inl ErrCrashed, (part k (w\<lparr>faults := fls\<rparr>))\<lparr>crashed := True\<rparr>))"

abbreviation atomically :: "(world \<Rightarrow> 'a result \<times> world) \<Rightarrow> 'a result io" where
  "atomically act \<equiv> syscall (\<lambda>_ w. w) act"

text \<open>A call that only looks.\<close>

definition query :: "(world \<Rightarrow> 'a result) \<Rightarrow> 'a result io" where
  "query q = atomically (\<lambda>w. (q w, w))"

record FileInfo =
  isDirectory :: bool
  modTime :: int

fun nodeInfo :: "node \<Rightarrow> FileInfo" where
  "nodeInfo Dir = \<lparr>isDirectory = True, modTime = 0\<rparr>"
| "nodeInfo (File _ _ t) = \<lparr>isDirectory = False, modTime = t\<rparr>"
| "nodeInfo (Link _ t) = \<lparr>isDirectory = False, modTime = t\<rparr>"

definition statNode :: "fsys \<Rightarrow> path \<Rightarrow> node result" where
  "statNode f p =
     (case canon False f kernelLinks [] p of
        Inl e \<Rightarrow> Inl e
      | Inr q \<Rightarrow> (case fsGet f q of None \<Rightarrow> Inl ErrNotExist | Some n \<Rightarrow> Inr n))"

definition lstatNode :: "fsys \<Rightarrow> path \<Rightarrow> node result" where
  "lstatNode f p =
     (case place f p of
        Inl e \<Rightarrow> Inl e
      | Inr q \<Rightarrow> (case fsGet f q of None \<Rightarrow> Inl ErrNotExist | Some n \<Rightarrow> Inr n))"

definition osStat :: "path \<Rightarrow> FileInfo result io" where
  "osStat p = query (\<lambda>w. map_sum id nodeInfo (statNode (fs w) p))"

definition osLstat :: "path \<Rightarrow> FileInfo result io" where
  "osLstat p = query (\<lambda>w. map_sum id nodeInfo (lstatNode (fs w) p))"

definition osEvalSymlinks :: "path \<Rightarrow> path result io" where
  "osEvalSymlinks p = query (\<lambda>w. canon False (fs w) evalLinks [] p)"

definition osReadFile :: "path \<Rightarrow> bytes result io" where
  "osReadFile p = query (\<lambda>w.
     case statNode (fs w) p of
       Inl e \<Rightarrow> Inl e
     | Inr (File d _ _) \<Rightarrow> Inr d
     | Inr _ \<Rightarrow> Inl ErrIsDir)"

text \<open>\<^verbatim>\<open>os.Open\<close> for reading, of a file or a directory.\<close>

definition osOpen :: "path \<Rightarrow> path result io" where
  "osOpen p = query (\<lambda>w.
     case canon False (fs w) kernelLinks [] p of
       Inl e \<Rightarrow> Inl e
     | Inr q \<Rightarrow> if fsGet (fs w) q = None then Inl ErrNotExist else Inr q)"

text \<open>What an open handle denotes: \<^verbatim>\<open>File.Stat\<close> together with the contents behind it.\<close>

definition osFstat :: "path \<Rightarrow> node result io" where
  "osFstat h = query (\<lambda>w. case fsGet (fs w) h of None \<Rightarrow> Inl ErrNotExist | Some n \<Rightarrow> Inr n)"

definition osMkdir :: "path \<Rightarrow> unit result io" where
  "osMkdir p = atomically (\<lambda>w.
     case place (fs w) p of
       Inl e \<Rightarrow> (Inl e, w)
     | Inr q \<Rightarrow> if fsGet (fs w) q \<noteq> None then (Inl ErrExist, w)
                else (Inr (), w\<lparr>fs := fsPut q Dir (fs w)\<rparr>))"

text \<open>\<^verbatim>\<open>os.OpenFile\<close> with \<^verbatim>\<open>O_CREATE|O_WRONLY|O_TRUNC\<close>; a handle is the place of the file it denotes.\<close>

definition osOpenFile :: "path \<Rightarrow> path result io" where
  "osOpenFile p = atomically (\<lambda>w.
     case canon True (fs w) kernelLinks [] p of
       Inl e \<Rightarrow> (Inl e, w)
     | Inr q \<Rightarrow> if fsGet (fs w) q = Some Dir then (Inl ErrIsDir, w)
                else (Inr q, w\<lparr>fs := fsPut q (File [] False (clock w)) (fs w)\<rparr>))"

text \<open>A write to a file that was unlinked meanwhile has no visible effect.\<close>

definition appendData :: "path \<Rightarrow> bytes \<Rightarrow> world \<Rightarrow> world" where
  "appendData h data w =
     (case fsGet (fs w) h of
        Some (File d s t) \<Rightarrow> w\<lparr>fs := fsPut h (File (d @ data) False (clock w)) (fs w)\<rparr>
      | _ \<Rightarrow> w)"

definition osWrite :: "path \<Rightarrow> bytes \<Rightarrow> unit result io" where
  "osWrite h data =
     syscall (\<lambda>k. appendData h (take k data)) (\<lambda>w. (Inr (), appendData h data w))"

definition osSync :: "path \<Rightarrow> unit result io" where
  "osSync h = atomically (\<lambda>w.
     case fsGet (fs w) h of
       Some (File d s t) \<Rightarrow> (Inr (), w\<lparr>fs := fsPut h (File d True t) (fs w)\<rparr>)
     | _ \<Rightarrow> (Inr (), w))"

text \<open>Calls on a handle that change nothing in the model but may fail: \<^verbatim>\<open>Close\<close>, \<^verbatim>\<open>Chmod\<close>, \<^verbatim>\<open>Seek\<close>.\<close>

definition osClose :: "path \<Rightarrow> unit result io" where "osClose h = query (\<lambda>w. Inr ())"
definition osChmod :: "path \<Rightarrow> unit result io" where "osChmod h = query (\<lambda>w. Inr ())"
definition osSeekStart :: "path \<Rightarrow> unit result io" where "osSeekStart h = query (\<lambda>w. Inr ())"

text \<open>The contents behind a handle, as a validator reads them from the start of the file.\<close>

definition handleData :: "world \<Rightarrow> path \<Rightarrow> bytes" where
  "handleData w h = (case fsGet (fs w) h of Some (File d _ _) \<Rightarrow> d | _ \<Rightarrow> [])"

text \<open>\<^verbatim>\<open>os.Rename\<close>, which refuses to replace a directory.\<close>

definition renameAct :: "path \<Rightarrow> path \<Rightarrow> world \<Rightarrow> unit result \<times> world" where
  "renameAct src dst w =
     (case (place (fs w) src, place (fs w) dst) of
        (Inl e, _) \<Rightarrow> (Inl e, w)
      | (_, Inl e) \<Rightarrow> (Inl e, w)
      | (Inr s, Inr d) \<Rightarrow>
          (case fsGet (fs w) s of
             None \<Rightarrow> (Inl ErrNotExist, w)
           | Some n \<Rightarrow>
               if fsGet (fs w) d = Some Dir then (Inl ErrExist, w)
               else if s = d then (Inr (), w)
               else if n = Dir \<and> fsGet (fs w) d \<noteq> None then (Inl ErrNotDir, w)
               else if prefix s d then (Inl ErrInvalid, w)
               else (Inr (), w\<lparr>fs := (if n = Dir then fsMove s d (fs w) else fsPut d n (fsDel s (fs w)))\<rparr>)))"

definition osRename :: "path \<Rightarrow> path \<Rightarrow> unit result io" where
  "osRename src dst = atomically (renameAct src dst)"

definition osRemove :: "path \<Rightarrow> unit result io" where
  "osRemove p = atomically (\<lambda>w.
     case place (fs w) p of
       Inl e \<Rightarrow> (Inl e, w)
     | Inr q \<Rightarrow>
         (case fsGet (fs w) q of
            None \<Rightarrow> (Inl ErrNotExist, w)
          | Some n \<Rightarrow>
              if n = Dir \<and> hasChildren (fs w) q then (Inl ErrNotEmpty, w)
              else (Inr (), w\<lparr>fs := fsDel q (fs w)\<rparr>)))"

text \<open>\<^verbatim>\<open>os.RemoveAll\<close>: deeper entries go first, so an interrupted call leaves the upper ones.\<close>

definition removeFirst :: "path \<Rightarrow> nat \<Rightarrow> world \<Rightarrow> world" where
  "removeFirst p k w =
     (case place (fs w) p of
        Inl e \<Rightarrow> w
      | Inr q \<Rightarrow>
          let victims = take k (rev (sort (filter (\<lambda>x. prefix q x) (map fst (fs w))))) in
          w\<lparr>fs := filter (\<lambda>(x, _). x \<notin> set victims) (fs w)\<rparr>)"

definition osRemoveAll :: "path \<Rightarrow> unit result io" where
  "osRemoveAll p = syscall (removeFirst p) (\<lambda>w.
     case place (fs w) p of
       Inl e \<Rightarrow> (if isNotExist e then Inr () else Inl e, w)
     | Inr q \<Rightarrow> (Inr (), w\<lparr>fs := fsDelTree q (fs w)\<rparr>))"

text \<open>\<^verbatim>\<open>os.ReadDir\<close>: the names in order, each with whether it is a directory (a link is not).\<close>

definition dirEntries :: "fsys \<Rightarrow> path \<Rightarrow> (string \<times> bool) list" where
  "dirEntries f d =
     map (\<lambda>c. (c, fsGet f (d @ [c]) = Some Dir))
       (sort (remdups (map last (filter (\<lambda>k. k \<noteq> [] \<and> butlast k = d) (map fst f)))))"

definition osReadDir :: "path \<Rightarrow> (string \<times> bool) list result io" where
  "osReadDir p = query (\<lambda>w.
     case canon False (fs w) kernelLinks [] p of
       Inl e \<Rightarrow> Inl e
     | Inr q \<Rightarrow> if fsGet (fs w) q = Some Dir then Inr (dirEntries (fs w) q) else Inl ErrNotDir)"

text \<open>
  \<^verbatim>\<open>os.CreateTemp\<close>: names from random numbers until one is unused, ten thousand times at most.  The
  result is the handle and the path by which the caller names the file.
\<close>

fun createTempLoop :: "nat \<Rightarrow> path \<Rightarrow> string \<Rightarrow> string \<Rightarrow> nat list \<Rightarrow> fsys \<Rightarrow> (string option \<times> nat list)" where
  "createTempLoop 0 d pre suf rs f = (None, rs)"
| "createTempLoop (Suc tries) d pre suf [] f = (None, [])"
| "createTempLoop (Suc tries) d pre suf (r # rs) f =
     (if fsGet f (d @ [pre @ showNat r @ suf]) = None then (Some (pre @ showNat r @ suf), rs)
      else createTempLoop tries d pre suf rs f)"

definition createTempTries :: nat where "createTempTries = 10000"

definition osCreateTemp :: "path \<Rightarrow> string \<Rightarrow> string \<Rightarrow> (path \<times> path) result io" where
  "osCreateTemp dir pre suf = atomically (\<lambda>w.
     case canon False (fs w) kernelLinks [] dir of
       Inl e \<Rightarrow> (Inl e, w)
     | Inr d \<Rightarrow>
         if fsGet (fs w) d \<noteq> Some Dir then (Inl ErrNotDir, w)
         else (case createTempLoop createTempTries d pre suf (rand w) (fs w) of
             (None, rs) \<Rightarrow> (Inl ErrExist, w\<lparr>rand := rs\<rparr>)
           | (Some nm, rs) \<Rightarrow>
               (Inr (d @ [nm], dir @ [nm]),
                w\<lparr>fs := fsPut (d @ [nm]) (File [] False (clock w)) (fs w), rand := rs\<rparr>)))"

text \<open>
  \<^verbatim>\<open>filepath.Walk\<close>, which follows no link: the root and everything below it, in lexical order, each by
  its path relative to the root.  The directory reads of one walk are one call of the model.
\<close>

definition walkEntries :: "fsys \<Rightarrow> path \<Rightarrow> (path \<times> FileInfo) list" where
  "walkEntries f q =
     (case fsGet f q of
        None \<Rightarrow> []
      | Some Dir \<Rightarrow>
          ([], nodeInfo Dir) #
          map (\<lambda>r. (r, case fsGet f (q @ r) of Some n \<Rightarrow> nodeInfo n | None \<Rightarrow> nodeInfo Dir))
            (sort (remdups (map (drop (length q)) (filter (\<lambda>k. strict_prefix q k) (map fst f)))))
      | Some n \<Rightarrow> [([], nodeInfo n)])"

definition osWalk :: "path \<Rightarrow> (path \<times> FileInfo) list result io" where
  "osWalk p = query (\<lambda>w.
     case place (fs w) p of
       Inl e \<Rightarrow> Inl e
     | Inr q \<Rightarrow> if fsGet (fs w) q = None then Inl ErrNotExist else Inr (walkEntries (fs w) q))"

section \<open>Sequencing\<close>

text \<open>\<^verbatim>\<open>x, err := m; if err != nil { return err }\<close>\<close>

definition bindR :: "'a result io \<Rightarrow> ('a \<Rightarrow> 'b result io) \<Rightarrow> 'b result io" where
  "bindR m k = do { r \<leftarrow> m; case r of Inl e \<Rightarrow> State_Monad.return (Inl e) | Inr x \<Rightarrow> k x }"

text \<open>The error of a call wrapped by \<^verbatim>\<open>fmt.Errorf\<close>.\<close>

definition wrapErr :: "string \<Rightarrow> string list \<Rightarrow> 'a result io \<Rightarrow> 'a result io" where
  "wrapErr fmt args m = do { r \<leftarrow> m; State_Monad.return (map_sum (Wrapf fmt args) id r) }"

text \<open>Work done before returning an error.\<close>

definition onErr :: "'a result io \<Rightarrow> unit io \<Rightarrow> 'a result io" where
  "onErr m cleanup =
     do { r \<leftarrow> m;
          case r of Inl e \<Rightarrow> do { cleanup; State_Monad.return (Inl e) } | Inr x \<Rightarrow> State_Monad.return (Inr x) }"

text \<open>A deferred call, whose result is dropped.\<close>

definition ignore :: "'a io \<Rightarrow> unit io" where
  "ignore m = do { _ \<leftarrow> m; State_Monad.return () }"

definition finally_do :: "'a io \<Rightarrow> unit io \<Rightarrow> 'a io" where
  "finally_do m cleanup = do { r \<leftarrow> m; cleanup; State_Monad.return r }"

text \<open>
  A mutex of Go is not reentrant: locking one that this call chain already holds would block for
  ever, which the model makes an error of its own.
\<close>

definition withLock :: "string \<Rightarrow> 'a result io \<Rightarrow> 'a result io" where
  "withLock key m = State (\<lambda>w.
     if key \<in> set (held w) then (Inl ErrDeadlock, w\<lparr>stuck := True\<rparr>)
     else case run_state m (w\<lparr>held := key # held w\<rparr>) of
            (r, w') \<Rightarrow> (r, w'\<lparr>held := removeAll key (held w')\<rparr>))"

text \<open>The atomic increment of a counter.\<close>

definition tick :: "((64 word \<Rightarrow> 64 word) \<Rightarrow> RegistryMetrics \<Rightarrow> RegistryMetrics) \<Rightarrow> unit io" where
  "tick upd = State (\<lambda>w. ((), w\<lparr>metrics := upd (\<lambda>n. n + 1) (metrics w)\<rparr>))"

text \<open>\<^verbatim>\<open>time.Now()\<close>, in nanoseconds.\<close>

definition timeNow :: "int io" where
  "timeNow = State (\<lambda>w. (clock w, w))"

text \<open>\<^verbatim>\<open>os.MkdirAll\<close> on the reversed path.\<close>

fun mkdirAllRev :: "string list \<Rightarrow> unit result io" where
  "mkdirAllRev [] = State_Monad.return (Inr ())"
| "mkdirAllRev (c # rp) =
     do { st \<leftarrow> osStat (rev (c # rp));
          case st of
            Inr info \<Rightarrow>
              State_Monad.return (if isDirectory info then Inr () else Inl ErrNotDir)
          | Inl _ \<Rightarrow>
              bindR (mkdirAllRev rp) (\<lambda>_.
                do { r \<leftarrow> osMkdir (rev (c # rp));
                     case r of
                       Inr _ \<Rightarrow> State_Monad.return (Inr ())
                     | Inl e \<Rightarrow>
                         do { l \<leftarrow> osLstat (rev (c # rp));
                              case l of
                                Inr info \<Rightarrow> State_Monad.return (if isDirectory info then Inr () else Inl e)
                              | Inl _ \<Rightarrow> State_Monad.return (Inl e) } }) }"

definition osMkdirAll :: "path \<Rightarrow> unit result io" where
  "osMkdirAll p = mkdirAllRev (rev p)"

section \<open>Reasoning about programs of calls\<close>

text \<open>
  \<open>triple P m Q\<close>: started in a state whose file system satisfies \<open>P\<close>, under whatever faults are to
  come, \<open>m\<close> ends with a result and a file system that satisfy \<open>Q\<close>.
\<close>

definition triple :: "(fsys \<Rightarrow> bool) \<Rightarrow> 'a io \<Rightarrow> ('a \<Rightarrow> fsys \<Rightarrow> bool) \<Rightarrow> bool" where
  "triple P m Q \<longleftrightarrow> (\<forall>w r w'. P (fs w) \<longrightarrow> run_state m w = (r, w') \<longrightarrow> Q r (fs w'))"

lemma tripleD: "triple P m Q \<Longrightarrow> P (fs w) \<Longrightarrow> run_state m w = (r, w') \<Longrightarrow> Q r (fs w')"
  by (auto simp: triple_def)

lemma triple_conseq:
  "triple P m Q \<Longrightarrow> (\<And>f. P' f \<Longrightarrow> P f) \<Longrightarrow> (\<And>r f. Q r f \<Longrightarrow> Q' r f) \<Longrightarrow> triple P' m Q'"
  unfolding triple_def by blast

lemma triple_post: "triple P m Q \<Longrightarrow> (\<And>r f. Q r f \<Longrightarrow> Q' r f) \<Longrightarrow> triple P m Q'"
  unfolding triple_def by blast

lemma triple_pre: "(\<And>f0. P f0 \<Longrightarrow> triple (\<lambda>f. f = f0) m Q) \<Longrightarrow> triple P m Q"
  unfolding triple_def by blast

lemma triple_return: "(\<And>f. P f \<Longrightarrow> Q x f) \<Longrightarrow> triple P (State_Monad.return x) Q"
  by (simp add: triple_def)

lemma triple_bind:
  "triple P m R \<Longrightarrow> (\<And>x. triple (R x) (k x) Q) \<Longrightarrow> triple P (State_Monad.bind m k) Q"
  unfolding triple_def by (force split: prod.splits)

lemma triple_bindR:
  assumes "triple P m R" "\<And>x. triple (R (Inr x)) (k x) Q" "\<And>e f. R (Inl e) f \<Longrightarrow> Q (Inl e) f"
  shows "triple P (bindR m k) Q"
  unfolding bindR_def
proof (rule triple_bind [OF assms(1)])
  show "triple (R r) (case r of Inl e \<Rightarrow> State_Monad.return (Inl e) | Inr x \<Rightarrow> k x) Q" for r
    using assms(2,3) by (cases r) (auto intro: triple_return)
qed

lemma map_sum_eq_iff [simp]:
  "map_sum g id r = Inr x \<longleftrightarrow> r = Inr x"
  "map_sum g id r = Inl e \<longleftrightarrow> (\<exists>e'. r = Inl e' \<and> e = g e')"
  by (cases r; auto)+

lemma triple_wrapErr:
  "triple P m (\<lambda>r. Q (map_sum (Wrapf fmt args) id r)) \<Longrightarrow> triple P (wrapErr fmt args m) Q"
  unfolding wrapErr_def by (rule triple_bind, assumption) (rule triple_return)

lemma triple_onErr:
  assumes "triple P m R" "\<And>e. triple (R (Inl e)) cleanup (\<lambda>_. Q (Inl e))" "\<And>x f. R (Inr x) f \<Longrightarrow> Q (Inr x) f"
  shows "triple P (onErr m cleanup) Q"
  unfolding onErr_def
proof (rule triple_bind [OF assms(1)])
  show "triple (R r) (case r of Inl e \<Rightarrow> State_Monad.bind cleanup (\<lambda>_. State_Monad.return (Inl e))
      | Inr x \<Rightarrow> State_Monad.return (Inr x)) Q" for r
    using assms(2,3) by (cases r) (auto intro: triple_return triple_bind [OF assms(2)])
qed

lemma triple_ignore: "triple P m (\<lambda>_. Q ()) \<Longrightarrow> triple P (ignore m) Q"
  unfolding ignore_def by (rule triple_bind, assumption) (rule triple_return)

lemma triple_finally:
  "triple P m R \<Longrightarrow> (\<And>r. triple (R r) c (\<lambda>_. Q r)) \<Longrightarrow> triple P (finally_do m c) Q"
  unfolding finally_do_def by (intro triple_bind, assumption, assumption) (rule triple_return)

lemma triple_withLock:
  assumes "triple P m Q" "\<And>f. P f \<Longrightarrow> Q (Inl ErrDeadlock) f"
  shows "triple P (withLock key m) Q"
  unfolding triple_def
proof (intro allI impI)
  fix w r w' assume P: "P (fs w)" and run: "run_state (withLock key m) w = (r, w')"
  show "Q r (fs w')"
  proof (cases "key \<in> set (held w)")
    case True
    then show ?thesis using assms(2) P run by (auto simp: withLock_def)
  next
    case False
    obtain r1 w1 where 1: "run_state m (w\<lparr>held := key # held w\<rparr>) = (r1, w1)" by (rule prod.exhaust)
    then have "Q r1 (fs w1)" using assms(1) P by (intro tripleD [OF assms(1) _ 1]) simp
    then show ?thesis using False run 1 by (auto simp: withLock_def)
  qed
qed

text \<open>A call: the first case is a fault or an error that changes nothing, the others are its effects.\<close>

lemma triple_syscall:
  assumes "\<And>w :: world. P (fs w) \<Longrightarrow> Q (Inl ErrCrashed) (fs w)"
    and "\<And>w k e. P (fs w) \<Longrightarrow> e = ErrIO \<or> e = ErrCrashed \<Longrightarrow> Q (Inl e) (fs (part k w))"
    and "\<And>w r w'. P (fs w) \<Longrightarrow> act w = (r, w') \<Longrightarrow> Q r (fs w')"
  shows "triple P (syscall part act) Q"
  unfolding triple_def
proof (intro allI impI)
  fix w r w' assume P: "P (fs w)" and run: "run_state (syscall part act) w = (r, w')"
  show "Q r (fs w')"
  proof (cases "crashed w")
    case True
    then show ?thesis using assms(1) P run by (auto simp: syscall_def)
  next
    case ok: False
    show ?thesis
    proof (cases "faults w")
      case Nil
      then show ?thesis using assms(3) P run ok by (simp add: syscall_def)
    next
      case (Cons x fls)
      have P': "P (fs (w\<lparr>faults := fls\<rparr>))" using P by simp
      show ?thesis
        using assms(2) [OF P'] assms(3) [OF P'] run ok Cons
        by (cases x) (auto simp: syscall_def)
    qed
  qed
qed

lemma triple_atomically:
  assumes "\<And>f e. P f \<Longrightarrow> e = ErrIO \<or> e = ErrCrashed \<Longrightarrow> Q (Inl e) f"
    and "\<And>w r w'. P (fs w) \<Longrightarrow> act w = (r, w') \<Longrightarrow> Q r (fs w')"
  shows "triple P (atomically act) Q"
  by (rule triple_syscall) (use assms in auto)

text \<open>A call that only looks changes nothing; its answer is an error or a function of the file system.\<close>

lemma triple_query:
  assumes "\<And>f e. P f \<Longrightarrow> e = ErrIO \<or> e = ErrCrashed \<Longrightarrow> Q (Inl e) f" "\<And>w. P (fs w) \<Longrightarrow> Q (q w) (fs w)"
  shows "triple P (query q) Q"
  unfolding query_def by (rule triple_atomically) (use assms in auto)

lemma triple_if: "(b \<Longrightarrow> triple P m Q) \<Longrightarrow> (\<not> b \<Longrightarrow> triple P m' Q) \<Longrightarrow> triple P (if b then m else m') Q"
  by simp

lemma triple_case_sum:
  "(\<And>e. r = Inl e \<Longrightarrow> triple P (g e) Q) \<Longrightarrow> (\<And>x. r = Inr x \<Longrightarrow> triple P (h x) Q) \<Longrightarrow>
     triple P (case r of Inl e \<Rightarrow> g e | Inr x \<Rightarrow> h x) Q"
  by (cases r) auto

text \<open>Programs that leave the file system as it is.\<close>

definition readOnly :: "'a io \<Rightarrow> bool" where
  "readOnly m \<longleftrightarrow> (\<forall>w. fs (snd (run_state m w)) = fs w)"

named_theorems readonly

lemma readOnlyD: "readOnly m \<Longrightarrow> run_state m w = (r, w') \<Longrightarrow> fs w' = fs w"
  unfolding readOnly_def by (metis snd_conv)

lemma readOnlyI: "(\<And>w r w'. run_state m w = (r, w') \<Longrightarrow> fs w' = fs w) \<Longrightarrow> readOnly m"
  unfolding readOnly_def by (metis prod.collapse)

lemma triple_readOnly:
  "readOnly m \<Longrightarrow> triple (\<lambda>f. f = f0) m Q \<Longrightarrow> triple (\<lambda>f. f = f0) m (\<lambda>r f. f = f0 \<and> Q r f)"
  unfolding triple_def by (metis readOnlyD)

lemma readOnly_triple: "readOnly m \<Longrightarrow> triple P m (\<lambda>_. P)"
  unfolding triple_def using readOnlyD by metis

lemma readOnly_return [readonly]: "readOnly (State_Monad.return x)"
  by (simp add: readOnly_def)

lemma readOnly_bind [readonly]:
  "readOnly m \<Longrightarrow> (\<And>x. readOnly (k x)) \<Longrightarrow> readOnly (State_Monad.bind m k)"
proof (rule readOnlyI)
  fix w r w' assume ro: "readOnly m" "\<And>x. readOnly (k x)" and run: "run_state (State_Monad.bind m k) w = (r, w')"
  obtain x w1 where 1: "run_state m w = (x, w1)" by (rule prod.exhaust)
  then have "run_state (k x) w1 = (r, w')" using run by simp
  then show "fs w' = fs w" using readOnlyD [OF ro(1) 1] readOnlyD [OF ro(2)] by metis
qed

lemma readOnly_if [readonly]: "readOnly m \<Longrightarrow> readOnly m' \<Longrightarrow> readOnly (if b then m else m')"
  by simp

lemma readOnly_case_sum [readonly]:
  "(\<And>e. readOnly (g e)) \<Longrightarrow> (\<And>x. readOnly (h x)) \<Longrightarrow> readOnly (case r of Inl e \<Rightarrow> g e | Inr x \<Rightarrow> h x)"
  by (cases r) auto

lemma readOnly_case_option [readonly]:
  "readOnly g \<Longrightarrow> (\<And>x. readOnly (h x)) \<Longrightarrow> readOnly (case r of None \<Rightarrow> g | Some x \<Rightarrow> h x)"
  by (cases r) auto

lemma readOnly_case_prod [readonly]:
  "(\<And>a b. readOnly (g a b)) \<Longrightarrow> readOnly (case p of (a, b) \<Rightarrow> g a b)"
  by (cases p) auto

lemma readOnly_bindR [readonly]: "readOnly m \<Longrightarrow> (\<And>x. readOnly (k x)) \<Longrightarrow> readOnly (bindR m k)"
  unfolding bindR_def by (intro readonly)

lemma readOnly_wrapErr [readonly]: "readOnly m \<Longrightarrow> readOnly (wrapErr fmt args m)"
  unfolding wrapErr_def by (intro readonly)

lemma readOnly_ignore [readonly]: "readOnly m \<Longrightarrow> readOnly (ignore m)"
  unfolding ignore_def by (intro readonly)

lemma readOnly_query [readonly]: "readOnly (query q)"
proof (rule readOnlyI)
  fix w r w' assume "run_state (query q) w = (r, w')"
  moreover have "triple (\<lambda>f. f = fs w) (query q) (\<lambda>_ f. f = fs w)" by (rule triple_query) simp_all
  ultimately show "fs w' = fs w" by (rule tripleD [rotated 2]) simp
qed

lemma readOnly_calls [readonly]:
  "readOnly (osStat p)" "readOnly (osLstat p)" "readOnly (osEvalSymlinks p)" "readOnly (osReadFile p)"
  "readOnly (osClose h)" "readOnly (osChmod h)" "readOnly (osSeekStart h)" "readOnly (osReadDir p)" "readOnly (osWalk p)"
  "readOnly (osOpen p)" "readOnly (osFstat h)"
  unfolding osStat_def osLstat_def osEvalSymlinks_def osReadFile_def osClose_def osChmod_def osSeekStart_def
    osReadDir_def osWalk_def osOpen_def osFstat_def
  by (rule readOnly_query)+

lemma readOnly_tick [readonly]: "readOnly (tick upd)" "readOnly timeNow"
  by (simp_all add: readOnly_def tick_def timeNow_def)

text \<open>What a query that succeeds has seen.\<close>

lemma query_result: "run_state (query q) w = (Inr x, w') \<Longrightarrow> (\<exists>w1. fs w1 = fs w \<and> q w1 = Inr x)"
proof -
  assume run: "run_state (query q) w = (Inr x, w')"
  have "triple (\<lambda>f. f = fs w) (query q) (\<lambda>r f. \<forall>x. r = Inr x \<longrightarrow> (\<exists>w1. fs w1 = fs w \<and> q w1 = Inr x))"
    by (rule triple_query) auto
  from tripleD [OF this refl run] show ?thesis by simp
qed

section \<open>The file system as a map\<close>

lemma map_of_filter_key: "map_of (filter (\<lambda>(k, _). P k) f) p = (if P p then map_of f p else None)"
  by (induction f) auto

lemma fsGet_Nil [simp]: "fsGet f [] = Some Dir"
  by (simp add: fsGet_def)

lemma fsGet_fsPut: "p \<noteq> [] \<Longrightarrow> fsGet (fsPut p n f) q = (if q = p then Some n else fsGet f q)"
  by (simp add: fsGet_def fsPut_def map_of_filter_key)

lemma fsGet_fsDel: "p \<noteq> [] \<Longrightarrow> fsGet (fsDel p f) q = (if q = p then None else fsGet f q)"
  by (simp add: fsGet_def fsDel_def map_of_filter_key)

lemma fsGet_fsDelTree: "p \<noteq> [] \<Longrightarrow> fsGet (fsDelTree p f) q = (if prefix p q then None else fsGet f q)"
  by (auto simp: fsGet_def fsDelTree_def map_of_filter_key)

lemma map_of_move:
  assumes "\<not> prefix src dst"
  shows "map_of (map (\<lambda>(k, n). (if prefix src k then dst @ drop (length src) k else k, n))
            (filter (\<lambda>(k, _). \<not> prefix dst k) f)) p =
     (if prefix dst p then (if prefix dst (src @ drop (length dst) p) then None else map_of f (src @ drop (length dst) p))
      else if prefix src p then None else map_of f p)"
proof (induction f)
  case (Cons kn f)
  obtain k n where kn: "kn = (k, n)" by (cases kn)
  consider (gone) "prefix dst k" | (moved) "\<not> prefix dst k" "prefix src k" | (kept) "\<not> prefix dst k" "\<not> prefix src k"
    by blast
  then show ?case
  proof cases
    case gone
    then show ?thesis using Cons kn by auto
  next
    case moved
    then obtain r where r: "k = src @ r" by (auto simp: prefix_def)
    have "\<not> prefix src p \<or> p \<noteq> k \<or> \<not> prefix dst p" using moved by blast
    moreover have "prefix dst p \<Longrightarrow> dst @ drop (length src) k = p \<longleftrightarrow> src @ drop (length dst) p = k"
      using r by (auto simp: prefix_def)
    ultimately show ?thesis using Cons kn moved r by (auto simp: prefix_def)
  next
    case kept
    then show ?thesis using Cons kn by (auto simp: prefix_def)
  qed
qed simp

lemma fsGet_fsMove:
  assumes "\<not> prefix src dst" "\<not> prefix dst src"
  shows "fsGet (fsMove src dst f) p =
     (if prefix dst p then fsGet f (src @ drop (length dst) p)
      else if prefix src p then None else fsGet f p)"
proof -
  have ne: "src \<noteq> []" "dst \<noteq> []" using assms by auto
  have "\<not> prefix dst (src @ r)" for r
    using assms by (auto simp: prefix_append dest: prefix_order.trans)
  then show ?thesis
    using ne map_of_move [OF assms(1), of f p]
    by (auto simp: fsGet_def fsMove_def)
qed

text \<open>The content of the regular files, with their sync state.\<close>

definition objAt :: "fsys \<Rightarrow> path \<Rightarrow> (bytes \<times> bool) option" where
  "objAt f p = (case fsGet f p of Some (File d s _) \<Rightarrow> Some (d, s) | _ \<Rightarrow> None)"

section \<open>Resolution without links\<close>

definition properComp :: "string \<Rightarrow> bool" where
  "properComp c \<longleftrightarrow> c \<noteq> [] \<and> c \<noteq> ''.'' \<and> c \<noteq> ''..'' \<and> CHR ''/'' \<notin> set c"

definition noLinkTo :: "fsys \<Rightarrow> path \<Rightarrow> bool" where
  "noLinkTo f p \<longleftrightarrow> (\<forall>q t m. prefix q p \<longrightarrow> fsGet f q \<noteq> Some (Link t m))"

lemma canon_plain:
  "list_all properComp cs \<Longrightarrow> noLinkTo f (acc @ cs) \<Longrightarrow> canon create f n acc cs = Inr q \<Longrightarrow> q = acc @ cs"
proof (induction cs arbitrary: acc)
  case (Cons c cs)
  have "prefix (acc @ [c]) (acc @ c # cs)" by (simp add: prefix_def)
  then have "\<forall>t m. fsGet f (acc @ [c]) \<noteq> Some (Link t m)" using Cons.prems(2) by (auto simp: noLinkTo_def)
  then show ?case
    using Cons.prems Cons.IH [of "acc @ [c]"]
    by (auto simp: properComp_def split: option.splits node.splits if_splits)
qed simp

text \<open>Directories all the way down, and something at the end.\<close>

definition dirsTo :: "fsys \<Rightarrow> path \<Rightarrow> bool" where
  "dirsTo f p \<longleftrightarrow> (\<forall>q. strict_prefix q p \<longrightarrow> fsGet f q = Some Dir)"

lemma dirsTo_snoc: "dirsTo f (p @ [c]) \<longleftrightarrow> dirsTo f p \<and> fsGet f p = Some Dir"
proof -
  have "strict_prefix q (p @ [c]) \<longleftrightarrow> q = p \<or> strict_prefix q p" for q
    by (auto simp: strict_prefix_def prefix_def append_eq_append_conv2 Cons_eq_append_conv append_eq_Cons_conv)
  then show ?thesis by (auto simp: dirsTo_def)
qed

lemma canon_dirs:
  "list_all properComp cs \<Longrightarrow> dirsTo f (acc @ cs) \<Longrightarrow> (\<And>t m. fsGet f (acc @ cs) \<noteq> Some (Link t m)) \<Longrightarrow>
     fsGet f (acc @ cs) \<noteq> None \<or> create \<Longrightarrow> canon create f n acc cs = Inr (acc @ cs)"
proof (induction cs arbitrary: acc)
  case (Cons c cs)
  show ?case
  proof (cases "cs = []")
    case True
    then show ?thesis using Cons.prems by (auto simp: properComp_def split: option.splits node.splits)
  next
    case False
    then have "strict_prefix (acc @ [c]) (acc @ c # cs)" by (auto simp: strict_prefix_def prefix_def)
    then have "fsGet f (acc @ [c]) = Some Dir" using Cons.prems(2) by (simp add: dirsTo_def)
    then show ?thesis using Cons.prems Cons.IH [of "acc @ [c]"] by (auto simp: properComp_def)
  qed
qed simp

lemma canon_exists:
  "list_all properComp cs \<Longrightarrow> noLinkTo f (acc @ cs) \<Longrightarrow> dirsTo f acc \<Longrightarrow> fsGet f acc = Some Dir \<Longrightarrow>
     canon False f n acc cs = Inr q \<Longrightarrow> dirsTo f q \<and> fsGet f q \<noteq> None"
proof (induction cs arbitrary: acc)
  case (Cons c cs)
  have "prefix (acc @ [c]) (acc @ c # cs)" by (simp add: prefix_def)
  then have "\<forall>t m. fsGet f (acc @ [c]) \<noteq> Some (Link t m)" using Cons.prems(2) by (auto simp: noLinkTo_def)
  then show ?case
    using Cons.prems Cons.IH [of "acc @ [c]"]
    by (auto simp: properComp_def dirsTo_snoc split: option.splits node.splits if_splits)
qed auto

lemma place_plain:
  assumes "list_all properComp p" "noLinkTo f (butlast p)" "place f p = Inr q"
  shows "q = p"
proof (cases "p = []")
  case True
  then show ?thesis using assms by (simp add: place_def)
next
  case False
  have "list_all properComp (butlast p)" using assms(1) by (auto simp: list_all_iff dest: in_set_butlastD)
  then show ?thesis
    using assms(2,3) False canon_plain [of "butlast p" f "[]" False kernelLinks]
    by (auto simp: place_def split: sum.splits if_splits)
qed

end
