(* ===== verification/Storage.thy ===== *)
theory Storage
  imports OS Metadata
begin

text \<open>
  \<^verbatim>\<open>registry-server/storage.go\<close>: the file-system-backed store.  Every method of \<^verbatim>\<open>Store\<close> is a program of
  the calls of the operating-system model, with its error paths, its deferred clean-up and its locks.

  The theorems: a key never leads outside the storage root, whatever symbolic links the root holds;
  a write is atomic under every failure and every crash, publishes synced data only and disturbs no
  other object; a read returns what was written; the garbage collector removes stale temporary files
  and nothing else.
\<close>

section \<open>The store and its keys\<close>

text \<open>\<^verbatim>\<open>basePath\<close> is absolute and free of links, as \<^verbatim>\<open>NewStore\<close> leaves it.\<close>

record Store =
  basePath :: path
  baseURL :: string

text \<open>\<^verbatim>\<open>filepath.Join\<close> of an absolute directory and a relative path, and \<^verbatim>\<open>filepath.Rel\<close>, on components.\<close>

definition joinPath :: "path \<Rightarrow> string \<Rightarrow> path" where
  "joinPath base rel = cleanGo True (rev base) (splitAt CHR ''/'' rel)"

fun relComps :: "path \<Rightarrow> path \<Rightarrow> string list" where
  "relComps [] target = target"
| "relComps (b # bs) [] = replicate (length (b # bs)) ''..''"
| "relComps (b # bs) (t # ts) =
     (if b = t then relComps bs ts else replicate (length (b # bs)) ''..'' @ t # ts)"

definition relString :: "string list \<Rightarrow> string" where
  "relString cs = (if cs = [] then ''.'' else joinWith ''/'' cs)"

definition relEscapes :: "string list \<Rightarrow> bool" where
  "relEscapes rel \<longleftrightarrow> rel \<noteq> [] \<and> hd rel = ''..''"

text \<open>The candidate path is reversed, so that its parent is the tail.\<close>

fun rejectSymlinkEscapeRev :: "Store \<Rightarrow> string list \<Rightarrow> unit result io" where
  "rejectSymlinkEscapeRev s [] =
     do { r \<leftarrow> osEvalSymlinks [];
          case r of
            Inr resolved \<Rightarrow>
              if relEscapes (relComps (basePath s) resolved)
              then State_Monad.return (Inl (Errorf ''storage path escapes root through symlink'' []))
              else State_Monad.return (Inr ())
          | Inl err \<Rightarrow>
              if \<not> isNotExist err then State_Monad.return (Inl (Wrapf ''resolve storage path: %w'' [] err))
              else State_Monad.return (Inl (Errorf ''cannot resolve storage path'' [])) }"
| "rejectSymlinkEscapeRev s (c # parent) =
     do { r \<leftarrow> osEvalSymlinks (rev (c # parent));
          case r of
            Inr resolved \<Rightarrow>
              if relEscapes (relComps (basePath s) resolved)
              then State_Monad.return (Inl (Errorf ''storage path escapes root through symlink'' []))
              else State_Monad.return (Inr ())
          | Inl err \<Rightarrow>
              if \<not> isNotExist err then State_Monad.return (Inl (Wrapf ''resolve storage path: %w'' [] err))
              else rejectSymlinkEscapeRev s parent }"

definition rejectSymlinkEscape :: "Store \<Rightarrow> path \<Rightarrow> unit result io" where
  "rejectSymlinkEscape s path = rejectSymlinkEscapeRev s (rev path)"

definition resolve :: "Store \<Rightarrow> string \<Rightarrow> path result io" where
  "resolve s key =
     (if key = [] \<or> key = ''.'' then State_Monad.return (Inr (basePath s))
      else if hasPrefix key ''/'' \<or> CHR 0x5C \<in> set key then
        State_Monad.return (Inl (Errorf ''invalid storage key'' []))
      else let clean = pathClean key in
        if clean = ''..'' \<or> hasPrefix clean ''../'' then
          State_Monad.return (Inl (Errorf ''storage key escapes root'' []))
        else let path = joinPath (basePath s) clean; rel = relComps (basePath s) path in
          if relEscapes rel then State_Monad.return (Inl (Errorf ''storage key escapes root'' []))
          else bindR (rejectSymlinkEscape s path) (\<lambda>_. State_Monad.return (Inr path)))"

text \<open>
  \<^verbatim>\<open>NewStore\<close>: \<^verbatim>\<open>filepath.Abs\<close> joins a relative path to the working directory, and the canonical path of
  the root is what all keys are joined to.
\<close>

definition filepathAbs :: "path \<Rightarrow> string \<Rightarrow> path" where
  "filepathAbs cwd p = (if hasPrefix p ''/'' then joinPath [] p else joinPath cwd p)"

fun makeDirs :: "path list \<Rightarrow> unit result io" where
  "makeDirs [] = State_Monad.return (Inr ())"
| "makeDirs (d # ds) =
     bindR (wrapErr ''create directory %s: %w'' [CHR ''/'' # joinWith ''/'' d] (osMkdirAll d)) (\<lambda>_. makeDirs ds)"

definition NewStore :: "path \<Rightarrow> string \<Rightarrow> string \<Rightarrow> Store result io" where
  "NewStore cwd base url =
     (let absBase = filepathAbs cwd base in
      bindR (wrapErr ''create storage root: %w'' [] (osMkdirAll absBase)) (\<lambda>_.
      bindR (wrapErr ''resolve storage root symlinks: %w'' [] (osEvalSymlinks absBase)) (\<lambda>root.
      bindR (makeDirs [root @ [''providers''], root @ [''modules''], root @ [''keys''], root @ [''tmp'']]) (\<lambda>_.
      State_Monad.return (Inr \<lparr>basePath = root, baseURL = trimRightCh CHR ''/'' url\<rparr>)))))"

section \<open>Objects\<close>

definition Get :: "Store \<Rightarrow> string \<Rightarrow> bytes result io" where
  "Get s key = bindR (resolve s key) (\<lambda>path. osReadFile path)"

text \<open>\<^verbatim>\<open>Open\<close> hands out the file for streaming.\<close>

definition Open :: "Store \<Rightarrow> string \<Rightarrow> path result io" where
  "Open s key = bindR (resolve s key) (\<lambda>path. osOpen path)"

text \<open>\<^verbatim>\<open>putUnlocked\<close> in three parts: from the open temporary file on, from the resolved path on, and all of it.\<close>

definition writeAndPublish :: "path \<Rightarrow> path \<Rightarrow> path \<Rightarrow> bytes \<Rightarrow> unit result io" where
  "writeAndPublish f tmp path data =
     bindR (onErr (wrapErr ''write: %w'' [] (osWrite f data))
              (do { ignore (osClose f); ignore (osRemove tmp) })) (\<lambda>_.
     bindR (onErr (wrapErr ''sync: %w'' [] (osSync f))
              (do { ignore (osClose f); ignore (osRemove tmp) })) (\<lambda>_.
     bindR (onErr (wrapErr ''close: %w'' [] (osClose f)) (ignore (osRemove tmp))) (\<lambda>_.
     onErr (wrapErr ''rename: %w'' [] (osRename tmp path)) (ignore (osRemove tmp)))))"

definition putResolved :: "path \<Rightarrow> bytes \<Rightarrow> unit result io" where
  "putResolved path data =
     bindR (wrapErr ''mkdir: %w'' [] (osMkdirAll (butlast path))) (\<lambda>_.
     let tmp = butlast path @ [''.tmp-'' @ last path] in
     bindR (wrapErr ''open temp: %w'' [] (osOpenFile tmp)) (\<lambda>f.
     writeAndPublish f tmp path data))"

definition putUnlocked :: "Store \<Rightarrow> string \<Rightarrow> bytes \<Rightarrow> unit result io" where
  "putUnlocked s key data = bindR (resolve s key) (\<lambda>path. putResolved path data)"

definition Put :: "Store \<Rightarrow> string \<Rightarrow> bytes \<Rightarrow> unit result io" where
  "Put s key data = withLock key (putUnlocked s key data)"

text \<open>
  A reader: the bytes it delivers and how it ends (\<open>None\<close> is \<^verbatim>\<open>io.EOF\<close>).  \<^verbatim>\<open>io.Copy\<close> through an
  \<^verbatim>\<open>io.LimitedReader\<close> stops at the limit, before it sees what comes after.
\<close>

record stream =
  sData :: bytes
  sErr :: "error option"

definition copyLimited :: "stream \<Rightarrow> int \<Rightarrow> bytes \<times> error option" where
  "copyLimited r limit =
     (if int (length (sData r)) \<ge> limit then (take (nat limit) (sData r), None)
      else (sData r, sErr r))"

text \<open>\<^verbatim>\<open>io.Copy(f, &limited)\<close>: what was read is written, then a read error is reported; the number of bytes otherwise.\<close>

definition copyToFile :: "path \<Rightarrow> stream \<Rightarrow> int \<Rightarrow> bytes result io" where
  "copyToFile f r limit =
     (case copyLimited r limit of (data, err) \<Rightarrow>
        bindR (osWrite f data) (\<lambda>_.
        State_Monad.return (case err of Some e \<Rightarrow> Inl e | None \<Rightarrow> Inr data)))"

text \<open>A validator reads the temporary file from its start.\<close>

type_synonym validator = "bytes \<Rightarrow> error option"

definition runValidator :: "validator option \<Rightarrow> path \<Rightarrow> unit result io" where
  "runValidator validate f =
     (case validate of
        None \<Rightarrow> State_Monad.return (Inr ())
      | Some v \<Rightarrow> State (\<lambda>w. (case v (handleData w f) of None \<Rightarrow> Inr () | Some e \<Rightarrow> Inl e, w)))"

text \<open>\<^verbatim>\<open>maxSize + 1\<close> is an \<^verbatim>\<open>int64\<close> addition.\<close>

definition limitPlusOne :: "64 word \<Rightarrow> int" where
  "limitPlusOne maxSize = sint (maxSize + 1)"

definition PutStreamValidated ::
  "Store \<Rightarrow> string \<Rightarrow> stream \<Rightarrow> 64 word \<Rightarrow> validator option \<Rightarrow> nat result io" where
  "PutStreamValidated s key r maxSize validate = withLock key (
     bindR (resolve s key) (\<lambda>path.
     bindR (wrapErr ''mkdir: %w'' [] (osMkdirAll (butlast path))) (\<lambda>_.
     bindR (wrapErr ''open temp: %w'' []
              (osCreateTemp (butlast path) (''.tmp-'' @ last path @ ''-'') [])) (\<lambda>(f, tmp).
     do { res \<leftarrow>
            bindR (wrapErr ''chmod temp: %w'' [] (osChmod f)) (\<lambda>_.
            bindR (wrapErr ''copy: %w'' [] (copyToFile f r (limitPlusOne maxSize))) (\<lambda>data.
            if int (length data) > sint maxSize then
              State_Monad.return (Inl (Wrapf ''%w of %d bytes'' [showInt (sint maxSize)] ErrUploadTooLarge))
            else
              bindR (wrapErr ''sync: %w'' [] (osSync f)) (\<lambda>_.
              bindR (if validate = None then State_Monad.return (Inr ())
                     else wrapErr ''seek temp: %w'' [] (osSeekStart f)) (\<lambda>_.
              bindR (runValidator validate f) (\<lambda>_.
              bindR (wrapErr ''close: %w'' [] (osClose f)) (\<lambda>_.
              bindR (wrapErr ''rename: %w'' [] (osRename tmp path)) (\<lambda>_.
              State_Monad.return (Inr (length data)))))))));
          ignore (osClose f);
          (case res of Inl _ \<Rightarrow> ignore (osRemove tmp) | Inr _ \<Rightarrow> State_Monad.return ());
          State_Monad.return res }))))"

definition PutStream :: "Store \<Rightarrow> string \<Rightarrow> stream \<Rightarrow> 64 word \<Rightarrow> nat result io" where
  "PutStream s key r maxSize = PutStreamValidated s key r maxSize None"

text \<open>
  The destination key is computed from the bytes that went through the tee; the result is the size,
  the key, and whether the object existed already.
\<close>

definition PutStreamImmutable ::
  "Store \<Rightarrow> stream \<Rightarrow> 64 word \<Rightarrow> validator option \<Rightarrow> (bytes \<Rightarrow> string) \<Rightarrow> (nat \<times> string \<times> bool) result io" where
  "PutStreamImmutable s r maxSize validate key =
     bindR (wrapErr ''open temp: %w'' [] (osCreateTemp (basePath s) ''.tmp-upload-'' [])) (\<lambda>(f, tmp).
     finally_do
      (bindR (wrapErr ''chmod temp: %w'' [] (osChmod f)) (\<lambda>_.
       bindR (wrapErr ''copy: %w'' [] (copyToFile f r (limitPlusOne maxSize))) (\<lambda>data.
       if int (length data) > sint maxSize then
         State_Monad.return (Inl (Wrapf ''%w of %d bytes'' [showInt (sint maxSize)] ErrUploadTooLarge))
       else
         bindR (wrapErr ''sync: %w'' [] (osSync f)) (\<lambda>_.
         bindR (wrapErr ''seek temp: %w'' [] (osSeekStart f)) (\<lambda>_.
         bindR (runValidator validate f) (\<lambda>_.
         let destinationKey = key data in
         bindR (resolve s destinationKey) (\<lambda>destination.
         withLock destinationKey
          (do { st \<leftarrow> osStat destination;
                case st of
                  Inr _ \<Rightarrow> State_Monad.return (Inr (length data, destinationKey, True))
                | Inl err \<Rightarrow>
                    if \<not> isNotExist err then State_Monad.return (Inl err)
                    else
                      bindR (wrapErr ''mkdir: %w'' [] (osMkdirAll (butlast destination))) (\<lambda>_.
                      bindR (wrapErr ''close: %w'' [] (osClose f)) (\<lambda>_.
                      bindR (wrapErr ''rename: %w'' [] (osRename tmp destination)) (\<lambda>_.
                      State_Monad.return (Inr (length data, destinationKey, False))))) }))))))))
      (do { ignore (osClose f); ignore (osRemove tmp) }))"

text \<open>\<^verbatim>\<open>StageDeleteTree\<close> returns the two closures; the model returns what they close over.\<close>

record stagedDelete =
  sdPath :: path
  sdTrash :: path

definition StageDeleteTree :: "Store \<Rightarrow> string \<Rightarrow> stagedDelete result io" where
  "StageDeleteTree s key =
     bindR (resolve s (trimSuffix key ''/'')) (\<lambda>path.
     bindR (osStat path) (\<lambda>_.
     bindR (osCreateTemp (butlast path) (''.trash-'' @ last path @ ''-'') []) (\<lambda>(marker, trash).
     bindR (onErr (osClose marker) (ignore (osRemove trash))) (\<lambda>_.
     bindR (osRemove trash) (\<lambda>_.
     bindR (osRename path trash) (\<lambda>_.
     State_Monad.return (Inr \<lparr>sdPath = path, sdTrash = trash\<rparr>)))))))"

definition rollbackDelete :: "stagedDelete \<Rightarrow> unit result io" where
  "rollbackDelete sd = osRename (sdTrash sd) (sdPath sd)"

definition commitDelete :: "stagedDelete \<Rightarrow> unit result io" where
  "commitDelete sd = osRemoveAll (sdTrash sd)"

text \<open>
  The loop of \<^verbatim>\<open>Delete\<close> over the parents, on the reversed directory.  It ends at the storage root, or at the
  root directory of the system, which is never empty.
\<close>

fun cleanEmptyParents :: "path \<Rightarrow> string list \<Rightarrow> unit io" where
  "cleanEmptyParents base [] = State_Monad.return ()"
| "cleanEmptyParents base (c # parent) =
     (if rev (c # parent) = base then State_Monad.return ()
      else do { entries \<leftarrow> osReadDir (rev (c # parent));
                case entries of
                  Inl _ \<Rightarrow> State_Monad.return ()
                | Inr es \<Rightarrow>
                    if es \<noteq> [] then State_Monad.return ()
                    else do { ignore (osRemove (rev (c # parent))); cleanEmptyParents base parent } })"

definition Delete :: "Store \<Rightarrow> string \<Rightarrow> unit result io" where
  "Delete s key = withLock key (
     bindR (resolve s key) (\<lambda>path.
     do { r \<leftarrow> osRemove path;
          case r of
            Inl err \<Rightarrow>
              if \<not> isNotExist err then State_Monad.return (Inl err)
              else do { cleanEmptyParents (basePath s) (rev (butlast path)); State_Monad.return (Inr ()) }
          | Inr _ \<Rightarrow> do { cleanEmptyParents (basePath s) (rev (butlast path)); State_Monad.return (Inr ()) } }))"

section \<open>Listing\<close>

text \<open>\<^verbatim>\<open>filepath.Join\<close> of two relative parts.\<close>

definition joinKey :: "string \<Rightarrow> string \<Rightarrow> string" where
  "joinKey prfx name = (if prfx = [] then pathClean name else pathClean (prfx @ ''/'' @ name))"

definition List :: "Store \<Rightarrow> string \<Rightarrow> string \<Rightarrow> (string list \<times> string list) result io" where
  "List s prfx delimiter =
     bindR (resolve s prfx) (\<lambda>searchPath.
     if delimiter \<noteq> [] then
       do { r \<leftarrow> osReadDir searchPath;
            case r of
              Inl err \<Rightarrow>
                State_Monad.return (if isNotExist err then Inr ([], []) else Inl err)
            | Inr entries \<Rightarrow>
                State_Monad.return (Inr
                  (map (\<lambda>(name, _). joinKey prfx name) (filter (\<lambda>(_, isDir). \<not> isDir) entries),
                   map (\<lambda>(name, _). joinKey prfx name @ ''/'') (filter (\<lambda>(_, isDir). isDir) entries))) }
     else
       do { r \<leftarrow> osWalk searchPath;
            case r of
              Inl err \<Rightarrow>
                State_Monad.return (if isNotExist err then Inr ([], []) else Inl err)
            | Inr entries \<Rightarrow>
                State_Monad.return (Inr
                  (map (\<lambda>(r, _). relString (relComps (basePath s) (searchPath @ r)))
                     (filter (\<lambda>(_, info). \<not> isDirectory info) entries), [])) })"

definition Exists :: "Store \<Rightarrow> string \<Rightarrow> bool io" where
  "Exists s key =
     do { r \<leftarrow> bindR (resolve s key) (\<lambda>path. osStat path);
          State_Monad.return (case r of Inl _ \<Rightarrow> False | Inr _ \<Rightarrow> True) }"

definition DownloadURL :: "Store \<Rightarrow> string \<Rightarrow> string" where
  "DownloadURL s key = baseURL s @ ''/download/'' @ key"

definition HealthCheck :: "Store \<Rightarrow> unit result io" where
  "HealthCheck s =
     bindR (osCreateTemp (basePath s) ''.health-'' []) (\<lambda>(f, name).
     finally_do (bindR (osClose f) (\<lambda>_. osRemove name)) (ignore (osRemove name)))"

section \<open>Indexes and metadata\<close>

definition providerIndexKey :: "string \<Rightarrow> string \<Rightarrow> string" where
  "providerIndexKey namespace name = ''providers/'' @ namespace @ ''/'' @ name @ ''/index.json''"

definition moduleIndexKey :: "string \<Rightarrow> string \<Rightarrow> string \<Rightarrow> string" where
  "moduleIndexKey namespace name provider =
     ''modules/'' @ namespace @ ''/'' @ name @ ''/'' @ provider @ ''/index.json''"

definition versionsOf :: "Index \<Rightarrow> string list" where
  "versionsOf idx = (case Versions idx of None \<Rightarrow> [] | Some vs \<Rightarrow> vs)"

definition getIndex :: "Store \<Rightarrow> string \<Rightarrow> Index result io" where
  "getIndex s key =
     do { r \<leftarrow> Get s key;
          case r of
            Inl err \<Rightarrow>
              State_Monad.return
                (if isNotExist err then Inr \<lparr>Versions = Some [], IMetadata = None\<rparr> else Inl err)
          | Inr data \<Rightarrow>
              (case unmarshalInto decodeIndex zeroIndex data of (idx, err) \<Rightarrow>
                 case err of
                   Some e \<Rightarrow> State_Monad.return (Inl (Wrapf ''corrupt index %s: %w'' [key] e))
                 | None \<Rightarrow>
                     State_Monad.return (Inr (idx\<lparr>Versions := Some (sortSemanticVersions (versionsOf idx))\<rparr>))) }"

definition GetProviderIndex :: "Store \<Rightarrow> string \<Rightarrow> string \<Rightarrow> Index result io" where
  "GetProviderIndex s namespace name = getIndex s (providerIndexKey namespace name)"

definition GetModuleIndex :: "Store \<Rightarrow> string \<Rightarrow> string \<Rightarrow> string \<Rightarrow> Index result io" where
  "GetModuleIndex s namespace name provider = getIndex s (moduleIndexKey namespace name provider)"

definition addVersionToIndex :: "Store \<Rightarrow> string \<Rightarrow> string \<Rightarrow> unit result io" where
  "addVersionToIndex s key version = withLock key (
     bindR (getIndex s key) (\<lambda>idx.
     if version \<in> set (versionsOf idx) then State_Monad.return (Inr ())
     else putUnlocked s key
            (marshalIndent (encodeIndex
               (idx\<lparr>Versions := Some (sortSemanticVersions (versionsOf idx @ [version]))\<rparr>)))))"

text \<open>\<^verbatim>\<open>var filtered []string\<close> stays nil when nothing is kept.\<close>

definition removeVersionFromIndex :: "Store \<Rightarrow> string \<Rightarrow> string \<Rightarrow> unit result io" where
  "removeVersionFromIndex s key version = withLock key (
     bindR (getIndex s key) (\<lambda>idx.
     let filtered = filter (\<lambda>v. v \<noteq> version) (versionsOf idx) in
     putUnlocked s key
       (marshalIndent (encodeIndex (idx\<lparr>Versions := (if filtered = [] then None else Some filtered)\<rparr>)))))"

definition AddProviderVersion :: "Store \<Rightarrow> string \<Rightarrow> string \<Rightarrow> string \<Rightarrow> unit result io" where
  "AddProviderVersion s namespace name version = addVersionToIndex s (providerIndexKey namespace name) version"

definition AddModuleVersion :: "Store \<Rightarrow> string \<Rightarrow> string \<Rightarrow> string \<Rightarrow> string \<Rightarrow> unit result io" where
  "AddModuleVersion s namespace name provider version =
     addVersionToIndex s (moduleIndexKey namespace name provider) version"

definition RemoveProviderVersion :: "Store \<Rightarrow> string \<Rightarrow> string \<Rightarrow> string \<Rightarrow> unit result io" where
  "RemoveProviderVersion s namespace name version = removeVersionFromIndex s (providerIndexKey namespace name) version"

definition RemoveModuleVersion :: "Store \<Rightarrow> string \<Rightarrow> string \<Rightarrow> string \<Rightarrow> string \<Rightarrow> unit result io" where
  "RemoveModuleVersion s namespace name provider version =
     removeVersionFromIndex s (moduleIndexKey namespace name provider) version"

definition setDeprecation :: "Store \<Rightarrow> string \<Rightarrow> string \<Rightarrow> string \<Rightarrow> unit result io" where
  "setDeprecation s key version message = withLock key (
     do { r \<leftarrow> Get s key;
          let meta = (case r of
                        Inr data \<Rightarrow> fst (unmarshalInto decodeVersionMetadata zeroVersionMetadata data)
                      | Inl _ \<Rightarrow> zeroVersionMetadata) in
          putUnlocked s key
            (marshalIndent (encodeVersionMetadata
               (meta\<lparr>VVersion := version, Deprecated := True, Deprecation := message\<rparr>))) })"

definition providerVersionPrefix :: "string \<Rightarrow> string \<Rightarrow> string \<Rightarrow> string" where
  "providerVersionPrefix namespace name version =
     ''providers/'' @ namespace @ ''/'' @ name @ ''/'' @ version @ ''/''"

definition moduleVersionPrefix :: "string \<Rightarrow> string \<Rightarrow> string \<Rightarrow> string \<Rightarrow> string" where
  "moduleVersionPrefix namespace name provider version =
     ''modules/'' @ namespace @ ''/'' @ name @ ''/'' @ provider @ ''/'' @ version"

definition DeprecateProviderVersion :: "Store \<Rightarrow> string \<Rightarrow> string \<Rightarrow> string \<Rightarrow> string \<Rightarrow> unit result io" where
  "DeprecateProviderVersion s namespace name version message =
     setDeprecation s (providerVersionPrefix namespace name version @ ''metadata.json'') version message"

definition DeprecateModuleVersion ::
  "Store \<Rightarrow> string \<Rightarrow> string \<Rightarrow> string \<Rightarrow> string \<Rightarrow> string \<Rightarrow> unit result io" where
  "DeprecateModuleVersion s namespace name provider version message =
     setDeprecation s (moduleVersionPrefix namespace name provider version @ ''/metadata.json'') version message"

definition GetVersionMetadata :: "Store \<Rightarrow> string \<Rightarrow> VersionMetadata result io" where
  "GetVersionMetadata s key =
     bindR (Get s key) (\<lambda>data.
     case unmarshalInto decodeVersionMetadata zeroVersionMetadata data of (meta, err) \<Rightarrow>
       State_Monad.return (case err of Some e \<Rightarrow> Inl e | None \<Rightarrow> Inr meta))"

text \<open>The version component of a listed directory.\<close>

definition scanPart :: "nat \<Rightarrow> string \<Rightarrow> string option" where
  "scanPart i p =
     (let parts = splitAt CHR ''/'' (trimSuffix p ''/'') in if length parts > i then Some (parts ! i) else None)"

text \<open>The first occurrences of a list, as the loops over a \<^verbatim>\<open>seen\<close> map keep them.\<close>

fun dedup :: "('a \<Rightarrow> 'b) \<Rightarrow> 'b list \<Rightarrow> 'a list \<Rightarrow> 'a list" where
  "dedup key seen [] = []"
| "dedup key seen (x # xs) =
     (if key x \<in> set seen then dedup key seen xs else x # dedup key (key x # seen) xs)"

definition ScanProviderVersions :: "Store \<Rightarrow> string \<Rightarrow> string \<Rightarrow> string list result io" where
  "ScanProviderVersions s namespace name =
     bindR (List s (''providers/'' @ namespace @ ''/'' @ name @ ''/'') ''/'') (\<lambda>(_, prefixes).
     State_Monad.return (Inr (sortSemanticVersions
       (dedup id [] (filter (\<lambda>v. v \<noteq> ''index.json'') (List.map_filter (scanPart 3) prefixes))))))"

definition ScanModuleVersions :: "Store \<Rightarrow> string \<Rightarrow> string \<Rightarrow> string \<Rightarrow> string list result io" where
  "ScanModuleVersions s namespace name provider =
     bindR (List s (''modules/'' @ namespace @ ''/'' @ name @ ''/'' @ provider @ ''/'') ''/'') (\<lambda>(_, prefixes).
     State_Monad.return (Inr (sortSemanticVersions (List.map_filter (scanPart 4) prefixes))))"

text \<open>The loop of \<^verbatim>\<open>GetProviderPlatforms\<close>: a file that cannot be read or decoded is skipped.\<close>

definition isPlatformFile :: "string \<Rightarrow> bool" where
  "isPlatformFile obj \<longleftrightarrow>
     hasSuffix obj ''.json'' \<and> \<not> hasSuffix obj ''index.json'' \<and> \<not> hasSuffix obj ''metadata.json''"

fun readPlatforms :: "Store \<Rightarrow> string list \<Rightarrow> PlatformMeta list io" where
  "readPlatforms s [] = State_Monad.return []"
| "readPlatforms s (obj # objs) =
     (if \<not> isPlatformFile obj then readPlatforms s objs
      else do { r \<leftarrow> Get s obj;
                ps \<leftarrow> readPlatforms s objs;
                State_Monad.return
                  (case r of
                     Inl _ \<Rightarrow> ps
                   | Inr data \<Rightarrow>
                       (case unmarshalInto decodePlatformMeta zeroPlatformMeta data of
                          (pm, None) \<Rightarrow> pm # ps
                        | (_, Some _) \<Rightarrow> ps)) })"

definition platformKey :: "PlatformMeta \<Rightarrow> string" where
  "platformKey pm = OS pm @ ''/'' @ Arch pm"

definition GetProviderPlatforms :: "Store \<Rightarrow> string \<Rightarrow> string \<Rightarrow> string \<Rightarrow> PlatformMeta list result io" where
  "GetProviderPlatforms s namespace name version =
     bindR (List s (providerVersionPrefix namespace name version) []) (\<lambda>(objects, _).
     do { ps \<leftarrow> readPlatforms s objects;
          State_Monad.return (Inr (dedup platformKey [] ps)) })"

section \<open>Garbage collection\<close>

definition hourNanos :: int where "hourNanos = 3600000000000"

text \<open>The walk's callback on one entry: the new count, or the error that ends the walk.\<close>

fun collect :: "path \<Rightarrow> int \<Rightarrow> nat \<Rightarrow> (path \<times> FileInfo) list \<Rightarrow> (nat \<times> error option) io" where
  "collect base cutoff removed [] = State_Monad.return (removed, None)"
| "collect base cutoff removed ((r, info) # entries) =
     (let path = base @ r in
      if \<not> isDirectory info \<and> hasPrefix (last path) ''.tmp-'' \<and> modTime info < cutoff then
        do { res \<leftarrow> osRemove path;
             case res of
               Inl err \<Rightarrow>
                 if \<not> isNotExist err then State_Monad.return (removed, Some err)
                 else collect base cutoff (removed + 1) entries
             | Inr _ \<Rightarrow> collect base cutoff (removed + 1) entries }
      else collect base cutoff removed entries)"

definition GarbageCollect :: "Store \<Rightarrow> (nat \<times> error option) io" where
  "GarbageCollect s =
     do { now \<leftarrow> timeNow;
          r \<leftarrow> osWalk (basePath s);
          case r of
            Inl err \<Rightarrow> State_Monad.return (0, Some err)
          | Inr entries \<Rightarrow> collect (basePath s) (now - hourNanos) 0 entries }"

end
