(* ===== verification/Sha256.thy ===== *)
theory Sha256
  imports Json
begin

unbundle bit_operations_syntax

text \<open>
  SHA-256 (\<^verbatim>\<open>crypto/sha256\<close>) and hexadecimal text, which \<^verbatim>\<open>registry-server/crypto.go\<close>, the upload
  handlers and the API keys use.  What other theories rest on is the shape of a digest, 64 lower-case
  hexadecimal digits, and that hexadecimal text decodes to the bytes it was made of.
\<close>

section \<open>The compression function\<close>

type_synonym w32 = "32 word"

definition rotr32 :: "nat \<Rightarrow> w32 \<Rightarrow> w32" where
  "rotr32 n x = drop_bit n x OR push_bit (32 - n) x"

text \<open>The constants of the standard, in decimal: fractions of cube roots and square roots of the first primes.\<close>

definition sha256K :: "w32 list" where
  "sha256K =
     [1116352408, 1899447441, 3049323471, 3921009573, 961987163, 1508970993, 2453635748, 2870763221,
      3624381080, 310598401, 607225278, 1426881987, 1925078388, 2162078206, 2614888103, 3248222580,
      3835390401, 4022224774, 264347078, 604807628, 770255983, 1249150122, 1555081692, 1996064986,
      2554220882, 2821834349, 2952996808, 3210313671, 3336571891, 3584528711, 113926993, 338241895,
      666307205, 773529912, 1294757372, 1396182291, 1695183700, 1986661051, 2177026350, 2456956037,
      2730485921, 2820302411, 3259730800, 3345764771, 3516065817, 3600352804, 4094571909, 275423344,
      430227734, 506948616, 659060556, 883997877, 958139571, 1322822218, 1537002063, 1747873779,
      1955562222, 2024104815, 2227730452, 2361852424, 2428436474, 2756734187, 3204031479, 3329325298]"

definition sha256Init :: "w32 list" where
  "sha256Init =
     [1779033703, 3144134277, 1013904242, 2773480762, 1359893119, 2600822924, 528734635, 1541459225]"

text \<open>The message schedule, latest word first.\<close>

fun schedule :: "nat \<Rightarrow> w32 list \<Rightarrow> w32 list" where
  "schedule 0 ws = ws"
| "schedule (Suc n) ws =
     schedule n
       ((let x = ws ! 14; y = ws ! 1 in
         (rotr32 17 y XOR rotr32 19 y XOR drop_bit 10 y) + ws ! 6 +
         (rotr32 7 x XOR rotr32 18 x XOR drop_bit 3 x) + ws ! 15) # ws)"

type_synonym shaState = "w32 \<times> w32 \<times> w32 \<times> w32 \<times> w32 \<times> w32 \<times> w32 \<times> w32"

fun shaRound :: "shaState \<Rightarrow> w32 \<times> w32 \<Rightarrow> shaState" where
  "shaRound (a, b, c, d, e, f, g, h) (k, w) =
     (let t1 = h + (rotr32 6 e XOR rotr32 11 e XOR rotr32 25 e) + ((e AND f) XOR (NOT e AND g)) + k + w;
          t2 = (rotr32 2 a XOR rotr32 13 a XOR rotr32 22 a) + ((a AND b) XOR (a AND c) XOR (b AND c))
      in (t1 + t2, a, b, c, d + t1, e, f, g))"

definition compressBlock :: "w32 list \<Rightarrow> w32 list \<Rightarrow> w32 list" where
  "compressBlock H block =
     (case foldl shaRound (H ! 0, H ! 1, H ! 2, H ! 3, H ! 4, H ! 5, H ! 6, H ! 7)
             (zip sha256K (rev (schedule 48 (rev block)))) of
        (a, b, c, d, e, f, g, h) \<Rightarrow> map2 (+) H [a, b, c, d, e, f, g, h])"

section \<open>Padding and the digest\<close>

definition bigEndian :: "nat \<Rightarrow> nat \<Rightarrow> bytes" where
  "bigEndian n x = map (\<lambda>i. char_of (x div 256 ^ i mod 256)) (rev [0..<n])"

definition padMessage :: "bytes \<Rightarrow> bytes" where
  "padMessage m =
     m @ [CHR 0x80] @ replicate ((119 - length m mod 64) mod 64) CHR 0x00 @ bigEndian 8 (8 * length m)"

fun wordsOf :: "bytes \<Rightarrow> w32 list" where
  "wordsOf (a # b # c # d # s) =
     word_of_nat (((of_char a * 256 + of_char b) * 256 + of_char c) * 256 + of_char d) # wordsOf s"
| "wordsOf _ = []"

function compressAll :: "w32 list \<Rightarrow> w32 list \<Rightarrow> w32 list" where
  "compressAll H ws = (if length ws < 16 then H else compressAll (compressBlock H (take 16 ws)) (drop 16 ws))"
  by pat_completeness auto
termination by (relation "measure (\<lambda>(_, ws). length ws)") auto

declare compressAll.simps [simp del]

definition sha256Sum :: "bytes \<Rightarrow> bytes" where
  "sha256Sum m = concat (map (\<lambda>w. bigEndian 4 (unat w)) (compressAll sha256Init (wordsOf (padMessage m))))"

text \<open>\<^verbatim>\<open>hex.EncodeToString\<close>, which is also what \<^verbatim>\<open>%x\<close> prints.\<close>

definition hexEncode :: "bytes \<Rightarrow> string" where
  "hexEncode bs = concat (map (\<lambda>c. [hexDigit (of_char c div 16), hexDigit (of_char c mod 16)]) bs)"

text \<open>\<^verbatim>\<open>hex.DecodeString\<close>.\<close>

fun hexDecode :: "string \<Rightarrow> bytes option" where
  "hexDecode [] = Some []"
| "hexDecode [_] = None"
| "hexDecode (a # b # s) =
     (case (hexVal a, hexVal b) of
        (Some i, Some j) \<Rightarrow> map_option (Cons (char_of (i * 16 + j))) (hexDecode s)
      | _ \<Rightarrow> None)"

definition sha256Hex :: "bytes \<Rightarrow> string" where
  "sha256Hex m = hexEncode (sha256Sum m)"

section \<open>The shape of a digest\<close>

definition lowerHex :: "char \<Rightarrow> bool" where
  "lowerHex c \<longleftrightarrow> isDigit c \<or> CHR ''a'' \<le> c \<and> c \<le> CHR ''f''"

lemma less_16_cases: "n < 16 \<Longrightarrow> n \<in> set [0..<16]"
  by simp

lemma hexDigit_lower: "n < 16 \<Longrightarrow> lowerHex (hexDigit n)"
proof -
  have "\<forall>n \<in> set [0..<16]. lowerHex (hexDigit n)" by code_simp
  then show "n < 16 \<Longrightarrow> lowerHex (hexDigit n)" using less_16_cases by blast
qed

lemma compressBlock_length: "length H = 8 \<Longrightarrow> length (compressBlock H b) = 8"
  by (simp add: compressBlock_def split: prod.split)

lemma compressAll_length: "length H = 8 \<Longrightarrow> length (compressAll H ws) = 8"
proof (induction H ws rule: compressAll.induct)
  case (1 H ws)
  then show ?case by (subst compressAll.simps) (simp add: compressBlock_length)
qed

lemma sha256Sum_length: "length (sha256Sum m) = 32"
proof -
  have "length (concat (map (\<lambda>w. bigEndian 4 (unat w)) ws)) = 4 * length ws" for ws :: "w32 list"
    by (induction ws) (simp_all add: bigEndian_def)
  then show ?thesis by (simp add: sha256Sum_def compressAll_length sha256Init_def)
qed

lemma nibbles: "of_char c div 16 < (16 :: nat)" "of_char c mod 16 < (16 :: nat)"
  using nat_of_char_less_256 [of c] by (simp_all add: less_mult_imp_div_less)

lemma hexEncode_Cons:
  "hexEncode (c # bs) = hexDigit (of_char c div 16) # hexDigit (of_char c mod 16) # hexEncode bs"
  by (simp add: hexEncode_def)

lemma hexEncode_shape: "length (hexEncode bs) = 2 * length bs \<and> list_all lowerHex (hexEncode bs)"
  by (induction bs) (simp_all add: hexEncode_Cons hexDigit_lower nibbles, simp add: hexEncode_def)

lemma sha256Hex_shape: "length (sha256Hex m) = 64" "list_all lowerHex (sha256Hex m)"
  using hexEncode_shape [of "sha256Sum m"] sha256Sum_length [of m] by (simp_all add: sha256Hex_def)

lemma hexDecode_encode: "hexDecode (hexEncode bs) = Some bs"
proof (induction bs)
  case (Cons c bs)
  have "of_char c div 16 * 16 + of_char c mod 16 = (of_char c :: nat)" by simp
  then show ?case using Cons by (simp add: hexEncode_Cons hexVal_hexDigit nibbles)
qed (simp add: hexEncode_def)

end
