(* ===== verification/Http.thy ===== *)
theory Http
  imports Storage Sha256 Archive
begin

text \<open>
  The part of \<^verbatim>\<open>net/http\<close> and \<^verbatim>\<open>fmt\<close> the registry's handlers use: requests, responses, the text of errors,
  and the response helpers of \<^verbatim>\<open>registry-server/api.go\<close>, \<^verbatim>\<open>auth.go\<close> and \<^verbatim>\<open>middleware.go\<close>.
\<close>

section \<open>Requests\<close>

text \<open>
  A multipart body: what \<^verbatim>\<open>MultipartReader\<close> reports, and the first part as \<^verbatim>\<open>NextPart\<close> delivers it, with the
  number of bytes of the body before the part's content and after it.
\<close>

record filePart =
  formName :: string
  partFileName :: string
  headBytes :: nat
  content :: stream
  tailBytes :: nat

record request =
  reqMethod :: string
  urlPath :: string
  reqHeader :: "(string \<times> string) list"
  remoteAddr :: string
  pathVars :: "(string \<times> string) list"
  reqBody :: bytes
  multipartReader :: "error option"
  nextPart :: "filePart result"

text \<open>\<^verbatim>\<open>Header.Get\<close> and the map access \<^verbatim>\<open>mux.Vars(r)[k]\<close>: the empty string when there is none.\<close>

definition lookupStr :: "(string \<times> string) list \<Rightarrow> string \<Rightarrow> string" where
  "lookupStr kvs k = (case map_of kvs k of Some v \<Rightarrow> v | None \<Rightarrow> [])"

abbreviation headerGet :: "request \<Rightarrow> string \<Rightarrow> string" where
  "headerGet r k \<equiv> lookupStr (reqHeader r) k"

abbreviation var :: "request \<Rightarrow> string \<Rightarrow> string" where
  "var r k \<equiv> lookupStr (pathVars r) k"

section \<open>Responses\<close>

text \<open>
  What a handler leaves behind: status, headers and body.  \<open>ServeContent\<close> is a file handed to
  \<^verbatim>\<open>http.ServeContent\<close>, which sends it or the ranges of it that the client asks for.
\<close>

datatype body = Sent bytes | ServeContent string int node

record response =
  status :: nat
  respHeader :: "(string \<times> string) list"
  respBody :: body

text \<open>\<^verbatim>\<open>Header.Set\<close>.\<close>

definition setHeader :: "string \<Rightarrow> string \<Rightarrow> (string \<times> string) list \<Rightarrow> (string \<times> string) list" where
  "setHeader k v hs = filter (\<lambda>(k', _). k' \<noteq> k) hs @ [(k, v)]"

text \<open>\<^verbatim>\<open>http.Error\<close>: plain text with a newline; the headers set before stay.\<close>

definition httpError :: "(string \<times> string) list \<Rightarrow> string \<Rightarrow> nat \<Rightarrow> response" where
  "httpError hs msg code =
     \<lparr>status = code,
      respHeader = setHeader ''X-Content-Type-Options'' ''nosniff''
                     (setHeader ''Content-Type'' ''text/plain; charset=utf-8'' hs),
      respBody = Sent (msg @ [CHR 0x0A])\<rparr>"

text \<open>The \<^verbatim>\<open>%q\<close> verb on a string of ASCII characters (\<^verbatim>\<open>strconv.Quote\<close>).\<close>

definition quoteByte :: "char \<Rightarrow> string" where
  "quoteByte c =
     (if c = CHR 0x22 \<or> c = CHR 0x5C then [CHR 0x5C, c]
      else if c = CHR 0x07 then [CHR 0x5C, CHR ''a'']
      else if c = CHR 0x08 then [CHR 0x5C, CHR ''b'']
      else if c = CHR 0x0C then [CHR 0x5C, CHR ''f'']
      else if c = CHR 0x0A then [CHR 0x5C, CHR ''n'']
      else if c = CHR 0x0D then [CHR 0x5C, CHR ''r'']
      else if c = CHR 0x09 then [CHR 0x5C, CHR ''t'']
      else if c = CHR 0x0B then [CHR 0x5C, CHR ''v'']
      else if of_char c < (0x20 :: nat) \<or> c = CHR 0x7F then
        CHR 0x5C # ''x'' @ [hexDigit (of_char c div 16), hexDigit (of_char c mod 16)]
      else [c])"

definition quoteASCII :: "string \<Rightarrow> string" where
  "quoteASCII s = CHR 0x22 # concat (map quoteByte s) @ [CHR 0x22]"

text \<open>\<^verbatim>\<open>httpJSONError\<close> of \<^verbatim>\<open>auth.go\<close>, whose messages are ASCII.\<close>

definition jsonErrorBody :: "string \<Rightarrow> bytes" where
  "jsonErrorBody message =
     CHR ''{'' # quoteASCII ''success'' @ '':false,'' @ quoteASCII ''message'' @ '':'' @ quoteASCII message @ ''}''"

definition httpJSONError :: "nat \<Rightarrow> string \<Rightarrow> response" where
  "httpJSONError code message =
     \<lparr>status = code, respHeader = [(''Content-Type'', ''application/json'')], respBody = Sent (jsonErrorBody message)\<rparr>"

text \<open>\<^verbatim>\<open>APIResponse\<close> and \<^verbatim>\<open>writeJSON\<close> of \<^verbatim>\<open>api.go\<close>; \<open>data\<close> is \<open>None\<close> for the nil interface.\<close>

record APIResponse =
  Success :: bool
  Message :: string
  Data :: "json option"

definition encodeAPIResponse :: "APIResponse \<Rightarrow> json" where
  "encodeAPIResponse a =
     JObj ([(''success'', JBool (Success a))] @
           (if Message a = [] then [] else [(''message'', JStr (Message a))]) @
           (case Data a of None \<Rightarrow> [] | Some j \<Rightarrow> [(''data'', j)]))"

definition writeJSON :: "nat \<Rightarrow> APIResponse \<Rightarrow> response" where
  "writeJSON code v =
     \<lparr>status = code, respHeader = [(''Content-Type'', ''application/json'')],
      respBody = Sent (encodeLine (encodeAPIResponse v))\<rparr>"

abbreviation failed :: "nat \<Rightarrow> string \<Rightarrow> response" where
  "failed code message \<equiv> writeJSON code \<lparr>Success = False, Message = message, Data = None\<rparr>"

abbreviation succeeded :: "string \<Rightarrow> response" where
  "succeeded message \<equiv> writeJSON 200 \<lparr>Success = True, Message = message, Data = None\<rparr>"

abbreviation dataResponse :: "json \<Rightarrow> response" where
  "dataResponse j \<equiv> writeJSON 200 \<lparr>Success = True, Message = [], Data = Some j\<rparr>"

text \<open>\<^verbatim>\<open>SetTerraformProtocolHeaders\<close>, and a protocol response.\<close>

definition SetTerraformProtocolHeaders :: "(string \<times> string) list \<Rightarrow> (string \<times> string) list" where
  "SetTerraformProtocolHeaders hs =
     setHeader ''X-Terraform-Protocol-Versions'' ''5.0''
       (setHeader ''X-Terraform-Protocol-Version'' ''5.0''
         (setHeader ''Content-Type'' ''application/json'' hs))"

definition protocolResponse :: "json \<Rightarrow> response" where
  "protocolResponse j =
     \<lparr>status = 200, respHeader = SetTerraformProtocolHeaders [], respBody = Sent (encodeLine j)\<rparr>"

text \<open>An error message in JSON, as the protocol handlers write them into \<^verbatim>\<open>http.Error\<close>.\<close>

definition errorText :: "string \<Rightarrow> string" where
  "errorText e = CHR ''{'' # quoteASCII ''error'' @ '':'' @ quoteASCII e @ ''}''"

section \<open>The text of errors\<close>

text \<open>
  \<^verbatim>\<open>err.Error()\<close>.  The text of an operating system error names the call and the path, which the model's
  errors do not keep: \<open>osText\<close> stands for it.  In a format \<^verbatim>\<open>%w\<close> is the wrapped error, any other verb the
  next argument.
\<close>

fun expandFormat :: "string \<Rightarrow> string list \<Rightarrow> string \<Rightarrow> string" where
  "expandFormat wrapped args [] = []"
| "expandFormat wrapped args [c] = [c]"
| "expandFormat wrapped args (c # v # fmt) =
     (if c \<noteq> CHR ''%'' then c # expandFormat wrapped args (v # fmt)
      else if v = CHR ''w'' then wrapped @ expandFormat wrapped args fmt
      else (case args of
              [] \<Rightarrow> expandFormat wrapped [] fmt
            | a # rest \<Rightarrow> a @ expandFormat wrapped rest fmt))"

fun errorString :: "(error \<Rightarrow> string) \<Rightarrow> error \<Rightarrow> string" where
  "errorString osText (Errorf fmt args) = expandFormat [] args fmt"
| "errorString osText (Wrapf fmt args e) = expandFormat (errorString osText e) args fmt"
| "errorString osText ErrUploadTooLarge = ''upload exceeds maximum size''"
| "errorString osText ErrInvalidArchive = ''invalid archive''"
| "errorString osText MaxBytesError = ''http: request body too large''"
| "errorString osText e = osText e"

section \<open>Facts\<close>

lemma httpError_status [simp]: "status (httpError hs msg code) = code"
  by (simp add: httpError_def)

lemma httpJSONError_status [simp]: "status (httpJSONError code msg) = code"
  by (simp add: httpJSONError_def)

lemma writeJSON_status [simp]: "status (writeJSON code v) = code"
  by (simp add: writeJSON_def)

lemma protocolResponse_status [simp]: "status (protocolResponse j) = 200"
  by (simp add: protocolResponse_def)

end
