(* ===== verification/Trees.thy ===== *)
theory Trees
  imports OS
begin

text \<open>
  Invariants of the operating-system model: assertions that every program of calls preserves, with
  the rules to show it.  The file system stays a tree under all calls, all failures and all crashes.
\<close>

section \<open>Preserved assertions\<close>

definition preserves :: "(fsys \<Rightarrow> bool) \<Rightarrow> 'a io \<Rightarrow> bool" where
  "preserves I m \<longleftrightarrow> triple I m (\<lambda>_. I)"

named_theorems preserving

lemma preservesD: "preserves I m \<Longrightarrow> I (fs w) \<Longrightarrow> run_state m w = (r, w') \<Longrightarrow> I (fs w')"
  unfolding preserves_def by (rule tripleD)

lemma preserves_readOnly: "readOnly m \<Longrightarrow> preserves I m"
  unfolding preserves_def by (rule readOnly_triple)

lemma preserves_return [preserving]: "preserves I (State_Monad.return x)"
  by (rule preserves_readOnly) (rule readonly)

lemma preserves_bind [preserving]:
  "preserves I m \<Longrightarrow> (\<And>x. preserves I (k x)) \<Longrightarrow> preserves I (State_Monad.bind m k)"
  unfolding preserves_def by (rule triple_bind)

lemma preserves_if [preserving]: "preserves I m \<Longrightarrow> preserves I m' \<Longrightarrow> preserves I (if b then m else m')"
  by simp

lemma preserves_case_sum [preserving]:
  "(\<And>e. preserves I (g e)) \<Longrightarrow> (\<And>x. preserves I (h x)) \<Longrightarrow> preserves I (case r of Inl e \<Rightarrow> g e | Inr x \<Rightarrow> h x)"
  by (cases r) auto

lemma preserves_case_option [preserving]:
  "preserves I g \<Longrightarrow> (\<And>x. preserves I (h x)) \<Longrightarrow> preserves I (case r of None \<Rightarrow> g | Some x \<Rightarrow> h x)"
  by (cases r) auto

lemma preserves_case_prod [preserving]:
  "(\<And>a b. preserves I (g a b)) \<Longrightarrow> preserves I (case p of (a, b) \<Rightarrow> g a b)"
  by (cases p) auto

lemma preserves_bindR [preserving]:
  "preserves I m \<Longrightarrow> (\<And>x. preserves I (k x)) \<Longrightarrow> preserves I (bindR m k)"
  unfolding bindR_def by (intro preserving)

lemma preserves_wrapErr [preserving]: "preserves I m \<Longrightarrow> preserves I (wrapErr fmt args m)"
  unfolding wrapErr_def by (intro preserving)

lemma preserves_onErr [preserving]: "preserves I m \<Longrightarrow> preserves I c \<Longrightarrow> preserves I (onErr m c)"
  unfolding onErr_def by (intro preserving)

lemma preserves_ignore [preserving]: "preserves I m \<Longrightarrow> preserves I (ignore m)"
  unfolding ignore_def by (intro preserving)

lemma preserves_finally [preserving]: "preserves I m \<Longrightarrow> preserves I c \<Longrightarrow> preserves I (finally_do m c)"
  unfolding finally_do_def by (intro preserving)

lemma preserves_withLock [preserving]: "preserves I m \<Longrightarrow> preserves I (withLock key m)"
  unfolding preserves_def by (rule triple_withLock)

lemmas preserves_queries [preserving] = readOnly_calls [THEN preserves_readOnly]

lemma triple_conj:
  "triple P m Q \<Longrightarrow> triple P' m Q' \<Longrightarrow> triple (\<lambda>f. P f \<and> P' f) m (\<lambda>r f. Q r f \<and> Q' r f)"
  unfolding triple_def by blast

section \<open>Trees\<close>

text \<open>Whatever exists is in a directory that exists.\<close>

definition fsTree :: "fsys \<Rightarrow> bool" where
  "fsTree f \<longleftrightarrow> (\<forall>p. fsGet f p \<noteq> None \<longrightarrow> dirsTo f p)"

lemma fsTree_strict: "fsTree f \<Longrightarrow> fsGet f p \<noteq> None \<Longrightarrow> strict_prefix q p \<Longrightarrow> fsGet f q = Some Dir"
  by (auto simp: fsTree_def dirsTo_def)

lemma fsTree_butlast: "fsTree f \<Longrightarrow> fsGet f p \<noteq> None \<Longrightarrow> fsGet f (butlast p) = Some Dir"
proof (cases "p = []")
  case False
  assume "fsTree f" "fsGet f p \<noteq> None"
  moreover have "strict_prefix (butlast p) p"
    using False by (metis append_butlast_last_id prefix_snoc strict_prefix_def append_self_conv list.distinct(1) prefix_order.refl)
  ultimately show ?thesis by (rule fsTree_strict)
qed simp

lemma dirsTo_parent:
  assumes "fsTree f" "fsGet f (butlast p) = Some Dir"
  shows "dirsTo f p"
proof (cases "p = []")
  case False
  have "dirsTo f (butlast p)" using assms by (simp add: fsTree_def)
  then show ?thesis using assms(2) False dirsTo_snoc [of f "butlast p" "last p"] by simp
qed (simp add: dirsTo_def)

text \<open>A path that the kernel resolves lies in a directory.\<close>

lemma canon_parent:
  "canon create f n acc cs = Inr q \<Longrightarrow> fsTree f \<Longrightarrow> fsGet f acc = Some Dir \<Longrightarrow> fsGet f (butlast q) = Some Dir"
proof (induction create f n acc cs rule: canon.induct)
  case (1 create f n acc)
  then show ?case using fsTree_butlast by simp
next
  case (2 create f n acc c cs)
  consider (skip) "c = [] \<or> c = ''.''" | (up) "c = ''..''" | (down) "\<not> (c = [] \<or> c = ''.'')" "c \<noteq> ''..''" by blast
  then show ?case
  proof cases
    case skip
    then show ?thesis using 2(1) [OF skip] 2(5-7) by simp
  next
    case up
    then show ?thesis using 2(2) 2(5-7) fsTree_butlast by simp
  next
    case down
    show ?thesis
    proof (cases "fsGet f (acc @ [c])")
      case None
      then show ?thesis using 2(5,7) down by (auto split: if_splits)
    next
      case (Some x)
      show ?thesis
      proof (cases x)
        case (File d s t)
        then show ?thesis using 2(5,7) down Some by (auto split: if_splits)
      next
        case Dir
        then show ?thesis using 2(3) [OF down Some Dir] 2(5-7) down Some by simp
      next
        case (Link t i)
        then obtain k where n: "n = Suc k" using 2(5) down Some by (cases n) auto
        show ?thesis using 2(4) [OF down Some Link n] 2(5-7) down Some Link n by (simp split: if_splits)
      qed
    qed
  qed
qed

lemma place_parent:
  assumes "place f p = Inr q" "fsTree f"
  shows "fsGet f (butlast q) = Some Dir"
  using assms by (auto simp: place_def split: if_splits sum.splits)

lemma no_children: "fsTree f \<Longrightarrow> fsGet f p \<noteq> Some Dir \<Longrightarrow> strict_prefix p q \<Longrightarrow> fsGet f q = None"
  using fsTree_strict by blast

lemma fsTree_put:
  assumes "fsTree f" "fsGet f (butlast p) = Some Dir" "p \<noteq> []" "fsGet f p \<noteq> Some Dir"
  shows "fsTree (fsPut p n f)"
  unfolding fsTree_def
proof (intro allI impI)
  fix q assume q: "fsGet (fsPut p n f) q \<noteq> None"
  show "dirsTo (fsPut p n f) q"
    unfolding dirsTo_def
  proof (intro allI impI)
    fix x assume x: "strict_prefix x q"
    have "x \<noteq> p"
    proof
      assume "x = p"
      then show False using q x no_children [OF assms(1,4)] assms(3) by (auto simp: fsGet_fsPut split: if_splits)
    qed
    moreover have "fsGet f x = Some Dir"
    proof (cases "q = p")
      case True
      then show ?thesis using x dirsTo_parent [OF assms(1,2)] by (simp add: dirsTo_def)
    next
      case False
      then show ?thesis using q x assms(1,3) fsTree_strict by (auto simp: fsGet_fsPut)
    qed
    ultimately show "fsGet (fsPut p n f) x = Some Dir" using assms(3) by (simp add: fsGet_fsPut)
  qed
qed

lemma fsTree_del:
  assumes "fsTree f" "\<And>q. strict_prefix p q \<Longrightarrow> fsGet f q = None"
  shows "fsTree (fsDel p f)"
proof (cases "p = []")
  case True
  then have "fsGet (fsDel p f) = fsGet f" by (auto simp: fsGet_def fsDel_def map_of_filter_key fun_eq_iff)
  then show ?thesis using assms(1) by (simp add: fsTree_def dirsTo_def)
next
  case False
  then show ?thesis using assms by (auto simp: fsTree_def dirsTo_def fsGet_fsDel split: if_splits)
qed

lemma fsTree_filter:
  assumes "fsTree f" "\<And>x y. P y \<Longrightarrow> fsGet f y \<noteq> None \<Longrightarrow> strict_prefix x y \<Longrightarrow> P x"
  shows "fsTree (filter (\<lambda>(k, _). P k) f)"
proof -
  have get: "fsGet (filter (\<lambda>(k, _). P k) f) p = (if p = [] then Some Dir else if P p then fsGet f p else None)" for p
    by (simp add: fsGet_def map_of_filter_key)
  show ?thesis
    unfolding fsTree_def dirsTo_def get using assms fsTree_strict [OF assms(1)]
    by (auto split: if_splits)
qed

lemma fsTree_move:
  assumes tree: "fsTree f" and s: "fsGet f s = Some Dir" and d: "fsGet f d = None" "fsGet f (butlast d) = Some Dir"
    and np: "\<not> prefix s d"
  shows "fsTree (fsMove s d f)"
proof -
  have nd: "\<not> prefix d s"
  proof
    assume "prefix d s"
    then show False using d(1) s fsTree_strict [OF tree, of s d] by (cases "d = s") (auto simp: strict_prefix_def)
  qed
  note get = fsGet_fsMove [OF np nd]
  have above: "fsGet f x = Some Dir" if "strict_prefix x d" for x
    using dirsTo_parent [OF tree d(2)] that by (simp add: dirsTo_def)
  show ?thesis
    unfolding fsTree_def dirsTo_def
  proof (intro allI impI)
    fix p x assume p: "fsGet (fsMove s d f) p \<noteq> None" and x: "strict_prefix x p"
    show "fsGet (fsMove s d f) x = Some Dir"
    proof (cases "prefix d p")
      case True
      then obtain r where r: "p = d @ r" by (auto simp: prefix_def)
      have sr: "fsGet f (s @ r) \<noteq> None" using p r by (simp add: get)
      show ?thesis
      proof (cases "prefix d x")
        case True
        then obtain r' where r': "x = d @ r'" by (auto simp: prefix_def)
        then have "strict_prefix (s @ r') (s @ r)" using x r by (simp add: strict_prefix_def)
        then show ?thesis using fsTree_strict [OF tree sr] r' by (simp add: get)
      next
        case False
        then have "strict_prefix x d" using x r by (auto simp: strict_prefix_def prefix_append)
        then have "\<not> prefix s x" using np by (auto simp: strict_prefix_def dest: prefix_order.trans)
        then show ?thesis using False above [OF \<open>strict_prefix x d\<close>] by (simp add: get)
      qed
    next
      case False
      then have "\<not> prefix s p" "fsGet f p \<noteq> None" using p by (auto simp: get split: if_splits)
      moreover have "\<not> prefix d x" "\<not> prefix s x"
        using x False \<open>\<not> prefix s p\<close> by (auto simp: strict_prefix_def dest: prefix_order.trans)
      ultimately show ?thesis using fsTree_strict [OF tree _ x] by (simp add: get)
    qed
  qed
qed

lemma strict_prefix_less: "strict_prefix x y \<Longrightarrow> x < (y :: string list)"
proof (induction x arbitrary: y)
  case Nil
  then show ?case by (cases y) auto
next
  case (Cons a x)
  then show ?case by (cases y) auto
qed

lemma take_descending:
  fixes l :: "'a :: linorder list"
  assumes "sorted (rev l)" "x \<in> set (take k l)" "y \<in> set l" "x < y"
  shows "y \<in> set (take k l)"
proof (rule ccontr)
  assume "y \<notin> set (take k l)"
  then have "y \<in> set (drop k l)" using assms(3) by (metis Un_iff append_take_drop_id set_append)
  moreover have "sorted (rev (drop k l) @ rev (take k l))"
    using assms(1) by (metis append_take_drop_id rev_append)
  ultimately have "y \<le> x" using assms(2) by (auto simp: sorted_append)
  then show False using assms(4) by simp
qed

section \<open>All calls keep the tree\<close>

lemma preserves_atomically:
  assumes "\<And>w r w'. I (fs w) \<Longrightarrow> act w = (r, w') \<Longrightarrow> I (fs w')"
  shows "preserves I (atomically act)"
  unfolding preserves_def by (rule triple_atomically) (use assms in auto)

lemma fsGet_not_root: "fsGet f p = None \<Longrightarrow> p \<noteq> []"
  by auto

lemma tree_mkdir [preserving]: "preserves fsTree (osMkdir p)"
  unfolding osMkdir_def
  by (rule preserves_atomically)
     (auto split: sum.splits if_splits intro!: fsTree_put dest: place_parent fsGet_not_root)

lemma tree_open [preserving]: "preserves fsTree (osOpenFile p)"
  unfolding osOpenFile_def
proof (rule preserves_atomically)
  fix w r w'
  assume t: "fsTree (fs w)" and act: "(case canon True (fs w) kernelLinks [] p of Inl e \<Rightarrow> (Inl e, w)
     | Inr q \<Rightarrow> if fsGet (fs w) q = Some Dir then (Inl ErrIsDir, w)
                else (Inr q, w\<lparr>fs := fsPut q (File [] False (clock w)) (fs w)\<rparr>)) = (r, w')"
  show "fsTree (fs w')"
  proof (cases "canon True (fs w) kernelLinks [] p")
    case (Inr q)
    then show ?thesis
      using t act canon_parent [OF Inr t] by (cases "q = []") (auto split: if_splits intro!: fsTree_put)
  qed (use act t in auto)
qed

lemma tree_file: "fsTree f \<Longrightarrow> fsGet f h = Some (File d s t) \<Longrightarrow> fsTree (fsPut h (File d' s' t') f)"
  by (intro fsTree_put fsTree_butlast) auto

lemma tree_append: "fsTree (fs w) \<Longrightarrow> fsTree (fs (appendData h data w))"
  by (auto simp: appendData_def split: option.splits node.splits intro: tree_file)

lemma tree_write [preserving]: "preserves fsTree (osWrite h data)"
  unfolding osWrite_def preserves_def by (rule triple_syscall) (auto intro: tree_append)

lemma tree_sync [preserving]: "preserves fsTree (osSync h)"
  unfolding osSync_def
  by (rule preserves_atomically) (auto split: option.splits node.splits intro: tree_file)

lemma renameAct_changed:
  assumes act: "renameAct src dst w = (r, w')" and changed: "fs w' \<noteq> fs w"
  obtains s d n where "place (fs w) src = Inr s" "place (fs w) dst = Inr d" "fsGet (fs w) s = Some n"
    "fsGet (fs w) d \<noteq> Some Dir" "s \<noteq> d" "n = Dir \<longrightarrow> fsGet (fs w) d = None" "\<not> prefix s d"
    "fs w' = (if n = Dir then fsMove s d (fs w) else fsPut d n (fsDel s (fs w)))" "r = Inr ()"
proof -
  obtain s where s: "place (fs w) src = Inr s" using act changed by (cases "place (fs w) src") (auto simp: renameAct_def)
  obtain d where d: "place (fs w) dst = Inr d" using act changed s by (cases "place (fs w) dst") (auto simp: renameAct_def)
  obtain n where n: "fsGet (fs w) s = Some n"
    using act changed s d by (cases "fsGet (fs w) s") (auto simp: renameAct_def)
  have c: "fsGet (fs w) d \<noteq> Some Dir" "s \<noteq> d" "\<not> (n = Dir \<and> fsGet (fs w) d \<noteq> None)" "\<not> prefix s d"
    using act changed s d n by (simp_all add: renameAct_def split: if_splits)
  then have "r = Inr ()" "w' = w\<lparr>fs := if n = Dir then fsMove s d (fs w) else fsPut d n (fsDel s (fs w))\<rparr>"
    using act s d n by (simp_all add: renameAct_def split: if_splits)
  then show ?thesis using that [OF s d n] c by simp
qed

lemma tree_rename [preserving]: "preserves fsTree (osRename src dst)"
  unfolding osRename_def
proof (rule preserves_atomically)
  fix w r w' assume t: "fsTree (fs w)" and act: "renameAct src dst w = (r, w')"
  show "fsTree (fs w')"
  proof (cases "fs w' = fs w")
    case True
    then show ?thesis using t by simp
  next
    case changed: False
    obtain s d n where p: "place (fs w) src = Inr s" "place (fs w) dst = Inr d" "fsGet (fs w) s = Some n"
      and c: "fsGet (fs w) d \<noteq> Some Dir" "s \<noteq> d" "n = Dir \<longrightarrow> fsGet (fs w) d = None" "\<not> prefix s d"
      and w': "fs w' = (if n = Dir then fsMove s d (fs w) else fsPut d n (fsDel s (fs w)))"
      by (rule renameAct_changed [OF act changed])
    have ne: "s \<noteq> []" "d \<noteq> []" using c(1,4) by auto
    have par: "fsGet (fs w) (butlast d) = Some Dir" using place_parent [OF p(2) t] .
    show ?thesis
    proof (cases "n = Dir")
      case True
      then show ?thesis using fsTree_move [OF t] p(3) c par w' by simp
    next
      case False
      have "fsTree (fsDel s (fs w))"
        using no_children [OF t, of s] p(3) False by (intro fsTree_del [OF t]) auto
      moreover have "butlast d \<noteq> s" using par p(3) False by auto
      ultimately show ?thesis
        using False w' c ne par by (auto intro!: fsTree_put simp: fsGet_fsDel)
    qed
  qed
qed

lemma tree_remove [preserving]: "preserves fsTree (osRemove p)"
  unfolding osRemove_def
proof (rule preserves_atomically)
  fix w r w'
  assume t: "fsTree (fs w)" and act: "(case place (fs w) p of Inl e \<Rightarrow> (Inl e, w)
     | Inr q \<Rightarrow> (case fsGet (fs w) q of None \<Rightarrow> (Inl ErrNotExist, w)
          | Some n \<Rightarrow> if n = Dir \<and> hasChildren (fs w) q then (Inl ErrNotEmpty, w)
                      else (Inr (), w\<lparr>fs := fsDel q (fs w)\<rparr>))) = (r, w')"
  have none: "fsGet (fs w) x = None" if "\<not> hasChildren (fs w) q" "strict_prefix q x" for q x
  proof -
    have "x \<notin> set (map fst (fs w))" using that by (auto simp: hasChildren_def list_ex_iff)
    then show ?thesis using that(2) by (auto simp: fsGet_def map_of_eq_None_iff)
  qed
  show "fsTree (fs w')"
  proof (cases "place (fs w) p")
    case (Inr q)
    show ?thesis
    proof (cases "fsGet (fs w) q = None \<or> (fsGet (fs w) q = Some Dir \<and> hasChildren (fs w) q)")
      case True
      then show ?thesis using act t Inr by auto
    next
      case False
      then have "fsGet (fs w) x = None" if "strict_prefix q x" for x
        using none [OF _ that] no_children [OF t _ that] by blast
      then have "fsTree (fsDel q (fs w))" by (rule fsTree_del [OF t])
      then show ?thesis using act Inr False by (auto split: option.splits if_splits)
    qed
  qed (use act t in auto)
qed

lemma createTemp_fresh: "createTempLoop n d pre suf rs f = (Some nm, rs') \<Longrightarrow> fsGet f (d @ [nm]) = None"
  by (induction n d pre suf rs f rule: createTempLoop.induct) (auto split: if_splits)

lemma tree_createTemp [preserving]: "preserves fsTree (osCreateTemp dir pre suf)"
  unfolding osCreateTemp_def
proof (rule preserves_atomically)
  fix w r w'
  assume t: "fsTree (fs w)" and act: "(case canon False (fs w) kernelLinks [] dir of
       Inl e \<Rightarrow> (Inl e, w)
     | Inr d \<Rightarrow>
         if fsGet (fs w) d \<noteq> Some Dir then (Inl ErrNotDir, w)
         else (case createTempLoop createTempTries d pre suf (rand w) (fs w) of
             (None, rs) \<Rightarrow> (Inl ErrExist, w\<lparr>rand := rs\<rparr>)
           | (Some nm, rs) \<Rightarrow>
               (Inr (d @ [nm], dir @ [nm]),
                w\<lparr>fs := fsPut (d @ [nm]) (File [] False (clock w)) (fs w), rand := rs\<rparr>))) = (r, w')"
  then show "fsTree (fs w')"
    using createTemp_fresh
    by (auto split: sum.splits if_splits prod.splits option.splits intro!: fsTree_put)
qed

lemma tree_mkdirAll [preserving]: "preserves fsTree (osMkdirAll p)"
proof -
  have "preserves fsTree (mkdirAllRev rp)" for rp
  proof (induction rp)
    case (Cons c rp)
    then show ?case unfolding mkdirAllRev.simps by (intro preserving)
  qed (simp add: preserving)
  then show ?thesis by (simp add: osMkdirAll_def)
qed

lemma tree_removeAll [preserving]: "preserves fsTree (osRemoveAll p)"
  unfolding osRemoveAll_def preserves_def
proof (rule triple_syscall)
  fix w :: world and k assume t: "fsTree (fs w)"
  show "fsTree (fs (removeFirst p k w))"
  proof (cases "place (fs w) p")
    case (Inr q)
    define vs where "vs = take k (rev (sort (filter (\<lambda>x. prefix q x) (map fst (fs w)))))"
    have "y \<in> set vs" if "x \<in> set vs" "fsGet (fs w) y \<noteq> None" "strict_prefix x y" for x y
    proof -
      have "y \<in> set (map fst (fs w))"
        using that(2,3) by (cases "y = []") (auto simp: fsGet_def map_of_eq_None_iff)
      moreover have "prefix q x" using that(1) by (auto simp: vs_def dest: in_set_takeD)
      then have "prefix q y" using that(3) by (auto simp: strict_prefix_def dest: prefix_order.trans)
      ultimately have y: "y \<in> set (rev (sort (filter (\<lambda>x. prefix q x) (map fst (fs w)))))" by auto
      show ?thesis
        unfolding vs_def
        by (rule take_descending [OF _ that(1) [unfolded vs_def] y strict_prefix_less [OF that(3)]]) simp
    qed
    then have "fsTree (filter (\<lambda>(x, _). x \<notin> set vs) (fs w))"
      by (intro fsTree_filter [OF t, of "\<lambda>x. x \<notin> set vs"]) blast
    then show ?thesis using Inr by (simp add: removeFirst_def vs_def Let_def)
  qed (use t in \<open>simp add: removeFirst_def\<close>)
next
  fix w :: world and r w'
  assume t: "fsTree (fs w)" and act: "(case place (fs w) p of Inl e \<Rightarrow> (if isNotExist e then Inr () else Inl e, w)
     | Inr q \<Rightarrow> (Inr (), w\<lparr>fs := fsDelTree q (fs w)\<rparr>)) = (r, w')"
  have "fsTree (fsDelTree q (fs w))" for q
    unfolding fsDelTree_def by (rule fsTree_filter [OF t]) (auto simp: strict_prefix_def dest: prefix_order.trans)
  then show "fsTree (fs w')" using t act by (auto split: sum.splits)
qed auto

end
