(* ===== verification/StoreSafety.thy ===== *)
theory StoreSafety
  imports Storage Trees
begin

text \<open>
  Safety of the store under every failure and every crash: keys are confined to the storage root,
  writes are atomic, temporary files are the only thing a failed operation leaves behind.
\<close>

section \<open>Keys\<close>

lemma cleanGo_proper: "list_all properComp cs \<Longrightarrow> cleanGo rooted acc cs = rev acc @ cs"
  by (induction cs arbitrary: acc) (auto simp: properComp_def)

lemma cleanComps_properComp:
  assumes "\<not> hasPrefix key ''/''" "key \<noteq> []" "\<not> escapes (pathClean key)"
  shows "list_all properComp (cleanComps key)"
proof -
  have "staysInside 0 (splitAt CHR ''/'' key)" using assms escapes_clean_iff by blast
  then have "''..'' \<notin> set (cleanComps key)"
    using cleanGo_inside [of "[]" "splitAt CHR ''/'' key"] assms(1) by (simp add: cleanComps_def)
  then show ?thesis using cleanComps_proper [of _ key] by (auto simp: list_all_iff properComp_def)
qed

lemma proper_relEscapes: "list_all properComp cs \<Longrightarrow> \<not> relEscapes cs"
  by (cases cs) (simp_all add: relEscapes_def properComp_def)

lemma joinPath_clean:
  assumes "\<not> hasPrefix key ''/''" "key \<noteq> []" "\<not> escapes (pathClean key)"
  shows "joinPath base (pathClean key) = base @ cleanComps key"
proof (cases "cleanComps key = []")
  case True
  then show ?thesis using assms by (simp add: joinPath_def pathClean_def)
next
  case False
  then show ?thesis
    using splitAt_pathClean [OF assms(1) False] cleanGo_proper [OF cleanComps_properComp [OF assms], of True "rev base"]
    by (simp add: joinPath_def)
qed

lemma relComps_append: "relComps base (base @ cs) = cs"
  by (induction base) auto

lemma relEscapes_outside: "\<not> prefix base q \<Longrightarrow> relEscapes (relComps base q)"
  by (induction base q rule: relComps.induct) (auto simp: relEscapes_def)

text \<open>Keys with no components, such as the empty key, denote the root itself.\<close>

lemma cleanComps_root: "cleanComps [] = []" "cleanComps ''.'' = []"
  by (simp_all add: cleanComps_def hasPrefix_def)

lemma rejectSymlinkEscapeRev_pure [readonly]: "readOnly (rejectSymlinkEscapeRev s rp)"
proof (induction rp)
  case Nil
  show ?case unfolding rejectSymlinkEscapeRev.simps by (intro readonly)
next
  case (Cons c rp)
  show ?case unfolding rejectSymlinkEscapeRev.simps by (intro readonly Cons)
qed

lemma resolve_cases:
  obtains (root) "key = [] \<or> key = ''.''" "resolve s key = State_Monad.return (Inr (basePath s))"
  | (bad) e where "resolve s key = State_Monad.return (Inl e)" "e \<noteq> ErrNotExist"
  | (ok) "\<not> hasPrefix key ''/''" "key \<noteq> []" "\<not> escapes (pathClean key)"
      "resolve s key = bindR (rejectSymlinkEscape s (basePath s @ cleanComps key))
        (\<lambda>_. State_Monad.return (Inr (basePath s @ cleanComps key)))"
proof (cases "key = [] \<or> key = ''.''")
  case True
  then show ?thesis using root by (auto simp: resolve_def)
next
  case nonroot: False
  show ?thesis
  proof (cases "(hasPrefix key ''/'' \<or> CHR 0x5C \<in> set key) \<or> escapes (pathClean key)")
    case True
    then have "resolve s key = State_Monad.return (Inl (Errorf
        (if hasPrefix key ''/'' \<or> CHR 0x5C \<in> set key then ''invalid storage key'' else ''storage key escapes root'') []))"
      using nonroot unfolding resolve_def Let_def escapes_def [symmetric] by auto
    then show ?thesis by (rule bad) simp
  next
    case False
    then have k: "\<not> hasPrefix key ''/''" "key \<noteq> []" "\<not> escapes (pathClean key)" using nonroot by auto
    have "\<not> relEscapes (cleanComps key)"
      using cleanComps_properComp [OF k] by (rule proper_relEscapes)
    then have "resolve s key = bindR (rejectSymlinkEscape s (basePath s @ cleanComps key))
        (\<lambda>_. State_Monad.return (Inr (basePath s @ cleanComps key)))"
      using False nonroot
      unfolding resolve_def Let_def escapes_def [symmetric] joinPath_clean [OF k] relComps_append
      by (simp only: if_False simp_thms de_Morgan_disj)
    then show ?thesis by (rule ok [OF k])
  qed
qed

lemma resolve_pure [readonly]: "readOnly (resolve s key)"
  by (cases rule: resolve_cases [of key s]) (auto simp: rejectSymlinkEscape_def intro!: readonly)

lemma resolve_path:
  assumes "run_state (resolve s key) w = (Inr path, w')"
  shows "path = basePath s @ cleanComps key" "list_all properComp (cleanComps key)"
proof -
  show "path = basePath s @ cleanComps key" "list_all properComp (cleanComps key)"
    using assms
    by (cases rule: resolve_cases [of key s];
        auto simp: cleanComps_root bindR_def cleanComps_properComp split: prod.splits sum.splits)+
qed

lemma resolve_error: "run_state (resolve s key) w = (r, w') \<Longrightarrow> r \<noteq> Inl ErrNotExist"
proof -
  have rej: "run_state (rejectSymlinkEscapeRev s rp) w = (r, w') \<Longrightarrow> r \<noteq> Inl ErrNotExist" for rp r w w'
    by (induction rp arbitrary: w) (auto split: prod.splits sum.splits if_splits)
  show "run_state (resolve s key) w = (r, w') \<Longrightarrow> r \<noteq> Inl ErrNotExist"
    by (cases rule: resolve_cases [of key s])
       (auto simp: bindR_def rejectSymlinkEscape_def dest: rej split: prod.splits sum.splits)
qed

lemma triple_resolve:
  "triple (\<lambda>f. f = f0) (resolve s key)
     (\<lambda>r f. f = f0 \<and> (\<forall>path. r = Inr path \<longrightarrow>
        path = basePath s @ cleanComps key \<and> list_all properComp (cleanComps key)))"
  by (rule triple_readOnly [OF resolve_pure]) (auto simp: triple_def dest: resolve_path)

section \<open>Confinement\<close>

lemma canon_mono: "canon create f n acc cs = Inr q \<Longrightarrow> n \<le> m \<Longrightarrow> canon create f m acc cs = Inr q"
proof (induction create f n acc cs arbitrary: m rule: canon.induct)
  case (2 create f n acc c cs)
  consider (skip) "c = [] \<or> c = ''.''" | (up) "c = ''..''" | (down) "\<not> (c = [] \<or> c = ''.'')" "c \<noteq> ''..''" by blast
  then show ?case
  proof cases
    case skip
    then show ?thesis using 2(1) [OF skip, of m] 2(5,6) by simp
  next
    case up
    then show ?thesis using 2(2) [of m] 2(5,6) by simp
  next
    case down
    show ?thesis
    proof (cases "fsGet f (acc @ [c])")
      case None
      then show ?thesis using 2(5) down by simp
    next
      case (Some x)
      show ?thesis
      proof (cases x)
        case (File d s t)
        then show ?thesis using 2(5) down Some by simp
      next
        case Dir
        then show ?thesis using 2(3) [OF down Some Dir, of m] 2(5,6) down Some by simp
      next
        case (Link t i)
        then obtain k where n: "n = Suc k" using 2(5) down Some by (cases n) auto
        then obtain l where m: "m = Suc l" "k \<le> l" using 2(6) by (cases m) auto
        show ?thesis using 2(4) [OF down Some Link n, of l] 2(5) down Some Link n m by simp
      qed
    qed
  qed
qed simp

lemma kernel_le_eval: "kernelLinks \<le> evalLinks"
  by (simp add: kernelLinks_def evalLinks_def)

lemma rejectSymlinkEscapeRev_inside:
  assumes "run_state (rejectSymlinkEscapeRev s rp) w = (Inr (), w')"
    and "canon False (fs w) kernelLinks [] (rev rp) = Inr q"
  shows "prefix (basePath s) q"
proof -
  have ev: "canon False (fs w) evalLinks [] (rev rp) = Inr q"
    using canon_mono [OF assms(2) kernel_le_eval] .
  obtain r1 w1 where 1: "run_state (osEvalSymlinks (rev rp)) w = (r1, w1)" by (rule prod.exhaust)
  have r1: "r1 = Inr q \<or> r1 = Inl ErrIO \<or> r1 = Inl ErrCrashed"
  proof -
    have "triple (\<lambda>f. f = fs w) (osEvalSymlinks (rev rp)) (\<lambda>r f. r = Inr q \<or> r = Inl ErrIO \<or> r = Inl ErrCrashed)"
      unfolding osEvalSymlinks_def by (rule triple_query) (auto simp: ev)
    then show ?thesis using 1 tripleD by fastforce
  qed
  have "\<not> relEscapes (relComps (basePath s) q)"
    using assms(1) 1 r1 by (cases rp) (auto simp: isNotExist_def split: if_splits)
  then show ?thesis using relEscapes_outside by blast
qed

text \<open>The root is its own canonical path, as \<^verbatim>\<open>NewStore\<close> makes it.\<close>

definition rootCanonical :: "Store \<Rightarrow> fsys \<Rightarrow> bool" where
  "rootCanonical s f \<longleftrightarrow> canon False f kernelLinks [] (basePath s) = Inr (basePath s)"

lemma bindR_success:
  assumes "run_state (bindR m k) w = (Inr y, w')"
  obtains x w1 where "run_state m w = (Inr x, w1)" "run_state (k x) w1 = (Inr y, w')"
  using assms that by (auto simp: bindR_def split: prod.splits sum.splits)

lemma resolve_inside:
  assumes run: "run_state (resolve s key) w = (Inr path, w')"
    and root: "rootCanonical s (fs w)"
    and q: "canon False (fs w) kernelLinks [] path = Inr q"
  shows "prefix (basePath s) q"
proof (cases rule: resolve_cases [of key s])
  case root
  then show ?thesis using assms by (simp add: rootCanonical_def)
next
  case (bad e)
  then show ?thesis using run by simp
next
  case ok
  then obtain w1 where "run_state (rejectSymlinkEscape s (basePath s @ cleanComps key)) w = (Inr (), w1)"
    and "path = basePath s @ cleanComps key"
    using run by (auto elim!: bindR_success)
  then show ?thesis
    using q rejectSymlinkEscapeRev_inside [of s "rev path" w w1 q] by (simp add: rejectSymlinkEscape_def)
qed

lemma statNode_canon:
  assumes "statNode f p = Inr n"
  obtains q where "canon False f kernelLinks [] p = Inr q" "fsGet f q = Some n"
  using assms that by (auto simp: statNode_def split: sum.splits option.splits)

lemma osReadFile_success:
  assumes "run_state (osReadFile p) w = (Inr d, w')"
  obtains q sy t where "canon False (fs w) kernelLinks [] p = Inr q" "fsGet (fs w) q = Some (File d sy t)"
proof -
  obtain w1 :: world where "fs w1 = fs w" and "(case statNode (fs w1) p of Inl e \<Rightarrow> Inl e | Inr (File d _ _) \<Rightarrow> Inr d | Inr _ \<Rightarrow> Inl ErrIsDir) = Inr d"
    using query_result [OF assms [unfolded osReadFile_def]] by blast
  then obtain sy t where "statNode (fs w) p = Inr (File d sy t)" by (auto split: sum.splits node.splits)
  then show ?thesis using that statNode_canon by metis
qed

section \<open>Programs on a temporary file\<close>

text \<open>
  \<open>tempOk I tmp\<close>: the assertion \<open>I\<close> about the file system says nothing about \<open>tmp\<close>, except that no link
  leads there.
\<close>

definition tempOk :: "(fsys \<Rightarrow> bool) \<Rightarrow> path \<Rightarrow> bool" where
  "tempOk I tmp \<longleftrightarrow>
     tmp \<noteq> [] \<and> list_all properComp tmp \<and> (\<forall>f. I f \<longrightarrow> noLinkTo f tmp) \<and>
     (\<forall>f d s t. I f \<longrightarrow> I (fsPut tmp (File d s t) f)) \<and> (\<forall>f. I f \<longrightarrow> I (fsDel tmp f))"

definition tempHas :: "path \<Rightarrow> bytes \<Rightarrow> bool \<Rightarrow> fsys \<Rightarrow> bool" where
  "tempHas tmp data sync f \<longleftrightarrow> (\<exists>t. fsGet f tmp = Some (File data sync t))"

lemma noLinkTo_butlast: "noLinkTo f p \<Longrightarrow> noLinkTo f (butlast p)"
  unfolding noLinkTo_def using prefix_order.trans [OF _ prefixeq_butlast] by blast

lemma place_temp: "tempOk I tmp \<Longrightarrow> I f \<Longrightarrow> place f tmp = Inr q \<Longrightarrow> q = tmp"
  using place_plain [of tmp f q] noLinkTo_butlast by (auto simp: tempOk_def)

lemma triple_openTemp:
  assumes "tempOk I tmp"
  shows "triple I (osOpenFile tmp) (\<lambda>r f. I f \<and> (\<forall>h. r = Inr h \<longrightarrow> h = tmp \<and> tempHas tmp [] False f))"
  unfolding osOpenFile_def
proof (rule triple_atomically)
  fix w r w'
  assume I: "I (fs w)" and act: "(case canon True (fs w) kernelLinks [] tmp of Inl e \<Rightarrow> (Inl e, w)
       | Inr q \<Rightarrow> if fsGet (fs w) q = Some Dir then (Inl ErrIsDir, w)
                  else (Inr q, w\<lparr>fs := fsPut q (File [] False (clock w)) (fs w)\<rparr>)) = (r, w')"
  show "I (fs w') \<and> (\<forall>h. r = Inr h \<longrightarrow> h = tmp \<and> tempHas tmp [] False (fs w'))"
  proof (cases "canon True (fs w) kernelLinks [] tmp")
    case (Inl e)
    then show ?thesis using I act by auto
  next
    case (Inr q)
    then have "q = tmp" using canon_plain [of tmp "fs w" "[]"] assms I by (auto simp: tempOk_def)
    then show ?thesis using I act Inr assms
      by (auto simp: tempOk_def tempHas_def fsGet_fsPut split: if_splits)
  qed
qed auto

lemma appendData_temp:
  assumes "tempOk I tmp" "I (fs w)"
  shows "I (fs (appendData tmp data w))"
    "tempHas tmp old sy (fs w) \<Longrightarrow> tempHas tmp (old @ data) False (fs (appendData tmp data w))"
  using assms by (auto simp: appendData_def tempOk_def tempHas_def fsGet_fsPut split: option.splits node.splits)

lemma triple_writeTemp:
  assumes "tempOk I tmp"
  shows "triple (\<lambda>f. I f \<and> tempHas tmp [] False f) (osWrite tmp data)
    (\<lambda>r f. I f \<and> (r = Inr () \<longrightarrow> tempHas tmp data False f))"
  unfolding osWrite_def
proof (rule triple_syscall)
  fix w r w' assume a: "I (fs w) \<and> tempHas tmp [] False (fs w)" "(Inr (), appendData tmp data w) = (r, w')"
  then show "I (fs w') \<and> (r = Inr () \<longrightarrow> tempHas tmp data False (fs w'))"
    using appendData_temp [OF assms, of w data] appendData_temp(2) [OF assms, of w "[]" False data] by auto
qed (use appendData_temp [OF assms] in auto)

lemma triple_syncTemp:
  assumes "tempOk I tmp"
  shows "triple (\<lambda>f. I f \<and> tempHas tmp data False f) (osSync tmp)
    (\<lambda>r f. I f \<and> (r = Inr () \<longrightarrow> tempHas tmp data True f))"
  unfolding osSync_def
  by (rule triple_atomically)
     (use assms in \<open>auto simp: tempOk_def tempHas_def fsGet_fsPut split: option.splits node.splits\<close>)

lemma triple_removeTemp:
  assumes "tempOk I tmp"
  shows "triple I (osRemove tmp) (\<lambda>r. I)"
  unfolding osRemove_def
proof (rule triple_atomically)
  fix w r w'
  assume I: "I (fs w)" and act: "(case place (fs w) tmp of Inl e \<Rightarrow> (Inl e, w)
     | Inr q \<Rightarrow> (case fsGet (fs w) q of None \<Rightarrow> (Inl ErrNotExist, w)
          | Some n \<Rightarrow> if n = Dir \<and> hasChildren (fs w) q then (Inl ErrNotEmpty, w)
                      else (Inr (), w\<lparr>fs := fsDel q (fs w)\<rparr>))) = (r, w')"
  show "I (fs w')"
    using I act place_temp [OF assms I] assms
    by (auto simp: tempOk_def split: sum.splits option.splits if_splits)
qed auto

lemma place_dirs:
  assumes "list_all properComp p" "noLinkTo f (butlast p)" "place f p = Inr q" "p \<noteq> []"
  shows "dirsTo f p"
proof -
  obtain d where d: "canon False f kernelLinks [] (butlast p) = Inr d" "fsGet f d = Some Dir"
    using assms(3,4) by (auto simp: place_def split: sum.splits if_splits)
  have b: "list_all properComp (butlast p)" using assms(1) by (auto simp: list_all_iff dest: in_set_butlastD)
  then have "d = butlast p" using canon_plain [OF b _ d(1)] assms(2) by simp
  moreover have "dirsTo f d" using canon_exists [OF b _ _ _ d(1)] assms(2) by (simp add: dirsTo_def)
  ultimately show ?thesis using d(2) assms(4) dirsTo_snoc [of f "butlast p" "last p"] by simp
qed

text \<open>The rename that publishes the file.\<close>

lemma triple_publish:
  assumes "tempOk I tmp" "list_all properComp path" "\<And>f. I f \<Longrightarrow> noLinkTo f (butlast path)"
    and "\<not> prefix tmp path" "path \<noteq> []"
  shows "triple (\<lambda>f. I f \<and> tempHas tmp data True f) (osRename tmp path)
    (\<lambda>r f. (\<forall>e. r = Inl e \<longrightarrow> I f) \<and>
       (r = Inr () \<longrightarrow> (\<exists>g t. I g \<and> dirsTo g path \<and> f = fsPut path (File data True t) (fsDel tmp g))))"
  unfolding osRename_def
proof (rule triple_atomically)
  fix w r w'
  assume pre: "I (fs w) \<and> tempHas tmp data True (fs w)" and act: "renameAct tmp path w = (r, w')"
  obtain t where t: "fsGet (fs w) tmp = Some (File data True t)" using pre by (auto simp: tempHas_def)
  have pl: "place (fs w) tmp = Inr q \<Longrightarrow> q = tmp" "place (fs w) path = Inr q \<Longrightarrow> q = path" for q
    using pre place_temp [OF assms(1)] place_plain assms(2,3) by blast+
  have dirs: "place (fs w) path = Inr q \<Longrightarrow> dirsTo (fs w) path" for q
    using pre assms(2,3,5) place_dirs by blast
  have "tmp \<noteq> path" using assms(4) by auto
  then show "(\<forall>e. r = Inl e \<longrightarrow> I (fs w')) \<and> (r = Inr () \<longrightarrow>
      (\<exists>g t. I g \<and> dirsTo g path \<and> fs w' = fsPut path (File data True t) (fsDel tmp g)))"
    using act pre t assms(4) pl dirs
    by (auto simp: renameAct_def split: sum.splits if_splits intro!: exI [of _ "fs w"])
qed auto

section \<open>The frame of a write\<close>

text \<open>
  \<open>kept d T f0 f\<close>: outside \<open>T\<close> the file system \<open>f\<close> is \<open>f0\<close>, but for directories created on the way to \<open>d\<close>.
\<close>

definition kept :: "path \<Rightarrow> path set \<Rightarrow> fsys \<Rightarrow> fsys \<Rightarrow> bool" where
  "kept d T f0 f \<longleftrightarrow>
     (\<forall>p. p \<notin> T \<longrightarrow> fsGet f p = fsGet f0 p \<or> (prefix p d \<and> fsGet f0 p = None \<and> fsGet f p = Some Dir))"

lemma kept_refl [simp]: "kept d T f f"
  by (simp add: kept_def)

lemma kept_mono: "kept d T f0 f \<Longrightarrow> T \<subseteq> U \<Longrightarrow> kept d U f0 f"
  by (auto simp: kept_def)

lemma kept_put: "kept d T f0 f \<Longrightarrow> p \<in> T \<Longrightarrow> p \<noteq> [] \<Longrightarrow> kept d T f0 (fsPut p n f)"
  by (auto simp: kept_def fsGet_fsPut)

lemma kept_del: "kept d T f0 f \<Longrightarrow> p \<in> T \<Longrightarrow> p \<noteq> [] \<Longrightarrow> kept d T f0 (fsDel p f)"
  by (auto simp: kept_def fsGet_fsDel)

lemma kept_objects: "kept d T f0 f \<Longrightarrow> p \<notin> T \<Longrightarrow> objAt f p = objAt f0 p"
  by (auto simp: kept_def objAt_def)

text \<open>No links on the way to the root or below it: the storage has one trusted writer.\<close>

definition plain :: "path \<Rightarrow> fsys \<Rightarrow> bool" where
  "plain b f \<longleftrightarrow> (\<forall>p t m. prefix p b \<or> prefix b p \<longrightarrow> fsGet f p \<noteq> Some (Link t m))"

lemma plain_noLinkTo: "plain b f \<Longrightarrow> prefix p b \<or> prefix b p \<Longrightarrow> noLinkTo f p"
  unfolding plain_def noLinkTo_def by (metis prefix_order.trans prefix_same_cases)

lemma plain_put: "plain b f \<Longrightarrow> p \<noteq> [] \<Longrightarrow> (\<And>t m. n \<noteq> Link t m) \<Longrightarrow> plain b (fsPut p n f)"
  by (auto simp: plain_def fsGet_fsPut)

lemma plain_del: "plain b f \<Longrightarrow> p \<noteq> [] \<Longrightarrow> plain b (fsDel p f)"
  by (auto simp: plain_def fsGet_fsDel)

text \<open>What \<^verbatim>\<open>os.MkdirAll\<close> does: it creates missing directories on the way and nothing else.\<close>

lemma triple_stat_dir:
  assumes "list_all properComp p" "\<And>f. I f \<Longrightarrow> noLinkTo f p"
  shows "triple I (osStat p) (\<lambda>r f. I f \<and> (\<forall>i. r = Inr i \<longrightarrow> isDirectory i \<longrightarrow> fsGet f p = Some Dir))"
  unfolding osStat_def
proof (rule triple_query)
  fix w :: world assume I: "I (fs w)"
  have "fsGet (fs w) p = Some Dir" if st: "statNode (fs w) p = Inr n" and dir: "isDirectory (nodeInfo n)" for n
  proof -
    obtain q where q: "canon False (fs w) kernelLinks [] p = Inr q" "fsGet (fs w) q = Some n"
      using st by (rule statNode_canon)
    then have "q = p" using canon_plain [of p "fs w" "[]"] assms I by auto
    then show ?thesis using q dir by (cases n) auto
  qed
  then show "I (fs w) \<and> (\<forall>i. map_sum id nodeInfo (statNode (fs w) p) = Inr i \<longrightarrow> isDirectory i \<longrightarrow> fsGet (fs w) p = Some Dir)"
    using I by (cases "statNode (fs w) p") auto
qed auto

lemma triple_lstat_dir:
  assumes "list_all properComp p" "\<And>f. I f \<Longrightarrow> noLinkTo f p"
  shows "triple I (osLstat p) (\<lambda>r f. I f \<and> (\<forall>i. r = Inr i \<longrightarrow> isDirectory i \<longrightarrow> fsGet f p = Some Dir))"
  unfolding osLstat_def
proof (rule triple_query)
  fix w :: world assume I: "I (fs w)"
  have "fsGet (fs w) p = Some Dir" if st: "lstatNode (fs w) p = Inr n" and dir: "isDirectory (nodeInfo n)" for n
  proof -
    obtain q where q: "place (fs w) p = Inr q" "fsGet (fs w) q = Some n"
      using st by (auto simp: lstatNode_def split: sum.splits option.splits)
    then have "q = p" using place_plain assms I noLinkTo_butlast by blast
    then show ?thesis using q dir by (cases n) auto
  qed
  then show "I (fs w) \<and> (\<forall>i. map_sum id nodeInfo (lstatNode (fs w) p) = Inr i \<longrightarrow> isDirectory i \<longrightarrow> fsGet (fs w) p = Some Dir)"
    using I by (cases "lstatNode (fs w) p") auto
qed auto

lemma triple_mkdir:
  assumes "list_all properComp p" "p \<noteq> []" "\<And>f. I f \<Longrightarrow> noLinkTo f p"
    and "\<And>f. I f \<Longrightarrow> fsGet f p = None \<Longrightarrow> I (fsPut p Dir f)"
  shows "triple I (osMkdir p) (\<lambda>r f. I f \<and> (r = Inr () \<longrightarrow> fsGet f p = Some Dir))"
  unfolding osMkdir_def
proof (rule triple_atomically)
  fix w r w'
  assume I: "I (fs w)" and act: "(case place (fs w) p of Inl e \<Rightarrow> (Inl e, w)
     | Inr q \<Rightarrow> if fsGet (fs w) q \<noteq> None then (Inl ErrExist, w) else (Inr (), w\<lparr>fs := fsPut q Dir (fs w)\<rparr>)) = (r, w')"
  have "place (fs w) p = Inr q \<Longrightarrow> q = p" for q
    using place_plain assms I noLinkTo_butlast by blast
  then show "I (fs w') \<and> (r = Inr () \<longrightarrow> fsGet (fs w') p = Some Dir)"
    using act I assms(2,4) by (auto simp: fsGet_fsPut split: sum.splits if_splits)
qed auto

lemma triple_mkdirAllRev:
  assumes "list_all properComp (rev rp)" "\<And>f p. I f \<Longrightarrow> prefix p (rev rp) \<Longrightarrow> noLinkTo f p"
    and "\<And>f p. I f \<Longrightarrow> prefix p (rev rp) \<Longrightarrow> p \<noteq> [] \<Longrightarrow> fsGet f p = None \<Longrightarrow> I (fsPut p Dir f)"
  shows "triple I (mkdirAllRev rp) (\<lambda>r f. I f \<and> (r = Inr () \<longrightarrow> fsGet f (rev rp) = Some Dir))"
  using assms
proof (induction rp)
  case Nil
  show ?case by (simp add: triple_return)
next
  case (Cons c rp)
  let ?p = "rev (c # rp)"
  have proper: "list_all properComp ?p" and links: "\<And>f. I f \<Longrightarrow> noLinkTo f ?p"
    using Cons.prems(1) Cons.prems(2) [of _ ?p] by (simp_all only: prefix_order.refl)
  have ih: "triple I (mkdirAllRev rp) (\<lambda>r f. I f \<and> (r = Inr () \<longrightarrow> fsGet f (rev rp) = Some Dir))"
    using Cons.prems by (intro Cons.IH) (auto simp: prefix_append)
  have mk: "triple I (osMkdir ?p) (\<lambda>r f. I f \<and> (r = Inr () \<longrightarrow> fsGet f ?p = Some Dir))"
    using proper links Cons.prems(3) [of _ ?p] by (intro triple_mkdir) simp_all
  have attempt: "triple I (State_Monad.bind (osMkdir ?p) (\<lambda>r. case r of
       Inr _ \<Rightarrow> State_Monad.return (Inr ())
     | Inl e \<Rightarrow> State_Monad.bind (osLstat ?p) (\<lambda>l. case l of
           Inr info \<Rightarrow> State_Monad.return (if isDirectory info then Inr () else Inl e)
         | Inl _ \<Rightarrow> State_Monad.return (Inl e))))
     (\<lambda>r f. I f \<and> (r = Inr () \<longrightarrow> fsGet f ?p = Some Dir))"
  proof (rule triple_bind [OF mk], rule triple_case_sum)
    fix r :: "unit result" and e assume r: "r = Inl e"
    show "triple (\<lambda>f. I f \<and> (r = Inr () \<longrightarrow> fsGet f ?p = Some Dir))
       (State_Monad.bind (osLstat ?p) (\<lambda>l. case l of
           Inl _ \<Rightarrow> State_Monad.return (Inl e)
         | Inr info \<Rightarrow> State_Monad.return (if isDirectory info then Inr () else Inl e)))
       (\<lambda>r f. I f \<and> (r = Inr () \<longrightarrow> fsGet f ?p = Some Dir))"
    proof (rule triple_bind)
      show "triple (\<lambda>f. I f \<and> (r = Inr () \<longrightarrow> fsGet f ?p = Some Dir)) (osLstat ?p)
          (\<lambda>l f. I f \<and> (\<forall>i. l = Inr i \<longrightarrow> isDirectory i \<longrightarrow> fsGet f ?p = Some Dir))"
        by (rule triple_conseq [OF triple_lstat_dir [OF proper links]]) auto
    qed (auto intro!: triple_case_sum triple_return)
  qed (auto intro: triple_return)
  show ?case
    unfolding mkdirAllRev.simps
  proof (rule triple_bind [OF triple_stat_dir [OF proper links]], assumption, rule triple_case_sum)
    fix r :: "FileInfo result" and i assume "r = Inr i"
    then show "triple (\<lambda>f. I f \<and> (\<forall>i. r = Inr i \<longrightarrow> isDirectory i \<longrightarrow> fsGet f ?p = Some Dir))
      (State_Monad.return (if isDirectory i then Inr () else Inl ErrNotDir))
      (\<lambda>r f. I f \<and> (r = Inr () \<longrightarrow> fsGet f ?p = Some Dir))"
      by (auto intro: triple_return)
  next
    fix r :: "FileInfo result" and e
    show "triple (\<lambda>f. I f \<and> (\<forall>i. r = Inr i \<longrightarrow> isDirectory i \<longrightarrow> fsGet f ?p = Some Dir))
      (bindR (mkdirAllRev rp) (\<lambda>_. State_Monad.bind (osMkdir ?p) (\<lambda>r. case r of
       Inl e \<Rightarrow> State_Monad.bind (osLstat ?p) (\<lambda>l. case l of
           Inl _ \<Rightarrow> State_Monad.return (Inl e)
         | Inr info \<Rightarrow> State_Monad.return (if isDirectory info then Inr () else Inl e))
     | Inr _ \<Rightarrow> State_Monad.return (Inr ()))))
      (\<lambda>r f. I f \<and> (r = Inr () \<longrightarrow> fsGet f ?p = Some Dir))"
    proof (rule triple_bindR)
      show "triple (\<lambda>f. I f \<and> (\<forall>i. r = Inr i \<longrightarrow> isDirectory i \<longrightarrow> fsGet f ?p = Some Dir)) (mkdirAllRev rp) (\<lambda>_. I)"
        by (rule triple_conseq [OF ih]) auto
    qed (use attempt in auto)
  qed
qed

section \<open>Writing an object\<close>

definition objPath :: "Store \<Rightarrow> string \<Rightarrow> path" where
  "objPath s key = basePath s @ cleanComps key"

definition tmpPath :: "Store \<Rightarrow> string \<Rightarrow> path" where
  "tmpPath s key = butlast (objPath s key) @ [''.tmp-'' @ last (objPath s key)]"

text \<open>A key of an object, below a root with a proper path.\<close>

definition objKey :: "Store \<Rightarrow> string \<Rightarrow> bool" where
  "objKey s key \<longleftrightarrow> list_all properComp (basePath s) \<and> cleanComps key \<noteq> []"

text \<open>The state of the file system while a write to \<open>key\<close> that started in \<open>f0\<close> is under way.\<close>

definition writing :: "Store \<Rightarrow> string \<Rightarrow> path set \<Rightarrow> fsys \<Rightarrow> fsys \<Rightarrow> bool" where
  "writing s key T f0 f \<longleftrightarrow> plain (basePath s) f \<and> kept (butlast (objPath s key)) T f0 f"

lemma objPath_split:
  assumes "objKey s key"
  shows "objPath s key = basePath s @ butlast (cleanComps key) @ [last (cleanComps key)]"
    "butlast (objPath s key) = basePath s @ butlast (cleanComps key)" "last (objPath s key) = last (cleanComps key)"
    "objPath s key \<noteq> []"
  using assms by (simp_all add: objKey_def objPath_def butlast_append)

lemma proper_tmp: "properComp c \<Longrightarrow> properComp (''.tmp-'' @ c)"
  by (simp add: properComp_def)

lemma objPath_proper:
  assumes "objKey s key" "list_all properComp (cleanComps key)"
  shows "list_all properComp (objPath s key)" "list_all properComp (butlast (objPath s key))"
    "properComp (last (objPath s key))"
proof -
  show all: "list_all properComp (objPath s key)" using assms by (simp add: objKey_def objPath_def)
  then show "list_all properComp (butlast (objPath s key))" by (auto simp: list_all_iff dest: in_set_butlastD)
  show "properComp (last (objPath s key))"
    using all objPath_split(4) [OF assms(1)] by (simp add: list_all_iff)
qed

lemma prefix_base:
  assumes "objKey s key"
  shows "prefix (basePath s) (objPath s key)" "prefix (basePath s) (butlast (objPath s key))"
    "prefix (basePath s) (butlast (objPath s key) @ cs)"
  using objPath_split [OF assms] by simp_all

lemma below_dir_noLink:
  assumes "objKey s key" "plain (basePath s) f" "prefix p (butlast (objPath s key))"
  shows "noLinkTo f p"
  using prefix_base(2) [OF assms(1)] assms(2,3) plain_noLinkTo by (metis prefix_same_cases)

lemma writing_noLink:
  assumes "objKey s key" "writing s key T f0 f"
  shows "noLinkTo f (butlast (objPath s key))" "noLinkTo f (butlast (objPath s key) @ cs)" "noLinkTo f (objPath s key)"
  using assms prefix_base [OF assms(1)] plain_noLinkTo by (auto simp: writing_def)

text \<open>Any name in the directory of the object can be a temporary file.\<close>

lemma tempOk_writing:
  assumes "objKey s key" "list_all properComp (cleanComps key)" "properComp c"
  shows "tempOk (writing s key {butlast (objPath s key) @ [c]} f0) (butlast (objPath s key) @ [c])"
  unfolding tempOk_def
  using assms objPath_proper [OF assms(1,2)] writing_noLink(2) [OF assms(1)]
  by (auto simp: writing_def intro: plain_put plain_del kept_put kept_del)

lemma triple_mkdirAll_writing:
  assumes "objKey s key" "list_all properComp (cleanComps key)"
  shows "triple (writing s key T f0) (osMkdirAll (butlast (objPath s key)))
    (\<lambda>r f. writing s key T f0 f \<and> (r = Inr () \<longrightarrow> fsGet f (butlast (objPath s key)) = Some Dir))"
proof -
  let ?d = "butlast (objPath s key)"
  have "triple (writing s key T f0) (mkdirAllRev (rev ?d))
      (\<lambda>r f. writing s key T f0 f \<and> (r = Inr () \<longrightarrow> fsGet f (rev (rev ?d)) = Some Dir))"
  proof (rule triple_mkdirAllRev)
    show "list_all properComp (rev (rev ?d))" using objPath_proper(2) [OF assms] by simp
    show "noLinkTo f p" if "writing s key T f0 f" "prefix p (rev (rev ?d))" for f p
      using below_dir_noLink [OF assms(1)] that by (simp add: writing_def)
    show "writing s key T f0 (fsPut p Dir f)"
      if "writing s key T f0 f" "prefix p (rev (rev ?d))" "p \<noteq> []" "fsGet f p = None" for f p
      using that by (auto simp: writing_def kept_def fsGet_fsPut intro!: plain_put)
  qed
  then show ?thesis by (simp add: osMkdirAll_def)
qed

definition written :: "Store \<Rightarrow> string \<Rightarrow> bytes \<Rightarrow> path \<Rightarrow> fsys \<Rightarrow> fsys \<Rightarrow> bool" where
  "written s key data tmp f0 f \<longleftrightarrow>
     writing s key {tmp, objPath s key} f0 f \<and> tempHas (objPath s key) data True f \<and> dirsTo f (objPath s key)"

lemma written_publish:
  assumes "objKey s key" "writing s key {tmp} f0 g" "tmp \<noteq> []" "dirsTo g (objPath s key)" "\<not> prefix tmp (objPath s key)"
  shows "written s key data tmp f0 (fsPut (objPath s key) (File data True t) (fsDel tmp g))"
proof -
  have "kept (butlast (objPath s key)) {tmp, objPath s key} f0 g"
    using assms(2) by (auto simp: writing_def intro: kept_mono)
  moreover have "dirsTo (fsPut (objPath s key) (File data True t) (fsDel tmp g)) (objPath s key)"
    using assms(3-5) objPath_split(4) [OF assms(1)]
    by (auto simp: dirsTo_def fsGet_fsPut fsGet_fsDel strict_prefix_def)
  ultimately show ?thesis
    using assms objPath_split(4) [OF assms(1)]
    by (auto simp: written_def writing_def tempHas_def fsGet_fsPut intro!: plain_put plain_del kept_put kept_del)
qed

lemma triple_publish_writing:
  assumes "objKey s key" "list_all properComp (cleanComps key)" "tempOk (writing s key {tmp} f0) tmp"
    "\<not> prefix tmp (objPath s key)"
  shows "triple (\<lambda>f. writing s key {tmp} f0 f \<and> tempHas tmp data True f) (osRename tmp (objPath s key))
    (\<lambda>r f. (\<forall>e. r = Inl e \<longrightarrow> writing s key {tmp} f0 f) \<and> (r = Inr () \<longrightarrow> written s key data tmp f0 f))"
proof -
  have "triple (\<lambda>f. writing s key {tmp} f0 f \<and> tempHas tmp data True f) (osRename tmp (objPath s key))
    (\<lambda>r f. (\<forall>e. r = Inl e \<longrightarrow> writing s key {tmp} f0 f) \<and>
       (r = Inr () \<longrightarrow> (\<exists>g t. writing s key {tmp} f0 g \<and> dirsTo g (objPath s key) \<and>
          f = fsPut (objPath s key) (File data True t) (fsDel tmp g))))"
    using assms(3,4) objPath_proper(1) [OF assms(1,2)] writing_noLink(1) [OF assms(1)] objPath_split(4) [OF assms(1)]
    by (intro triple_publish) auto
  moreover have "tmp \<noteq> []" using assms(3) by (simp add: tempOk_def)
  ultimately show ?thesis
    by (auto elim!: triple_post dest: written_publish [OF assms(1) _ _ _ assms(4)])
qed

text \<open>A name in the directory of the object is no directory on the way to it.\<close>

lemma sibling_no_prefix:
  assumes "objKey s key" "c \<noteq> last (objPath s key)"
  shows "\<not> prefix (butlast (objPath s key) @ [c]) (objPath s key)"
proof
  assume "prefix (butlast (objPath s key) @ [c]) (objPath s key)"
  then have "butlast (objPath s key) @ [c] = objPath s key"
    using objPath_split [OF assms(1)] by (auto simp: prefix_def)
  then show False using assms(2) by (metis last_snoc)
qed

lemma triple_cleanup:
  assumes "tempOk I tmp"
  shows "triple I (State_Monad.bind (ignore (osClose h)) (\<lambda>_. ignore (osRemove tmp))) (\<lambda>_. I)"
    "triple I (ignore (osRemove tmp)) (\<lambda>_. I)"
proof -
  show rm: "triple I (ignore (osRemove tmp)) (\<lambda>_. I)"
    by (rule triple_ignore) (rule triple_removeTemp [OF assms])
  show "triple I (State_Monad.bind (ignore (osClose h)) (\<lambda>_. ignore (osRemove tmp))) (\<lambda>_. I)"
    by (rule triple_bind [OF readOnly_triple rm]) (intro readonly)
qed

text \<open>The steps after the temporary file is open: they publish, or leave everything else alone.\<close>

lemma triple_writeAndPublish:
  fixes f0 :: fsys
  assumes ok: "objKey s key" "list_all properComp (cleanComps key)" "properComp c" "c \<noteq> last (objPath s key)"
  defines "tmp \<equiv> butlast (objPath s key) @ [c]"
  defines "I \<equiv> writing s key {tmp} f0"
  shows "triple (\<lambda>f. I f \<and> tempHas tmp [] False f) (writeAndPublish tmp tmp (objPath s key) data)
    (\<lambda>r f. (\<forall>e. r = Inl e \<longrightarrow> I f) \<and> (r = Inr () \<longrightarrow> written s key data tmp f0 f))"
proof -
  have tmp: "tempOk I tmp" using tempOk_writing [OF ok(1-3)] by (simp add: I_def tmp_def)
  have step: "triple (\<lambda>f. I f \<and> P f) (onErr (wrapErr fmt [] m) c) (\<lambda>r f. I f \<and> (r = Inr () \<longrightarrow> Q f))"
    if "triple (\<lambda>f. I f \<and> P f) m (\<lambda>r f. I f \<and> (r = Inr () \<longrightarrow> Q f))" "triple I c (\<lambda>_. I)" for fmt m c P Q
  proof (rule triple_onErr [OF triple_wrapErr])
    show "triple (\<lambda>f. I f \<and> P f) m (\<lambda>r f. I f \<and> (map_sum (Wrapf fmt []) id r = Inr () \<longrightarrow> Q f))"
      by (rule triple_post [OF that(1)]) auto
    show "triple (\<lambda>f. I f \<and> (Inl e = Inr () \<longrightarrow> Q f)) c (\<lambda>_ f. I f \<and> (Inl e = Inr () \<longrightarrow> Q f))" for e
      by (rule triple_conseq [OF that(2)]) auto
  qed auto
  note w = step [OF triple_writeTemp [OF tmp] triple_cleanup(1) [OF tmp]]
    and sy = step [OF triple_syncTemp [OF tmp] triple_cleanup(1) [OF tmp]]
  have cl: "triple (\<lambda>f. I f \<and> tempHas tmp data True f)
      (onErr (wrapErr ''close: %w'' [] (osClose tmp)) (ignore (osRemove tmp)))
      (\<lambda>r f. I f \<and> (r = Inr () \<longrightarrow> tempHas tmp data True f))"
    by (rule step [OF triple_post [OF readOnly_triple] triple_cleanup(2) [OF tmp]]) (auto intro: readonly)
  have rn: "triple (\<lambda>f. I f \<and> tempHas tmp data True f)
      (onErr (wrapErr ''rename: %w'' [] (osRename tmp (objPath s key))) (ignore (osRemove tmp)))
      (\<lambda>r f. (\<forall>e. r = Inl e \<longrightarrow> I f) \<and> (r = Inr () \<longrightarrow> written s key data tmp f0 f))"
  proof (rule triple_onErr)
    show "triple (\<lambda>f. I f \<and> tempHas tmp data True f) (wrapErr ''rename: %w'' [] (osRename tmp (objPath s key)))
        (\<lambda>r f. (\<forall>e. r = Inl e \<longrightarrow> I f) \<and> (r = Inr () \<longrightarrow> written s key data tmp f0 f))"
      unfolding I_def tmp_def by (rule triple_wrapErr, rule triple_post [OF triple_publish_writing [OF ok(1,2) tempOk_writing [OF ok(1-3)] sibling_no_prefix [OF ok(1,4)]]]) auto
    show "triple (\<lambda>f. (\<forall>e'. Inl e = Inl e' \<longrightarrow> I f) \<and> (Inl e = Inr () \<longrightarrow> written s key data tmp f0 f)) (ignore (osRemove tmp))
        (\<lambda>_ f. (\<forall>e'. Inl e = Inl e' \<longrightarrow> I f) \<and> (Inl e = Inr () \<longrightarrow> written s key data tmp f0 f))" for e :: error
      by (rule triple_conseq [OF triple_cleanup(2) [OF tmp]]) auto
  qed auto
  have seq: "triple (\<lambda>f. I f \<and> P f) (bindR m (\<lambda>_ :: unit. k)) R"
    if "triple (\<lambda>f. I f \<and> P f) m (\<lambda>r f. I f \<and> (r = Inr () \<longrightarrow> Q f))" "triple (\<lambda>f. I f \<and> Q f) k R"
      "R = (\<lambda>r f. (\<forall>e. r = Inl e \<longrightarrow> I f) \<and> (r = Inr () \<longrightarrow> written s key data tmp f0 f))" for P Q R m k
  proof (rule triple_bindR [OF that(1)])
    show "triple (\<lambda>f. I f \<and> (Inr x = Inr () \<longrightarrow> Q f)) k R" for x :: unit
      by (rule triple_conseq [OF that(2)]) auto
  qed (use that(3) in auto)
  show ?thesis
    unfolding writeAndPublish_def by (rule seq [OF w seq [OF sy seq [OF cl rn refl] refl] refl])
qed

lemma tmpPath_ne: "''.tmp-'' @ c \<noteq> c"
  by (metis append_self_conv2 list.distinct(1))

lemma triple_putResolved:
  assumes "objKey s key" "list_all properComp (cleanComps key)"
  shows "triple (writing s key {tmpPath s key} f0) (putResolved (objPath s key) data)
    (\<lambda>r f. (\<forall>e. r = Inl e \<longrightarrow> writing s key {tmpPath s key} f0 f) \<and>
           (r = Inr () \<longrightarrow> written s key data (tmpPath s key) f0 f))"
proof -
  define c where "c = ''.tmp-'' @ last (objPath s key)"
  define tmp where "tmp = butlast (objPath s key) @ [c]"
  define I where "I = writing s key {tmp} f0"
  have c: "properComp c" "c \<noteq> last (objPath s key)"
    using proper_tmp [OF objPath_proper(3) [OF assms]] tmpPath_ne by (auto simp: c_def)
  have mk: "triple I (wrapErr ''mkdir: %w'' [] (osMkdirAll (butlast (objPath s key)))) (\<lambda>_. I)"
    unfolding I_def by (rule triple_wrapErr, rule triple_post [OF triple_mkdirAll_writing [OF assms]]) simp
  have op: "triple I (wrapErr ''open temp: %w'' [] (osOpenFile tmp))
      (\<lambda>r f. I f \<and> (\<forall>h. r = Inr h \<longrightarrow> h = tmp \<and> tempHas tmp [] False f))"
    unfolding I_def tmp_def
    by (rule triple_wrapErr, rule triple_post [OF triple_openTemp [OF tempOk_writing [OF assms c(1)]]]) auto
  have "triple (\<lambda>f. I f \<and> (\<forall>h'. Inr h = Inr h' \<longrightarrow> h' = tmp \<and> tempHas tmp [] False f))
      (writeAndPublish h tmp (objPath s key) data)
      (\<lambda>r f. (\<forall>e. r = Inl e \<longrightarrow> I f) \<and> (r = Inr () \<longrightarrow> written s key data tmp f0 f))" for h
  proof (cases "h = tmp")
    case True
    show ?thesis
      unfolding True I_def unfolding tmp_def
      by (rule triple_conseq [OF triple_writeAndPublish [OF assms c]]) auto
  qed (simp add: triple_def)
  then have "triple I (putResolved (objPath s key) data)
      (\<lambda>r f. (\<forall>e. r = Inl e \<longrightarrow> I f) \<and> (r = Inr () \<longrightarrow> written s key data tmp f0 f))"
    unfolding putResolved_def Let_def tmp_def [symmetric] c_def [symmetric]
    by (intro triple_bindR [OF mk] triple_bindR [OF op]) auto
  then show ?thesis by (simp add: I_def tmp_def c_def tmpPath_def)
qed

lemma triple_putUnlocked:
  assumes "objKey s key" "plain (basePath s) f0"
  shows "triple (\<lambda>f. f = f0) (putUnlocked s key data)
    (\<lambda>r f. (\<forall>e. r = Inl e \<longrightarrow> writing s key {tmpPath s key} f0 f) \<and>
           (r = Inr () \<longrightarrow> written s key data (tmpPath s key) f0 f))"
  unfolding putUnlocked_def
proof (rule triple_bindR [OF triple_resolve])
  have start: "writing s key {tmpPath s key} f0 f0" using assms(2) by (simp add: writing_def)
  show "triple (\<lambda>f. f = f0 \<and> (\<forall>p. Inr path = Inr p \<longrightarrow> p = basePath s @ cleanComps key \<and> list_all properComp (cleanComps key)))
      (putResolved path data)
      (\<lambda>r f. (\<forall>e. r = Inl e \<longrightarrow> writing s key {tmpPath s key} f0 f) \<and>
           (r = Inr () \<longrightarrow> written s key data (tmpPath s key) f0 f))" for path
  proof (cases "path = objPath s key \<and> list_all properComp (cleanComps key)")
    case True
    then show ?thesis
      using start by (auto intro: triple_conseq [OF triple_putResolved [OF assms(1)]])
  qed (auto simp: triple_def objPath_def)
qed (use assms(2) in \<open>auto simp: writing_def\<close>)

section \<open>The interface of an object store\<close>

text \<open>
  What the registry's other components rely on.  \<open>obj f p\<close> is the object at path \<open>p\<close> of the file system
  \<open>f\<close>, \<open>at k\<close> the path of key \<open>k\<close>, and \<open>temp\<close> the paths that belong to writes under way.  The laws hold for
  every sequence of failures and for every crash point.
\<close>

definition seen :: "bytes result \<Rightarrow> bytes option \<Rightarrow> bool" where
  "seen r ob \<longleftrightarrow> (\<forall>d. r = Inr d \<longrightarrow> ob = Some d) \<and> (r = Inl ErrNotExist \<longrightarrow> ob = None)"

definition readModifyWrite ::
  "(string \<Rightarrow> bytes result io) \<Rightarrow> (string \<Rightarrow> bytes \<Rightarrow> unit result io) \<Rightarrow> string \<Rightarrow>
   (bytes result \<Rightarrow> bytes option result) \<Rightarrow> unit result io" where
  "readModifyWrite get put k decide =
     do { r \<leftarrow> get k;
          case decide r of
            Inl e \<Rightarrow> State_Monad.return (Inl e)
          | Inr upd \<Rightarrow> (case upd of None \<Rightarrow> State_Monad.return (Inr ()) | Some d \<Rightarrow> put k d) }"

locale object_store =
  fixes ok :: "fsys \<Rightarrow> bool"
    and obj :: "fsys \<Rightarrow> path \<Rightarrow> bytes option"
    and at :: "string \<Rightarrow> path"
    and isKey :: "string \<Rightarrow> bool"
    and temp :: "path \<Rightarrow> bool"
    and get :: "string \<Rightarrow> bytes result io"
    and put :: "string \<Rightarrow> bytes \<Rightarrow> unit result io"
  assumes get_law: "isKey k \<Longrightarrow> ok f0 \<Longrightarrow> triple (\<lambda>f. f = f0) (get k) (\<lambda>r f. f = f0 \<and> seen r (obj f0 (at k)))"
    and put_law: "isKey k \<Longrightarrow> ok f0 \<Longrightarrow> triple (\<lambda>f. f = f0) (put k d) (\<lambda>r f. ok f \<and>
        (\<forall>p. \<not> temp p \<longrightarrow> obj f p = (if p = at k \<and> r = Inr () then Some d else obj f0 p)))"
    and not_temp: "isKey k \<Longrightarrow> \<not> temp (at k)"
begin

text \<open>A failed update leaves the object as it was; a successful one stores what was decided on what was there.\<close>

lemma rmw:
  assumes "isKey k" "ok f0"
  shows "triple (\<lambda>f. f = f0) (readModifyWrite get put k decide) (\<lambda>r f. ok f \<and>
     (\<forall>p. \<not> temp p \<longrightarrow> p \<noteq> at k \<or> r \<noteq> Inr () \<longrightarrow> obj f p = obj f0 p) \<and>
     (r = Inr () \<longrightarrow> (\<exists>r0 u. seen r0 (obj f0 (at k)) \<and> decide r0 = Inr u \<and>
        obj f (at k) = (case u of None \<Rightarrow> obj f0 (at k) | Some d \<Rightarrow> Some d))))" (is "triple _ _ ?Q")
  unfolding readModifyWrite_def
proof (rule triple_bind [OF get_law [OF assms]])
  fix r0
  show "triple (\<lambda>f. f = f0 \<and> seen r0 (obj f0 (at k)))
      (case decide r0 of Inl e \<Rightarrow> State_Monad.return (Inl e)
       | Inr upd \<Rightarrow> (case upd of None \<Rightarrow> State_Monad.return (Inr ()) | Some d \<Rightarrow> put k d)) ?Q"
  proof (cases "seen r0 (obj f0 (at k))")
    case sn: True
    show ?thesis
    proof (rule triple_case_sum)
      fix e assume "decide r0 = Inl e"
      show "triple (\<lambda>f. f = f0 \<and> seen r0 (obj f0 (at k))) (State_Monad.return (Inl e)) ?Q"
        using assms by (intro triple_return) auto
    next
      fix u assume d: "decide r0 = Inr u"
      show "triple (\<lambda>f. f = f0 \<and> seen r0 (obj f0 (at k)))
          (case u of None \<Rightarrow> State_Monad.return (Inr ()) | Some d \<Rightarrow> put k d) ?Q"
      proof (cases u)
        case None
        then show ?thesis using assms sn d by (auto intro!: triple_return)
      next
        case (Some v)
        show ?thesis
          unfolding Some option.case
        proof (rule triple_conseq [OF put_law [OF assms, of v]])
          fix r :: "unit result" and f
          assume a: "ok f \<and> (\<forall>p. \<not> temp p \<longrightarrow> obj f p = (if p = at k \<and> r = Inr () then Some v else obj f0 p))"
          then show "?Q r f" using sn d Some not_temp [OF assms(1)] by force
        qed auto
      qed
    qed
  qed (auto simp: triple_def)
qed

end

section \<open>The file store is an object store\<close>

definition tempName :: "path \<Rightarrow> bool" where
  "tempName p \<longleftrightarrow> p \<noteq> [] \<and> hasPrefix (last p) ''.tmp-''"

definition objectAt :: "fsys \<Rightarrow> path \<Rightarrow> bytes option" where
  "objectAt f p = map_option fst (objAt f p)"

text \<open>The keys of objects: not the root, not a temporary name, below a root with a proper path.\<close>

definition storeKey :: "Store \<Rightarrow> string \<Rightarrow> bool" where
  "storeKey s key \<longleftrightarrow> objKey s key \<and> \<not> tempName (objPath s key)"

lemma tmpPath_temp: "tempName (tmpPath s key)"
  by (simp add: tempName_def tmpPath_def hasPrefix_def)

lemma put_objAt_law:
  assumes "storeKey s key" "plain (basePath s) f0"
  shows "triple (\<lambda>f. f = f0) (putUnlocked s key d) (\<lambda>r f. plain (basePath s) f \<and>
    (\<forall>p. \<not> tempName p \<longrightarrow> objAt f p = (if p = objPath s key \<and> r = Inr () then Some (d, True) else objAt f0 p)))"
proof (rule triple_post [OF triple_putUnlocked])
  show "objKey s key" "plain (basePath s) f0" using assms by (auto simp: storeKey_def)
next
  fix r :: "unit result" and f
  assume a: "(\<forall>e. r = Inl e \<longrightarrow> writing s key {tmpPath s key} f0 f) \<and>
    (r = Inr () \<longrightarrow> written s key d (tmpPath s key) f0 f)"
  have nt: "p \<noteq> tmpPath s key" if "\<not> tempName p" for p using that tmpPath_temp by blast
  show "plain (basePath s) f \<and> (\<forall>p. \<not> tempName p \<longrightarrow>
      objAt f p = (if p = objPath s key \<and> r = Inr () then Some (d, True) else objAt f0 p))"
  proof (cases r)
    case (Inl e)
    then show ?thesis using a nt by (auto simp: writing_def intro: kept_objects)
  next
    case (Inr u)
    then have w: "written s key d (tmpPath s key) f0 f" using a by simp
    then have "objAt f (objPath s key) = Some (d, True)" by (auto simp: written_def tempHas_def objAt_def)
    moreover have "objAt f p = objAt f0 p" if "\<not> tempName p" "p \<noteq> objPath s key" for p
      using w nt [OF that(1)] that(2) by (auto simp: written_def writing_def intro: kept_objects)
    ultimately show ?thesis using Inr w by (auto simp: written_def writing_def)
  qed
qed

lemma put_object_law:
  assumes "storeKey s key" "plain (basePath s) f0"
  shows "triple (\<lambda>f. f = f0) (putUnlocked s key d) (\<lambda>r f. plain (basePath s) f \<and>
    (\<forall>p. \<not> tempName p \<longrightarrow> objectAt f p = (if p = objPath s key \<and> r = Inr () then Some d else objectAt f0 p)))"
  by (rule triple_post [OF put_objAt_law [OF assms]]) (auto simp: objectAt_def)

lemma Put_object_law:
  assumes "storeKey s key" "plain (basePath s) f0"
  shows "triple (\<lambda>f. f = f0) (Put s key d) (\<lambda>r f. plain (basePath s) f \<and>
    (\<forall>p. \<not> tempName p \<longrightarrow> objectAt f p = (if p = objPath s key \<and> r = Inr () then Some d else objectAt f0 p)))"
  unfolding Put_def by (rule triple_withLock [OF put_object_law [OF assms]]) (use assms in auto)

lemma statNode_object:
  assumes "list_all properComp p" "fsTree f" "objectAt f p \<noteq> None"
  shows "\<exists>n. statNode f p = Inr n"
proof -
  obtain d s t where n: "fsGet f p = Some (File d s t)"
    using assms(3) by (auto simp: objectAt_def objAt_def split: option.splits node.splits)
  then have "dirsTo f p" using assms(2) by (simp add: fsTree_def)
  then have "canon False f kernelLinks [] p = Inr p" using canon_dirs [of p f "[]" False] assms(1) n by simp
  then show ?thesis using n by (simp add: statNode_def)
qed

lemma readFile_seen:
  assumes "objKey s key" "plain (basePath s) f0" "list_all properComp (cleanComps key)" "fsTree f0"
  shows "triple (\<lambda>f. f = f0) (osReadFile (objPath s key)) (\<lambda>r f. f = f0 \<and> seen r (objectAt f0 (objPath s key)))"
  unfolding osReadFile_def
proof (rule triple_query)
  fix w :: world assume f: "fs w = f0"
  have links: "noLinkTo f0 (objPath s key)"
    using assms prefix_base(1) plain_noLinkTo by blast
  show "fs w = f0 \<and> seen (case statNode (fs w) (objPath s key) of Inl e \<Rightarrow> Inl e | Inr (File d _ _) \<Rightarrow> Inr d
      | Inr _ \<Rightarrow> Inl ErrIsDir) (objectAt f0 (objPath s key))"
  proof (cases "statNode f0 (objPath s key)")
    case (Inr n)
    then obtain q where "canon False f0 kernelLinks [] (objPath s key) = Inr q" "fsGet f0 q = Some n"
      by (rule statNode_canon)
    moreover from this have "q = objPath s key"
      using canon_plain [OF objPath_proper(1) [OF assms(1,3)]] links by (metis append_Nil)
    ultimately show ?thesis using Inr f by (cases n) (auto simp: seen_def objectAt_def objAt_def)
  next
    case (Inl e)
    then have "objectAt f0 (objPath s key) = None"
      using statNode_object [OF objPath_proper(1) [OF assms(1,3)] assms(4)] by fastforce
    then show ?thesis using Inl f by (auto simp: seen_def)
  qed
qed (auto simp: seen_def)

lemma Get_object_law:
  assumes "storeKey s key" "plain (basePath s) f0" "fsTree f0"
  shows "triple (\<lambda>f. f = f0) (Get s key) (\<lambda>r f. f = f0 \<and> seen r (objectAt f0 (objPath s key)))"
  unfolding Get_def
proof (rule triple_bindR)
  show "triple (\<lambda>f. f = f0) (resolve s key) (\<lambda>r f. f = f0 \<and> r \<noteq> Inl ErrNotExist \<and>
      (\<forall>path. r = Inr path \<longrightarrow> path = objPath s key \<and> list_all properComp (cleanComps key)))"
    unfolding triple_def
  proof (intro allI impI)
    fix w r w' assume "fs w = f0" and run: "run_state (resolve s key) w = (r, w')"
    then show "fs w' = f0 \<and> r \<noteq> Inl ErrNotExist \<and>
        (\<forall>path. r = Inr path \<longrightarrow> path = objPath s key \<and> list_all properComp (cleanComps key))"
      using readOnlyD [OF resolve_pure run] resolve_error [OF run] resolve_path [of s key w _ w'] by (auto simp: objPath_def)
  qed
next
  fix path
  show "triple (\<lambda>f. f = f0 \<and> Inr path \<noteq> Inl ErrNotExist \<and>
      (\<forall>p. Inr path = Inr p \<longrightarrow> p = objPath s key \<and> list_all properComp (cleanComps key)))
      (osReadFile path) (\<lambda>r f. f = f0 \<and> seen r (objectAt f0 (objPath s key)))"
  proof (cases "path = objPath s key \<and> list_all properComp (cleanComps key)")
    case True
    then show ?thesis
      using assms by (auto simp: storeKey_def intro: triple_conseq [OF readFile_seen])
  qed (auto simp: triple_def)
qed (auto simp: seen_def)

lemma tree_resolve [preserving]: "preserves I (resolve s key)"
  by (rule preserves_readOnly) (rule readonly)

lemma tree_putUnlocked [preserving]: "preserves fsTree (putUnlocked s key data)"
  unfolding putUnlocked_def putResolved_def writeAndPublish_def Let_def by (intro preserving)

lemma tree_Put [preserving]: "preserves fsTree (Put s key data)"
  unfolding Put_def by (intro preserving)

definition storeOk :: "Store \<Rightarrow> fsys \<Rightarrow> bool" where
  "storeOk s f \<longleftrightarrow> plain (basePath s) f \<and> fsTree f"

lemma put_storeOk:
  assumes "triple (\<lambda>f. f = f0) m (\<lambda>r f. plain (basePath s) f \<and> Q r f)" "preserves fsTree m" "storeOk s f0"
  shows "triple (\<lambda>f. f = f0) m (\<lambda>r f. storeOk s f \<and> Q r f)"
  by (rule triple_conseq [OF triple_conj [OF assms(1) assms(2) [unfolded preserves_def]]])
     (use assms(3) in \<open>auto simp: storeOk_def\<close>)

interpretation fileStore: object_store "storeOk s" objectAt "objPath s" "storeKey s" tempName "Get s" "Put s" for s
proof unfold_locales
  fix k f0 d
  assume k: "storeKey s k" and ok: "storeOk s f0"
  show "triple (\<lambda>f. f = f0) (Get s k) (\<lambda>r f. f = f0 \<and> seen r (objectAt f0 (objPath s k)))"
    using Get_object_law [OF k] ok by (simp add: storeOk_def)
  show "triple (\<lambda>f. f = f0) (Put s k d) (\<lambda>r f. storeOk s f \<and>
      (\<forall>p. \<not> tempName p \<longrightarrow> objectAt f p = (if p = objPath s k \<and> r = Inr () then Some d else objectAt f0 p)))"
    using Put_object_law [OF k] ok by (intro put_storeOk preserving) (simp_all add: storeOk_def)
qed (simp add: storeKey_def)

text \<open>The same laws hold for the write without the lock, which the index operations use under theirs.\<close>

interpretation unlockedStore: object_store "storeOk s" objectAt "objPath s" "storeKey s" tempName "Get s" "putUnlocked s" for s
proof unfold_locales
  fix k f0 d
  assume k: "storeKey s k" and ok: "storeOk s f0"
  show "triple (\<lambda>f. f = f0) (Get s k) (\<lambda>r f. f = f0 \<and> seen r (objectAt f0 (objPath s k)))"
    by (rule fileStore.get_law [OF k ok])
  show "triple (\<lambda>f. f = f0) (putUnlocked s k d) (\<lambda>r f. storeOk s f \<and>
      (\<forall>p. \<not> tempName p \<longrightarrow> objectAt f p = (if p = objPath s k \<and> r = Inr () then Some d else objectAt f0 p)))"
    using put_object_law [OF k] ok by (intro put_storeOk preserving) (simp_all add: storeOk_def)
qed (rule fileStore.not_temp)

section \<open>Reading back\<close>

lemma syscall_quiet: "\<not> crashed w \<Longrightarrow> faults w = [] \<Longrightarrow> run_state (syscall part act) w = act w"
  by (simp add: syscall_def)

lemma query_quiet: "\<not> crashed w \<Longrightarrow> faults w = [] \<Longrightarrow> run_state (query q) w = (q w, w)"
  by (simp add: query_def syscall_quiet)

text \<open>In a quiet state the store resolves the key of an existing object.\<close>

lemma resolve_quiet:
  assumes quiet: "\<not> crashed w" "faults w = []"
    and key: "objKey s key" "run_state (resolve s key) w0 = (Inr path, w0')"
    and ex: "dirsTo (fs w) (objPath s key)" "fsGet (fs w) (objPath s key) = Some (File d sy t)"
  shows "run_state (resolve s key) w = (Inr (objPath s key), w)"
proof -
  have p: "list_all properComp (objPath s key)"
    using objPath_proper(1) [OF key(1)] resolve_path(2) [OF key(2)] by blast
  have canon: "canon False (fs w) n [] (objPath s key) = Inr (objPath s key)" for n
    using canon_dirs [of "objPath s key" "fs w" "[]" False n] p ex by simp
  obtain c rp where rp: "rev (objPath s key) = c # rp"
    using objPath_split(4) [OF key(1)] by (cases "rev (objPath s key)") auto
  have rev: "rev (c # rp) = objPath s key" using rp by (metis rev_rev_ident)
  have "\<not> relEscapes (relComps (basePath s) (objPath s key))"
    using proper_relEscapes resolve_path(2) [OF key(2)] by (simp add: objPath_def relComps_append)
  then have "run_state (rejectSymlinkEscape s (objPath s key)) w = (Inr (), w)"
    using quiet canon rev
    by (simp add: rejectSymlinkEscape_def rp osEvalSymlinks_def query_quiet del: rev.simps)
  then show ?thesis
    using key by (cases rule: resolve_cases [of key s])
      (auto simp: bindR_def objPath_def objKey_def cleanComps_root)
qed

lemma Get_quiet:
  assumes quiet: "\<not> crashed w" "faults w = []"
    and key: "objKey s key" "run_state (resolve s key) w0 = (Inr path, w0')"
    and ex: "dirsTo (fs w) (objPath s key)" "fsGet (fs w) (objPath s key) = Some (File d sy t)"
  shows "run_state (Get s key) w = (Inr d, w)"
proof -
  have p: "list_all properComp (objPath s key)"
    using objPath_proper(1) [OF key(1)] resolve_path(2) [OF key(2)] by blast
  have "statNode (fs w) (objPath s key) = Inr (File d sy t)"
    using canon_dirs [of "objPath s key" "fs w" "[]" False] p ex by (simp add: statNode_def)
  then show ?thesis
    using resolve_quiet [OF assms] quiet by (simp add: Get_def bindR_def osReadFile_def query_quiet)
qed

lemma withLock_success:
  assumes "run_state (withLock key m) w = (Inr x, w')"
  obtains w1 w2 where "run_state m w1 = (Inr x, w2)" "fs w1 = fs w" "fs w' = fs w2" "w' = w2\<lparr>held := held w'\<rparr>"
proof -
  obtain r w2 where r: "run_state m (w\<lparr>held := key # held w\<rparr>) = (r, w2)" by (rule prod.exhaust)
  then have "r = Inr x" "w' = w2\<lparr>held := removeAll key (held w2)\<rparr>"
    using assms by (auto simp: withLock_def split: if_splits)
  then show ?thesis using that [of "w\<lparr>held := key # held w\<rparr>" w2] r by simp
qed

section \<open>Evaluation\<close>

text \<open>The equations by which the simplifier runs a program of calls on a concrete state.\<close>

lemmas os_eval = bindR_def wrapErr_def onErr_def ignore_def finally_do_def withLock_def syscall_def query_def
  osStat_def osLstat_def osEvalSymlinks_def osReadFile_def osMkdir_def osOpenFile_def osWrite_def osSync_def
  osClose_def osChmod_def osSeekStart_def osRename_def osRemove_def osRemoveAll_def osReadDir_def osCreateTemp_def
  osWalk_def osOpen_def osFstat_def osMkdirAll_def tick_def timeNow_def statNode_def lstatNode_def place_def fsGet_def fsPut_def fsDel_def appendData_def
  renameAct_def rejectSymlinkEscape_def resolve_def joinPath_def relEscapes_def pathClean_def cleanComps_def
  hasPrefix_def kernelLinks_def evalLinks_def isNotExist_def Let_def

definition demoStore :: Store where
  "demoStore = \<lparr>basePath = [''d''], baseURL = ''u''\<rparr>"

definition demoWorld :: "(path \<times> node) list \<Rightarrow> fault list \<Rightarrow> world" where
  "demoWorld nodes fl =
     \<lparr>fs = ([''d''], Dir) # nodes, faults = fl, crashed = False, clock = 7, rand = [3, 5, 8], held = [], stuck = False,
      metrics = NewMetrics 0\<rparr>"

lemma demo_files:
  assumes "list_all (\<lambda>(p, n). \<exists>c. p = [''d'', c]) nodes" "list_all (\<lambda>(p, n). \<forall>t m. n \<noteq> Link t m) nodes"
  shows "storeOk demoStore (fs (demoWorld nodes fl))"
proof -
  have get: "fsGet (fs (demoWorld nodes fl)) p =
      (if p = [] \<or> p = [''d''] then Some Dir else map_of nodes p)" for p
    by (simp add: fsGet_def demoWorld_def)
  have sub: "\<exists>c. p = [''d'', c]" "\<forall>t m. n \<noteq> Link t m" if "map_of nodes p = Some n" for p n
    using map_of_SomeD [OF that] assms by (auto simp: list_all_iff)
  have two: "q = [] \<or> q = [''d'']" if "strict_prefix q [''d'', c]" for q c
    using that by (auto simp: strict_prefix_def prefix_Cons)
  have "fsTree (fs (demoWorld nodes fl))"
    unfolding fsTree_def dirsTo_def
  proof (intro allI impI)
    fix p q assume p: "fsGet (fs (demoWorld nodes fl)) p \<noteq> None" and q: "strict_prefix q p"
    then consider "p = [''d'']" | n where "map_of nodes p = Some n" by (auto simp: get split: if_splits)
    then have "q = [] \<or> q = [''d'']"
    proof cases
      case 1
      then show ?thesis using q by (auto simp: strict_prefix_def prefix_Cons)
    next
      case 2
      then show ?thesis using sub(1) two q by blast
    qed
    then show "fsGet (fs (demoWorld nodes fl)) q = Some Dir" by (simp add: get)
  qed
  moreover have "plain (basePath demoStore) (fs (demoWorld nodes fl))"
    unfolding plain_def get using sub(2) by (auto split: if_splits)
  ultimately show ?thesis by (simp add: storeOk_def)
qed

section \<open>Properties\<close>

text \<open>
  C6. Reads are confined to the storage root: whatever symbolic links the storage holds and whatever
  the key, bytes that \<^verbatim>\<open>Get\<close> returns are the content of a file whose real location is below the root,
  and reading changes nothing.
\<close>

theorem Get_confined:
  assumes "rootCanonical s (fs w)" "run_state (Get s key) w = (Inr d, w')"
  shows "(\<exists>q sy t. prefix (basePath s) q \<and> fsGet (fs w) q = Some (File d sy t)) \<and> fs w' = fs w"
proof -
  obtain path w1 where r: "run_state (resolve s key) w = (Inr path, w1)" "run_state (osReadFile path) w1 = (Inr d, w')"
    using assms(2) unfolding Get_def by (rule bindR_success)
  have f: "fs w1 = fs w" using readOnlyD [OF resolve_pure r(1)] .
  obtain q sy t where q: "canon False (fs w1) kernelLinks [] path = Inr q" "fsGet (fs w1) q = Some (File d sy t)"
    using r(2) by (rule osReadFile_success)
  have "prefix (basePath s) q" using resolve_inside [OF r(1) assms(1)] q f by simp
  moreover have "fs w' = fs w1" using readOnlyD [OF readOnly_calls(4) r(2)] .
  ultimately show ?thesis using q f by auto
qed

theorem Get_confined_witness:
  "let w = demoWorld [([''d'', ''l''], Link ''x'' 0), ([''d'', ''x''], File ''hi'' True 0)] [] in
   rootCanonical demoStore (fs w) \<and> run_state (Get demoStore ''l'') w = (Inr ''hi'', w) \<and>
   (\<exists>q sy t. prefix (basePath demoStore) q \<and> fsGet (fs w) q = Some (File ''hi'' sy t))"
proof -
  define w where "w = demoWorld [([''d'', ''l''], Link ''x'' 0), ([''d'', ''x''], File ''hi'' True 0)] []"
  have r: "rootCanonical demoStore (fs w)"
    by (simp add: rootCanonical_def w_def demoWorld_def demoStore_def fsGet_def)
  have g: "run_state (Get demoStore ''l'') w = (Inr ''hi'', w)"
    by (simp add: Get_def os_eval w_def demoStore_def demoWorld_def)
  show ?thesis using Get_confined [OF r g] r g unfolding Let_def w_def [symmetric] by blast
qed

text \<open>
  C5. Writes are atomic and durable, and disturb nothing else.  For every failure of any call and for
  a crash at any point inside \<^verbatim>\<open>Put\<close>: if it reports success the object has the new bytes, synced to
  disk before they became visible; otherwise the object is exactly what it was; and every other
  object of the store is untouched.  Only names reserved for temporary files can be left behind.
\<close>

theorem Put_atomic:
  assumes "storeKey s key" "storeOk s (fs w)"
  shows "case run_state (Put s key data) w of (r, w') \<Rightarrow>
    storeOk s (fs w') \<and>
    (\<forall>p. \<not> tempName p \<longrightarrow>
       objAt (fs w') p = (if p = objPath s key \<and> r = Inr () then Some (data, True) else objAt (fs w) p))"
proof -
  have "triple (\<lambda>f. f = fs w) (Put s key data) (\<lambda>r f. storeOk s f \<and> (\<forall>p. \<not> tempName p \<longrightarrow>
      objAt f p = (if p = objPath s key \<and> r = Inr () then Some (data, True) else objAt (fs w) p)))"
    unfolding Put_def
    by (rule put_storeOk [OF triple_withLock [OF put_objAt_law]])
       (use assms in \<open>auto simp: storeOk_def intro: preserving\<close>)
  then show ?thesis unfolding triple_def by (auto split: prod.splits)
qed

theorem Put_atomic_witness:
  "let w = demoWorld [([''d'', ''k''], File ''old'' True 0)] [Pass, Pass, Pass, Fail 2] in
   storeKey demoStore ''k'' \<and> storeOk demoStore (fs w) \<and>
   (case run_state (Put demoStore ''k'' ''new'') w of (r, w') \<Rightarrow>
      objAt (fs w') [''d'', ''k''] = (if r = Inr () then Some (''new'', True) else Some (''old'', True)))"
proof -
  define w where "w = demoWorld [([''d'', ''k''], File ''old'' True 0)] [Pass, Pass, Pass, Fail 2]"
  have k: "storeKey demoStore ''k''"
    by (simp add: storeKey_def objKey_def objPath_def tempName_def demoStore_def cleanComps_def hasPrefix_def properComp_def)
  have o: "storeOk demoStore (fs w)" unfolding w_def by (rule demo_files) simp_all
  have "\<not> tempName [''d'', ''k'']" "objPath demoStore ''k'' = [''d'', ''k'']" "objAt (fs w) [''d'', ''k''] = Some (''old'', True)"
    by (simp_all add: tempName_def objPath_def demoStore_def cleanComps_def hasPrefix_def objAt_def fsGet_def w_def demoWorld_def)
  then show ?thesis
    using Put_atomic [OF k o, of "''new''"] k o unfolding Let_def w_def [symmetric] by (auto split: prod.splits)
qed

text \<open>
  C27. What was stored is read back: after a \<^verbatim>\<open>Put\<close> that reported success, and as long as the calls of the
  read do not fail, \<^verbatim>\<open>Get\<close> of that key returns exactly the bytes written.
\<close>

theorem Get_after_Put:
  assumes "storeKey s key" "storeOk s (fs w)" "run_state (Put s key data) w = (Inr (), w1)"
    and "\<not> crashed w1" "faults w1 = []"
  shows "run_state (Get s key) w1 = (Inr data, w1)"
proof -
  obtain v v' where v: "run_state (putUnlocked s key data) v = (Inr (), v')" "fs v = fs w" "fs w1 = fs v'"
    using assms(3) unfolding Put_def by (rule withLock_success)
  obtain path u where u: "run_state (resolve s key) v = (Inr path, u)"
    using v(1) unfolding putUnlocked_def by (rule bindR_success)
  have k: "objKey s key" using assms(1) by (simp add: storeKey_def)
  have "written s key data (tmpPath s key) (fs w) (fs w1)"
    using tripleD [OF triple_putUnlocked [OF k], of "fs w" v data] v assms(2) by (auto simp: storeOk_def)
  then obtain t where "dirsTo (fs w1) (objPath s key)" "fsGet (fs w1) (objPath s key) = Some (File data True t)"
    by (auto simp: written_def tempHas_def)
  then show ?thesis by (rule Get_quiet [OF assms(4,5) k u])
qed

theorem Get_after_Put_witness:
  "\<exists>w1. run_state (Put demoStore ''k'' ''abc'') (demoWorld [] []) = (Inr (), w1) \<and>
     run_state (Get demoStore ''k'') w1 = (Inr ''abc'', w1)"
proof -
  have k: "storeKey demoStore ''k''"
    by (simp add: storeKey_def objKey_def objPath_def tempName_def demoStore_def cleanComps_def hasPrefix_def properComp_def)
  have o: "storeOk demoStore (fs (demoWorld [] []))" by (rule demo_files) simp_all
  have "\<exists>w1. run_state (Put demoStore ''k'' ''abc'') (demoWorld [] []) = (Inr (), w1) \<and> \<not> crashed w1 \<and> faults w1 = []"
    by (simp add: Put_def putUnlocked_def putResolved_def writeAndPublish_def os_eval demoStore_def demoWorld_def)
  then show ?thesis using Get_after_Put [OF k o] by blast
qed

end
