(* ===== verification/Indexes.thy ===== *)
theory Indexes
  imports StoreSafety Validation
begin

text \<open>
  The version indexes and the version metadata on top of the object store: \<^verbatim>\<open>addVersionToIndex\<close>,
  \<^verbatim>\<open>removeVersionFromIndex\<close> and \<^verbatim>\<open>setDeprecation\<close> of \<^verbatim>\<open>registry-server/storage.go\<close> are read-modify-write programs
  of the store's interface; their effect on what the files mean is derived from its laws.
\<close>

section \<open>The operations as read-modify-write programs\<close>

definition emptyIndex :: Index where
  "emptyIndex = \<lparr>Versions = Some [], IMetadata = None\<rparr>"

definition indexOf :: "string \<Rightarrow> bytes result \<Rightarrow> Index result" where
  "indexOf key r =
     (case r of
        Inl err \<Rightarrow> if isNotExist err then Inr emptyIndex else Inl err
      | Inr data \<Rightarrow>
          (case unmarshalInto decodeIndex zeroIndex data of (idx, err) \<Rightarrow>
             case err of
               Some e \<Rightarrow> Inl (Wrapf ''corrupt index %s: %w'' [key] e)
             | None \<Rightarrow> Inr (idx\<lparr>Versions := Some (sortSemanticVersions (versionsOf idx))\<rparr>)))"

lemma getIndex_eq: "getIndex s key = do { r \<leftarrow> Get s key; State_Monad.return (indexOf key r) }"
  unfolding getIndex_def indexOf_def emptyIndex_def
  by (rule arg_cong [where f = "State_Monad.bind (Get s key)"], rule ext)
     (auto split: sum.splits prod.splits option.splits)

definition addStep :: "string \<Rightarrow> Index \<Rightarrow> bytes option" where
  "addStep version idx =
     (if version \<in> set (versionsOf idx) then None
      else Some (marshalIndent (encodeIndex
             (idx\<lparr>Versions := Some (sortSemanticVersions (versionsOf idx @ [version]))\<rparr>))))"

definition removeStep :: "string \<Rightarrow> Index \<Rightarrow> bytes option" where
  "removeStep version idx =
     (let filtered = filter (\<lambda>v. v \<noteq> version) (versionsOf idx) in
      Some (marshalIndent (encodeIndex (idx\<lparr>Versions := (if filtered = [] then None else Some filtered)\<rparr>))))"

lemma bindR_getIndex:
  "bindR (getIndex s key) (\<lambda>idx. case step idx of None \<Rightarrow> State_Monad.return (Inr ()) | Some d \<Rightarrow> putUnlocked s key d) =
   readModifyWrite (Get s) (putUnlocked s) key (\<lambda>r. map_sum id step (indexOf key r))"
  unfolding bindR_def readModifyWrite_def getIndex_eq bind_assoc bind_left_identity
  by (rule arg_cong [where f = "State_Monad.bind (Get s key)"], rule ext) (simp split: sum.split)

lemma addVersionToIndex_rmw:
  "addVersionToIndex s key version =
     withLock key (readModifyWrite (Get s) (putUnlocked s) key (\<lambda>r. map_sum id (addStep version) (indexOf key r)))"
  unfolding addVersionToIndex_def bindR_getIndex [symmetric]
  by (rule arg_cong [where f = "withLock key"], rule arg_cong [where f = "bindR (getIndex s key)"], rule ext)
     (simp add: addStep_def)

lemma removeVersionFromIndex_rmw:
  "removeVersionFromIndex s key version =
     withLock key (readModifyWrite (Get s) (putUnlocked s) key (\<lambda>r. map_sum id (removeStep version) (indexOf key r)))"
  unfolding removeVersionFromIndex_def bindR_getIndex [symmetric] removeStep_def Let_def option.case ..

definition deprecatedMeta :: "string \<Rightarrow> string \<Rightarrow> bytes result \<Rightarrow> VersionMetadata" where
  "deprecatedMeta version message r =
     (case r of
        Inr data \<Rightarrow> fst (unmarshalInto decodeVersionMetadata zeroVersionMetadata data)
      | Inl _ \<Rightarrow> zeroVersionMetadata)\<lparr>VVersion := version, Deprecated := True, Deprecation := message\<rparr>"

lemma setDeprecation_rmw:
  "setDeprecation s key version message =
     withLock key (readModifyWrite (Get s) (putUnlocked s) key
       (\<lambda>r. Inr (Some (marshalIndent (encodeVersionMetadata (deprecatedMeta version message r))))))"
  unfolding setDeprecation_def readModifyWrite_def deprecatedMeta_def sum.case option.case Let_def ..

section \<open>What an index file means\<close>

definition indexAt :: "bytes option \<Rightarrow> Index option" where
  "indexAt ob =
     (case ob of
        None \<Rightarrow> Some emptyIndex
      | Some d \<Rightarrow>
          (case unmarshalInto decodeIndex zeroIndex d of
             (idx, None) \<Rightarrow> Some (idx\<lparr>Versions := Some (sortSemanticVersions (versionsOf idx))\<rparr>)
           | (_, Some _) \<Rightarrow> None))"

lemma indexOf_seen: "seen r ob \<Longrightarrow> indexOf key r = Inr idx \<Longrightarrow> indexAt ob = Some idx"
  by (cases r) (auto simp: seen_def indexOf_def indexAt_def isNotExist_def split: if_splits prod.splits option.splits)

lemma versionChar_ascii: "versionChar c \<Longrightarrow> of_char c < (0x80 :: nat)"
  by (auto simp: versionChar_def char_class_defs less_eq_char_def)

lemma validVersion_utf8: "validVersion v \<Longrightarrow> validUTF8 v"
  using validVersion_text(1) [of v] versionChar_ascii
  by (intro validUTF8_ascii) (auto simp: versionText_def list_all_iff)

text \<open>An index of semantic versions, as the registry writes them.\<close>

definition goodIndex :: "Index \<Rightarrow> bool" where
  "goodIndex idx \<longleftrightarrow> list_all validVersion (versionsOf idx) \<and> textMap (IMetadata idx)"

lemma goodIndex_ok: "goodIndex idx \<Longrightarrow> indexOk idx"
  using validVersion_utf8
  by (auto simp: goodIndex_def indexOk_def textSlice_def versionsOf_def list_all_iff split: option.splits)

lemma sort_key_sorted: "sorted (map k xs) \<Longrightarrow> sort_key k xs = xs"
proof (induction xs)
  case (Cons x xs)
  then show ?case by (cases xs) auto
qed simp

lemma sortSemanticVersions_twice:
  assumes "list_all validVersion vs"
  shows "sortSemanticVersions (sortSemanticVersions vs) = sortSemanticVersions vs"
proof -
  have "list_all validVersion (sortSemanticVersions vs)" using assms by (simp add: list_all_iff)
  then show ?thesis
    using assms sort_key_sorted [of semverKey "sortSemanticVersions vs"] sorted_sort_key [of semverKey vs]
    by (simp add: sortSemanticVersions_sort_key list_all_iff)
qed

lemma indexAt_file:
  assumes "goodIndex idx"
  shows "indexAt (Some (marshalIndent (encodeIndex idx))) = Some (idx\<lparr>Versions := Some (sortSemanticVersions (versionsOf idx))\<rparr>)"
  using index_file [OF goodIndex_ok [OF assms]] by (simp add: indexAt_def)

lemma sorted_versions:
  "list_all validVersion vs \<Longrightarrow> sorted (map semverKey (sortSemanticVersions vs))"
  by (simp add: sortSemanticVersions_sort_key list_all_iff)

text \<open>One update of an index file, for both operations.\<close>

lemma index_update:
  assumes "storeKey s key" "storeOk s f0"
    and step: "\<And>idx. indexAt (objectAt f0 (objPath s key)) = Some idx \<Longrightarrow>
       indexAt (case step idx of None \<Rightarrow> objectAt f0 (objPath s key) | Some d \<Rightarrow> Some d) = Some (g idx)"
  shows "triple (\<lambda>f. f = f0)
     (withLock key (readModifyWrite (Get s) (putUnlocked s) key (\<lambda>r. map_sum id step (indexOf key r))))
     (\<lambda>r f. storeOk s f \<and>
        (\<forall>p. \<not> tempName p \<longrightarrow> p \<noteq> objPath s key \<or> r \<noteq> Inr () \<longrightarrow> objectAt f p = objectAt f0 p) \<and>
        (r = Inr () \<longrightarrow> (\<exists>idx. indexAt (objectAt f0 (objPath s key)) = Some idx \<and>
           indexAt (objectAt f (objPath s key)) = Some (g idx))))"
proof (rule triple_withLock [OF triple_post [OF unlockedStore.rmw [OF assms(1,2)]]])
  fix r :: "unit result" and f
  assume a: "storeOk s f \<and>
     (\<forall>p. \<not> tempName p \<longrightarrow> p \<noteq> objPath s key \<or> r \<noteq> Inr () \<longrightarrow> objectAt f p = objectAt f0 p) \<and>
     (r = Inr () \<longrightarrow> (\<exists>r0 u. seen r0 (objectAt f0 (objPath s key)) \<and> map_sum id step (indexOf key r0) = Inr u \<and>
        objectAt f (objPath s key) = (case u of None \<Rightarrow> objectAt f0 (objPath s key) | Some d \<Rightarrow> Some d)))"
  have "\<exists>idx. indexAt (objectAt f0 (objPath s key)) = Some idx \<and> indexAt (objectAt f (objPath s key)) = Some (g idx)"
    if ok: "r = Inr ()"
  proof -
    obtain r0 u where r0: "seen r0 (objectAt f0 (objPath s key))" "map_sum id step (indexOf key r0) = Inr u"
      "objectAt f (objPath s key) = (case u of None \<Rightarrow> objectAt f0 (objPath s key) | Some d \<Rightarrow> Some d)"
      using a ok by blast
    then obtain idx where i: "indexOf key r0 = Inr idx" "u = step idx" by (cases "indexOf key r0") auto
    then show ?thesis using indexOf_seen [OF r0(1) i(1)] step [of idx] r0(3) by auto
  qed
  then show "storeOk s f \<and>
        (\<forall>p. \<not> tempName p \<longrightarrow> p \<noteq> objPath s key \<or> r \<noteq> Inr () \<longrightarrow> objectAt f p = objectAt f0 p) \<and>
        (r = Inr () \<longrightarrow> (\<exists>idx. indexAt (objectAt f0 (objPath s key)) = Some idx \<and>
           indexAt (objectAt f (objPath s key)) = Some (g idx)))" using a by blast
qed (use assms(2) in auto)

text \<open>What adding and removing do to a good index.\<close>

definition addedTo :: "string \<Rightarrow> Index \<Rightarrow> Index" where
  "addedTo version idx =
     (if version \<in> set (versionsOf idx) then idx
      else idx\<lparr>Versions := Some (sortSemanticVersions (versionsOf idx @ [version]))\<rparr>)"

definition removedFrom :: "string \<Rightarrow> Index \<Rightarrow> Index" where
  "removedFrom version idx =
     idx\<lparr>Versions := Some (sortSemanticVersions (filter (\<lambda>v. v \<noteq> version) (versionsOf idx)))\<rparr>"

lemma versionsOf_update [simp]: "versionsOf (idx\<lparr>Versions := Some vs\<rparr>) = vs"
  "versionsOf (idx\<lparr>Versions := None\<rparr>) = []"
  by (simp_all add: versionsOf_def)

lemma add_step:
  assumes "goodIndex idx" "validVersion version" "indexAt ob = Some idx"
  shows "indexAt (case addStep version idx of None \<Rightarrow> ob | Some d \<Rightarrow> Some d) = Some (addedTo version idx)"
proof (cases "version \<in> set (versionsOf idx)")
  case True
  then show ?thesis using assms(3) by (simp add: addStep_def addedTo_def)
next
  case False
  let ?vs = "versionsOf idx @ [version]"
  have valid: "list_all validVersion ?vs" using assms by (simp add: goodIndex_def)
  then have "goodIndex (idx\<lparr>Versions := Some (sortSemanticVersions ?vs)\<rparr>)"
    using assms(1) by (auto simp: goodIndex_def list_all_iff)
  from indexAt_file [OF this] show ?thesis
    using False sortSemanticVersions_twice [OF valid] by (simp add: addStep_def addedTo_def)
qed

lemma remove_step:
  assumes "goodIndex idx"
  shows "indexAt (case removeStep version idx of None \<Rightarrow> ob | Some d \<Rightarrow> Some d) = Some (removedFrom version idx)"
proof -
  let ?vs = "filter (\<lambda>v. v \<noteq> version) (versionsOf idx)"
  have "goodIndex (idx\<lparr>Versions := if ?vs = [] then None else Some ?vs\<rparr>)"
    using assms by (auto simp: goodIndex_def list_all_iff)
  from indexAt_file [OF this] show ?thesis
    by (cases "?vs = []") (simp_all add: removeStep_def removedFrom_def Let_def)
qed

section \<open>Properties\<close>

text \<open>The index file of a key, as the other operations read it, and whether it is one of semantic versions.\<close>

definition storedIndex :: "Store \<Rightarrow> fsys \<Rightarrow> string \<Rightarrow> Index option" where
  "storedIndex s f key = indexAt (objectAt f (objPath s key))"

definition indexFileOk :: "Store \<Rightarrow> fsys \<Rightarrow> string \<Rightarrow> bool" where
  "indexFileOk s f key \<longleftrightarrow> (case storedIndex s f key of None \<Rightarrow> True | Some idx \<Rightarrow> goodIndex idx)"

lemma storedIndex_sorted:
  assumes "storedIndex s f key = Some idx" "goodIndex idx"
  shows "sorted (map semverKey (versionsOf idx))"
proof -
  obtain vs where vs: "versionsOf idx = sortSemanticVersions vs"
    using assms(1)
    by (auto simp: storedIndex_def indexAt_def emptyIndex_def versionsOf_def sortSemanticVersions_def
        split: option.splits prod.splits) (metis foldl_Nil rev.simps(1))+
  have "list_all validVersion vs" using assms(2) vs by (simp add: goodIndex_def list_all_iff)
  then show ?thesis unfolding vs by (rule sorted_versions)
qed

text \<open>
  C8. Adding a version to an index.  On success the index holds the versions it held and the new one,
  once and in precedence order, and everything else it held; an index that could not be parsed is
  never overwritten; on failure (at any call, or a crash) the file is as it was.  No other object
  changes, and the index stays one of semantic versions.
\<close>

theorem addVersionToIndex_correct:
  assumes "storeKey s key" "storeOk s (fs w)" "indexFileOk s (fs w) key" "validVersion version"
  shows "case run_state (addVersionToIndex s key version) w of (r, w') \<Rightarrow>
    storeOk s (fs w') \<and> indexFileOk s (fs w') key \<and>
    (\<forall>p. \<not> tempName p \<longrightarrow> p \<noteq> objPath s key \<or> r \<noteq> Inr () \<longrightarrow> objectAt (fs w') p = objectAt (fs w) p) \<and>
    (r = Inr () \<longrightarrow> (\<exists>old new. storedIndex s (fs w) key = Some old \<and> storedIndex s (fs w') key = Some new \<and>
       set (versionsOf new) = insert version (set (versionsOf old)) \<and>
       (distinct (versionsOf old) \<longrightarrow> distinct (versionsOf new)) \<and>
       sorted (map semverKey (versionsOf new)) \<and> IMetadata new = IMetadata old))"
proof -
  obtain r w' where run: "run_state (addVersionToIndex s key version) w = (r, w')" by (rule prod.exhaust)
  have step: "indexAt (case addStep version idx of None \<Rightarrow> objectAt (fs w) (objPath s key) | Some d \<Rightarrow> Some d) =
      Some (addedTo version idx)" if "indexAt (objectAt (fs w) (objPath s key)) = Some idx" for idx
    using that assms(3,4) by (intro add_step) (simp_all add: indexFileOk_def storedIndex_def)
  note post = tripleD [OF index_update [where step = "addStep version" and g = "addedTo version", OF assms(1,2) step,
      folded addVersionToIndex_rmw] refl run, folded storedIndex_def]
  have good: "goodIndex (addedTo version idx) \<and> set (versionsOf (addedTo version idx)) = insert version (set (versionsOf idx)) \<and>
       (distinct (versionsOf idx) \<longrightarrow> distinct (versionsOf (addedTo version idx))) \<and>
       sorted (map semverKey (versionsOf (addedTo version idx))) \<and> IMetadata (addedTo version idx) = IMetadata idx"
    if i: "storedIndex s (fs w) key = Some idx" for idx
  proof -
    have g: "goodIndex idx" using assms(3) i by (simp add: indexFileOk_def)
    then have v: "list_all validVersion (versionsOf idx @ [version])" using assms(4) by (simp add: goodIndex_def)
    have s: "sorted (map semverKey (versionsOf idx))" using storedIndex_sorted [OF i g] .
    show ?thesis
      using g v s sorted_versions [OF v] by (auto simp: addedTo_def goodIndex_def list_all_iff)
  qed
  have "indexFileOk s (fs w') key"
  proof (cases "r = Inr ()")
    case True
    then show ?thesis using post good by (auto simp: indexFileOk_def)
  next
    case False
    then show ?thesis using post assms(1,3) by (auto simp: indexFileOk_def storedIndex_def storeKey_def)
  qed
  then show ?thesis using run post good by (auto simp: storedIndex_def)
qed

lemma versionsOf_emptyIndex [simp]: "versionsOf emptyIndex = []"
  by (simp add: emptyIndex_def versionsOf_def)

lemma demo_index:
  "storeKey demoStore ''i''" "storeOk demoStore (fs (demoWorld [] fl))" "indexFileOk demoStore (fs (demoWorld [] fl)) ''i''"
  "storedIndex demoStore (fs (demoWorld [] fl)) ''i'' = Some emptyIndex"
proof -
  show "storeKey demoStore ''i''"
    by (simp add: storeKey_def objKey_def objPath_def tempName_def demoStore_def cleanComps_def hasPrefix_def properComp_def)
  show "storeOk demoStore (fs (demoWorld [] fl))" by (rule demo_files) simp_all
  show "storedIndex demoStore (fs (demoWorld [] fl)) ''i'' = Some emptyIndex"
    by (simp add: storedIndex_def objectAt_def objAt_def fsGet_def demoWorld_def objPath_def demoStore_def
        cleanComps_def hasPrefix_def indexAt_def)
  then show "indexFileOk demoStore (fs (demoWorld [] fl)) ''i''"
    by (simp add: indexFileOk_def goodIndex_def emptyIndex_def versionsOf_def textMap_def)
qed

theorem addVersionToIndex_correct_witness:
  "storeOk demoStore (fs (demoWorld [] [Pass, Fail 0])) \<and> indexFileOk demoStore (fs (demoWorld [] [Pass, Fail 0])) ''i'' \<and>
   (case run_state (addVersionToIndex demoStore ''i'' ''1.0.0'') (demoWorld [] [Pass, Fail 0]) of (r, w') \<Rightarrow>
      indexFileOk demoStore (fs w') ''i'' \<and>
      (r = Inr () \<longrightarrow> (\<exists>new. storedIndex demoStore (fs w') ''i'' = Some new \<and> set (versionsOf new) = {''1.0.0''})))"
proof -
  have v: "validVersion ''1.0.0''" by (simp add: validVersion_def semver_eval)
  show ?thesis
    using addVersionToIndex_correct [OF demo_index(1) demo_index(2,3) [of "[Pass, Fail 0]"] v]
      demo_index(2-4) [of "[Pass, Fail 0]"]
    by (auto split: prod.splits)
qed

text \<open>
  C28. Removing a version from an index: on success the index holds the other versions, in precedence
  order, and everything else it held; on failure the file is as it was; no other object changes.
\<close>

theorem removeVersionFromIndex_correct:
  assumes "storeKey s key" "storeOk s (fs w)" "indexFileOk s (fs w) key"
  shows "case run_state (removeVersionFromIndex s key version) w of (r, w') \<Rightarrow>
    storeOk s (fs w') \<and> indexFileOk s (fs w') key \<and>
    (\<forall>p. \<not> tempName p \<longrightarrow> p \<noteq> objPath s key \<or> r \<noteq> Inr () \<longrightarrow> objectAt (fs w') p = objectAt (fs w) p) \<and>
    (r = Inr () \<longrightarrow> (\<exists>old new. storedIndex s (fs w) key = Some old \<and> storedIndex s (fs w') key = Some new \<and>
       versionsOf new = filter (\<lambda>v. v \<noteq> version) (versionsOf old) \<and> IMetadata new = IMetadata old))"
proof -
  obtain r w' where run: "run_state (removeVersionFromIndex s key version) w = (r, w')" by (rule prod.exhaust)
  have step: "indexAt (case removeStep version idx of None \<Rightarrow> objectAt (fs w) (objPath s key) | Some d \<Rightarrow> Some d) =
      Some (removedFrom version idx)" if "indexAt (objectAt (fs w) (objPath s key)) = Some idx" for idx
    using that assms(3) by (intro remove_step) (simp add: indexFileOk_def storedIndex_def)
  note post = tripleD [OF index_update [where step = "removeStep version" and g = "removedFrom version", OF assms(1,2) step,
      folded removeVersionFromIndex_rmw] refl run, folded storedIndex_def]
  have good: "goodIndex (removedFrom version idx) \<and>
       versionsOf (removedFrom version idx) = filter (\<lambda>v. v \<noteq> version) (versionsOf idx) \<and>
       IMetadata (removedFrom version idx) = IMetadata idx"
    if i: "storedIndex s (fs w) key = Some idx" for idx
  proof -
    let ?vs = "filter (\<lambda>v. v \<noteq> version) (versionsOf idx)"
    have g: "goodIndex idx" using assms(3) i by (simp add: indexFileOk_def)
    have v: "list_all validVersion ?vs" using g by (simp add: goodIndex_def list_all_iff)
    have "sorted (map semverKey ?vs)" using storedIndex_sorted [OF i g] by (rule sorted_filter)
    then have "sortSemanticVersions ?vs = ?vs"
      using v sort_key_sorted sortSemanticVersions_sort_key by (simp add: list_all_iff)
    then show ?thesis using g v by (auto simp: removedFrom_def goodIndex_def)
  qed
  have "indexFileOk s (fs w') key"
  proof (cases "r = Inr ()")
    case True
    then show ?thesis using post good by (auto simp: indexFileOk_def)
  next
    case False
    then show ?thesis using post assms(1,3) by (auto simp: indexFileOk_def storedIndex_def storeKey_def)
  qed
  then show ?thesis using run post good by (auto simp: storedIndex_def)
qed

theorem removeVersionFromIndex_correct_witness:
  "storeOk demoStore (fs (demoWorld [] [])) \<and> indexFileOk demoStore (fs (demoWorld [] [])) ''i'' \<and>
   (case run_state (removeVersionFromIndex demoStore ''i'' ''1.0.0'') (demoWorld [] []) of (r, w') \<Rightarrow>
      (r = Inr () \<longrightarrow> (\<exists>new. storedIndex demoStore (fs w') ''i'' = Some new \<and> versionsOf new = [])))"
  using removeVersionFromIndex_correct [OF demo_index(1) demo_index(2,3) [of "[]"], where version = "''1.0.0''"]
    demo_index(2-4) [of "[]"]
  by (auto split: prod.splits)



end
