(* ===== verification/Signing.thy ===== *)
theory Signing
  imports Http Indexes
begin

text \<open>
  \<^verbatim>\<open>registry-server/signing.go\<close>: the checksum files of provider versions and their signatures.  OpenPGP
  (\<^verbatim>\<open>github.com/ProtonMail/go-crypto\<close>) is not part of the repository: the signer is a record with the
  signing function as a field, which may depend on the time and on randomness.
\<close>

section \<open>The signer\<close>

record RegistrySigner =
  entity :: "world \<Rightarrow> bytes \<Rightarrow> bytes result"
  KeyID :: string
  PublicArmor :: string

definition Sign :: "RegistrySigner \<Rightarrow> bytes \<Rightarrow> bytes result io" where
  "Sign sg data = State (\<lambda>w. (entity sg w data, w))"

text \<open>
  \<^verbatim>\<open>NewRegistrySigner\<close>, over what it uses of the OpenPGP library: reading an armored private key, generating
  one with its armored text, and the armored public key and the key id of an entity.
\<close>

record 'e openpgp =
  readPrivateKey :: "bytes \<Rightarrow> 'e result"
  newEntity :: "world \<Rightarrow> 'e result"
  armorPrivate :: "'e \<Rightarrow> bytes result"
  armorPublic :: "'e \<Rightarrow> string result"
  keyIdString :: "'e \<Rightarrow> string"
  detachSign :: "'e \<Rightarrow> world \<Rightarrow> bytes \<Rightarrow> bytes result"

definition toUpper :: "string \<Rightarrow> string" where
  "toUpper s = map (\<lambda>c. if isLower c then char_of (of_char c - 32 :: nat) else c) s"

text \<open>Writing through a temporary file in the same directory, with the deferred removal.\<close>

definition writeThroughTemp :: "path \<Rightarrow> string \<Rightarrow> string \<Rightarrow> bytes \<Rightarrow> unit result io" where
  "writeThroughTemp path prfx sufx data =
     bindR (osMkdirAll (butlast path)) (\<lambda>_.
     bindR (osCreateTemp (butlast path) prfx sufx) (\<lambda>(f, tmpName).
     finally_do
       (bindR (onErr (osChmod f) (ignore (osClose f))) (\<lambda>_.
        bindR (onErr (osWrite f data) (ignore (osClose f))) (\<lambda>_.
        bindR (onErr (osSync f) (ignore (osClose f))) (\<lambda>_.
        bindR (osClose f) (\<lambda>_.
        osRename tmpName path)))))
       (ignore (osRemove tmpName))))"

definition loadEntity :: "'e openpgp \<Rightarrow> path \<Rightarrow> 'e result io" where
  "loadEntity pgp path =
     do { r \<leftarrow> osReadFile path;
          case r of
            Inr data \<Rightarrow> State_Monad.return (readPrivateKey pgp data)
          | Inl err \<Rightarrow>
              if \<not> isNotExist err then State_Monad.return (Inl (Wrapf ''read signing key: %w'' [] err))
              else
                bindR (wrapErr ''generate signing key: %w'' [] (State (\<lambda>w. (newEntity pgp w, w)))) (\<lambda>e.
                bindR (State_Monad.return (armorPrivate pgp e)) (\<lambda>private.
                bindR (writeThroughTemp path ''.signing-key-'' [] private) (\<lambda>_.
                State_Monad.return (Inr e)))) }"

definition NewRegistrySigner :: "'e openpgp \<Rightarrow> path \<Rightarrow> RegistrySigner result io" where
  "NewRegistrySigner pgp path =
     bindR (loadEntity pgp path) (\<lambda>e.
     bindR (State_Monad.return (armorPublic pgp e)) (\<lambda>public.
     State_Monad.return (Inr
       \<lparr>entity = detachSign pgp e, KeyID = toUpper (keyIdString pgp e), PublicArmor = public\<rparr>)))"

section \<open>Checksums of a provider version\<close>

definition providerChecksumsNames :: "string \<Rightarrow> string \<Rightarrow> string \<times> string" where
  "providerChecksumsNames name version =
     (let base = ''terraform-provider-'' @ name @ ''_'' @ version @ ''_SHA256SUMS'' in (base, base @ ''.sig''))"

text \<open>The artifacts that exist, in the order of the platforms.\<close>

fun publishedPlatforms :: "Store \<Rightarrow> string \<Rightarrow> PlatformMeta list \<Rightarrow> PlatformMeta list io" where
  "publishedPlatforms s prfx [] = State_Monad.return []"
| "publishedPlatforms s prfx (pm # pms) =
     do { ex \<leftarrow> Exists s (prfx @ Filename pm);
          rest \<leftarrow> publishedPlatforms s prfx pms;
          State_Monad.return (if ex then pm # rest else rest) }"

definition checksumLine :: "string \<times> string \<Rightarrow> string" where
  "checksumLine e = (case e of (filename, checksum) \<Rightarrow> checksum @ ''  '' @ filename @ [CHR 0x0A])"

text \<open>\<^verbatim>\<open>sort.Slice\<close> leaves the order of lines with the same file name open; the model keeps the one of the platforms.\<close>

definition checksumsText :: "PlatformMeta list \<Rightarrow> bytes" where
  "checksumsText pms =
     concat (map checksumLine (sort_key fst (map (\<lambda>pm. (Filename pm, Shasum pm)) pms)))"

definition rebuildProviderChecksums ::
  "Store \<Rightarrow> RegistrySigner option \<Rightarrow> string \<Rightarrow> string \<Rightarrow> string \<Rightarrow> unit result io" where
  "rebuildProviderChecksums s signer namespace name version =
     (case signer of
        None \<Rightarrow> State_Monad.return (Inl (Errorf ''registry signer is unavailable'' []))
      | Some sg \<Rightarrow>
          bindR (GetProviderPlatforms s namespace name version) (\<lambda>platforms.
          do { entries \<leftarrow> publishedPlatforms s (providerVersionPrefix namespace name version) platforms;
               if entries = [] then
                 State_Monad.return (Inl (Errorf ''provider version has no published artifacts'' []))
               else
                 bindR (Sign sg (checksumsText entries)) (\<lambda>signature.
                 case providerChecksumsNames name version of (checksumsName, signatureName) \<Rightarrow>
                   bindR (Put s (providerVersionPrefix namespace name version @ checksumsName)
                            (checksumsText entries)) (\<lambda>_.
                   Put s (providerVersionPrefix namespace name version @ signatureName) signature)) }))"

text \<open>The loops of \<^verbatim>\<open>rebuildAllProviderChecksums\<close>; each returns the failures it collects.\<close>

fun rebuildVersions ::
  "(error \<Rightarrow> string) \<Rightarrow> Store \<Rightarrow> RegistrySigner option \<Rightarrow> string \<Rightarrow> string \<Rightarrow> string list \<Rightarrow> string list io" where
  "rebuildVersions osText s signer namespace name [] = State_Monad.return []"
| "rebuildVersions osText s signer namespace name (version # versions) =
     do { r \<leftarrow> rebuildProviderChecksums s signer namespace name version;
          rest \<leftarrow> rebuildVersions osText s signer namespace name versions;
          State_Monad.return
            (case r of
               Inr _ \<Rightarrow> rest
             | Inl err \<Rightarrow> (namespace @ ''/'' @ name @ ''@'' @ version @ '': '' @ errorString osText err) # rest) }"

fun rebuildProviders ::
  "(error \<Rightarrow> string) \<Rightarrow> Store \<Rightarrow> RegistrySigner option \<Rightarrow> string \<Rightarrow> string \<Rightarrow> string list \<Rightarrow> string list io" where
  "rebuildProviders osText s signer namespace namespacePrefix [] = State_Monad.return []"
| "rebuildProviders osText s signer namespace namespacePrefix (providerPrefix # later) =
     (let name = trimSuffix (trimPrefix providerPrefix namespacePrefix) ''/'' in
          do { vs \<leftarrow> ScanProviderVersions s namespace name;
               here \<leftarrow> (case vs of
                         Inl err \<Rightarrow> State_Monad.return [errorString osText err]
                       | Inr versions \<Rightarrow> rebuildVersions osText s signer namespace name versions);
               rest \<leftarrow> rebuildProviders osText s signer namespace namespacePrefix later;
               State_Monad.return (here @ rest) })"

fun rebuildNamespaces ::
  "(error \<Rightarrow> string) \<Rightarrow> Store \<Rightarrow> RegistrySigner option \<Rightarrow> string list \<Rightarrow> string list io" where
  "rebuildNamespaces osText s signer [] = State_Monad.return []"
| "rebuildNamespaces osText s signer (namespacePrefix # later) =
     (let namespace = trimSuffix (trimPrefix namespacePrefix ''providers/'') ''/'' in
          do { l \<leftarrow> List s namespacePrefix ''/'';
               here \<leftarrow> (case l of
                         Inl err \<Rightarrow> State_Monad.return [errorString osText err]
                       | Inr (_, providerPrefixes) \<Rightarrow>
                           rebuildProviders osText s signer namespace namespacePrefix providerPrefixes);
               rest \<leftarrow> rebuildNamespaces osText s signer later;
               State_Monad.return (here @ rest) })"

definition rebuildAllProviderChecksums ::
  "(error \<Rightarrow> string) \<Rightarrow> Store \<Rightarrow> RegistrySigner option \<Rightarrow> unit result io" where
  "rebuildAllProviderChecksums osText s signer =
     bindR (List s ''providers/'' ''/'') (\<lambda>(_, namespacePrefixes).
     do { failures \<leftarrow> rebuildNamespaces osText s signer namespacePrefixes;
          State_Monad.return
            (if failures = [] then Inr ()
             else Inl (Errorf ''checksum rebuild failures: %s'' [joinWith ''; '' failures])) })"

end
