(* ===== verification/Protocol.thy ===== *)
theory Protocol
  imports Signing Validation
begin

text \<open>
  The Terraform protocol handlers of \<^verbatim>\<open>registry-server/main.go\<close>: service discovery, provider versions and
  packages, the network mirror, module versions and packages, artifact downloads and the health check.
  Logging is left out.
\<close>

section \<open>Response types\<close>

record WellKnown =
  ProvidersV1 :: string
  ModulesV1 :: string

record ProviderVersion =
  PVVersion :: string
  PVProtocols :: "string list option"
  PVPlatforms :: "PlatformMeta list option"

record GPGPublicKey =
  GKeyID :: string
  ASCIIArmor :: string

record SigningKeys =
  GPGPublicKeys :: "GPGPublicKey list option"

record ProviderDownloadResponse =
  DProtocols :: "string list option"
  DOS :: string
  DArch :: string
  DFilename :: string
  DDownloadURL :: string
  DShasumsURL :: string
  DShasumsSignatureURL :: string
  DShasum :: string
  DSigningKeys :: SigningKeys

record ModuleVersion =
  MVersion :: string

record ModuleVersionsEntry =
  Source :: string
  MVersions :: "ModuleVersion list option"

definition encodeWellKnown :: "WellKnown \<Rightarrow> json" where
  "encodeWellKnown w = JObj [(''providers.v1'', JStr (ProvidersV1 w)), (''modules.v1'', JStr (ModulesV1 w))]"

definition encodeProviderVersion :: "ProviderVersion \<Rightarrow> json" where
  "encodeProviderVersion v =
     JObj [(''version'', JStr (PVVersion v)), (''protocols'', encodeSlice JStr (PVProtocols v)),
           (''platforms'', encodeSlice encodePlatformMeta (PVPlatforms v))]"

definition encodeProviderVersionsResponse :: "ProviderVersion list option \<Rightarrow> json" where
  "encodeProviderVersionsResponse vs = JObj [(''versions'', encodeSlice encodeProviderVersion vs)]"

definition encodeGPGPublicKey :: "GPGPublicKey \<Rightarrow> json" where
  "encodeGPGPublicKey k =
     JObj ((''key_id'', JStr (GKeyID k)) # optional (ASCIIArmor k = []) ''ascii_armor'' (JStr (ASCIIArmor k)))"

definition encodeSigningKeys :: "SigningKeys \<Rightarrow> json" where
  "encodeSigningKeys k = JObj [(''gpg_public_keys'', encodeSlice encodeGPGPublicKey (GPGPublicKeys k))]"

definition encodeProviderDownloadResponse :: "ProviderDownloadResponse \<Rightarrow> json" where
  "encodeProviderDownloadResponse d =
     JObj ([(''protocols'', encodeSlice JStr (DProtocols d)), (''os'', JStr (DOS d)), (''arch'', JStr (DArch d)),
            (''filename'', JStr (DFilename d)), (''download_url'', JStr (DDownloadURL d))] @
           optional (DShasumsURL d = []) ''shasums_url'' (JStr (DShasumsURL d)) @
           optional (DShasumsSignatureURL d = []) ''shasums_signature_url'' (JStr (DShasumsSignatureURL d)) @
           [(''shasum'', JStr (DShasum d)), (''signing_keys'', encodeSigningKeys (DSigningKeys d))])"

definition encodeModuleVersion :: "ModuleVersion \<Rightarrow> json" where
  "encodeModuleVersion v = JObj [(''version'', JStr (MVersion v))]"

definition encodeModuleVersionsEntry :: "ModuleVersionsEntry \<Rightarrow> json" where
  "encodeModuleVersionsEntry e =
     JObj [(''source'', JStr (Source e)), (''versions'', encodeSlice encodeModuleVersion (MVersions e))]"

definition encodeModuleVersionsResponse :: "ModuleVersionsEntry list option \<Rightarrow> json" where
  "encodeModuleVersionsResponse es = JObj [(''modules'', encodeSlice encodeModuleVersionsEntry es)]"

section \<open>Shared steps\<close>

text \<open>\<^verbatim>\<open>meta, err := store.GetVersionMetadata(key); err == nil && meta.Deprecated\<close>\<close>

definition isDeprecated :: "Store \<Rightarrow> string \<Rightarrow> bool io" where
  "isDeprecated s key =
     do { r \<leftarrow> GetVersionMetadata s key;
          State_Monad.return (case r of Inl _ \<Rightarrow> False | Inr meta \<Rightarrow> Deprecated meta) }"

text \<open>A list whose error the code drops, where Go's nil slice is the empty list.\<close>

definition orEmpty :: "'a list result io \<Rightarrow> 'a list io" where
  "orEmpty m = do { r \<leftarrow> m; State_Monad.return (case r of Inl _ \<Rightarrow> [] | Inr xs \<Rightarrow> xs) }"

definition versionMetadataKey :: "string \<Rightarrow> string \<Rightarrow> string \<Rightarrow> string" where
  "versionMetadataKey namespace name version = providerVersionPrefix namespace name version @ ''metadata.json''"

definition moduleMetadataKey :: "string \<Rightarrow> string \<Rightarrow> string \<Rightarrow> string \<Rightarrow> string" where
  "moduleMetadataKey namespace name provider version =
     moduleVersionPrefix namespace name provider version @ ''/metadata.json''"

definition platformMetaKey :: "string \<Rightarrow> string \<Rightarrow> string \<Rightarrow> string \<Rightarrow> string \<Rightarrow> string" where
  "platformMetaKey namespace name version osName arch =
     providerVersionPrefix namespace name version @ osName @ ''_'' @ arch @ ''.json''"

definition moduleArtifactKey :: "Store \<Rightarrow> string \<Rightarrow> string \<Rightarrow> string \<Rightarrow> string \<Rightarrow> string result io" where
  "moduleArtifactKey s namespace name provider version =
     (let prfx = moduleVersionPrefix namespace name provider version in
      do { r \<leftarrow> Get s (prfx @ ''/artifact.json'');
           case r of
             Inr data \<Rightarrow>
               (case unmarshalInto decodeModuleArtifactMeta zeroModuleArtifactMeta data of (meta, err) \<Rightarrow>
                  if err \<noteq> None \<or> \<not> matchString moduleFileRE (MFilename meta) then
                    State_Monad.return (Inl (Errorf ''invalid module artifact metadata'' []))
                  else
                    do { ex \<leftarrow> Exists s (prfx @ ''/'' @ MFilename meta);
                         State_Monad.return
                           (if \<not> ex then Inl ErrNotExist else Inr (prfx @ ''/'' @ MFilename meta)) })
           | Inl _ \<Rightarrow>
               do { ex \<leftarrow> Exists s (prfx @ ''/module.tar.gz'');
                    State_Monad.return (if ex then Inr (prfx @ ''/module.tar.gz'') else Inl ErrNotExist) } })"

section \<open>Discovery and providers\<close>

definition wellKnownHandler :: "request \<Rightarrow> response io" where
  "wellKnownHandler r =
     State_Monad.return (protocolResponse (encodeWellKnown
       \<lparr>ProvidersV1 = ''/v1/providers/'', ModulesV1 = ''/v1/modules/''\<rparr>))"

text \<open>The loop of \<^verbatim>\<open>providerVersionsHandler\<close>: deprecated versions and versions without artifacts are left out.\<close>

fun availableVersions :: "Store \<Rightarrow> string \<Rightarrow> string \<Rightarrow> string list \<Rightarrow> ProviderVersion list io" where
  "availableVersions s namespace name [] = State_Monad.return []"
| "availableVersions s namespace name (v # vs) =
     do { dep \<leftarrow> isDeprecated s (versionMetadataKey namespace name v);
          if dep then availableVersions s namespace name vs
          else do { platforms \<leftarrow> orEmpty (GetProviderPlatforms s namespace name v);
                    published \<leftarrow> publishedPlatforms s (providerVersionPrefix namespace name v) platforms;
                    rest \<leftarrow> availableVersions s namespace name vs;
                    State_Monad.return
                      (if published = [] then rest
                       else \<lparr>PVVersion = v, PVProtocols = Some [''5.0''], PVPlatforms = Some published\<rparr> # rest) } }"

definition providerVersionsHandler :: "Store \<Rightarrow> request \<Rightarrow> response io" where
  "providerVersionsHandler s r =
     (let namespace = var r ''namespace''; providerType = var r ''type'' in
      do { tick ProviderDownloads_update;
           i \<leftarrow> GetProviderIndex s namespace providerType;
           case i of
             Inl _ \<Rightarrow> State_Monad.return (httpError [] (errorText ''provider not found'') 404)
           | Inr idx \<Rightarrow>
               do { versions \<leftarrow> availableVersions s namespace providerType (versionsOf idx);
                    State_Monad.return
                      (if versions = [] then
                         httpError (SetTerraformProtocolHeaders []) (errorText ''provider not found'') 404
                       else protocolResponse (encodeProviderVersionsResponse (Some versions))) } })"

text \<open>The URL fields of the answer; \<^verbatim>\<open>signer == nil\<close> is \<open>None\<close>, and the checks stop at the first that fails.\<close>

definition integrityAvailable :: "Store \<Rightarrow> RegistrySigner option \<Rightarrow> string \<Rightarrow> string \<Rightarrow> bool io" where
  "integrityAvailable s signer checksumsKey signatureKey =
     (case signer of
        None \<Rightarrow> State_Monad.return False
      | Some _ \<Rightarrow> do { a \<leftarrow> Exists s checksumsKey;
                      if \<not> a then State_Monad.return False else Exists s signatureKey })"

definition downloadResponse ::
  "Store \<Rightarrow> RegistrySigner \<Rightarrow> string \<Rightarrow> string \<Rightarrow> string \<Rightarrow> string \<Rightarrow> string \<Rightarrow> PlatformMeta \<Rightarrow> ProviderDownloadResponse" where
  "downloadResponse s sg prfx name version osName arch meta =
     (case providerChecksumsNames name version of (checksumsName, signatureName) \<Rightarrow>
        \<lparr>DProtocols = Some [''5.0''], DOS = osName, DArch = arch, DFilename = Filename meta,
         DDownloadURL = DownloadURL s (prfx @ Filename meta),
         DShasumsURL = DownloadURL s (prfx @ checksumsName),
         DShasumsSignatureURL = DownloadURL s (prfx @ signatureName),
         DShasum = Shasum meta,
         DSigningKeys = \<lparr>GPGPublicKeys = Some [\<lparr>GKeyID = KeyID sg, ASCIIArmor = PublicArmor sg\<rparr>]\<rparr>\<rparr>)"

definition providerDownloadHandler :: "Store \<Rightarrow> RegistrySigner option \<Rightarrow> request \<Rightarrow> response io" where
  "providerDownloadHandler s signer r =
     (let namespace = var r ''namespace''; providerType = var r ''type''; version = var r ''version'';
          osName = var r ''os''; arch = var r ''arch'';
          prfx = providerVersionPrefix namespace providerType version in
      do { tick ProviderDownloads_update;
           m \<leftarrow> Get s (platformMetaKey namespace providerType version osName arch);
           case m of
             Inl _ \<Rightarrow> State_Monad.return (httpError [] (errorText ''platform not found'') 404)
           | Inr metaData \<Rightarrow>
               (case unmarshalInto decodePlatformMeta zeroPlatformMeta metaData of (meta, err) \<Rightarrow>
                  if err \<noteq> None then State_Monad.return (httpError [] (errorText ''invalid metadata'') 500)
                  else
                    do { ex \<leftarrow> Exists s (prfx @ Filename meta);
                         if \<not> ex then State_Monad.return (httpError [] (errorText ''artifact not found'') 404)
                         else
                           (case providerChecksumsNames providerType version of (checksumsName, signatureName) \<Rightarrow>
                              do { ok \<leftarrow> integrityAvailable s signer (prfx @ checksumsName) (prfx @ signatureName);
                                   State_Monad.return
                                     (case signer of
                                        Some sg \<Rightarrow>
                                          if ok then protocolResponse (encodeProviderDownloadResponse
                                            (downloadResponse s sg prfx providerType version osName arch meta))
                                          else httpError [] (errorText ''provider integrity metadata unavailable'') 500
                                      | None \<Rightarrow>
                                          httpError [] (errorText ''provider integrity metadata unavailable'') 500) }) }) })"

section \<open>The network mirror\<close>

text \<open>The loop over the platforms of a version that stops at the first published one.\<close>

fun anyPublished :: "Store \<Rightarrow> string \<Rightarrow> PlatformMeta list \<Rightarrow> bool io" where
  "anyPublished s prfx [] = State_Monad.return False"
| "anyPublished s prfx (pm # pms) =
     do { ex \<leftarrow> Exists s (prfx @ Filename pm);
          if ex then State_Monad.return True else anyPublished s prfx pms }"

fun mirrorVersions :: "Store \<Rightarrow> string \<Rightarrow> string \<Rightarrow> string list \<Rightarrow> (string \<times> json) list \<Rightarrow> (string \<times> json) list io" where
  "mirrorVersions s namespace name [] versionMap = State_Monad.return versionMap"
| "mirrorVersions s namespace name (v # vs) versionMap =
     do { dep \<leftarrow> isDeprecated s (versionMetadataKey namespace name v);
          if dep then mirrorVersions s namespace name vs versionMap
          else do { platforms \<leftarrow> orEmpty (GetProviderPlatforms s namespace name v);
                    ok \<leftarrow> anyPublished s (providerVersionPrefix namespace name v) platforms;
                    mirrorVersions s namespace name vs
                      (if ok then insertKey v (JObj []) versionMap else versionMap) } }"

definition networkMirrorIndexHandler :: "Store \<Rightarrow> request \<Rightarrow> response io" where
  "networkMirrorIndexHandler s r =
     (let namespace = var r ''namespace''; providerType = var r ''type'' in
      do { i \<leftarrow> GetProviderIndex s namespace providerType;
           case i of
             Inl _ \<Rightarrow> State_Monad.return (httpError [] (errorText ''provider not found'') 404)
           | Inr idx \<Rightarrow>
               do { versionMap \<leftarrow> mirrorVersions s namespace providerType (versionsOf idx) [];
                    State_Monad.return
                      (if versionMap = [] then httpError [] (errorText ''provider not found'') 404
                       else protocolResponse (JObj [(''versions'', JObj versionMap)])) } })"

definition indexHasVersion :: "Index \<Rightarrow> string \<Rightarrow> bool" where
  "indexHasVersion idx version \<longleftrightarrow> version \<in> set (versionsOf idx)"

definition archiveEntry :: "Store \<Rightarrow> string \<Rightarrow> PlatformMeta \<Rightarrow> json" where
  "archiveEntry s zipKey meta =
     JObj [(''hashes'', JArr [JStr (''zh:'' @ Shasum meta)]), (''url'', JStr (DownloadURL s zipKey))]"

fun mirrorArchives ::
  "Store \<Rightarrow> string \<Rightarrow> string \<Rightarrow> string \<Rightarrow> PlatformMeta list \<Rightarrow> (string \<times> json) list \<Rightarrow> (string \<times> json) list io" where
  "mirrorArchives s namespace name version [] archives = State_Monad.return archives"
| "mirrorArchives s namespace name version (p # ps) archives =
     do { r \<leftarrow> Get s (platformMetaKey namespace name version (OS p) (Arch p));
          case r of
            Inl _ \<Rightarrow> mirrorArchives s namespace name version ps archives
          | Inr metaData \<Rightarrow>
              (case unmarshalInto decodePlatformMeta zeroPlatformMeta metaData of (meta, err) \<Rightarrow>
                 if err \<noteq> None then mirrorArchives s namespace name version ps archives
                 else
                   do { let zipKey = providerVersionPrefix namespace name version @ Filename meta;
                        ex \<leftarrow> Exists s zipKey;
                        if \<not> ex then mirrorArchives s namespace name version ps archives
                        else mirrorArchives s namespace name version ps
                               (insertKey (OS p @ ''_'' @ Arch p) (archiveEntry s zipKey meta) archives) }) }"

definition networkMirrorVersionHandler :: "Store \<Rightarrow> request \<Rightarrow> response io" where
  "networkMirrorVersionHandler s r =
     (let namespace = var r ''namespace''; providerType = var r ''type''; version = var r ''version'';
          notFound = httpError [] (errorText ''version not found'') 404 in
      do { i \<leftarrow> GetProviderIndex s namespace providerType;
           if (case i of Inl _ \<Rightarrow> True | Inr idx \<Rightarrow> \<not> indexHasVersion idx version) then State_Monad.return notFound
           else
             do { dep \<leftarrow> isDeprecated s (versionMetadataKey namespace providerType version);
                  if dep then State_Monad.return notFound
                  else
                    do { ps \<leftarrow> GetProviderPlatforms s namespace providerType version;
                         case ps of
                           Inl _ \<Rightarrow> State_Monad.return notFound
                         | Inr platforms \<Rightarrow>
                             do { archives \<leftarrow> mirrorArchives s namespace providerType version platforms [];
                                  State_Monad.return
                                    (if archives = [] then notFound
                                     else protocolResponse (JObj [(''archives'', JObj archives)])) } } } })"

section \<open>Modules\<close>

fun availableModules :: "Store \<Rightarrow> string \<Rightarrow> string \<Rightarrow> string \<Rightarrow> string list \<Rightarrow> ModuleVersion list io" where
  "availableModules s namespace name provider [] = State_Monad.return []"
| "availableModules s namespace name provider (v # vs) =
     do { dep \<leftarrow> isDeprecated s (moduleMetadataKey namespace name provider v);
          if dep then availableModules s namespace name provider vs
          else do { k \<leftarrow> moduleArtifactKey s namespace name provider v;
                    rest \<leftarrow> availableModules s namespace name provider vs;
                    State_Monad.return (case k of Inl _ \<Rightarrow> rest | Inr _ \<Rightarrow> \<lparr>MVersion = v\<rparr> # rest) } }"

definition moduleVersionsHandler :: "Store \<Rightarrow> request \<Rightarrow> response io" where
  "moduleVersionsHandler s r =
     (let namespace = var r ''namespace''; name = var r ''name''; provider = var r ''provider'' in
      do { i \<leftarrow> GetModuleIndex s namespace name provider;
           case i of
             Inl _ \<Rightarrow> State_Monad.return (httpError [] (errorText ''module not found'') 404)
           | Inr idx \<Rightarrow>
               do { modules \<leftarrow> availableModules s namespace name provider (versionsOf idx);
                    State_Monad.return
                      (if modules = [] then
                         httpError (SetTerraformProtocolHeaders []) (errorText ''module not found'') 404
                       else protocolResponse (encodeModuleVersionsResponse (Some
                              [\<lparr>Source = namespace @ ''/'' @ name @ ''/'' @ provider, MVersions = Some modules\<rparr>]))) } })"

definition noContent :: "(string \<times> string) list \<Rightarrow> response" where
  "noContent hs = \<lparr>status = 204, respHeader = hs, respBody = Sent []\<rparr>"

definition moduleDownloadHandler :: "Store \<Rightarrow> request \<Rightarrow> response io" where
  "moduleDownloadHandler s r =
     (let namespace = var r ''namespace''; name = var r ''name''; provider = var r ''provider'';
          version = var r ''version'' in
      do { tick ModuleDownloads_update;
           k \<leftarrow> moduleArtifactKey s namespace name provider version;
           State_Monad.return
             (case k of
                Inl _ \<Rightarrow> httpError [] (errorText ''module not found'') 404
              | Inr key \<Rightarrow> noContent [(''X-Terraform-Get'', DownloadURL s key), (''Content-Type'', ''application/json'')]) })"

text \<open>The loop of \<^verbatim>\<open>moduleLatestDownloadHandler\<close>, over the versions from the last to the first.\<close>

fun latestModule :: "Store \<Rightarrow> string \<Rightarrow> string \<Rightarrow> string \<Rightarrow> string list \<Rightarrow> (string \<times> string) option io" where
  "latestModule s namespace name provider [] = State_Monad.return None"
| "latestModule s namespace name provider (candidate # candidates) =
     do { dep \<leftarrow> isDeprecated s (moduleMetadataKey namespace name provider candidate);
          if dep then latestModule s namespace name provider candidates
          else do { k \<leftarrow> moduleArtifactKey s namespace name provider candidate;
                    case k of
                      Inl _ \<Rightarrow> latestModule s namespace name provider candidates
                    | Inr downloadKey \<Rightarrow> State_Monad.return (Some (candidate, downloadKey)) } }"

definition moduleLatestDownloadHandler :: "Store \<Rightarrow> request \<Rightarrow> response io" where
  "moduleLatestDownloadHandler s r =
     (let namespace = var r ''namespace''; name = var r ''name''; provider = var r ''provider'';
          none = httpError [] (errorText ''no versions available'') 404 in
      do { i \<leftarrow> GetModuleIndex s namespace name provider;
           case i of
             Inl _ \<Rightarrow> State_Monad.return none
           | Inr idx \<Rightarrow>
               if versionsOf idx = [] then State_Monad.return none
               else do { found \<leftarrow> latestModule s namespace name provider (rev (versionsOf idx));
                         State_Monad.return
                           (case found of
                              None \<Rightarrow> none
                            | Some (latestVersion, latestKey) \<Rightarrow>
                                if latestVersion = [] then none
                                else noContent [(''X-Terraform-Get'', DownloadURL s latestKey)]) } })"

section \<open>Downloads and health\<close>

definition contentType :: "string \<Rightarrow> string" where
  "contentType path =
     (if hasSuffix path ''.tar.gz'' then ''application/gzip''
      else if hasSuffix path ''.zip'' then ''application/zip''
      else ''application/octet-stream'')"

definition fileDownloadHandler :: "Store \<Rightarrow> request \<Rightarrow> response io" where
  "fileDownloadHandler s r =
     (let path = var r ''path'' in
      if \<not> isPublicArtifactPath path then State_Monad.return (httpError [] ''forbidden'' 403)
      else
        do { opened \<leftarrow> Open s path;
             case opened of
               Inl _ \<Rightarrow> State_Monad.return (httpError [] ''not found'' 404)
             | Inr f \<Rightarrow>
                 finally_do
                   (do { st \<leftarrow> osFstat f;
                         State_Monad.return
                           (case st of
                              Inl _ \<Rightarrow> httpError [] ''not found'' 404
                            | Inr n \<Rightarrow>
                                \<lparr>status = 200,
                                 respHeader = [(''Content-Type'', contentType path),
                                   (''Content-Disposition'', ''attachment; filename='' @ quoteASCII (pathBase path))],
                                 respBody = ServeContent (pathBase path) (modTime (nodeInfo n)) n\<rparr>) })
                   (ignore (osClose f)) })"

definition healthHandler :: "(error \<Rightarrow> string) \<Rightarrow> Store \<Rightarrow> request \<Rightarrow> response io" where
  "healthHandler osText s r =
     do { h \<leftarrow> HealthCheck s;
          State_Monad.return
            (case h of
               Inl err \<Rightarrow> httpError [] (''unhealthy: '' @ errorString osText err) 503
             | Inr _ \<Rightarrow>
                 \<lparr>status = 200, respHeader = [],
                  respBody = Sent (CHR ''{'' # quoteASCII ''status'' @ '':'' @ quoteASCII ''healthy'' @ ''}'')\<rparr>) }"

end
