(* ===== verification/Management.thy ===== *)
theory Management
  imports Protocol
begin

text \<open>
  The management API of \<^verbatim>\<open>registry-server/api.go\<close>: uploads, deletions and deprecations with their rollbacks,
  listings, statistics and garbage collection.  The handlers that change the store run under the mutex
  \<^verbatim>\<open>mutationMu\<close>, one at a time.  Logging and the read deadline of the connection are left out.
\<close>

section \<open>The package's variables and helpers\<close>

text \<open>
  The variables of the package that the handlers read, the archive decoders of the standard library as
  the validators see them, and the text of operating system errors.
\<close>

record Registry =
  store :: Store
  signer :: "RegistrySigner option"
  maxUploadSize :: "64 word"
  zipDecoder :: "bytes \<Rightarrow> zipEntry list result"
  tarDecoder :: "bytes \<Rightarrow> tarball"
  osText :: "error \<Rightarrow> string"

definition mutationMu :: string where
  "mutationMu = CHR 0x00 # ''mutationMu''"

text \<open>A handler that holds the mutex; the error is the lock that would never be granted.\<close>

definition serialized :: "response io \<Rightarrow> response result io" where
  "serialized m = withLock mutationMu (do { resp \<leftarrow> m; State_Monad.return (Inr resp) })"

text \<open>Loops over a slice: one that collects and one that threads variables.\<close>

primrec mapIO :: "('a \<Rightarrow> 'b io) \<Rightarrow> 'a list \<Rightarrow> 'b list io" where
  "mapIO f [] = State_Monad.return []"
| "mapIO f (x # xs) = do { y \<leftarrow> f x; ys \<leftarrow> mapIO f xs; State_Monad.return (y # ys) }"

primrec foldIO :: "('a \<Rightarrow> 's \<Rightarrow> 's io) \<Rightarrow> 'a list \<Rightarrow> 's \<Rightarrow> 's io" where
  "foldIO f [] s = State_Monad.return s"
| "foldIO f (x # xs) s = do { s' \<leftarrow> f x s; foldIO f xs s' }"

text \<open>\<^verbatim>\<open>_, prefixes, _ := store.List(prefix, "/")\<close>\<close>

definition listPrefixes :: "Store \<Rightarrow> string \<Rightarrow> string list io" where
  "listPrefixes s prfx =
     do { r \<leftarrow> List s prfx ''/''; State_Monad.return (case r of Inl _ \<Rightarrow> [] | Inr (_, ps) \<Rightarrow> ps) }"

definition lastName :: "string \<Rightarrow> string \<Rightarrow> string" where
  "lastName p parent = trimSuffix (trimPrefix (trimSuffix p ''/'') parent) ''/''"

section \<open>Statistics\<close>

record RegistryStats =
  Providers :: nat
  ProviderVersions :: nat
  Modules :: nat
  ModuleVersions :: nat

definition encodeRegistryStats :: "RegistryStats \<Rightarrow> json" where
  "encodeRegistryStats st =
     JObj [(''providers'', JNum (showNat (Providers st))), (''provider_versions'', JNum (showNat (ProviderVersions st))),
           (''modules'', JNum (showNat (Modules st))), (''module_versions'', JNum (showNat (ModuleVersions st)))]"

definition countProvider :: "Store \<Rightarrow> string \<Rightarrow> string \<Rightarrow> string \<Rightarrow> RegistryStats \<Rightarrow> RegistryStats io" where
  "countProvider s ns nsPrefix namePrefix st =
     do { versions \<leftarrow> orEmpty (ScanProviderVersions s ns (lastName namePrefix nsPrefix));
          State_Monad.return (st\<lparr>Providers := Providers st + 1,
                                 ProviderVersions := ProviderVersions st + length versions\<rparr>) }"

definition countModule :: "Store \<Rightarrow> string \<Rightarrow> string \<Rightarrow> string \<Rightarrow> string \<Rightarrow> RegistryStats \<Rightarrow> RegistryStats io" where
  "countModule s ns modName modPrefix provPrefix st =
     do { versions \<leftarrow> orEmpty (ScanModuleVersions s ns modName (lastName provPrefix modPrefix));
          State_Monad.return (st\<lparr>Modules := Modules st + 1, ModuleVersions := ModuleVersions st + length versions\<rparr>) }"

definition registryStats :: "Store \<Rightarrow> RegistryStats io" where
  "registryStats s =
     do { nsPrefixes \<leftarrow> listPrefixes s ''providers/'';
          st \<leftarrow> foldIO (\<lambda>nsPrefix st.
                  do { let ns = trimPrefix (trimSuffix nsPrefix ''/'') ''providers/'';
                       namePrefixes \<leftarrow> listPrefixes s nsPrefix;
                       foldIO (countProvider s ns nsPrefix) namePrefixes st })
                nsPrefixes \<lparr>Providers = 0, ProviderVersions = 0, Modules = 0, ModuleVersions = 0\<rparr>;
          moduleNSPrefixes \<leftarrow> listPrefixes s ''modules/'';
          foldIO (\<lambda>nsPrefix st.
                  do { let ns = trimPrefix (trimSuffix nsPrefix ''/'') ''modules/'';
                       namePrefixes \<leftarrow> listPrefixes s nsPrefix;
                       foldIO (\<lambda>namePrefix st.
                         do { let modName = lastName namePrefix nsPrefix;
                              let modPrefix = ''modules/'' @ ns @ ''/'' @ modName @ ''/'';
                              provPrefixes \<leftarrow> listPrefixes s modPrefix;
                              foldIO (countModule s ns modName modPrefix) provPrefixes st })
                       namePrefixes st })
                moduleNSPrefixes st }"

definition registryStatsHandler :: "Registry \<Rightarrow> request \<Rightarrow> response io" where
  "registryStatsHandler g r =
     do { st \<leftarrow> registryStats (store g); State_Monad.return (dataResponse (encodeRegistryStats st)) }"

section \<open>Providers: listing\<close>

record ProviderInfo =
  PNamespace :: string
  PName :: string
  PVersions :: "ProviderVersion list option"

text \<open>A slice that was only appended to is nil when nothing was.\<close>

definition nilIfEmpty :: "'a list \<Rightarrow> 'a list option" where
  "nilIfEmpty xs = (if xs = [] then None else Some xs)"

definition encodeProviderInfo :: "ProviderInfo \<Rightarrow> json" where
  "encodeProviderInfo p =
     JObj [(''namespace'', JStr (PNamespace p)), (''name'', JStr (PName p)),
           (''versions'', encodeSlice encodeProviderVersion (PVersions p))]"

definition describeVersion :: "Store \<Rightarrow> string \<Rightarrow> string \<Rightarrow> string \<Rightarrow> ProviderVersion io" where
  "describeVersion s ns name v =
     do { platforms \<leftarrow> orEmpty (GetProviderPlatforms s ns name v);
          State_Monad.return
            \<lparr>PVVersion = v, PVProtocols = Some [''5.0''], PVPlatforms = nilIfEmpty platforms\<rparr> }"

definition describeProvider :: "Store \<Rightarrow> string \<Rightarrow> string \<Rightarrow> ProviderInfo io" where
  "describeProvider s ns name =
     do { versions \<leftarrow> orEmpty (ScanProviderVersions s ns name);
          pVersions \<leftarrow> mapIO (describeVersion s ns name) versions;
          State_Monad.return \<lparr>PNamespace = ns, PName = name, PVersions = nilIfEmpty pVersions\<rparr> }"

definition listProvidersHandler :: "Registry \<Rightarrow> request \<Rightarrow> response io" where
  "listProvidersHandler g r =
     do { l \<leftarrow> List (store g) ''providers/'' ''/'';
          case l of
            Inl err \<Rightarrow> State_Monad.return (failed 500 (errorString (osText g) err))
          | Inr (_, nsPrefixes) \<Rightarrow>
              do { groups \<leftarrow> mapIO (\<lambda>nsPrefix.
                     do { let ns = trimPrefix (trimSuffix nsPrefix ''/'') ''providers/'';
                          namePrefixes \<leftarrow> listPrefixes (store g) nsPrefix;
                          mapIO (\<lambda>namePrefix. describeProvider (store g) ns (lastName namePrefix nsPrefix)) namePrefixes })
                     nsPrefixes;
                   State_Monad.return
                     (dataResponse (encodeSlice encodeProviderInfo (nilIfEmpty (concat groups)))) } }"

definition getProviderHandler :: "Registry \<Rightarrow> request \<Rightarrow> response io" where
  "getProviderHandler g r =
     (let namespace = var r ''namespace''; name = var r ''name'' in
      do { vs \<leftarrow> ScanProviderVersions (store g) namespace name;
           if (case vs of Inl _ \<Rightarrow> True | Inr versions \<Rightarrow> versions = []) then
             State_Monad.return (failed 404 ''Provider not found'')
           else
             do { pVersions \<leftarrow> mapIO (describeVersion (store g) namespace name) (case vs of Inl _ \<Rightarrow> [] | Inr versions \<Rightarrow> versions);
                  State_Monad.return (dataResponse (encodeProviderInfo
                    \<lparr>PNamespace = namespace, PName = name, PVersions = nilIfEmpty pVersions\<rparr>)) } })"

section \<open>Uploads\<close>

text \<open>\<^verbatim>\<open>ValidateUpload\<close> of \<^verbatim>\<open>middleware.go\<close>.\<close>

definition ValidateUpload :: "bytes \<Rightarrow> string \<Rightarrow> error option" where
  "ValidateUpload data expectedType =
     (if length data < 4 then Some (Errorf ''file too small to be a valid archive'' [])
      else if expectedType = ''zip'' then
        (if data ! 0 \<noteq> CHR ''P'' \<or> data ! 1 \<noteq> CHR ''K'' \<or> data ! 2 \<noteq> CHR 0x03 \<or> data ! 3 \<noteq> CHR 0x04
         then Some (Errorf ''not a valid ZIP file (missing PK magic bytes)'' []) else None)
      else if expectedType = ''tar.gz'' then
        (if data ! 0 \<noteq> CHR 0x1F \<or> data ! 1 \<noteq> CHR 0x8B
         then Some (Errorf ''not a valid GZIP file (missing gzip magic bytes)'' []) else None)
      else None)"

text \<open>
  \<^verbatim>\<open>http.MaxBytesReader\<close> around the body: a body longer than the limit ends in an error inside the part.
\<close>

definition limitBody :: "int \<Rightarrow> filePart \<Rightarrow> stream" where
  "limitBody limit part =
     (if int (headBytes part + length (sData (content part)) + tailBytes part) \<le> limit then content part
      else \<lparr>sData = take (nat limit - headBytes part) (sData (content part)), sErr = Some MaxBytesError\<rparr>)"

definition quoted :: "string \<Rightarrow> string" where
  "quoted s = CHR 0x27 # s @ [CHR 0x27]"

definition multipartUploadPart :: "int \<Rightarrow> request \<Rightarrow> stream result" where
  "multipartUploadPart limit r =
     (case multipartReader r of
        Some err \<Rightarrow> Inl (Wrapf ''invalid multipart request: %w'' [] err)
      | None \<Rightarrow>
          (case (case nextPart r of
                   Inl err \<Rightarrow> Inl err
                 | Inr part \<Rightarrow> if int (headBytes part) > limit then Inl MaxBytesError else Inr part) of
             Inl err \<Rightarrow> Inl (Wrapf (''missing '' @ quoted ''file'' @ '' field: %w'') [] err)
           | Inr part \<Rightarrow>
               if formName part \<noteq> ''file'' \<or> partFileName part = [] then
                 Inl (Errorf (''the first multipart part must be a file named '' @ quoted ''file'') [])
               else Inr (limitBody limit part)))"

text \<open>\<^verbatim>\<open>errors.As\<close> for \<^verbatim>\<open>*http.MaxBytesError\<close> and \<^verbatim>\<open>errors.Is\<close> for the store's sentinel.\<close>

definition isUploadTooLarge :: "error \<Rightarrow> bool" where
  "isUploadTooLarge err \<longleftrightarrow> errorsIs err MaxBytesError \<or> errorsIs err ErrUploadTooLarge"

definition writeUploadError :: "(error \<Rightarrow> string) \<Rightarrow> error \<Rightarrow> response" where
  "writeUploadError text err =
     (if isUploadTooLarge err then failed 413 ''Upload exceeds configured maximum size''
      else failed 400 (errorString text err))"

definition bodyLimit :: "Registry \<Rightarrow> int" where
  "bodyLimit g = sint (maxUploadSize g + push_bit 20 1)"

text \<open>The bytes that go through the \<^verbatim>\<open>TeeReader\<close> into the hash.\<close>

definition teed :: "Registry \<Rightarrow> stream \<Rightarrow> bytes" where
  "teed g file = fst (copyLimited file (limitPlusOne (maxUploadSize g)))"

definition invalidArchive :: "Registry \<Rightarrow> error option \<Rightarrow> error option" where
  "invalidArchive g r =
     (case r of None \<Rightarrow> None | Some err \<Rightarrow> Some (Wrapf ''%w: %v'' [errorString (osText g) err] ErrInvalidArchive))"

definition storeFailed :: "Registry \<Rightarrow> error \<Rightarrow> response" where
  "storeFailed g err =
     (if isUploadTooLarge err then failed 413 (errorString (osText g) err)
      else if errorsIs err ErrInvalidArchive then failed 400 (errorString (osText g) err)
      else failed 500 (''Store failed: '' @ errorString (osText g) err))"

text \<open>Undoing a write: the previous bytes if they could be read, otherwise no object.\<close>

definition restoreObject :: "Store \<Rightarrow> string \<Rightarrow> bytes result \<Rightarrow> unit io" where
  "restoreObject s key previous =
     (case previous of Inr data \<Rightarrow> ignore (Put s key data) | Inl _ \<Rightarrow> ignore (Delete s key))"

definition deleteUnless :: "Store \<Rightarrow> bool \<Rightarrow> string \<Rightarrow> unit io" where
  "deleteUnless s existed key = (if \<not> existed then ignore (Delete s key) else State_Monad.return ())"

definition providerArtifactName :: "string \<Rightarrow> string \<Rightarrow> string \<Rightarrow> string \<Rightarrow> string \<Rightarrow> string" where
  "providerArtifactName name version osName arch shasum =
     ''terraform-provider-'' @ name @ ''_'' @ version @ ''_'' @ osName @ ''_'' @ arch @ ''_'' @ shasum @ ''.zip''"

text \<open>The last step of an upload: the artifact the metadata named before is removed.\<close>

definition removeOldArtifact :: "Store \<Rightarrow> string \<Rightarrow> string \<Rightarrow> (bytes \<Rightarrow> string option) \<Rightarrow> bytes result \<Rightarrow> unit io" where
  "removeOldArtifact s prfx filename decode previous =
     (case previous of
        Inl _ \<Rightarrow> State_Monad.return ()
      | Inr data \<Rightarrow>
          (case decode data of
             None \<Rightarrow> State_Monad.return ()
           | Some old \<Rightarrow>
               if old \<noteq> [] \<and> old \<noteq> filename then ignore (Delete s (prfx @ old)) else State_Monad.return ()))"

definition platformFilename :: "bytes \<Rightarrow> string option" where
  "platformFilename data =
     (case unmarshalInto decodePlatformMeta zeroPlatformMeta data of
        (meta, None) \<Rightarrow> Some (Filename meta) | (_, Some _) \<Rightarrow> None)"

definition moduleFilename :: "bytes \<Rightarrow> string option" where
  "moduleFilename data =
     (case unmarshalInto decodeModuleArtifactMeta zeroModuleArtifactMeta data of
        (meta, None) \<Rightarrow> Some (MFilename meta) | (_, Some _) \<Rightarrow> None)"

text \<open>\<^verbatim>\<open>restorePublication\<close>\<close>

definition restorePublication ::
  "Store \<Rightarrow> (string \<times> bytes result) list \<Rightarrow> bool \<Rightarrow> string \<Rightarrow> unit io" where
  "restorePublication s saved existed zipKey =
     do { foldIO (\<lambda>(key, previous) _. restoreObject s key previous) saved ();
          deleteUnless s existed zipKey }"

text \<open>From the stored artifact on: metadata, checksums, index, and the removal of what was replaced.\<close>

definition publishProvider ::
  "Registry \<Rightarrow> string \<Rightarrow> string \<Rightarrow> string \<Rightarrow> string \<Rightarrow> string \<Rightarrow> string \<Rightarrow> string \<Rightarrow> string \<Rightarrow> bool \<Rightarrow> response io" where
  "publishProvider g namespace name version osName arch filename shasum zipKey artifactExisted =
     (let s = store g;
          prfx = providerVersionPrefix namespace name version;
          metaKey = platformMetaKey namespace name version osName arch;
          metaData = marshal (encodePlatformMeta
            \<lparr>OS = osName, Arch = arch, Filename = filename, Shasum = shasum, Protocols = Some [''5.0'']\<rparr>) in
      do { previousMeta \<leftarrow> Get s metaKey;
           p \<leftarrow> Put s metaKey metaData;
           case p of
             Inl _ \<Rightarrow> do { deleteUnless s artifactExisted zipKey;
                          State_Monad.return (failed 500 ''Metadata store failed'') }
           | Inr _ \<Rightarrow>
               (case providerChecksumsNames name version of (checksumsName, signatureName) \<Rightarrow>
                  do { previousChecksums \<leftarrow> Get s (prfx @ checksumsName);
                       previousSignature \<leftarrow> Get s (prfx @ signatureName);
                       let restore = restorePublication s
                             [(metaKey, previousMeta), (prfx @ checksumsName, previousChecksums),
                              (prfx @ signatureName, previousSignature)] artifactExisted zipKey;
                       c \<leftarrow> rebuildProviderChecksums s (signer g) namespace name version;
                       case c of
                         Inl _ \<Rightarrow> do { restore; State_Monad.return (failed 500 ''Checksum publication failed'') }
                       | Inr _ \<Rightarrow>
                           do { a \<leftarrow> AddProviderVersion s namespace name version;
                                case a of
                                  Inl _ \<Rightarrow> do { restore; State_Monad.return (failed 500 ''Index update failed'') }
                                | Inr _ \<Rightarrow>
                                    do { removeOldArtifact s prfx filename platformFilename previousMeta;
                                         tick ProviderUploads_update;
                                         State_Monad.return (succeeded
                                           (''Provider '' @ namespace @ ''/'' @ name @ ''@'' @ version @ '' ('' @
                                            osName @ ''/'' @ arch @ '') uploaded'')) } } }) })"

definition uploadProviderHandler :: "Registry \<Rightarrow> request \<Rightarrow> response result io" where
  "uploadProviderHandler g r = serialized
     (let namespace = var r ''namespace''; name = var r ''name''; version = var r ''version'';
          osName = var r ''os''; arch = var r ''arch'' in
      case multipartUploadPart (bodyLimit g) r of
        Inl err \<Rightarrow> State_Monad.return (writeUploadError (osText g) err)
      | Inr file \<Rightarrow>
          if length (sData file) < 4 then State_Monad.return (failed 400 ''File too small'')
          else
            (case ValidateUpload (take 4 (sData file)) ''zip'' of
               Some err \<Rightarrow> State_Monad.return (failed 400 (errorString (osText g) err))
             | None \<Rightarrow>
                 do { let filename = (\<lambda>data. providerArtifactName name version osName arch (sha256Hex data));
                      p \<leftarrow> PutStreamImmutable (store g) file (maxUploadSize g)
                             (Some (\<lambda>f. invalidArchive g
                                (validateProviderArchive (zipDecoder g) f name (maxUploadSize g))))
                             (\<lambda>data. providerVersionPrefix namespace name version @ filename data);
                      case p of
                        Inl err \<Rightarrow> State_Monad.return (storeFailed g err)
                      | Inr (_, zipKey, artifactExisted) \<Rightarrow>
                          publishProvider g namespace name version osName arch (filename (teed g file))
                            (sha256Hex (teed g file)) zipKey artifactExisted }))"

section \<open>Deletion and deprecation\<close>

text \<open>The two halves of a deletion around the removal from the index.\<close>

definition deleteVersion :: "Registry \<Rightarrow> string \<Rightarrow> unit result io \<Rightarrow> string \<Rightarrow> response io" where
  "deleteVersion g prfx removeFromIndex done =
     do { sd \<leftarrow> StageDeleteTree (store g) prfx;
          case sd of
            Inl _ \<Rightarrow> State_Monad.return (failed 404 ''Version not found'')
          | Inr staged \<Rightarrow>
              do { ix \<leftarrow> removeFromIndex;
                   case ix of
                     Inl _ \<Rightarrow> do { ignore (rollbackDelete staged);
                                  State_Monad.return (failed 500 ''Index update failed'') }
                   | Inr _ \<Rightarrow>
                       do { c \<leftarrow> commitDelete staged;
                            State_Monad.return
                              (case c of
                                 Inl _ \<Rightarrow> failed 500 ''Delete cleanup failed''
                               | Inr _ \<Rightarrow> succeeded done) } } }"

definition deleteProviderVersionHandler :: "Registry \<Rightarrow> request \<Rightarrow> response result io" where
  "deleteProviderVersionHandler g r = serialized
     (let namespace = var r ''namespace''; name = var r ''name''; version = var r ''version'' in
      deleteVersion g (''providers/'' @ namespace @ ''/'' @ name @ ''/'' @ version)
        (RemoveProviderVersion (store g) namespace name version)
        (''Provider '' @ namespace @ ''/'' @ name @ ''@'' @ version @ '' deleted''))"

text \<open>The message of the request body; whatever cannot be decoded leaves it empty.\<close>

definition deprecationMessage :: "request \<Rightarrow> string" where
  "deprecationMessage r =
     (case decodeFirst (reqBody r) of
        None \<Rightarrow> []
      | Some j \<Rightarrow> fst (decodeStruct [''message''] (\<lambda>_. decodeString) [] j))"

definition deprecateVersion ::
  "Registry \<Rightarrow> Index result io \<Rightarrow> string \<Rightarrow> unit result io \<Rightarrow> string \<Rightarrow> response io" where
  "deprecateVersion g getIdx version deprecate done =
     do { i \<leftarrow> getIdx;
          if (case i of Inl _ \<Rightarrow> True | Inr idx \<Rightarrow> \<not> indexHasVersion idx version) then
            State_Monad.return (failed 404 ''Version not found'')
          else
            do { d \<leftarrow> deprecate;
                 State_Monad.return
                   (case d of
                      Inl err \<Rightarrow> failed 500 (errorString (osText g) err)
                    | Inr _ \<Rightarrow> succeeded done) } }"

definition deprecateProviderHandler :: "Registry \<Rightarrow> request \<Rightarrow> response result io" where
  "deprecateProviderHandler g r = serialized
     (let namespace = var r ''namespace''; name = var r ''name''; version = var r ''version'' in
      deprecateVersion g (GetProviderIndex (store g) namespace name) version
        (DeprecateProviderVersion (store g) namespace name version (deprecationMessage r))
        (''Provider '' @ namespace @ ''/'' @ name @ ''@'' @ version @ '' deprecated''))"

section \<open>Modules\<close>

record ModuleInfo =
  MNamespace :: string
  MName :: string
  MProvider :: string
  MInfoVersions :: "ModuleVersion list option"

definition encodeModuleInfo :: "ModuleInfo \<Rightarrow> json" where
  "encodeModuleInfo m =
     JObj [(''namespace'', JStr (MNamespace m)), (''name'', JStr (MName m)), (''provider'', JStr (MProvider m)),
           (''versions'', encodeSlice encodeModuleVersion (MInfoVersions m))]"

definition moduleInfo :: "string \<Rightarrow> string \<Rightarrow> string \<Rightarrow> string list \<Rightarrow> ModuleInfo" where
  "moduleInfo ns modName provName versions =
     \<lparr>MNamespace = ns, MName = modName, MProvider = provName,
      MInfoVersions = nilIfEmpty (map (\<lambda>v. \<lparr>MVersion = v\<rparr>) versions)\<rparr>"

text \<open>One step of the innermost loop of \<^verbatim>\<open>listModulesHandler\<close>, on the variables \<^verbatim>\<open>seen\<close> and \<^verbatim>\<open>modules\<close>.\<close>

definition listModule ::
  "Store \<Rightarrow> string \<Rightarrow> string \<Rightarrow> string \<Rightarrow> string \<Rightarrow> string list \<times> ModuleInfo list \<Rightarrow> (string list \<times> ModuleInfo list) io" where
  "listModule s ns modName modPrefix provPrefix = (\<lambda>(seen, modules).
     let provName = lastName provPrefix modPrefix; key = ns @ ''/'' @ modName @ ''/'' @ provName in
     if key \<in> set seen then State_Monad.return (seen, modules)
     else do { versions \<leftarrow> orEmpty (ScanModuleVersions s ns modName provName);
               State_Monad.return (key # seen, modules @ [moduleInfo ns modName provName versions]) })"

text \<open>\<^verbatim>\<open>sort.Slice\<close> leaves the order of modules with the same key open; the model keeps the one of the listing.\<close>

definition listModulesHandler :: "Registry \<Rightarrow> request \<Rightarrow> response io" where
  "listModulesHandler g r =
     do { l \<leftarrow> List (store g) ''modules/'' ''/'';
          case l of
            Inl err \<Rightarrow> State_Monad.return (failed 500 (errorString (osText g) err))
          | Inr (_, nsPrefixes) \<Rightarrow>
              do { (seen, modules) \<leftarrow> foldIO (\<lambda>nsPrefix acc.
                     do { let ns = trimPrefix (trimSuffix nsPrefix ''/'') ''modules/'';
                          namePrefixes \<leftarrow> listPrefixes (store g) nsPrefix;
                          foldIO (\<lambda>namePrefix acc.
                            do { let modName = lastName namePrefix nsPrefix;
                                 let modPrefix = ''modules/'' @ ns @ ''/'' @ modName @ ''/'';
                                 provPrefixes \<leftarrow> listPrefixes (store g) modPrefix;
                                 foldIO (listModule (store g) ns modName modPrefix) provPrefixes acc })
                          namePrefixes acc })
                     nsPrefixes ([], []);
                   State_Monad.return (dataResponse (encodeSlice encodeModuleInfo
                     (nilIfEmpty (sort_key (\<lambda>m. MNamespace m @ MName m) modules)))) } }"

definition getModuleHandler :: "Registry \<Rightarrow> request \<Rightarrow> response io" where
  "getModuleHandler g r =
     (let namespace = var r ''namespace''; name = var r ''name''; provider = var r ''provider'' in
      do { vs \<leftarrow> ScanModuleVersions (store g) namespace name provider;
           State_Monad.return
             (case vs of
                Inl _ \<Rightarrow> failed 404 ''Module not found''
              | Inr versions \<Rightarrow>
                  if versions = [] then failed 404 ''Module not found''
                  else dataResponse (encodeModuleInfo (moduleInfo namespace name provider versions))) })"

text \<open>From the stored artifact on: metadata, index, and the removal of what was replaced.\<close>

definition publishModule ::
  "Registry \<Rightarrow> string \<Rightarrow> string \<Rightarrow> string \<Rightarrow> string \<Rightarrow> string \<Rightarrow> string \<Rightarrow> string \<Rightarrow> bool \<Rightarrow> response io" where
  "publishModule g namespace name provider version filename shasum key artifactExisted =
     (let s = store g;
          prfx = moduleVersionPrefix namespace name provider version;
          artifactMetaKey = prfx @ ''/artifact.json'';
          artifactMeta = marshal (encodeModuleArtifactMeta \<lparr>MFilename = filename, SHA256 = shasum\<rparr>) in
      do { previousMeta \<leftarrow> Get s artifactMetaKey;
           p \<leftarrow> Put s artifactMetaKey artifactMeta;
           case p of
             Inl _ \<Rightarrow> do { deleteUnless s artifactExisted key;
                          State_Monad.return (failed 500 ''Metadata store failed'') }
           | Inr _ \<Rightarrow>
               do { a \<leftarrow> AddModuleVersion s namespace name provider version;
                    case a of
                      Inl _ \<Rightarrow> do { restoreObject s artifactMetaKey previousMeta;
                                   deleteUnless s artifactExisted key;
                                   State_Monad.return (failed 500 ''Index update failed'') }
                    | Inr _ \<Rightarrow>
                        do { removeOldArtifact s (prfx @ ''/'') filename moduleFilename previousMeta;
                             tick ModuleUploads_update;
                             State_Monad.return (succeeded
                               (''Module '' @ namespace @ ''/'' @ name @ ''/'' @ provider @ ''@'' @ version @ '' uploaded'')) } } })"

text \<open>\<^verbatim>\<open>io.ReadFull\<close> into a buffer of four bytes, which stays zero where nothing was read.\<close>

definition peek4 :: "stream \<Rightarrow> bytes" where
  "peek4 file = take 4 (sData file @ replicate 4 CHR 0x00)"

definition uploadModuleHandler :: "Registry \<Rightarrow> request \<Rightarrow> response result io" where
  "uploadModuleHandler g r = serialized
     (let namespace = var r ''namespace''; name = var r ''name''; provider = var r ''provider'';
          version = var r ''version''; prfx = moduleVersionPrefix namespace name provider version in
      case multipartUploadPart (bodyLimit g) r of
        Inl err \<Rightarrow> State_Monad.return (writeUploadError (osText g) err)
      | Inr file \<Rightarrow>
          if length (sData file) < 2 then State_Monad.return (failed 400 ''File too small'')
          else
            (case ValidateUpload (peek4 file) ''tar.gz'' of
               Some err \<Rightarrow> State_Monad.return (failed 400 (errorString (osText g) err))
             | None \<Rightarrow>
                 do { let filename = (\<lambda>data. ''module_'' @ sha256Hex data @ ''.tar.gz'');
                      p \<leftarrow> PutStreamImmutable (store g) file (maxUploadSize g)
                             (Some (\<lambda>f. invalidArchive g (validateModuleArchive (tarDecoder g) f (maxUploadSize g))))
                             (\<lambda>data. prfx @ ''/'' @ filename data);
                      case p of
                        Inl err \<Rightarrow> State_Monad.return (storeFailed g err)
                      | Inr (_, key, artifactExisted) \<Rightarrow>
                          publishModule g namespace name provider version (filename (teed g file))
                            (sha256Hex (teed g file)) key artifactExisted }))"

definition deleteModuleVersionHandler :: "Registry \<Rightarrow> request \<Rightarrow> response result io" where
  "deleteModuleVersionHandler g r = serialized
     (let namespace = var r ''namespace''; name = var r ''name''; provider = var r ''provider'';
          version = var r ''version'' in
      deleteVersion g (moduleVersionPrefix namespace name provider version)
        (RemoveModuleVersion (store g) namespace name provider version)
        (''Module '' @ namespace @ ''/'' @ name @ ''/'' @ provider @ ''@'' @ version @ '' deleted''))"

definition deprecateModuleHandler :: "Registry \<Rightarrow> request \<Rightarrow> response result io" where
  "deprecateModuleHandler g r = serialized
     (let namespace = var r ''namespace''; name = var r ''name''; provider = var r ''provider'';
          version = var r ''version'' in
      deprecateVersion g (GetModuleIndex (store g) namespace name provider) version
        (DeprecateModuleVersion (store g) namespace name provider version (deprecationMessage r))
        (''Module '' @ namespace @ ''/'' @ name @ ''/'' @ provider @ ''@'' @ version @ '' deprecated''))"

section \<open>Garbage collection\<close>

definition gcHandler :: "Registry \<Rightarrow> request \<Rightarrow> response result io" where
  "gcHandler g r = serialized
     (do { (n, err) \<leftarrow> GarbageCollect (store g);
           State_Monad.return
             (case err of
                Some e \<Rightarrow> failed 500 (''GC failed: '' @ errorString (osText g) e)
              | None \<Rightarrow> succeeded (''Garbage collection complete, '' @ showNat n @ '' files removed'')) })"

end
