(* ===== verification/Auth.thy ===== *)
theory Auth
  imports Signing
begin

text \<open>
  \<^verbatim>\<open>registry-server/auth.go\<close>: the API keys, their file, its migration and hot reload, and the permission
  checks.  The state of the \<^verbatim>\<open>KeyStore\<close> is passed explicitly.  Times are kept as their JSON text; \<open>timeJSON\<close>
  is what parsing and printing such a text gives, if \<^verbatim>\<open>time.Time\<close> accepts it.
\<close>

section \<open>Text\<close>

text \<open>\<^verbatim>\<open>strings.TrimSpace\<close>: the white space of Unicode, as runes of UTF-8.\<close>

definition isSpaceRune :: "string \<Rightarrow> bool" where
  "isSpaceRune r \<longleftrightarrow>
     (case r of
        [c] \<Rightarrow> c = CHR '' '' \<or> (9 :: nat) \<le> of_char c \<and> of_char c \<le> (13 :: nat)
      | [a, b] \<Rightarrow> a = CHR 0xC2 \<and> (b = CHR 0x85 \<or> b = CHR 0xA0)
      | [a, b, c] \<Rightarrow>
          a = CHR 0xE1 \<and> b = CHR 0x9A \<and> c = CHR 0x80 \<or>
          a = CHR 0xE2 \<and> b = CHR 0x80 \<and> (byteIn 0x80 0x8A c \<or> c = CHR 0xA8 \<or> c = CHR 0xA9 \<or> c = CHR 0xAF) \<or>
          a = CHR 0xE2 \<and> b = CHR 0x81 \<and> c = CHR 0x9F \<or>
          a = CHR 0xE3 \<and> b = CHR 0x80 \<and> c = CHR 0x80
      | _ \<Rightarrow> False)"

definition trimSpace :: "string \<Rightarrow> string" where
  "trimSpace s = concat (rev (dropWhile isSpaceRune (rev (dropWhile isSpaceRune (runes s)))))"

text \<open>\<^verbatim>\<open>strings.ToLower\<close> on ASCII letters; no other letter has a lower case that is a hexadecimal digit.\<close>

definition toLower :: "string \<Rightarrow> string" where
  "toLower s = map (\<lambda>c. if isUpper c then char_of (of_char c + 32 :: nat) else c) s"

section \<open>Keys\<close>

type_synonym Permission = string

definition PermRead :: Permission where "PermRead = ''read''"
definition PermWrite :: Permission where "PermWrite = ''write''"
definition PermAdmin :: Permission where "PermAdmin = ''admin''"

record APIKey =
  Key :: string
  Hash :: string
  KName :: string
  KPermission :: Permission
  Enabled :: bool
  CreatedAt :: string
  LastUsedAt :: "string option"
  KDescription :: string

text \<open>The zero \<^verbatim>\<open>time.Time\<close>: its text, and its distance from the Unix epoch in nanoseconds.\<close>

definition zeroTime :: string where "zeroTime = ''0001-01-01T00:00:00Z''"
definition zeroTimeNanos :: int where "zeroTimeNanos = -62135596800000000000"

definition zeroAPIKey :: APIKey where
  "zeroAPIKey =
     \<lparr>Key = [], Hash = [], KName = [], KPermission = [], Enabled = False, CreatedAt = zeroTime,
      LastUsedAt = None, KDescription = []\<rparr>"

definition encodeAPIKey :: "APIKey \<Rightarrow> json" where
  "encodeAPIKey k =
     JObj (optional (Key k = []) ''key'' (JStr (Key k)) @
           [(''hash'', JStr (Hash k)), (''name'', JStr (KName k)), (''permission'', JStr (KPermission k)),
            (''enabled'', JBool (Enabled k)), (''created_at'', JStr (CreatedAt k))] @
           (case LastUsedAt k of None \<Rightarrow> [] | Some t \<Rightarrow> [(''last_used_at'', JStr t)]) @
           optional (KDescription k = []) ''description'' (JStr (KDescription k)))"

text \<open>\<^verbatim>\<open>APIKeysConfig\<close>: the list of keys.\<close>

definition encodeAPIKeysConfig :: "APIKey list \<Rightarrow> json" where
  "encodeAPIKeysConfig ks = JObj [(''keys'', JArr (map encodeAPIKey ks))]"

definition decodeTime :: "(string \<Rightarrow> string option) \<Rightarrow> string decoder" where
  "decodeTime timeJSON old j =
     (case j of
        JNull \<Rightarrow> (old, True)
      | JStr t \<Rightarrow> (case timeJSON t of None \<Rightarrow> (old, False) | Some t' \<Rightarrow> (t', True))
      | _ \<Rightarrow> (old, False))"

definition setAPIKeyField :: "(string \<Rightarrow> string option) \<Rightarrow> string \<Rightarrow> APIKey decoder" where
  "setAPIKeyField timeJSON f k j =
     (if f = ''key'' then (let (x, ok) = decodeString (Key k) j in (k\<lparr>Key := x\<rparr>, ok))
      else if f = ''hash'' then (let (x, ok) = decodeString (Hash k) j in (k\<lparr>Hash := x\<rparr>, ok))
      else if f = ''name'' then (let (x, ok) = decodeString (KName k) j in (k\<lparr>KName := x\<rparr>, ok))
      else if f = ''permission'' then (let (x, ok) = decodeString (KPermission k) j in (k\<lparr>KPermission := x\<rparr>, ok))
      else if f = ''enabled'' then (let (x, ok) = decodeBool (Enabled k) j in (k\<lparr>Enabled := x\<rparr>, ok))
      else if f = ''created_at'' then (let (x, ok) = decodeTime timeJSON (CreatedAt k) j in (k\<lparr>CreatedAt := x\<rparr>, ok))
      else if f = ''last_used_at'' then
        (if j = JNull then (k\<lparr>LastUsedAt := None\<rparr>, True)
         else let (x, ok) = decodeTime timeJSON (case LastUsedAt k of None \<Rightarrow> zeroTime | Some t \<Rightarrow> t) j in
              (k\<lparr>LastUsedAt := Some x\<rparr>, ok))
      else (let (x, ok) = decodeString (KDescription k) j in (k\<lparr>KDescription := x\<rparr>, ok)))"

definition decodeAPIKey :: "(string \<Rightarrow> string option) \<Rightarrow> APIKey decoder" where
  "decodeAPIKey timeJSON =
     decodeStruct [''key'', ''hash'', ''name'', ''permission'', ''enabled'', ''created_at'', ''last_used_at'',
                   ''description''] (setAPIKeyField timeJSON)"

definition decodeAPIKeysConfig :: "(string \<Rightarrow> string option) \<Rightarrow> APIKey list option decoder" where
  "decodeAPIKeysConfig timeJSON =
     decodeStruct [''keys''] (\<lambda>_. decodeSlice (decodeAPIKey timeJSON) zeroAPIKey)"

section \<open>The key file\<close>

text \<open>\<^verbatim>\<open>keys\<close> maps the hashes to the keys of \<^verbatim>\<open>keysList\<close>.\<close>

record KeyStore =
  keysPath :: path
  keys :: "(string \<times> APIKey) list"
  keysList :: "APIKey list"
  lastMod :: int

definition hashKey :: "string \<Rightarrow> string" where
  "hashKey key = sha256Hex key"

definition writeKeysConfigAtomic :: "path \<Rightarrow> APIKey list \<Rightarrow> unit result io" where
  "writeKeysConfigAtomic path config =
     writeThroughTemp path ''.keys-'' ''.tmp'' (marshalIndent (encodeAPIKeysConfig config))"

text \<open>The plaintext of a legacy key is replaced by its hash; the hash is normalised.\<close>

definition normalizeKey :: "APIKey \<Rightarrow> APIKey" where
  "normalizeKey k =
     (let k' = (if Key k \<noteq> [] then k\<lparr>Hash := (if Hash k = [] then hashKey (Key k) else Hash k), Key := []\<rparr> else k) in
      k'\<lparr>Hash := toLower (trimSpace (Hash k'))\<rparr>)"

text \<open>The loop of \<^verbatim>\<open>reload\<close> over the keys; \<open>met\<close> are the hashes met so far.\<close>

fun checkKeys :: "string list \<Rightarrow> APIKey list \<Rightarrow> APIKey list result" where
  "checkKeys met [] = Inr []"
| "checkKeys met (k0 # ks) =
     (let k = normalizeKey k0 in
      case hexDecode (Hash k) of
        None \<Rightarrow> Inl (Errorf ''key %q has an invalid SHA-256 hash'' [quoteASCII (KName k)])
      | Some decoded \<Rightarrow>
          if length decoded \<noteq> 32 then Inl (Errorf ''key %q has an invalid SHA-256 hash'' [quoteASCII (KName k)])
          else if KPermission k \<noteq> PermRead \<and> KPermission k \<noteq> PermWrite \<and> KPermission k \<noteq> PermAdmin then
            Inl (Errorf ''key %q has invalid permission %q'' [quoteASCII (KName k), quoteASCII (KPermission k)])
          else if Hash k \<in> set met then Inl (Errorf ''duplicate API key hash for %q'' [quoteASCII (KName k)])
          else (case checkKeys (Hash k # met) ks of Inl e \<Rightarrow> Inl e | Inr rest \<Rightarrow> Inr (k # rest)))"

definition loadConfig :: "(string \<Rightarrow> string option) \<Rightarrow> bytes \<Rightarrow> (APIKey list \<times> bool) result" where
  "loadConfig timeJSON data =
     (case unmarshalInto (decodeAPIKeysConfig timeJSON) None data of
        (_, Some err) \<Rightarrow> Inl (Wrapf ''parse keys file: %w'' [] err)
      | (config, None) \<Rightarrow>
          let ks = (case config of None \<Rightarrow> [] | Some xs \<Rightarrow> xs) in
          if ks = [] then Inl (Errorf ''keys file must contain at least one API key'' [])
          else (case checkKeys [] ks of
                  Inl err \<Rightarrow> Inl err
                | Inr ks' \<Rightarrow>
                    if \<not> list_ex Enabled ks' then
                      Inl (Errorf ''keys file must contain at least one enabled API key'' [])
                    else Inr (ks', list_ex (\<lambda>k. Key k \<noteq> []) ks)))"

definition reload :: "(string \<Rightarrow> string option) \<Rightarrow> KeyStore \<Rightarrow> KeyStore result io" where
  "reload timeJSON ks =
     bindR (osReadFile (keysPath ks)) (\<lambda>data.
     bindR (State_Monad.return (loadConfig timeJSON data)) (\<lambda>(config, migrated).
     bindR (if migrated then wrapErr ''remove legacy plaintext keys: %w'' [] (writeKeysConfigAtomic (keysPath ks) config)
            else State_Monad.return (Inr ())) (\<lambda>_.
     do { info \<leftarrow> osStat (keysPath ks);
          State_Monad.return (Inr (ks\<lparr>keys := map (\<lambda>k. (Hash k, k)) config, keysList := config,
            lastMod := (case info of Inl _ \<Rightarrow> lastMod ks | Inr i \<Rightarrow> modTime i)\<rparr>)) })))"

definition maybeReload :: "(string \<Rightarrow> string option) \<Rightarrow> KeyStore \<Rightarrow> KeyStore io" where
  "maybeReload timeJSON ks =
     do { info \<leftarrow> osStat (keysPath ks);
          case info of
            Inl _ \<Rightarrow> State_Monad.return ks
          | Inr i \<Rightarrow>
              if modTime i > lastMod ks then
                do { r \<leftarrow> reload timeJSON ks;
                     State_Monad.return (case r of Inl _ \<Rightarrow> ks | Inr ks' \<Rightarrow> ks') }
              else State_Monad.return ks }"

text \<open>The default key: random bytes in hexadecimal.\<close>

definition generateRandomKey :: "nat \<Rightarrow> string io" where
  "generateRandomKey n =
     State (\<lambda>w. (hexEncode (map char_of (take n (rand w @ replicate n 0))), w\<lparr>rand := drop n (rand w)\<rparr>))"

definition createDefaultFile :: "(int \<Rightarrow> string) \<Rightarrow> path \<Rightarrow> string \<Rightarrow> unit result io" where
  "createDefaultFile nowJSON path defaultKey =
     do { now \<leftarrow> timeNow;
          writeKeysConfigAtomic path
            [zeroAPIKey\<lparr>Hash := hashKey defaultKey, KName := ''default-admin'', KPermission := PermAdmin,
                        Enabled := True, CreatedAt := nowJSON now\<rparr>] }"

definition NewKeyStore ::
  "(string \<Rightarrow> string option) \<Rightarrow> (int \<Rightarrow> string) \<Rightarrow> string \<Rightarrow> path \<Rightarrow> KeyStore result io" where
  "NewKeyStore timeJSON nowJSON envKey path =
     (let ks = \<lparr>keysPath = path, keys = [], keysList = [], lastMod = zeroTimeNanos\<rparr> in
      bindR
        (do { st \<leftarrow> osStat path;
              if st = Inl ErrNotExist then
                do { defaultKey \<leftarrow> (if envKey = [] then generateRandomKey 32 else State_Monad.return envKey);
                     wrapErr ''create default keys file: %w'' [] (createDefaultFile nowJSON path defaultKey) }
              else State_Monad.return (Inr ()) })
        (\<lambda>_. wrapErr ''load keys: %w'' [] (reload timeJSON ks)))"

section \<open>Checking a key\<close>

definition HasKeys :: "KeyStore \<Rightarrow> bool" where
  "HasKeys ks \<longleftrightarrow> keys ks \<noteq> []"

definition matchKey :: "KeyStore \<Rightarrow> string \<Rightarrow> APIKey option" where
  "matchKey ks key = find (\<lambda>ak. Enabled ak \<and> Hash ak = hashKey key) (keysList ks)"

definition Validate :: "(string \<Rightarrow> string option) \<Rightarrow> KeyStore \<Rightarrow> string \<Rightarrow> (KeyStore \<times> APIKey option) io" where
  "Validate timeJSON ks key =
     (if key = [] then State_Monad.return (ks, None)
      else do { ks' \<leftarrow> maybeReload timeJSON ks; State_Monad.return (ks', matchKey ks' key) })"

definition permits :: "APIKey \<Rightarrow> Permission \<Rightarrow> bool" where
  "permits ak required =
     (if required = PermRead then True
      else if required = PermWrite then KPermission ak = PermWrite \<or> KPermission ak = PermAdmin
      else if required = PermAdmin then KPermission ak = PermAdmin
      else False)"

definition HasPermission ::
  "(string \<Rightarrow> string option) \<Rightarrow> KeyStore \<Rightarrow> string \<Rightarrow> Permission \<Rightarrow> (KeyStore \<times> bool) io" where
  "HasPermission timeJSON ks key required =
     do { (ks', ak) \<leftarrow> Validate timeJSON ks key;
          State_Monad.return (ks', case ak of None \<Rightarrow> False | Some k \<Rightarrow> permits k required) }"

section \<open>What a request needs\<close>

definition isRead :: "request \<Rightarrow> bool" where
  "isRead r \<longleftrightarrow> reqMethod r = ''GET'' \<or> reqMethod r = ''HEAD''"

definition privateSecurityRead :: "request \<Rightarrow> bool" where
  "privateSecurityRead r =
     (if \<not> isRead r then False
      else let path = trimSuffix (urlPath r) ''/'' in
        if path = ''/api/v1/security/scans'' \<or> path = ''/api/v1/security/health'' then False
        else hasPrefix path ''/api/v1/security/scans/'')"

definition requiredPermission :: "request \<Rightarrow> Permission" where
  "requiredPermission r =
     (if urlPath r = ''/api/v1/gc'' \<or> containsStr (urlPath r) ''/waivers'' then PermAdmin
      else if reqMethod r = ''DELETE'' then PermAdmin
      else if reqMethod r = ''POST'' \<or> reqMethod r = ''PUT'' \<or> reqMethod r = ''PATCH'' then PermWrite
      else PermRead)"

definition extractAPIKey :: "request \<Rightarrow> string" where
  "extractAPIKey r =
     (if headerGet r ''X-Api-Key'' \<noteq> [] then headerGet r ''X-Api-Key''
      else if hasPrefix (headerGet r ''Authorization'') ''Bearer '' then
        trimPrefix (headerGet r ''Authorization'') ''Bearer ''
      else [])"

text \<open>The requests that pass without a key.\<close>

definition isPublic :: "request \<Rightarrow> bool" where
  "isPublic r \<longleftrightarrow> \<not> hasPrefix (urlPath r) ''/api/v1/'' \<or> (isRead r \<and> \<not> privateSecurityRead r)"

end
