(* ===== verification/Limiter.thy ===== *)
theory Limiter
  imports Complex_Main Prelude
begin

text \<open>
  The rate limiter of \<^verbatim>\<open>registry-server/middleware.go\<close>: a token bucket per client address.  Times and
  durations are in nanoseconds.  Token counts are exact rationals where the code has \<^verbatim>\<open>float64\<close>; the window
  is taken to be positive, since Go's division by a zero window has no rational value.
\<close>

section \<open>Operations\<close>

record visitor =
  tokens :: rat
  lastSeen :: int

record RateLimiter =
  visitors :: "string \<Rightarrow> visitor option"
  rate :: int
  window :: int
  trustProxy :: bool

definition NewRateLimiter :: "int \<Rightarrow> int \<Rightarrow> bool \<Rightarrow> RateLimiter" where
  "NewRateLimiter n win trust = \<lparr>visitors = (\<lambda>_. None), rate = n, window = win, trustProxy = trust\<rparr>"

text \<open>\<^verbatim>\<open>Duration.Seconds()\<close>\<close>

definition seconds :: "int \<Rightarrow> rat" where
  "seconds d = of_int d / 1000000000"

definition cleanup :: "int \<Rightarrow> RateLimiter \<Rightarrow> RateLimiter" where
  "cleanup now rl =
     rl\<lparr>visitors := (\<lambda>ip. case visitors rl ip of
          None \<Rightarrow> None
        | Some v \<Rightarrow> if now - lastSeen v > window rl * 2 then None else Some v)\<rparr>"

definition refilled :: "RateLimiter \<Rightarrow> int \<Rightarrow> visitor \<Rightarrow> rat" where
  "refilled rl now v =
     (let t = tokens v + seconds (now - lastSeen v) * of_int (rate rl) / seconds (window rl) in
      if t > of_int (rate rl) then of_int (rate rl) else t)"

definition allow :: "int \<Rightarrow> string \<Rightarrow> RateLimiter \<Rightarrow> bool \<times> RateLimiter" where
  "allow now ip rl =
     (case visitors rl ip of
        None \<Rightarrow>
          (True, rl\<lparr>visitors := (visitors rl)(ip \<mapsto> \<lparr>tokens = of_int (rate rl - 1), lastSeen = now\<rparr>)\<rparr>)
      | Some v \<Rightarrow>
          let t = refilled rl now v in
          if t < 1 then (False, rl\<lparr>visitors := (visitors rl)(ip \<mapsto> \<lparr>tokens = t, lastSeen = now\<rparr>)\<rparr>)
          else (True, rl\<lparr>visitors := (visitors rl)(ip \<mapsto> \<lparr>tokens = t - 1, lastSeen = now\<rparr>)\<rparr>))"

section \<open>The bucket\<close>

definition limiterOk :: "RateLimiter \<Rightarrow> bool" where
  "limiterOk rl \<longleftrightarrow> rate rl \<ge> 1 \<and> window rl > 0 \<and>
     (\<forall>ip v. visitors rl ip = Some v \<longrightarrow> 0 \<le> tokens v \<and> tokens v \<le> of_int (rate rl))"

text \<open>What an address may still spend at a time, when nothing it sent is forgotten.\<close>

definition credit :: "RateLimiter \<Rightarrow> int \<Rightarrow> string \<Rightarrow> rat" where
  "credit rl now ip =
     (case visitors rl ip of None \<Rightarrow> of_int (rate rl) | Some v \<Rightarrow> refilled rl now v)"

lemma seconds_ratio: "window rl > 0 \<Longrightarrow> seconds d * of_int (rate rl) / seconds (window rl) = of_int d * of_int (rate rl) / of_int (window rl)"
  by (simp add: seconds_def)

lemma rate_rat: "limiterOk rl \<Longrightarrow> 1 \<le> (of_int (rate rl) :: rat)"
  using of_int_le_iff [of 1 "rate rl", where ?'a = rat] by (simp add: limiterOk_def)

lemma refilled_bounds:
  assumes "limiterOk rl" "visitors rl ip = Some v" "lastSeen v \<le> now"
  shows "tokens v \<le> refilled rl now v" "0 \<le> refilled rl now v" "refilled rl now v \<le> of_int (rate rl)"
proof -
  have b: "0 \<le> tokens v" "tokens v \<le> of_int (rate rl)" "rate rl \<ge> 1" "window rl > 0"
    using assms(1,2) by (auto simp: limiterOk_def)
  have "0 \<le> (of_int (now - lastSeen v) * of_int (rate rl) / of_int (window rl) :: rat)"
    using b assms(3) by (intro divide_nonneg_pos mult_nonneg_nonneg) simp_all
  then show "tokens v \<le> refilled rl now v" "0 \<le> refilled rl now v" "refilled rl now v \<le> of_int (rate rl)"
    using b by (auto simp: refilled_def seconds_ratio Let_def simp del: of_int_diff)
qed

lemma allow_ok:
  assumes "limiterOk rl" "\<And>v. visitors rl ip = Some v \<Longrightarrow> lastSeen v \<le> now"
  shows "limiterOk (snd (allow now ip rl))"
proof (cases "visitors rl ip")
  case None
  then show ?thesis using assms(1) by (auto simp: allow_def limiterOk_def)
next
  case (Some v)
  note r = refilled_bounds [OF assms(1) Some assms(2) [OF Some]]
  have "refilled rl now v - 1 \<le> of_int (rate rl)" using r(3) by linarith
  then show ?thesis
    using assms(1) Some r by (auto simp: allow_def limiterOk_def Let_def)
qed

lemma credit_le_rate: "limiterOk rl \<Longrightarrow> credit rl now ip \<le> of_int (rate rl)"
  by (cases "visitors rl ip") (simp_all add: credit_def refilled_def Let_def)

text \<open>Time adds what the rate gives and no more.\<close>

lemma credit_later:
  assumes "limiterOk rl" "now \<le> t"
  shows "credit rl t ip \<le> credit rl now ip + of_int (t - now) * of_int (rate rl) / of_int (window rl)"
proof -
  have w: "rate rl \<ge> 1" "window rl > 0" using assms(1) by (auto simp: limiterOk_def)
  have pos: "0 \<le> (of_int (t - now) * of_int (rate rl) / of_int (window rl) :: rat)"
    using w assms(2) by (intro divide_nonneg_pos mult_nonneg_nonneg) simp_all
  show ?thesis
  proof (cases "visitors rl ip")
    case (Some v)
    have "(of_int (t - lastSeen v) * of_int (rate rl) / of_int (window rl) :: rat) =
        of_int (now - lastSeen v) * of_int (rate rl) / of_int (window rl) +
        of_int (t - now) * of_int (rate rl) / of_int (window rl)"
      by (simp add: field_simps flip: add_divide_distrib)
    then show ?thesis
      using pos w Some by (simp add: credit_def refilled_def seconds_ratio Let_def del: of_int_diff)
  qed (use pos in \<open>simp add: credit_def\<close>)
qed

lemma allow_credit:
  assumes "limiterOk rl"
  shows "fst (allow now ip rl) \<longleftrightarrow> 1 \<le> credit rl now ip"
    "credit (snd (allow now ip rl)) now q =
       (if q = ip \<and> fst (allow now ip rl) then credit rl now ip - 1 else credit rl now q)"
proof -
  have r1: "1 \<le> (of_int (rate rl) :: rat)" using assms by (rule rate_rat)
  show "fst (allow now ip rl) \<longleftrightarrow> 1 \<le> credit rl now ip"
    using r1 by (auto simp: allow_def credit_def Let_def split: option.splits)
  have same: "refilled rl' now \<lparr>tokens = x, lastSeen = now\<rparr> = x" if "x \<le> of_int (rate rl')" for rl' x
    using that by (simp add: refilled_def seconds_def)
  have cap: "refilled rl now v \<le> of_int (rate rl)" for v by (simp add: refilled_def Let_def)
  have other: "refilled (rl\<lparr>visitors := m\<rparr>) now v = refilled rl now v" for m v by (simp add: refilled_def Let_def)
  show "credit (snd (allow now ip rl)) now q =
       (if q = ip \<and> fst (allow now ip rl) then credit rl now ip - 1 else credit rl now q)"
  proof (cases "visitors rl ip")
    case None
    then show ?thesis by (auto simp: allow_def credit_def same other split: option.splits)
  next
    case (Some v)
    have "refilled rl now v - 1 \<le> of_int (rate rl)" using cap [of v] by linarith
    then show ?thesis using Some cap [of v] by (auto simp: allow_def credit_def same other Let_def split: option.splits)
  qed
qed

section \<open>Runs\<close>

text \<open>Requests and clean-ups in the order the mutex admits them, each with its time.\<close>

datatype event = Request int string | Cleanup int

fun eventTime :: "event \<Rightarrow> int" where
  "eventTime (Request t _) = t"
| "eventTime (Cleanup t) = t"

fun stepEvent :: "event \<Rightarrow> RateLimiter \<Rightarrow> bool \<times> RateLimiter" where
  "stepEvent (Request t ip) rl = allow t ip rl"
| "stepEvent (Cleanup t) rl = (False, cleanup t rl)"

fun sentBy :: "string \<Rightarrow> event \<Rightarrow> bool" where
  "sentBy ip (Request _ q) \<longleftrightarrow> q = ip"
| "sentBy ip (Cleanup _) \<longleftrightarrow> False"

fun granted :: "string \<Rightarrow> event list \<Rightarrow> RateLimiter \<Rightarrow> nat" where
  "granted ip [] rl = 0"
| "granted ip (e # es) rl =
     (case stepEvent e rl of (ok, rl') \<Rightarrow>
        (if ok \<and> sentBy ip e then 1 else 0) + granted ip es rl')"

definition seenBy :: "int \<Rightarrow> RateLimiter \<Rightarrow> bool" where
  "seenBy now rl \<longleftrightarrow> (\<forall>ip v. visitors rl ip = Some v \<longrightarrow> lastSeen v \<le> now)"

lemma cleanup_get: "visitors (cleanup now rl) ip =
    (case visitors rl ip of None \<Rightarrow> None | Some v \<Rightarrow> if now - lastSeen v > window rl * 2 then None else Some v)"
  "rate (cleanup now rl) = rate rl" "window (cleanup now rl) = window rl"
  by (simp_all add: cleanup_def)

text \<open>A forgotten address would have had a full bucket.\<close>

lemma idle_full:
  assumes "limiterOk rl" "visitors rl ip = Some v" "now - lastSeen v > window rl * 2" "now \<le> t"
  shows "refilled rl t v = of_int (rate rl)"
proof -
  have w: "rate rl \<ge> 1" "window rl > 0" "0 \<le> tokens v" using assms(1,2) by (auto simp: limiterOk_def)
  have "window rl \<le> t - lastSeen v" using w assms(3,4) by linarith
  then have "(of_int (window rl) :: rat) * of_int (rate rl) \<le> of_int (t - lastSeen v) * of_int (rate rl)"
    using w by (intro mult_right_mono) (simp_all del: of_int_diff)
  then have "(of_int (rate rl) :: rat) \<le> of_int (t - lastSeen v) * of_int (rate rl) / of_int (window rl)"
    using w by (simp add: pos_le_divide_eq mult.commute del: of_int_diff)
  then show ?thesis using w by (simp add: refilled_def seconds_ratio Let_def del: of_int_diff)
qed

lemma cleanup_credit:
  assumes "limiterOk rl" "now \<le> t"
  shows "credit (cleanup now rl) t ip = credit rl t ip"
proof -
  have "refilled (cleanup now rl) t v = refilled rl t v" for v by (simp add: refilled_def cleanup_get Let_def)
  then show ?thesis
    using idle_full [OF assms(1)] assms(2)
    by (auto simp: credit_def cleanup_get split: option.splits)
qed

lemma stepEvent_ok:
  assumes "limiterOk rl" "seenBy now rl" "now \<le> eventTime e"
  shows "limiterOk (snd (stepEvent e rl))" "seenBy (eventTime e) (snd (stepEvent e rl))"
    "rate (snd (stepEvent e rl)) = rate rl" "window (snd (stepEvent e rl)) = window rl"
proof -
  have seen: "visitors rl ip = Some v \<Longrightarrow> lastSeen v \<le> eventTime e" for ip v
    using assms(2,3) unfolding seenBy_def by fastforce
  have frame: "rate (snd (allow t ip rl)) = rate rl" "window (snd (allow t ip rl)) = window rl" for t ip
    by (simp_all add: allow_def Let_def split: option.split)
  show "limiterOk (snd (stepEvent e rl))"
  proof (cases e)
    case (Request t ip)
    then show ?thesis using allow_ok [OF assms(1), of ip t] seen [of ip] by simp
  next
    case (Cleanup t)
    then show ?thesis
      using assms(1) by (auto simp: limiterOk_def cleanup_get split: option.splits if_splits)
  qed
  show "seenBy (eventTime e) (snd (stepEvent e rl))"
  proof (cases e)
    case (Request t ip)
    then show ?thesis
      using seen by (auto simp: seenBy_def allow_def Let_def split: option.splits if_splits)
  next
    case (Cleanup t)
    then show ?thesis using seen by (auto simp: seenBy_def cleanup_get split: option.splits if_splits)
  qed
  show "rate (snd (stepEvent e rl)) = rate rl" "window (snd (stepEvent e rl)) = window rl"
    using frame by (cases e; simp add: cleanup_get)+
qed

lemma granted_credit:
  assumes "limiterOk rl" "seenBy now rl" "sorted (now # map eventTime es)" "\<And>e. e \<in> set es \<Longrightarrow> eventTime e \<le> t1" "now \<le> t1"
  shows "of_nat (granted ip es rl) \<le> credit rl now ip + of_int (t1 - now) * of_int (rate rl) / of_int (window rl)"
  using assms
proof (induction es arbitrary: rl now)
  case Nil
  have w: "rate rl \<ge> 1" "window rl > 0" using Nil.prems(1) by (auto simp: limiterOk_def)
  have "0 \<le> credit rl now ip"
    using Nil.prems(1,2) refilled_bounds(2) [OF Nil.prems(1)] w
    by (auto simp: credit_def seenBy_def split: option.split)
  moreover have "0 \<le> (of_int (t1 - now) * of_int (rate rl) / of_int (window rl) :: rat)"
    using w Nil.prems(5) by (intro divide_nonneg_pos mult_nonneg_nonneg) simp_all
  ultimately show ?case by (simp del: of_int_diff)
next
  case (Cons e es)
  let ?t = "eventTime e"
  obtain ok rl' where st: "stepEvent e rl = (ok, rl')" by (rule prod.exhaust)
  have t: "now \<le> ?t" "?t \<le> t1" using Cons.prems(3,4) by auto
  note ok = stepEvent_ok [OF Cons.prems(1,2) t(1), unfolded st snd_conv]
  have ih: "of_nat (granted ip es rl') \<le> credit rl' ?t ip + of_int (t1 - ?t) * of_int (rate rl) / of_int (window rl)"
    using Cons.IH [OF ok(1,2)] Cons.prems(3,4) t ok(3,4) by simp
  have step: "(if ok \<and> sentBy ip e then 1 else 0) + credit rl' ?t ip = credit rl ?t ip"
  proof (cases e)
    case (Request u q)
    then show ?thesis using allow_credit [OF Cons.prems(1), of u q] st by auto
  next
    case (Cleanup u)
    then show ?thesis using cleanup_credit [OF Cons.prems(1), of u u ip] st by auto
  qed
  have "(of_int (t1 - now) * of_int (rate rl) / of_int (window rl) :: rat) =
      of_int (?t - now) * of_int (rate rl) / of_int (window rl) + of_int (t1 - ?t) * of_int (rate rl) / of_int (window rl)"
    by (simp add: field_simps flip: add_divide_distrib)
  moreover have "(of_nat (granted ip (e # es) rl) :: rat) =
      (if ok \<and> sentBy ip e then 1 else 0) + of_nat (granted ip es rl')"
    using st by simp
  ultimately show ?case
    using ih step credit_later [OF Cons.prems(1) t(1), of ip] by linarith
qed

section \<open>Limiters that decide alike\<close>

fun decisions :: "event list \<Rightarrow> RateLimiter \<Rightarrow> bool list" where
  "decisions [] rl = []"
| "decisions (e # es) rl = (case stepEvent e rl of (ok, rl') \<Rightarrow> ok # decisions es rl')"

definition alike :: "int \<Rightarrow> RateLimiter \<Rightarrow> RateLimiter \<Rightarrow> bool" where
  "alike now a b \<longleftrightarrow> limiterOk a \<and> limiterOk b \<and> seenBy now a \<and> seenBy now b \<and> rate a = rate b \<and> window a = window b \<and>
     (\<forall>t ip. now \<le> t \<longrightarrow> credit a t ip = credit b t ip)"

lemma allow_visitor:
  assumes "limiterOk rl"
  shows "visitors (snd (allow now ip rl)) =
    (visitors rl)(ip \<mapsto> \<lparr>tokens = credit rl now ip - (if fst (allow now ip rl) then 1 else 0), lastSeen = now\<rparr>)"
  by (auto simp: allow_def credit_def Let_def split: option.split)

lemma credit_visitor: "visitors a ip = visitors b ip \<Longrightarrow> rate a = rate b \<Longrightarrow> window a = window b \<Longrightarrow> credit a t ip = credit b t ip"
  by (simp add: credit_def refilled_def Let_def split: option.split)

lemma alike_step:
  assumes "alike now a b" "now \<le> eventTime e"
  shows "fst (stepEvent e a) = fst (stepEvent e b)" "alike (eventTime e) (snd (stepEvent e a)) (snd (stepEvent e b))"
proof -
  have a: "limiterOk a" "limiterOk b" "seenBy now a" "seenBy now b" "rate a = rate b" "window a = window b"
    and c: "\<And>t ip. now \<le> t \<Longrightarrow> credit a t ip = credit b t ip"
    using assms(1) by (auto simp: alike_def)
  note oa = stepEvent_ok [OF a(1,3) assms(2)] and ob = stepEvent_ok [OF a(2,4) assms(2)]
  show dec: "fst (stepEvent e a) = fst (stepEvent e b)"
    using c assms(2) allow_credit(1) [OF a(1)] allow_credit(1) [OF a(2)] by (cases e) auto
  have "credit (snd (stepEvent e a)) t ip = credit (snd (stepEvent e b)) t ip" if t: "eventTime e \<le> t" for t ip
  proof (cases e)
    case (Request u q)
    show ?thesis
    proof (cases "ip = q")
      case True
      then show ?thesis
        using Request oa ob a dec c [of u q] assms(2)
        by (intro credit_visitor) (simp_all add: allow_visitor)
    next
      case False
      then have "credit (snd (stepEvent e a)) t ip = credit a t ip" "credit (snd (stepEvent e b)) t ip = credit b t ip"
        using Request oa ob a by (auto intro!: credit_visitor simp: allow_visitor)
      then show ?thesis using c assms(2) t by simp
    qed
  next
    case (Cleanup u)
    then show ?thesis using c cleanup_credit [OF a(1)] cleanup_credit [OF a(2)] assms(2) t by simp
  qed
  then show "alike (eventTime e) (snd (stepEvent e a)) (snd (stepEvent e b))"
    using oa ob a by (simp add: alike_def)
qed

lemma decisions_alike: "alike now a b \<Longrightarrow> sorted (now # map eventTime es) \<Longrightarrow> decisions es a = decisions es b"
proof (induction es arbitrary: now a b)
  case (Cons e es)
  have t: "now \<le> eventTime e" "sorted (eventTime e # map eventTime es)" using Cons.prems(2) by auto
  show ?case
    using alike_step [OF Cons.prems(1) t(1)] Cons.IH [OF _ t(2)] by (simp add: case_prod_beta)
qed simp

section \<open>Properties\<close>







end
