(* ===== verification/Metrics.thy ===== *)
theory Metrics
  imports Http
begin

text \<open>
  \<^verbatim>\<open>registry-server/metrics.go\<close>: the snapshot of the counters and its two representations.
\<close>

section \<open>Durations\<close>

text \<open>\<^verbatim>\<open>Duration.Round(time.Second)\<close>, half away from zero, and the text of a whole number of seconds.\<close>

definition secondNanos :: int where "secondNanos = 1000000000"

definition roundToSecond :: "int \<Rightarrow> int" where
  "roundToSecond d =
     (if d < 0 then - ((- d + secondNanos div 2) div secondNanos) else (d + secondNanos div 2) div secondNanos)"

definition durationString :: "int \<Rightarrow> string" where
  "durationString secs =
     (let u = nat \<bar>secs\<bar>; h = u div 3600; m = u div 60 mod 60; s = u mod 60 in
      (if secs < 0 then ''-'' else []) @
      (if h > 0 then showNat h @ ''h'' else []) @
      (if h > 0 \<or> m > 0 then showNat m @ ''m'' else []) @
      showNat s @ ''s'')"

section \<open>The snapshot\<close>

record FindingCounts =
  Critical :: int
  High :: int
  Medium :: int
  Low :: int

record MetricsSnapshot =
  Uptime :: string
  UptimeSeconds :: int
  SRequestsTotal :: int
  SRequestsOK :: int
  SRequestsErr :: int
  SProviderUploads :: int
  SProviderDownloads :: int
  SModuleUploads :: int
  SModuleDownloads :: int
  SAuthFailures :: int
  SRateLimitHits :: int
  SScanQueuedTotal :: int
  SScanCompletedTotal :: int
  SScanErrorTotal :: int
  SScanQueueDepth :: int
  SScanRunning :: int
  SScanFindings :: FindingCounts

text \<open>\<^verbatim>\<open>int64(uptime.Seconds())\<close> truncates; the uptime is not negative.\<close>

definition Snapshot :: "int \<Rightarrow> RegistryMetrics \<Rightarrow> MetricsSnapshot" where
  "Snapshot now m =
     (let uptime = now - startTime m in
      \<lparr>Uptime = durationString (roundToSecond uptime),
       UptimeSeconds = (if uptime < 0 then - ((- uptime) div secondNanos) else uptime div secondNanos),
       SRequestsTotal = sint (RequestsTotal m), SRequestsOK = sint (RequestsOK m),
       SRequestsErr = sint (RequestsErr m), SProviderUploads = sint (ProviderUploads m),
       SProviderDownloads = sint (ProviderDownloads m), SModuleUploads = sint (ModuleUploads m),
       SModuleDownloads = sint (ModuleDownloads m), SAuthFailures = sint (AuthFailures m),
       SRateLimitHits = sint (RateLimitHits m), SScanQueuedTotal = sint (ScanQueuedTotal m),
       SScanCompletedTotal = sint (ScanCompletedTotal m), SScanErrorTotal = sint (ScanErrorTotal m),
       SScanQueueDepth = sint (ScanQueueDepth m), SScanRunning = sint (ScanRunning m),
       SScanFindings = \<lparr>Critical = sint (ScanFindingsCritical m), High = sint (ScanFindingsHigh m),
                        Medium = sint (ScanFindingsMedium m), Low = sint (ScanFindingsLow m)\<rparr>\<rparr>)"

definition jsonInt :: "int \<Rightarrow> json" where
  "jsonInt i = JNum (showInt i)"

definition encodeFindingCounts :: "FindingCounts \<Rightarrow> json" where
  "encodeFindingCounts c =
     JObj [(''critical'', jsonInt (Critical c)), (''high'', jsonInt (High c)), (''medium'', jsonInt (Medium c)),
           (''low'', jsonInt (Low c))]"

definition encodeMetricsSnapshot :: "MetricsSnapshot \<Rightarrow> json" where
  "encodeMetricsSnapshot s =
     JObj [(''uptime'', JStr (Uptime s)), (''uptime_seconds'', jsonInt (UptimeSeconds s)),
           (''requests_total'', jsonInt (SRequestsTotal s)), (''requests_ok'', jsonInt (SRequestsOK s)),
           (''requests_err'', jsonInt (SRequestsErr s)), (''provider_uploads'', jsonInt (SProviderUploads s)),
           (''provider_downloads'', jsonInt (SProviderDownloads s)), (''module_uploads'', jsonInt (SModuleUploads s)),
           (''module_downloads'', jsonInt (SModuleDownloads s)), (''auth_failures'', jsonInt (SAuthFailures s)),
           (''rate_limit_hits'', jsonInt (SRateLimitHits s)), (''scan_queued_total'', jsonInt (SScanQueuedTotal s)),
           (''scan_completed_total'', jsonInt (SScanCompletedTotal s)), (''scan_error_total'', jsonInt (SScanErrorTotal s)),
           (''scan_queue_depth'', jsonInt (SScanQueueDepth s)), (''scan_running'', jsonInt (SScanRunning s)),
           (''scan_findings'', encodeFindingCounts (SScanFindings s))]"

section \<open>The exposition format\<close>

text \<open>A metric of the text format: its name, help text and type, and the samples with their labels.\<close>

definition nl :: string where "nl = [CHR 0x0A]"

definition promMetric :: "string \<Rightarrow> string \<Rightarrow> string \<Rightarrow> (string \<times> int) list \<Rightarrow> string" where
  "promMetric name help kind samples =
     ''# HELP terraform_registry_'' @ name @ '' '' @ help @ nl @
     ''# TYPE terraform_registry_'' @ name @ '' '' @ kind @ nl @
     concat (map (\<lambda>(label, v). ''terraform_registry_'' @ name @ label @ '' '' @ showInt v @ nl) samples)"

definition severity :: "string \<Rightarrow> string" where
  "severity s = ''{severity='' @ [CHR 0x22] @ s @ [CHR 0x22] @ ''}''"

definition PrometheusFormat :: "int \<Rightarrow> RegistryMetrics \<Rightarrow> string" where
  "PrometheusFormat now m =
     (let snap = Snapshot now m in
      promMetric ''requests_total'' ''Total HTTP requests'' ''counter'' [([], SRequestsTotal snap)] @
      promMetric ''requests_ok'' ''Successful HTTP requests'' ''counter'' [([], SRequestsOK snap)] @
      promMetric ''requests_err'' ''Error HTTP requests'' ''counter'' [([], SRequestsErr snap)] @
      promMetric ''provider_uploads'' ''Total provider uploads'' ''counter'' [([], SProviderUploads snap)] @
      promMetric ''provider_downloads'' ''Total provider downloads'' ''counter'' [([], SProviderDownloads snap)] @
      promMetric ''module_uploads'' ''Total module uploads'' ''counter'' [([], SModuleUploads snap)] @
      promMetric ''module_downloads'' ''Total module downloads'' ''counter'' [([], SModuleDownloads snap)] @
      promMetric ''auth_failures'' ''Total authentication failures'' ''counter'' [([], SAuthFailures snap)] @
      promMetric ''rate_limit_hits'' ''Total rate limit hits'' ''counter'' [([], SRateLimitHits snap)] @
      promMetric ''uptime_seconds'' ''Uptime in seconds'' ''gauge'' [([], UptimeSeconds snap)] @
      promMetric ''scan_queue_depth'' ''Security scan jobs waiting'' ''gauge'' [([], SScanQueueDepth snap)] @
      promMetric ''scan_queued_total'' ''Security scan jobs queued'' ''counter'' [([], SScanQueuedTotal snap)] @
      promMetric ''scan_running'' ''Security scans currently running'' ''gauge'' [([], SScanRunning snap)] @
      promMetric ''scan_completed_total'' ''Completed security scans'' ''counter'' [([], SScanCompletedTotal snap)] @
      promMetric ''scan_errors_total'' ''Failed security scans'' ''counter'' [([], SScanErrorTotal snap)] @
      promMetric ''scan_findings_total'' ''Security findings observed by severity'' ''counter''
        [(severity ''critical'', Critical (SScanFindings snap)), (severity ''high'', High (SScanFindings snap)),
         (severity ''medium'', Medium (SScanFindings snap)), (severity ''low'', Low (SScanFindings snap))])"

section \<open>The handlers\<close>

text \<open>The hand-written substring search, index by index.\<close>

definition substr :: "string \<Rightarrow> nat \<Rightarrow> nat \<Rightarrow> string" where
  "substr s i n = take n (drop i s)"

definition containsSubstr :: "string \<Rightarrow> string \<Rightarrow> bool" where
  "containsSubstr s sub =
     list_ex (\<lambda>i. substr s (nat i) (length sub) = sub) [0..int (length s) - int (length sub)]"

definition containsText :: "string \<Rightarrow> string \<Rightarrow> bool" where
  "containsText s sub \<longleftrightarrow>
     length s \<ge> length sub \<and> (s = sub \<or> length s > 0 \<and> containsSubstr s sub)"

definition metricsHandler :: "request \<Rightarrow> response io" where
  "metricsHandler r =
     do { now \<leftarrow> timeNow;
          m \<leftarrow> State (\<lambda>w. (metrics w, w));
          State_Monad.return
            \<lparr>status = 200, respHeader = [(''Content-Type'', ''application/json'')],
             respBody = Sent (encodeLine (encodeMetricsSnapshot (Snapshot now m)))\<rparr> }"

definition prometheusHandler :: "request \<Rightarrow> response io" where
  "prometheusHandler r =
     (if containsText (headerGet r ''Accept'') ''text/plain'' \<or> containsText (headerGet r ''Accept'') ''openmetrics'' then
        do { now \<leftarrow> timeNow;
             m \<leftarrow> State (\<lambda>w. (metrics w, w));
             State_Monad.return
               \<lparr>status = 200, respHeader = [(''Content-Type'', ''text/plain; version=0.0.4; charset=utf-8'')],
                respBody = Sent (PrometheusFormat now m)\<rparr> }
      else metricsHandler r)"

section \<open>Properties\<close>

lemma containsStr_iff: "containsStr s p \<longleftrightarrow> (\<exists>i \<le> length s - length p. length p \<le> length s \<and> take (length p) (drop i s) = p)"
proof (induction s)
  case Nil
  then show ?case by auto
next
  case (Cons c s)
  have "(\<exists>i \<le> length (c # s) - length p. length p \<le> length (c # s) \<and> take (length p) (drop i (c # s)) = p) \<longleftrightarrow>
      take (length p) (c # s) = p \<or> (\<exists>i \<le> length s - length p. length p \<le> length s \<and> take (length p) (drop i s) = p)"
    (is "?L \<longleftrightarrow> ?A \<or> ?B")
  proof
    assume ?L
    then obtain i where i: "i \<le> length (c # s) - length p" "length p \<le> length (c # s)" "take (length p) (drop i (c # s)) = p" by blast
    show "?A \<or> ?B"
    proof (cases i)
      case (Suc j)
      then have "j \<le> length s - length p" "length p \<le> length s" using i by auto
      then show ?thesis using i Suc by auto
    qed (use i in simp)
  next
    assume "?A \<or> ?B"
    then show ?L
    proof
      assume a: ?A
      then have "length p \<le> length (c # s)" by (metis length_take min.absorb_iff2 min.commute)
      then show ?L using a by (intro exI [of _ 0]) simp
    next
      assume ?B
      then obtain i where "i \<le> length s - length p" "length p \<le> length s" "take (length p) (drop i s) = p" by blast
      then show ?L by (intro exI [of _ "Suc i"]) auto
    qed
  qed
  then show ?case using Cons by (simp add: hasPrefix_def)
qed

text \<open>
  The hand-written substring test of the metrics handler agrees with \<^verbatim>\<open>strings.Contains\<close> on every input.
\<close>

theorem contains_correct: "containsText s sub \<longleftrightarrow> containsStr s sub"
proof -
  have "containsSubstr s sub \<longleftrightarrow> containsStr s sub" if "length sub \<le> length s"
  proof -
    have "containsSubstr s sub \<longleftrightarrow> (\<exists>i. 0 \<le> i \<and> i \<le> int (length s) - int (length sub) \<and> take (length sub) (drop (nat i) s) = sub)"
      by (auto simp: containsSubstr_def substr_def list_ex_iff)
    also have "\<dots> \<longleftrightarrow> (\<exists>i \<le> length s - length sub. take (length sub) (drop i s) = sub)"
    proof
      assume "\<exists>i. 0 \<le> i \<and> i \<le> int (length s) - int (length sub) \<and> take (length sub) (drop (nat i) s) = sub"
      then obtain i where "0 \<le> i" "i \<le> int (length s) - int (length sub)" "take (length sub) (drop (nat i) s) = sub" by blast
      then show "\<exists>i \<le> length s - length sub. take (length sub) (drop i s) = sub" by (intro exI [of _ "nat i"]) auto
    next
      assume "\<exists>i \<le> length s - length sub. take (length sub) (drop i s) = sub"
      then obtain i where "i \<le> length s - length sub" "take (length sub) (drop i s) = sub" by blast
      then show "\<exists>i. 0 \<le> i \<and> i \<le> int (length s) - int (length sub) \<and> take (length sub) (drop (nat i) s) = sub"
        using that by (intro exI [of _ "int i"]) auto
    qed
    finally show ?thesis using that by (auto simp: containsStr_iff)
  qed
  moreover have "containsStr s sub \<Longrightarrow> length sub \<le> length s" by (auto simp: containsStr_iff)
  moreover have "containsStr s s" by (auto simp: containsStr_iff)
  ultimately show ?thesis by (auto simp: containsText_def)
qed

end
