(* ===== verification/Server.thy ===== *)
theory Server
  imports Management Auth Limiter Metrics
begin

text \<open>
  The server: the middleware of \<^verbatim>\<open>registry-server/middleware.go\<close>, \<^verbatim>\<open>auth.go\<close>, \<^verbatim>\<open>metrics.go\<close> and
  \<^verbatim>\<open>validation.go\<close>, the routes and the order in which \<^verbatim>\<open>main\<close> chains the middleware, and the web interface.
  Matching a request against the routes is the work of \<^verbatim>\<open>gorilla/mux\<close>, which is not part of the repository:
  \<open>muxMatch\<close> stands for it.
\<close>

section \<open>State\<close>

text \<open>An entry of the audit log; its layout as text is left out.\<close>

record AuditEntry =
  auditTime :: int
  auditEvent :: string
  auditKey :: string
  auditMethod :: string
  auditPath :: string
  auditRemote :: string
  auditStatus :: nat
  auditDetail :: string

text \<open>\<open>auditFile\<close> is what was written to the audit file, if there is one.\<close>

record Server =
  os :: world
  keyStore :: KeyStore
  limiter :: RateLimiter
  auditFile :: "AuditEntry list option"

type_synonym 'a srv = "(Server, 'a) state"
type_synonym handler = "request \<Rightarrow> response srv"

definition liftIO :: "'a io \<Rightarrow> 'a srv" where
  "liftIO m = State (\<lambda>sv. case run_state m (os sv) of (r, w) \<Rightarrow> (r, sv\<lparr>os := w\<rparr>))"

text \<open>A program that passes the key store along.\<close>

definition withKeys :: "(KeyStore \<Rightarrow> (KeyStore \<times> 'a) io) \<Rightarrow> 'a srv" where
  "withKeys m = State (\<lambda>sv.
     case run_state (m (keyStore sv)) (os sv) of ((ks, r), w) \<Rightarrow> (r, sv\<lparr>os := w, keyStore := ks\<rparr>))"

section \<open>Middleware\<close>

definition metricsMiddleware :: "handler \<Rightarrow> handler" where
  "metricsMiddleware next r =
     do { liftIO (tick RequestsTotal_update);
          resp \<leftarrow> next r;
          liftIO (if status resp < 400 then tick RequestsOK_update else tick RequestsErr_update);
          State_Monad.return resp }"

definition securityHeaders :: "(string \<times> string) list" where
  "securityHeaders =
     [(''X-Content-Type-Options'', ''nosniff''), (''X-Frame-Options'', ''DENY''), (''Referrer-Policy'', ''no-referrer''),
      (''Content-Security-Policy'',
       ''default-src '' @ quoted ''self'' @ ''; style-src '' @ quoted ''self'' @ '' '' @ quoted ''unsafe-inline'' @
       ''; script-src '' @ quoted ''self'' @ ''; img-src '' @ quoted ''self'' @ '' data:; object-src '' @ quoted ''none'' @
       ''; frame-ancestors '' @ quoted ''none'' @ ''; base-uri '' @ quoted ''none'')]"

text \<open>Headers that were set before the handler ran, which the handler may have set again.\<close>

definition withHeaders :: "(string \<times> string) list \<Rightarrow> response \<Rightarrow> response" where
  "withHeaders hs resp =
     resp\<lparr>respHeader := filter (\<lambda>(k, _). k \<notin> fst ` set (respHeader resp)) hs @ respHeader resp\<rparr>"

definition securityHeadersMiddleware :: "handler \<Rightarrow> handler" where
  "securityHeadersMiddleware next r = do { resp \<leftarrow> next r; State_Monad.return (withHeaders securityHeaders resp) }"

text \<open>The host of \<^verbatim>\<open>net.SplitHostPort\<close>, or \<open>None\<close> for its error.\<close>

definition splitHostPort :: "string \<Rightarrow> string option" where
  "splitHostPort hostport =
     (case cutAt CHR '':'' (rev hostport) of (_, revHost, found) \<Rightarrow>
        if \<not> found then None
        else if hasPrefix hostport ''['' then
          (case cutAt CHR '']'' hostport of (inside, after, hasClose) \<Rightarrow>
             if \<not> hasClose \<or> length inside + 1 \<noteq> length revHost then None
             else if CHR ''['' \<in> set (tl hostport) \<or> CHR '']'' \<in> set after then None
             else Some (tl inside))
        else if CHR '':'' \<in> set revHost \<or> CHR ''['' \<in> set hostport \<or> CHR '']'' \<in> set hostport then None
        else Some (rev revHost))"

definition clientAddress :: "RateLimiter \<Rightarrow> request \<Rightarrow> string" where
  "clientAddress rl r =
     (let ip = (case splitHostPort (remoteAddr r) of Some host \<Rightarrow> host | None \<Rightarrow> remoteAddr r);
          xff = headerGet r ''X-Forwarded-For''; xri = headerGet r ''X-Real-Ip'' in
      if \<not> trustProxy rl then ip
      else if xri \<noteq> [] then xri
      else if xff \<noteq> [] then hd (splitAt CHR '','' xff)
      else ip)"

definition retryAfter :: "RateLimiter \<Rightarrow> int" where
  "retryAfter rl = max 1 (window rl div secondNanos)"

definition rateLimitMiddleware :: "handler \<Rightarrow> handler" where
  "rateLimitMiddleware next r =
     do { ok \<leftarrow> State (\<lambda>sv. case allow (clock (os sv)) (clientAddress (limiter sv) r) (limiter sv) of
                   (ok, rl) \<Rightarrow> (ok, sv\<lparr>limiter := rl\<rparr>));
          if \<not> ok then
            do { liftIO (tick RateLimitHits_update);
                 rl \<leftarrow> State (\<lambda>sv. (limiter sv, sv));
                 State_Monad.return
                   (withHeaders [(''Retry-After'', showInt (retryAfter rl))] (httpJSONError 429 ''Rate limit exceeded'')) }
          else next r }"

definition Log :: "string \<Rightarrow> string \<Rightarrow> string \<Rightarrow> string \<Rightarrow> string \<Rightarrow> nat \<Rightarrow> string \<Rightarrow> unit srv" where
  "Log event keyName method path remote code detail = State (\<lambda>sv.
     ((), sv\<lparr>auditFile := map_option (\<lambda>es. es @ [\<lparr>auditTime = clock (os sv), auditEvent = event,
        auditKey = keyName, auditMethod = method, auditPath = path, auditRemote = remote, auditStatus = code,
        auditDetail = detail\<rparr>]) (auditFile sv)\<rparr>))"

definition auditMiddleware :: "(string \<Rightarrow> string option) \<Rightarrow> handler \<Rightarrow> handler" where
  "auditMiddleware timeJSON next r =
     (if \<not> hasPrefix (urlPath r) ''/api/v1/'' then next r
      else
        do { keyName \<leftarrow>
               (if extractAPIKey r \<noteq> [] then
                  do { ak \<leftarrow> withKeys (\<lambda>ks. Validate timeJSON ks (extractAPIKey r));
                       State_Monad.return (case ak of Some k \<Rightarrow> KName k | None \<Rightarrow> ''anonymous'') }
                else State_Monad.return ''anonymous'');
             resp \<leftarrow> next r;
             Log ''api_request'' keyName (reqMethod r) (urlPath r) (remoteAddr r) (status resp)
               (reqMethod r @ '' '' @ urlPath r);
             State_Monad.return resp })"

definition authMiddleware :: "(string \<Rightarrow> string option) \<Rightarrow> handler \<Rightarrow> handler" where
  "authMiddleware timeJSON next r =
     (if isPublic r then next r
      else if extractAPIKey r = [] then
        do { liftIO (tick AuthFailures_update);
             State_Monad.return
               (httpJSONError 401 ''API key required. Set X-API-Key or Authorization: Bearer header.'') }
      else
        do { ok \<leftarrow> withKeys (\<lambda>ks. HasPermission timeJSON ks (extractAPIKey r) (requiredPermission r));
             if \<not> ok then
               do { liftIO (tick AuthFailures_update);
                    withKeys (\<lambda>ks. Validate timeJSON ks (extractAPIKey r));
                    State_Monad.return
                      (httpJSONError 403 (''Insufficient permissions. Required: '' @ requiredPermission r)) }
             else next r })"

definition routeValidationMiddleware :: "handler \<Rightarrow> handler" where
  "routeValidationMiddleware next r =
     (case routeValidation (pathVars r) of
        Some key \<Rightarrow> State_Monad.return (httpJSONError 400 (''Invalid '' @ key))
      | None \<Rightarrow> next r)"

section \<open>Routes\<close>

datatype endpoint =
    EWellKnown | EProviderVersions | EProviderDownload | EMirrorIndex | EMirrorVersion
  | EModuleVersions | EModuleDownload | EModuleLatest | EFileDownload | EHealth | EMetrics
  | EStats | EListProviders | EGetProvider | EUploadProvider | EDeleteProvider | EDeprecateProvider
  | EListModules | EGetModule | EUploadModule | EDeleteModule | EDeprecateModule | EGC | EUI | ERoot

text \<open>
  The routes in the order of registration: the method, or \<open>None\<close> where the route has no method matcher,
  the template, and the handler.
\<close>

definition routes :: "(string option \<times> string \<times> endpoint) list" where
  "routes =
     [(Some ''GET'', ''/.well-known/terraform.json'', EWellKnown),
      (Some ''GET'', ''/v1/providers/{namespace}/{type}/versions'', EProviderVersions),
      (Some ''GET'', ''/v1/providers/{namespace}/{type}/{version}/download/{os}/{arch}'', EProviderDownload),
      (Some ''GET'', ''/{hostname}/{namespace}/{type}/index.json'', EMirrorIndex),
      (Some ''GET'', ''/{hostname}/{namespace}/{type}/{version}.json'', EMirrorVersion),
      (Some ''GET'', ''/v1/modules/{namespace}/{name}/{provider}/versions'', EModuleVersions),
      (Some ''GET'', ''/v1/modules/{namespace}/{name}/{provider}/{version}/download'', EModuleDownload),
      (Some ''GET'', ''/v1/modules/{namespace}/{name}/{provider}/download'', EModuleLatest),
      (Some ''GET'', ''/download/{path:.*}'', EFileDownload),
      (Some ''GET'', ''/health'', EHealth),
      (Some ''GET'', ''/metrics'', EMetrics),
      (Some ''GET'', ''/api/v1/stats'', EStats),
      (Some ''GET'', ''/api/v1/providers'', EListProviders),
      (Some ''GET'', ''/api/v1/providers/{namespace}/{name}'', EGetProvider),
      (Some ''POST'', ''/api/v1/providers/{namespace}/{name}/{version}/{os}/{arch}'', EUploadProvider),
      (Some ''DELETE'', ''/api/v1/providers/{namespace}/{name}/{version}'', EDeleteProvider),
      (Some ''POST'', ''/api/v1/providers/{namespace}/{name}/{version}/deprecate'', EDeprecateProvider),
      (Some ''GET'', ''/api/v1/modules'', EListModules),
      (Some ''GET'', ''/api/v1/modules/{namespace}/{name}/{provider}'', EGetModule),
      (Some ''POST'', ''/api/v1/modules/{namespace}/{name}/{provider}/{version}'', EUploadModule),
      (Some ''DELETE'', ''/api/v1/modules/{namespace}/{name}/{provider}/{version}'', EDeleteModule),
      (Some ''POST'', ''/api/v1/modules/{namespace}/{name}/{provider}/{version}/deprecate'', EDeprecateModule),
      (Some ''POST'', ''/api/v1/gc'', EGC),
      (None, ''/ui'', EUI),
      (None, ''/'', ERoot)]"

text \<open>The embedded files of the web interface.\<close>

record uiFiles =
  uiIndexHTML :: bytes
  uiStyleCSS :: bytes
  uiAppJS :: bytes

definition uiHandler :: "uiFiles \<Rightarrow> request \<Rightarrow> response io" where
  "uiHandler ui r =
     (let path = urlPath r;
          page = (\<lambda>ct b. \<lparr>status = 200, respHeader = [(''Content-Type'', ct)], respBody = Sent b\<rparr>) in
      State_Monad.return
        (if path = ''/ui'' \<or> path = ''/ui/'' \<or> path = ''/ui/index.html'' then page ''text/html; charset=utf-8'' (uiIndexHTML ui)
         else if hasSuffix path ''/ui/style.css'' then page ''text/css; charset=utf-8'' (uiStyleCSS ui)
         else if hasSuffix path ''/ui/app.js'' then page ''application/javascript; charset=utf-8'' (uiAppJS ui)
         else page ''text/html; charset=utf-8'' (uiIndexHTML ui)))"

text \<open>The redirect of the root; the body of \<^verbatim>\<open>http.Redirect\<close> is left out.\<close>

definition rootHandler :: "request \<Rightarrow> response io" where
  "rootHandler r = State_Monad.return \<lparr>status = 302, respHeader = [(''Location'', ''/ui'')], respBody = Sent []\<rparr>"

text \<open>A handler that waits for a lock it holds never answers; the state then says that the program is stuck.\<close>

definition unanswered :: response where
  "unanswered = \<lparr>status = 0, respHeader = [], respBody = Sent []\<rparr>"

definition answered :: "response result io \<Rightarrow> response io" where
  "answered m = do { r \<leftarrow> m; State_Monad.return (case r of Inl _ \<Rightarrow> unanswered | Inr resp \<Rightarrow> resp) }"

fun dispatch :: "Registry \<Rightarrow> uiFiles \<Rightarrow> endpoint \<Rightarrow> request \<Rightarrow> response io" where
  "dispatch g ui EWellKnown r = wellKnownHandler r"
| "dispatch g ui EProviderVersions r = providerVersionsHandler (store g) r"
| "dispatch g ui EProviderDownload r = providerDownloadHandler (store g) (signer g) r"
| "dispatch g ui EMirrorIndex r = networkMirrorIndexHandler (store g) r"
| "dispatch g ui EMirrorVersion r = networkMirrorVersionHandler (store g) r"
| "dispatch g ui EModuleVersions r = moduleVersionsHandler (store g) r"
| "dispatch g ui EModuleDownload r = moduleDownloadHandler (store g) r"
| "dispatch g ui EModuleLatest r = moduleLatestDownloadHandler (store g) r"
| "dispatch g ui EFileDownload r = fileDownloadHandler (store g) r"
| "dispatch g ui EHealth r = healthHandler (osText g) (store g) r"
| "dispatch g ui EMetrics r = prometheusHandler r"
| "dispatch g ui EStats r = registryStatsHandler g r"
| "dispatch g ui EListProviders r = listProvidersHandler g r"
| "dispatch g ui EGetProvider r = getProviderHandler g r"
| "dispatch g ui EUploadProvider r = answered (uploadProviderHandler g r)"
| "dispatch g ui EDeleteProvider r = answered (deleteProviderVersionHandler g r)"
| "dispatch g ui EDeprecateProvider r = answered (deprecateProviderHandler g r)"
| "dispatch g ui EListModules r = listModulesHandler g r"
| "dispatch g ui EGetModule r = getModuleHandler g r"
| "dispatch g ui EUploadModule r = answered (uploadModuleHandler g r)"
| "dispatch g ui EDeleteModule r = answered (deleteModuleVersionHandler g r)"
| "dispatch g ui EDeprecateModule r = answered (deprecateModuleHandler g r)"
| "dispatch g ui EGC r = answered (gcHandler g r)"
| "dispatch g ui EUI r = uiHandler ui r"
| "dispatch g ui ERoot r = rootHandler r"

text \<open>
  One request.  The router answers a request without a route itself, without any middleware; \<open>notFound\<close> is
  its answer.
\<close>

type_synonym muxMatch = "(string option \<times> string \<times> endpoint) list \<Rightarrow> request \<Rightarrow> (endpoint \<times> (string \<times> string) list) option"

definition chain :: "(string \<Rightarrow> string option) \<Rightarrow> handler \<Rightarrow> handler" where
  "chain timeJSON h =
     metricsMiddleware (securityHeadersMiddleware (rateLimitMiddleware
       (auditMiddleware timeJSON (authMiddleware timeJSON (routeValidationMiddleware h)))))"

definition serve ::
  "muxMatch \<Rightarrow> (request \<Rightarrow> response) \<Rightarrow> (string \<Rightarrow> string option) \<Rightarrow> Registry \<Rightarrow> uiFiles \<Rightarrow> handler" where
  "serve mux notFound timeJSON g ui r =
     (case mux routes r of
        None \<Rightarrow> State_Monad.return (notFound r)
      | Some (e, vars) \<Rightarrow> chain timeJSON (\<lambda>r. liftIO (dispatch g ui e r)) (r\<lparr>pathVars := vars\<rparr>))"

end
