(* ===== verification/Frames.thy ===== *)
theory Frames
  imports Server
begin

text \<open>
  What no handler touches: every program of the registry returns with the mutexes it found locked, never waits
  for one it holds, and leaves the request counters and the clock alone.  One traversal of all programs proves
  it; the deadlock freedom of the server and the balance of its counters follow.
\<close>

section \<open>Frames\<close>

definition requestCounters :: "world \<Rightarrow> 64 word \<times> 64 word \<times> 64 word" where
  "requestCounters w = (RequestsTotal (metrics w), RequestsOK (metrics w), RequestsErr (metrics w))"

definition same :: "world \<Rightarrow> world \<Rightarrow> bool" where
  "same w w' \<longleftrightarrow> held w' = held w \<and> stuck w' = stuck w \<and> requestCounters w' = requestCounters w \<and> clock w' = clock w"

text \<open>\<open>L\<close> are the mutexes the program may lock, which its caller must not hold.\<close>

definition frame :: "string set \<Rightarrow> 'a io \<Rightarrow> bool" where
  "frame L m \<longleftrightarrow> (\<forall>w r w'. set (held w) \<inter> L = {} \<longrightarrow> run_state m w = (r, w') \<longrightarrow> same w w')"

named_theorems framed

lemma frameI: "(\<And>w r w'. set (held w) \<inter> L = {} \<Longrightarrow> run_state m w = (r, w') \<Longrightarrow> same w w') \<Longrightarrow> frame L m"
  by (simp add: frame_def)

lemma frameD: "frame L m \<Longrightarrow> set (held w) \<inter> L = {} \<Longrightarrow> run_state m w = (r, w') \<Longrightarrow> same w w'"
  by (simp add: frame_def)

lemma same_refl [simp]: "same w w"
  by (simp add: same_def)

lemma same_trans: "same w w1 \<Longrightarrow> same w1 w2 \<Longrightarrow> same w w2"
  by (simp add: same_def)

lemma frame_return [framed]: "frame L (State_Monad.return x)"
  by (simp add: frame_def)

lemma frame_bind [framed]:
  assumes "frame L m" "\<And>x. frame L (k x)"
  shows "frame L (State_Monad.bind m k)"
proof (rule frameI)
  fix w r w' assume h: "set (held w) \<inter> L = {}" and run: "run_state (State_Monad.bind m k) w = (r, w')"
  obtain x w1 where 1: "run_state m w = (x, w1)" by (rule prod.exhaust)
  have s: "same w w1" by (rule frameD [OF assms(1) h 1])
  have h1: "set (held w1) \<inter> L = {}" using h s by (simp add: same_def)
  have "run_state (k x) w1 = (r, w')" using run 1 by simp
  then have "same w1 w'" by (rule frameD [OF assms(2) h1])
  with s show "same w w'" by (rule same_trans)
qed

lemma frame_if [framed]: "frame L m \<Longrightarrow> frame L m' \<Longrightarrow> frame L (if b then m else m')"
  by simp

lemma frame_case_sum [framed]:
  "(\<And>e. frame L (g e)) \<Longrightarrow> (\<And>x. frame L (h x)) \<Longrightarrow> frame L (case r of Inl e \<Rightarrow> g e | Inr x \<Rightarrow> h x)"
  by (cases r) auto

lemma frame_case_option [framed]:
  "frame L g \<Longrightarrow> (\<And>x. frame L (h x)) \<Longrightarrow> frame L (case r of None \<Rightarrow> g | Some x \<Rightarrow> h x)"
  by (cases r) auto

lemma frame_case_prod [framed]: "(\<And>a b. frame L (g a b)) \<Longrightarrow> frame L (case p of (a, b) \<Rightarrow> g a b)"
  by (cases p) auto

lemma frame_let [framed]: "frame L (g t) \<Longrightarrow> frame L (let x = t in g x)"
  by (simp add: Let_def)

lemma frame_bindR [framed]: "frame L m \<Longrightarrow> (\<And>x. frame L (k x)) \<Longrightarrow> frame L (bindR m k)"
  unfolding bindR_def by (intro framed)

lemma frame_wrapErr [framed]: "frame L m \<Longrightarrow> frame L (wrapErr fmt args m)"
  unfolding wrapErr_def by (intro framed)

lemma frame_onErr [framed]: "frame L m \<Longrightarrow> frame L c \<Longrightarrow> frame L (onErr m c)"
  unfolding onErr_def by (intro framed)

lemma frame_ignore [framed]: "frame L m \<Longrightarrow> frame L (ignore m)"
  unfolding ignore_def by (intro framed)

lemma frame_finally [framed]: "frame L m \<Longrightarrow> frame L c \<Longrightarrow> frame L (finally_do m c)"
  unfolding finally_do_def by (intro framed)

lemma frame_withLock [framed]:
  assumes "key \<in> L" "frame (L - {key}) m"
  shows "frame L (withLock key m)"
proof (rule frameI)
  fix w r w' assume h: "set (held w) \<inter> L = {}" and run: "run_state (withLock key m) w = (r, w')"
  have free: "key \<notin> set (held w)" using h assms(1) by blast
  obtain r1 w1 where 1: "run_state m (w\<lparr>held := key # held w\<rparr>) = (r1, w1)" by (rule prod.exhaust)
  have "same (w\<lparr>held := key # held w\<rparr>) w1" by (rule frameD [OF assms(2) _ 1]) (use h in auto)
  then show "same w w'"
    using run 1 free by (auto simp: withLock_def same_def requestCounters_def)
qed

section \<open>Calls\<close>

lemma frame_syscall:
  assumes "\<And>k w. same w (part k w)" "\<And>w r w'. act w = (r, w') \<Longrightarrow> same w w'"
  shows "frame L (syscall part act)"
proof (rule frameI)
  fix w r w' assume run: "run_state (syscall part act) w = (r, w')"
  show "same w w'"
  proof (cases "faults w")
    case Nil
    then show ?thesis using run assms(2) by (auto simp: syscall_def split: if_splits)
  next
    case (Cons x fls)
    have "same w (w\<lparr>faults := fls\<rparr>)" by (simp add: same_def requestCounters_def)
    then show ?thesis
      using run Cons assms(1) assms(2) [of "w\<lparr>faults := fls\<rparr>"]
      by (cases x) (auto simp: syscall_def same_def requestCounters_def split: if_splits)
  qed
qed

lemma frame_query [framed]: "frame L (query q)"
  unfolding query_def by (rule frame_syscall) auto

lemma frame_reads [framed]:
  "frame L (osStat p)" "frame L (osLstat p)" "frame L (osEvalSymlinks p)" "frame L (osReadFile p)"
  "frame L (osClose h)" "frame L (osChmod h)" "frame L (osSeekStart h)" "frame L (osReadDir p)" "frame L (osWalk p)"
  "frame L (osOpen p)" "frame L (osFstat h)"
  unfolding osStat_def osLstat_def osEvalSymlinks_def osReadFile_def osClose_def osChmod_def osSeekStart_def
    osReadDir_def osWalk_def osOpen_def osFstat_def
  by (rule frame_query)+

lemma same_fs: "same w (w\<lparr>fs := f\<rparr>)" "same w (w\<lparr>rand := rs\<rparr>)" "same w (w\<lparr>fs := f, rand := rs\<rparr>)"
  by (simp_all add: same_def requestCounters_def)

lemma same_append: "same w (appendData h data w)" "same w (removeFirst p k w)"
  by (simp_all add: appendData_def removeFirst_def same_fs Let_def split: option.split node.split sum.split)

lemma frame_writes [framed]:
  "frame L (osMkdir p)" "frame L (osOpenFile p)" "frame L (osWrite h data)" "frame L (osSync h)"
  "frame L (osRename p p')" "frame L (osRemove p)" "frame L (osRemoveAll p)" "frame L (osCreateTemp p prfx sufx)"
  unfolding osMkdir_def osOpenFile_def osWrite_def osSync_def osRename_def osRemove_def osRemoveAll_def osCreateTemp_def
  by (rule frame_syscall;
      auto simp: same_fs same_append renameAct_def split: sum.splits option.splits node.splits if_splits prod.splits)+

lemma frame_mkdirAllRev: "frame L (mkdirAllRev rp)"
proof (induction rp)
  case (Cons c rp)
  then show ?case unfolding mkdirAllRev.simps by (intro framed)
qed (simp add: frame_return)

lemma frame_mkdirAll [framed]: "frame L (osMkdirAll p)"
  unfolding osMkdirAll_def by (rule frame_mkdirAllRev)

lemma frame_now [framed]: "frame L timeNow"
  by (simp add: frame_def timeNow_def)

lemma frame_look [framed]: "frame L (State (\<lambda>w. (h w, w)))"
  by (simp add: frame_def)

lemma frame_tick [framed]:
  "frame L (tick ProviderUploads_update)" "frame L (tick ProviderDownloads_update)"
  "frame L (tick ModuleUploads_update)" "frame L (tick ModuleDownloads_update)"
  "frame L (tick AuthFailures_update)" "frame L (tick RateLimitHits_update)"
  by (simp_all add: frame_def tick_def same_def requestCounters_def)

section \<open>The store\<close>

lemma frame_rejectSymlinkEscapeRev: "frame L (rejectSymlinkEscapeRev s rp)"
proof (induction rp)
  case Nil
  show ?case unfolding rejectSymlinkEscapeRev.simps by (intro framed)
next
  case (Cons c rp)
  then show ?case unfolding rejectSymlinkEscapeRev.simps by (intro framed)
qed

lemma frame_resolve [framed]: "frame L (resolve s key)"
  unfolding resolve_def rejectSymlinkEscape_def by (intro framed frame_rejectSymlinkEscapeRev)

lemma frame_runValidator [framed]: "frame L (runValidator v f)"
  by (auto simp: frame_def runValidator_def split: option.splits)

lemma frame_copyToFile [framed]: "frame L (copyToFile f r limit)"
  unfolding copyToFile_def by (intro framed)

lemma frame_cleanEmptyParents [framed]: "frame L (cleanEmptyParents base rp)"
proof (induction rp)
  case (Cons c rp)
  then show ?case unfolding cleanEmptyParents.simps by (intro framed)
qed (simp add: frame_return)

lemma frame_collect [framed]: "frame L (collect base cutoff n es)"
proof (induction es arbitrary: n)
  case (Cons e es)
  then show ?case by (cases e) (simp add: frame_if frame_bind frame_case_sum frame_return frame_writes Let_def)
qed (simp add: frame_return)

lemma frame_store [framed]:
  "frame L (Get s key)" "frame L (Open s key)" "frame L (List s key d)" "frame L (Exists s key)"
  "frame L (putUnlocked s key data)" "frame L (HealthCheck s)" "frame L (GarbageCollect s)"
  "frame L (StageDeleteTree s key)" "frame L (rollbackDelete sd)" "frame L (commitDelete sd)"
  unfolding Get_def Open_def List_def Exists_def putUnlocked_def putResolved_def writeAndPublish_def HealthCheck_def
    GarbageCollect_def StageDeleteTree_def rollbackDelete_def commitDelete_def
  by (intro framed)+

lemma frame_locking [framed]:
  "key \<in> L \<Longrightarrow> frame L (Put s key data)"
  "key \<in> L \<Longrightarrow> frame L (Delete s key)"
  "key \<in> L \<Longrightarrow> frame L (PutStreamValidated s key r m v)"
  "(\<And>d. dest d \<in> L) \<Longrightarrow> frame L (PutStreamImmutable s r m v dest)"
  unfolding Put_def Delete_def PutStreamValidated_def PutStreamImmutable_def
  by (intro framed; assumption?)+

lemma frame_getIndex [framed]: "frame L (getIndex s key)"
  unfolding getIndex_def by (intro framed)

lemma frame_indexes [framed]:
  "key \<in> L \<Longrightarrow> frame L (addVersionToIndex s key v)"
  "key \<in> L \<Longrightarrow> frame L (removeVersionFromIndex s key v)"
  "key \<in> L \<Longrightarrow> frame L (setDeprecation s key v msg)"
  unfolding addVersionToIndex_def removeVersionFromIndex_def setDeprecation_def
  by (intro framed; assumption?)+

lemma frame_readPlatforms [framed]: "frame L (readPlatforms s objs)"
proof (induction objs)
  case (Cons c rp)
  then show ?case unfolding readPlatforms.simps by (intro framed)
qed (simp add: frame_return)

lemma frame_scans [framed]:
  "frame L (GetProviderIndex s ns n)" "frame L (GetModuleIndex s ns n p)" "frame L (GetVersionMetadata s key)"
  "frame L (ScanProviderVersions s ns n)" "frame L (ScanModuleVersions s ns n p)" "frame L (GetProviderPlatforms s ns n v)"
  unfolding GetProviderIndex_def GetModuleIndex_def GetVersionMetadata_def ScanProviderVersions_def
    ScanModuleVersions_def GetProviderPlatforms_def
  by (intro framed)+

section \<open>Keys of the store\<close>

text \<open>The names of the store's locks; the mutex of the mutations is none of them.\<close>

definition storeLocks :: "string set" where
  "storeLocks = - {mutationMu}"

lemma storeLocks_keys [framed]:
  "providerVersionPrefix ns n v @ x \<in> storeLocks" "moduleVersionPrefix ns n p v @ x \<in> storeLocks"
  "providerIndexKey ns n \<in> storeLocks" "moduleIndexKey ns n p \<in> storeLocks"
  by (simp_all add: storeLocks_def mutationMu_def providerVersionPrefix_def moduleVersionPrefix_def
    providerIndexKey_def moduleIndexKey_def)

section \<open>Handlers\<close>

lemma frame_isDeprecated [framed]: "frame L (isDeprecated s key)"
  unfolding isDeprecated_def by (intro framed)

lemma frame_orEmpty [framed]: "frame L m \<Longrightarrow> frame L (orEmpty m)"
  unfolding orEmpty_def by (intro framed)

lemma frame_publishedPlatforms [framed]: "frame L (publishedPlatforms s prfx pms)"
proof (induction pms)
  case (Cons c rp)
  then show ?case unfolding publishedPlatforms.simps by (intro framed)
qed (simp add: frame_return)

lemma frame_Sign [framed]: "frame L (Sign sg data)"
  by (simp add: frame_def Sign_def)

lemma frame_rebuild [framed]: "frame storeLocks (rebuildProviderChecksums s sg ns n v)"
  unfolding rebuildProviderChecksums_def by (intro framed)

lemma frame_moduleArtifactKey [framed]: "frame L (moduleArtifactKey s ns n p v)"
  unfolding moduleArtifactKey_def by (intro framed)

lemma frame_availableVersions [framed]: "frame L (availableVersions s ns n vs)"
proof (induction vs)
  case (Cons c rp)
  then show ?case unfolding availableVersions.simps by (intro framed)
qed (simp add: frame_return)

lemma frame_anyPublished [framed]: "frame L (anyPublished s prfx pms)"
proof (induction pms)
  case (Cons c rp)
  then show ?case unfolding anyPublished.simps by (intro framed)
qed (simp add: frame_return)

lemma frame_mirrorVersions [framed]: "frame L (mirrorVersions s ns n vs m)"
proof (induction vs arbitrary: m)
  case (Cons c rp)
  then show ?case unfolding mirrorVersions.simps by (intro framed)
qed (simp add: frame_return)

lemma frame_mirrorArchives [framed]: "frame L (mirrorArchives s ns n v ps m)"
proof (induction ps arbitrary: m)
  case (Cons c rp)
  then show ?case unfolding mirrorArchives.simps by (intro framed)
qed (simp add: frame_return)

lemma frame_availableModules [framed]: "frame L (availableModules s ns n p vs)"
proof (induction vs)
  case (Cons c rp)
  then show ?case unfolding availableModules.simps by (intro framed)
qed (simp add: frame_return)

lemma frame_latestModule [framed]: "frame L (latestModule s ns n p vs)"
proof (induction vs)
  case (Cons c rp)
  then show ?case unfolding latestModule.simps by (intro framed)
qed (simp add: frame_return)

lemma frame_protocol [framed]:
  "frame L (wellKnownHandler r)" "frame L (providerVersionsHandler s r)" "frame L (providerDownloadHandler s sg r)"
  "frame L (networkMirrorIndexHandler s r)" "frame L (networkMirrorVersionHandler s r)" "frame L (moduleVersionsHandler s r)"
  "frame L (moduleDownloadHandler s r)" "frame L (moduleLatestDownloadHandler s r)" "frame L (fileDownloadHandler s r)"
  "frame L (healthHandler t s r)"
  unfolding wellKnownHandler_def providerVersionsHandler_def providerDownloadHandler_def networkMirrorIndexHandler_def
    networkMirrorVersionHandler_def moduleVersionsHandler_def moduleDownloadHandler_def moduleLatestDownloadHandler_def
    fileDownloadHandler_def healthHandler_def integrityAvailable_def
  by (intro framed)+

lemma frame_mapIO [framed]: "(\<And>x. frame L (f x)) \<Longrightarrow> frame L (mapIO f xs)"
  by (induction xs) (auto intro!: framed)

lemma frame_foldIO [framed]: "(\<And>x s. frame L (f x s)) \<Longrightarrow> frame L (foldIO f xs s)"
  by (induction xs arbitrary: s) (auto intro!: framed)

lemma frame_listing [framed]:
  "frame L (listPrefixes s p)" "frame L (countProvider s ns np p st)" "frame L (countModule s ns n mp p st)"
  "frame L (describeVersion s ns n v)" "frame L (listModule s ns n mp p acc)"
  unfolding listPrefixes_def countProvider_def countModule_def describeVersion_def listModule_def
  by (intro framed)+

lemma frame_describeProvider [framed]: "frame L (describeProvider s ns n)"
  unfolding describeProvider_def by (intro framed)

lemma frame_management_reads [framed]:
  "frame L (registryStatsHandler g r)" "frame L (listProvidersHandler g r)" "frame L (getProviderHandler g r)"
  "frame L (listModulesHandler g r)" "frame L (getModuleHandler g r)"
  unfolding registryStatsHandler_def registryStats_def listProvidersHandler_def getProviderHandler_def
    listModulesHandler_def getModuleHandler_def
  by (intro framed)+

lemma frame_restore [framed]:
  "key \<in> L \<Longrightarrow> frame L (restoreObject s key previous)" "key \<in> L \<Longrightarrow> frame L (deleteUnless s b key)"
  "(\<And>x. prfx @ x \<in> L) \<Longrightarrow> frame L (removeOldArtifact s prfx fn dec previous)"
  unfolding restoreObject_def deleteUnless_def removeOldArtifact_def by (intro framed; assumption?)+

text \<open>The key that \<^verbatim>\<open>PutStreamImmutable\<close> returns is the one computed from the bytes it copied.\<close>

lemma withLock_result: "run_state (withLock key m) w = (Inr x, w') \<Longrightarrow> \<exists>w1 w2. run_state m w1 = (Inr x, w2)"
  by (auto simp: withLock_def split: if_splits prod.splits)

lemma wrapErr_result: "run_state (wrapErr fmt args m) w = (Inr x, w') \<Longrightarrow> run_state m w = (Inr x, w')"
  by (auto simp: wrapErr_def split: prod.splits)

lemma finally_result: "run_state (finally_do m c) w = (x, w') \<Longrightarrow> \<exists>w1. run_state m w = (x, w1)"
  by (auto simp: finally_do_def split: prod.splits)

lemma copyToFile_result: "run_state (copyToFile f r limit) w = (Inr d, w') \<Longrightarrow> d = fst (copyLimited r limit)"
  by (auto simp: copyToFile_def elim!: bindR_success split: prod.splits option.splits)

lemma PutStreamImmutable_key:
  assumes "run_state (PutStreamImmutable s r m v dest) w = (Inr (n, key, existed), w')"
  shows "key = dest (fst (copyLimited r (limitPlusOne m)))"
  using assms unfolding PutStreamImmutable_def
  by (auto elim!: bindR_success dest!: finally_result withLock_result wrapErr_result copyToFile_result
    simp: Let_def split: prod.splits sum.splits if_splits)

lemma frame_bind_result:
  assumes "frame L m" "\<And>w x w'. run_state m w = (x, w') \<Longrightarrow> frame L (k x)"
  shows "frame L (State_Monad.bind m k)"
proof (rule frameI)
  fix w r w' assume h: "set (held w) \<inter> L = {}" and run: "run_state (State_Monad.bind m k) w = (r, w')"
  obtain x w1 where 1: "run_state m w = (x, w1)" by (rule prod.exhaust)
  have s: "same w w1" by (rule frameD [OF assms(1) h 1])
  have h1: "set (held w1) \<inter> L = {}" using h s by (simp add: same_def)
  have "run_state (k x) w1 = (r, w')" using run 1 by simp
  with s frameD [OF assms(2) [OF 1] h1] show "same w w'" by (blast intro: same_trans)
qed

lemma frame_immutable:
  assumes "\<And>d. dest d \<in> L" "\<And>e. frame L (g e)" "\<And>n existed. frame L (h n (dest (fst (copyLimited r (limitPlusOne m)))) existed)"
  shows "frame L (State_Monad.bind (PutStreamImmutable s r m v dest)
    (\<lambda>p. case p of Inl e \<Rightarrow> g e | Inr (n, key, existed) \<Rightarrow> h n key existed))"
proof (rule frame_bind_result)
  show "frame L (PutStreamImmutable s r m v dest)" by (intro framed assms)
  fix w x w' assume run: "run_state (PutStreamImmutable s r m v dest) w = (x, w')"
  show "frame L (case x of Inl e \<Rightarrow> g e | Inr (n, key, existed) \<Rightarrow> h n key existed)"
  proof (cases x)
    case (Inr y)
    obtain n key existed where y: "y = (n, key, existed)" by (cases y)
    have "key = dest (fst (copyLimited r (limitPlusOne m)))" using PutStreamImmutable_key run Inr y by blast
    then show ?thesis using assms(3) Inr y by simp
  qed (simp add: assms(2))
qed

lemma storeLocks_more [framed]:
  "platformMetaKey ns n v a b \<in> storeLocks" "providerVersionPrefix ns n v @ x @ y \<in> storeLocks"
  "(moduleVersionPrefix ns n p v @ ''/'') @ x \<in> storeLocks" "moduleVersionPrefix ns n p v @ x @ y \<in> storeLocks"
  using storeLocks_keys by (simp_all add: platformMetaKey_def)

lemma frame_restorePublication [framed]:
  assumes "list_all (\<lambda>(k, _). k \<in> L) saved" "zk \<in> L"
  shows "frame L (restorePublication s saved existed zk)"
proof -
  have "frame L (foldIO (\<lambda>(key, previous) _. restoreObject s key previous) saved u)" for u
    using assms(1) by (induction saved arbitrary: u) (auto intro!: frame_bind frame_return frame_restore(1))
  then show ?thesis unfolding restorePublication_def by (intro frame_bind frame_restore assms)
qed

lemma frame_publishProvider [framed]:
  assumes "zk \<in> storeLocks"
  shows "frame storeLocks (publishProvider g ns n v osn ar fn sh zk existed)"
proof -
  have saved: "list_all (\<lambda>(k, _). k \<in> storeLocks)
      [(platformMetaKey ns n v osn ar, a), (providerVersionPrefix ns n v @ x, b), (providerVersionPrefix ns n v @ y, c)]"
    for a b c x y using storeLocks_keys storeLocks_more by simp
  show ?thesis
    unfolding publishProvider_def AddProviderVersion_def Let_def by (intro framed assms saved)
qed

lemma frame_publishModule [framed]:
  "key \<in> storeLocks \<Longrightarrow> frame storeLocks (publishModule g ns n p v fn sh key existed)"
  unfolding publishModule_def AddModuleVersion_def Let_def by (intro framed; assumption?)

lemma mutationMu_framed [framed]: "mutationMu \<in> UNIV" "UNIV - {mutationMu} = storeLocks"
  by (auto simp: storeLocks_def)

lemma frame_serialized [framed]: "frame storeLocks m \<Longrightarrow> frame UNIV (serialized m)"
  unfolding serialized_def by (rule frame_withLock) (simp_all add: mutationMu_framed framed)

lemma frame_mutations [framed]:
  "frame UNIV (uploadProviderHandler g r)" "frame UNIV (uploadModuleHandler g r)"
  "frame UNIV (deleteProviderVersionHandler g r)" "frame UNIV (deleteModuleVersionHandler g r)"
  "frame UNIV (deprecateProviderHandler g r)" "frame UNIV (deprecateModuleHandler g r)" "frame UNIV (gcHandler g r)"
  unfolding uploadProviderHandler_def uploadModuleHandler_def deleteProviderVersionHandler_def
    deleteModuleVersionHandler_def deprecateProviderHandler_def deprecateModuleHandler_def gcHandler_def
    deleteVersion_def deprecateVersion_def RemoveProviderVersion_def RemoveModuleVersion_def
    DeprecateProviderVersion_def DeprecateModuleVersion_def Let_def
  by (intro framed frame_immutable)+

lemma frame_dispatch: "frame UNIV (dispatch g ui e r)"
  by (cases e) (auto simp: answered_def prometheusHandler_def metricsHandler_def uiHandler_def rootHandler_def Let_def intro!: framed)

section \<open>Keys and middleware\<close>

lemma frame_writeThroughTemp [framed]: "frame L (writeThroughTemp p prfx sufx data)"
  unfolding writeThroughTemp_def by (intro framed)

lemma frame_reload [framed]: "frame L (reload tj ks)"
  unfolding reload_def writeKeysConfigAtomic_def by (intro framed)

lemma frame_keys [framed]: "frame L (Validate tj ks key)" "frame L (HasPermission tj ks key p)"
  unfolding Validate_def HasPermission_def maybeReload_def by (intro framed)+

text \<open>The same for programs of the server.\<close>

definition frameS :: "'a srv \<Rightarrow> bool" where
  "frameS m \<longleftrightarrow> (\<forall>sv r sv'. held (os sv) = [] \<longrightarrow> run_state m sv = (r, sv') \<longrightarrow> same (os sv) (os sv'))"

named_theorems framedS

lemma frameSI: "(\<And>sv r sv'. held (os sv) = [] \<Longrightarrow> run_state m sv = (r, sv') \<Longrightarrow> same (os sv) (os sv')) \<Longrightarrow> frameS m"
  by (simp add: frameS_def)

lemma frameSD: "frameS m \<Longrightarrow> held (os sv) = [] \<Longrightarrow> run_state m sv = (r, sv') \<Longrightarrow> same (os sv) (os sv')"
  by (simp add: frameS_def)

lemma frameS_return [framedS]: "frameS (State_Monad.return x)"
  by (simp add: frameS_def)

lemma frameS_bind [framedS]:
  assumes "frameS m" "\<And>x. frameS (k x)"
  shows "frameS (State_Monad.bind m k)"
proof (rule frameSI)
  fix sv r sv' assume h: "held (os sv) = []" and run: "run_state (State_Monad.bind m k) sv = (r, sv')"
  obtain x sv1 where 1: "run_state m sv = (x, sv1)" by (rule prod.exhaust)
  have s: "same (os sv) (os sv1)" by (rule frameSD [OF assms(1) h 1])
  have "run_state (k x) sv1 = (r, sv')" "held (os sv1) = []" using run 1 h s by (simp_all add: same_def)
  with s show "same (os sv) (os sv')" by (blast intro: same_trans frameSD [OF assms(2)])
qed

lemma frameS_if [framedS]: "frameS m \<Longrightarrow> frameS m' \<Longrightarrow> frameS (if b then m else m')"
  by simp

lemma frameS_case_option [framedS]:
  "frameS g \<Longrightarrow> (\<And>x. frameS (h x)) \<Longrightarrow> frameS (case r of None \<Rightarrow> g | Some x \<Rightarrow> h x)"
  by (cases r) auto

lemma frameS_liftIO [framedS]: "frame UNIV m \<Longrightarrow> frameS (liftIO m)"
  by (auto simp: frameS_def liftIO_def split: prod.splits intro: frameD)

lemma frameS_withKeys [framedS]:
  assumes "\<And>ks. frame UNIV (m ks)"
  shows "frameS (withKeys m)"
  using frameD [OF assms] by (fastforce simp: frameS_def withKeys_def split: prod.splits)

lemma frameS_own [framedS]:
  "frameS (Log a b c d e f h)" "frameS (State (\<lambda>sv. (limiter sv, sv)))"
  "frameS (State (\<lambda>sv. case allow (t sv) (addr sv) (limiter sv) of (ok, rl) \<Rightarrow> (ok, sv\<lparr>limiter := rl\<rparr>)))"
  by (auto simp: frameS_def Log_def split: prod.splits)

lemma frameS_middleware [framedS]:
  assumes "\<And>r. frameS (h r)"
  shows "frameS (routeValidationMiddleware h r)" "frameS (authMiddleware tj h r)" "frameS (auditMiddleware tj h r)"
    "frameS (rateLimitMiddleware h r)" "frameS (securityHeadersMiddleware h r)"
  unfolding routeValidationMiddleware_def authMiddleware_def auditMiddleware_def rateLimitMiddleware_def
    securityHeadersMiddleware_def
  by (intro framedS framed assms)+

end
