(* ===== verification/AuthSafety.thy ===== *)
theory AuthSafety
  imports Auth
begin

text \<open>
  What holds of the API keys of \<^verbatim>\<open>registry-server/auth.go\<close>: every key store that the program ever holds is well
  formed, whatever the key file contains and whatever fails while it is read or migrated, and a permission is
  granted exactly to the enabled keys whose hash is that of the key presented.
\<close>

section \<open>Well-formed key stores\<close>

definition goodKey :: "APIKey \<Rightarrow> bool" where
  "goodKey k \<longleftrightarrow> Key k = [] \<and> length (Hash k) = 64 \<and> list_all lowerHex (Hash k) \<and>
     KPermission k \<in> {PermRead, PermWrite, PermAdmin}"

text \<open>The last conjunct: \<^verbatim>\<open>ks.keys\<close> is the map from the hashes to the keys of \<^verbatim>\<open>ks.keysList\<close>.\<close>

definition goodKeyList :: "APIKey list \<Rightarrow> bool" where
  "goodKeyList xs \<longleftrightarrow> list_all goodKey xs \<and> distinct (map Hash xs) \<and> list_ex Enabled xs"

definition goodKeys :: "KeyStore \<Rightarrow> bool" where
  "goodKeys ks \<longleftrightarrow> goodKeyList (keysList ks) \<and> keys ks = map (\<lambda>k. (Hash k, k)) (keysList ks)"

lemma hexVal_char: "hexVal c = Some n \<Longrightarrow> \<not> isUpper c \<Longrightarrow> lowerHex c"
  by (auto simp: hexVal_def lowerHex_def isDigit_def isUpper_def less_eq_char_def split: if_splits)

lemma hexDecode_shape:
  "hexDecode s = Some d \<Longrightarrow> list_all (\<lambda>c. \<not> isUpper c) s \<Longrightarrow> length s = 2 * length d \<and> list_all lowerHex s"
proof (induction s arbitrary: d rule: hexDecode.induct)
  case (3 a b s)
  then show ?case by (auto split: option.splits dest: hexVal_char)
qed auto

lemma toLower_not_upper: "list_all (\<lambda>c. \<not> isUpper c) (toLower s)"
proof -
  have "\<not> isUpper (char_of (of_char c + 32 :: nat))" if "isUpper c" for c
    using that by (auto simp: isUpper_def less_eq_char_def of_char_of)
  then show ?thesis by (auto simp: toLower_def list_all_iff)
qed

lemma normalizeKey_fields:
  "Key (normalizeKey k) = []" "\<exists>h. Hash (normalizeKey k) = toLower h"
  by (auto simp: normalizeKey_def Let_def)

lemma checkKeys_good:
  "checkKeys met ks = Inr ks' \<Longrightarrow>
     list_all goodKey ks' \<and> distinct (map Hash ks') \<and> set (map Hash ks') \<inter> set met = {} \<and> ks' = map normalizeKey ks"
proof (induction ks arbitrary: met ks')
  case (Cons k0 ks)
  let ?k = "normalizeKey k0"
  obtain d rest where ok: "hexDecode (Hash ?k) = Some d" "length d = 32" "Hash ?k \<notin> set met"
      "KPermission ?k \<in> {PermRead, PermWrite, PermAdmin}"
      "checkKeys (Hash ?k # met) ks = Inr rest" "ks' = ?k # rest"
    using Cons.prems by (auto simp: Let_def split: option.splits if_splits sum.splits)
  have "length (Hash ?k) = 64 \<and> list_all lowerHex (Hash ?k)"
    using hexDecode_shape [OF ok(1)] normalizeKey_fields(2) [of k0] toLower_not_upper ok(2) by auto
  then have "goodKey ?k" using ok(4) normalizeKey_fields(1) by (simp add: goodKey_def)
  have rest: "list_all goodKey rest" "distinct (map Hash rest)" "set (map Hash rest) \<inter> set (Hash ?k # met) = {}"
      "rest = map normalizeKey ks"
    using Cons.IH [OF ok(5)] by blast+
  have "Hash ?k \<notin> set (map Hash rest)" "set (map Hash rest) \<inter> set met = {}" using rest(3) by auto
  then show ?case using \<open>goodKey ?k\<close> rest(1,2,4) ok(3,6) by simp
qed simp

lemma loadConfig_good: "loadConfig timeJSON data = Inr (config, migrated) \<Longrightarrow> goodKeyList config"
  using checkKeys_good
  by (fastforce simp: loadConfig_def goodKeyList_def Let_def split: prod.splits option.splits if_splits sum.splits)

lemma reload_good: "run_state (reload timeJSON ks) w = (Inr ks', w') \<Longrightarrow> goodKeys ks' \<and> keysPath ks' = keysPath ks"
  using loadConfig_good
  by (auto simp: reload_def goodKeys_def bindR_def split: prod.splits sum.splits)

lemma maybeReload_good: "goodKeys ks \<Longrightarrow> run_state (maybeReload timeJSON ks) w = (ks', w') \<Longrightarrow> goodKeys ks'"
  using reload_good by (auto simp: maybeReload_def split: prod.splits sum.splits if_splits)

lemma Validate_good:
  "goodKeys ks \<Longrightarrow> run_state (Validate timeJSON ks key) w = ((ks', ak), w') \<Longrightarrow>
     goodKeys ks' \<and> ak = (if key = [] then None else matchKey ks' key)"
  using maybeReload_good by (auto simp: Validate_def split: prod.splits if_splits)

text \<open>Looking a key up: hashes are distinct, so there is at most one.\<close>

lemma matchKey_iff:
  assumes "goodKeys ks"
  shows "matchKey ks key = Some ak \<longleftrightarrow> ak \<in> set (keysList ks) \<and> Enabled ak \<and> Hash ak = sha256Hex key"
proof -
  have d: "distinct (map Hash (keysList ks))" using assms by (simp add: goodKeys_def goodKeyList_def)
  have "find (\<lambda>a. Enabled a \<and> Hash a = h) xs = Some ak \<longleftrightarrow> ak \<in> set xs \<and> Enabled ak \<and> Hash ak = h"
    if "distinct (map Hash xs)" for h and xs :: "APIKey list"
    using that by (induction xs) auto
  then show ?thesis using d by (simp add: matchKey_def hashKey_def)
qed

section \<open>Reading a migrated file\<close>

text \<open>The texts of a key that a file can hold, with times in the form that printing gives.\<close>

definition textKey :: "(string \<Rightarrow> string option) \<Rightarrow> APIKey \<Rightarrow> bool" where
  "textKey timeJSON k \<longleftrightarrow> validUTF8 (KName k) \<and> validUTF8 (KDescription k) \<and>
     validUTF8 (CreatedAt k) \<and> timeJSON (CreatedAt k) = Some (CreatedAt k) \<and>
     (case LastUsedAt k of None \<Rightarrow> True | Some t \<Rightarrow> validUTF8 t \<and> timeJSON t = Some t)"

lemma decodeAPIKey_encode:
  assumes "goodKey k" "textKey timeJSON k"
  shows "decodeAPIKey timeJSON zeroAPIKey (encodeAPIKey k) = (k, True)"
  using assms
  by (cases k) (auto simp: decodeAPIKey_def encodeAPIKey_def zeroAPIKey_def setAPIKeyField_def optional_def
    decodeStruct_def decodeString_def decodeBool_def decodeTime_def goodKey_def textKey_def split: option.splits)

lemma lowerHex_ascii: "lowerHex c \<Longrightarrow> of_char c < (0x80 :: nat)"
  by (auto simp: lowerHex_def isDigit_def less_eq_char_def)

lemma hash_ascii: "list_all lowerHex s \<Longrightarrow> list_all (\<lambda>c. of_char c < (0x80 :: nat)) s"
  by (auto simp: list_all_iff lowerHex_ascii)

lemma utf8_key: "goodKey k \<Longrightarrow> textKey timeJSON k \<Longrightarrow> utf8Json (encodeAPIKey k)"
  by (auto simp: encodeAPIKey_def goodKey_def textKey_def validUTF8_ascii hash_ascii PermRead_def PermWrite_def
    PermAdmin_def split: option.splits)

lemma encodable_key: "encodable (Suc d) (encodeAPIKey k)"
  by (auto simp: encodeAPIKey_def split: option.splits)

lemma encodable_keys: "encodable maxNestingDepth (encodeAPIKeysConfig xs)"
proof -
  have d: "maxNestingDepth = Suc (Suc (Suc 9997))" by (simp add: maxNestingDepth_def)
  show ?thesis unfolding d by (simp add: encodeAPIKeysConfig_def encodable_key list_all_iff del: Suc_numeral)
qed

lemma keysFile_decode:
  assumes "list_all goodKey xs" "list_all (textKey timeJSON) xs"
  shows "unmarshalInto (decodeAPIKeysConfig timeJSON) None (marshalIndent (encodeAPIKeysConfig xs)) = (Some xs, None)"
proof -
  have "decodeElems (decodeAPIKey timeJSON) zeroAPIKey [] (map encodeAPIKey xs) = (xs, True)"
    using assms by (intro decodeElems_fresh decodeAPIKey_encode) (auto simp: list_all_iff)
  then have dec: "decodeAPIKeysConfig timeJSON None (encodeAPIKeysConfig xs) = (Some xs, True)"
    by (simp add: decodeAPIKeysConfig_def encodeAPIKeysConfig_def decodeStruct_def decodeSlice_def)
  have "utf8Json (encodeAPIKeysConfig xs)"
    using assms by (auto simp: encodeAPIKeysConfig_def list_all_iff validUTF8_ascii utf8_key)
  then show ?thesis by (simp add: unmarshalInto_marshal encodable_keys dec)
qed

lemma trimSpace_hash: "list_all lowerHex h \<Longrightarrow> trimSpace h = h"
proof -
  assume h: "list_all lowerHex h"
  have ns: "\<not> isSpaceRune [c]" if "lowerHex c" for c
    using that by (auto simp: isSpaceRune_def lowerHex_def isDigit_def less_eq_char_def)
  have keep: "dropWhile isSpaceRune (map (\<lambda>c. [c]) s) = map (\<lambda>c. [c]) s" if "list_all lowerHex s" for s
    using that ns by (cases s) auto
  have "list_all lowerHex (rev h)" using h by (simp add: list_all_iff)
  then have "trimSpace h = concat (map (\<lambda>c. [c]) h)"
    using keep [OF h] keep by (simp add: trimSpace_def runes_ascii [OF hash_ascii [OF h]] rev_map)
  then show ?thesis by simp
qed

lemma toLower_hash: "list_all lowerHex h \<Longrightarrow> toLower h = h"
  unfolding toLower_def
  by (rule map_idI) (auto simp: list_all_iff lowerHex_def isDigit_def isUpper_def less_eq_char_def)

lemma normalizeKey_good: "goodKey k \<Longrightarrow> normalizeKey k = k"
  by (cases k) (auto simp: normalizeKey_def goodKey_def trimSpace_hash toLower_hash)

lemma hexDecode_lower: "list_all lowerHex s \<Longrightarrow> length s = 2 * n \<Longrightarrow> \<exists>d. hexDecode s = Some d \<and> length d = n"
proof (induction s arbitrary: n rule: hexDecode.induct)
  case (3 a b s)
  have "\<exists>i. hexVal c = Some i" if "lowerHex c" for c using that by (auto simp: hexVal_def lowerHex_def)
  then obtain i j where "hexVal a = Some i" "hexVal b = Some j" using "3.prems"(1) by fastforce
  moreover obtain m where "n = Suc m" using "3.prems"(2) by (cases n) auto
  ultimately show ?case using "3.IH" [of "Some i" "Some j" i j m] "3.prems" by auto
qed auto

lemma checkKeys_fixed:
  "list_all goodKey xs \<Longrightarrow> distinct (map Hash xs) \<Longrightarrow> set (map Hash xs) \<inter> set met = {} \<Longrightarrow> checkKeys met xs = Inr xs"
proof (induction xs arbitrary: met)
  case (Cons k xs)
  have k: "goodKey k" using Cons.prems(1) by simp
  then obtain d where "hexDecode (Hash k) = Some d" "length d = 32"
    using hexDecode_lower [of "Hash k" 32] by (auto simp: goodKey_def)
  moreover have "checkKeys (Hash k # met) xs = Inr xs" using Cons.prems by (intro Cons.IH) auto
  ultimately show ?case
    using k Cons.prems(3) by (auto simp: Let_def normalizeKey_good goodKey_def)
qed simp

lemma loadConfig_file:
  assumes "goodKeyList xs" "list_all (textKey timeJSON) xs"
  shows "loadConfig timeJSON (marshalIndent (encodeAPIKeysConfig xs)) = Inr (xs, False)"
proof -
  have xs: "list_all goodKey xs" "distinct (map Hash xs)" "list_ex Enabled xs" using assms(1) by (auto simp: goodKeyList_def)
  have "xs \<noteq> []" "\<not> list_ex (\<lambda>k. Key k \<noteq> []) xs" using xs by (auto simp: goodKey_def list_ex_iff list_all_iff)
  then show ?thesis
    using keysFile_decode [OF xs(1) assms(2)] checkKeys_fixed [OF xs(1,2), of "[]"] xs(3)
    by (simp add: loadConfig_def Let_def)
qed

section \<open>Reachable key stores\<close>

text \<open>
  The key stores of a running server: the one it starts with, and those that later checks leave behind.
  Between two steps the file system is arbitrary, since the operator edits the key file.
\<close>

inductive reachableKeys :: "(string \<Rightarrow> string option) \<Rightarrow> (int \<Rightarrow> string) \<Rightarrow> KeyStore \<Rightarrow> bool" for timeJSON nowJSON where
  start: "run_state (NewKeyStore timeJSON nowJSON envKey path) w = (Inr ks, w') \<Longrightarrow> reachableKeys timeJSON nowJSON ks"
| check: "reachableKeys timeJSON nowJSON ks \<Longrightarrow> run_state (Validate timeJSON ks key) w = ((ks', ak), w') \<Longrightarrow>
    reachableKeys timeJSON nowJSON ks'"

inductive_cases reachableKeysE: "reachableKeys timeJSON nowJSON ks"

lemma NewKeyStore_good: "run_state (NewKeyStore timeJSON nowJSON envKey path) w = (Inr ks, w') \<Longrightarrow> goodKeys ks"
  using reload_good
  by (auto simp: NewKeyStore_def bindR_def wrapErr_def Let_def split: prod.splits sum.splits if_splits)

lemma reachable_good: "reachableKeys timeJSON nowJSON ks \<Longrightarrow> goodKeys ks"
  by (induction rule: reachableKeys.induct) (use NewKeyStore_good Validate_good in blast)+

lemma HasPermission_good:
  assumes "goodKeys ks" "run_state (HasPermission timeJSON ks key required) w = ((ks', ok), w')"
  shows "goodKeys ks' \<and> (ok \<longleftrightarrow> key \<noteq> [] \<and> (\<exists>ak. matchKey ks' key = Some ak \<and> permits ak required))"
proof -
  obtain ks1 ak w1 where v: "run_state (Validate timeJSON ks key) w = ((ks1, ak), w1)" by (metis prod.exhaust)
  then have "ks' = ks1" "ok = (case ak of None \<Rightarrow> False | Some k \<Rightarrow> permits k required)"
    using assms(2) by (simp_all add: HasPermission_def)
  then show ?thesis using Validate_good [OF assms(1) v] by (auto split: option.splits)
qed

section \<open>Properties\<close>

text \<open>A server with one key in its file.\<close>

definition demoKey :: APIKey where
  "demoKey = zeroAPIKey\<lparr>Hash := sha256Hex ''secret'', KName := ''ci'', KPermission := PermWrite, Enabled := True\<rparr>"

definition demoTime :: "string \<Rightarrow> string option" where
  "demoTime t = (if t = zeroTime then Some t else None)"

definition demoKeysWorld :: world where
  "demoKeysWorld =
     \<lparr>fs = [([''keys.json''], File (marshalIndent (encodeAPIKeysConfig [demoKey])) True 5)], faults = [],
      crashed = False, clock = 7, rand = [], held = [], stuck = False, metrics = NewMetrics 0\<rparr>"

definition demoKeys :: KeyStore where
  "demoKeys = \<lparr>keysPath = [''keys.json''], keys = [(Hash demoKey, demoKey)], keysList = [demoKey], lastMod = 5\<rparr>"

lemma demoKey_good: "goodKeyList [demoKey]" "list_all (textKey demoTime) [demoKey]"
  by (simp_all add: demoKey_def goodKeyList_def goodKey_def sha256Hex_shape textKey_def demoTime_def zeroAPIKey_def
    zeroTime_def validUTF8_ascii)

lemma demo_start: "run_state (NewKeyStore demoTime (\<lambda>_. zeroTime) ''secret'' [''keys.json'']) demoKeysWorld = (Inr demoKeys, demoKeysWorld)"
proof -
  have "loadConfig demoTime (marshalIndent (encodeAPIKeysConfig [demoKey])) = Inr ([demoKey], False)"
    by (rule loadConfig_file [OF demoKey_good])
  then show ?thesis
    by (simp add: NewKeyStore_def reload_def os_eval demoKeysWorld_def demoKeys_def)
qed

lemma demo_check:
  "run_state (Validate demoTime demoKeys ''secret'') demoKeysWorld = ((demoKeys, Some demoKey), demoKeysWorld)"
  by (simp add: Validate_def maybeReload_def os_eval demoKeysWorld_def demoKeys_def matchKey_def hashKey_def demoKey_def)

text \<open>
  C17. The key store is well formed whenever the server runs, whatever the key file contains, whatever edits the
  operator makes and whatever fails while it is read or migrated: no plaintext key is kept, every hash is
  64 lower-case hexadecimal digits and unique, every permission is one of the three, at least one key is
  enabled, and the map by hash agrees with the list.
\<close>

theorem keyStore_wellformed:
  assumes "reachableKeys timeJSON nowJSON ks"
  shows "goodKeys ks"
  using assms by (rule reachable_good)

theorem keyStore_wellformed_witness: "goodKeys demoKeys"
  using keyStore_wellformed [OF reachableKeys.check [OF reachableKeys.start [OF demo_start] demo_check]] .

text \<open>
  C7. A permission is granted exactly when a key is presented whose SHA-256 is the hash of an enabled key of the
  file with a sufficient permission: any for read, write or admin for write, admin for admin.
\<close>

theorem HasPermission_exact:
  assumes "reachableKeys timeJSON nowJSON ks"
    and "run_state (HasPermission timeJSON ks key required) w = ((ks', ok), w')"
  shows "ok \<longleftrightarrow> key \<noteq> [] \<and> (\<exists>ak \<in> set (keysList ks'). Enabled ak \<and> Hash ak = sha256Hex key \<and>
      (required = PermRead \<or> required = PermWrite \<and> KPermission ak \<in> {PermWrite, PermAdmin} \<or>
       required = PermAdmin \<and> KPermission ak = PermAdmin))"
proof -
  have g: "goodKeys ks'" "ok \<longleftrightarrow> key \<noteq> [] \<and> (\<exists>ak. matchKey ks' key = Some ak \<and> permits ak required)"
    using HasPermission_good [OF reachable_good [OF assms(1)] assms(2)] by blast+
  have "permits ak required \<longleftrightarrow> required = PermRead \<or> required = PermWrite \<and> KPermission ak \<in> {PermWrite, PermAdmin} \<or>
      required = PermAdmin \<and> KPermission ak = PermAdmin" for ak
    by (auto simp: permits_def PermRead_def PermWrite_def PermAdmin_def)
  then show ?thesis using g(2) by (auto simp: matchKey_iff [OF g(1)])
qed

theorem HasPermission_exact_witness:
  "(\<exists>ks' ok w'. run_state (HasPermission demoTime demoKeys ''secret'' PermWrite) demoKeysWorld = ((ks', ok), w') \<and> ok) \<and>
   (\<exists>ks' ok w'. run_state (HasPermission demoTime demoKeys ''secret'' PermAdmin) demoKeysWorld = ((ks', ok), w') \<and> \<not> ok)"
proof -
  have r: "reachableKeys demoTime (\<lambda>_. zeroTime) demoKeys" by (rule reachableKeys.start [OF demo_start])
  have run: "run_state (HasPermission demoTime demoKeys ''secret'' p) demoKeysWorld = ((demoKeys, permits demoKey p), demoKeysWorld)" for p
    using demo_check by (simp add: HasPermission_def)
  show ?thesis
    using HasPermission_exact [OF r run [of PermWrite]] HasPermission_exact [OF r run [of PermAdmin]]
      run [of PermWrite] run [of PermAdmin]
    by (auto simp: demoKeys_def demoKey_def PermRead_def PermWrite_def PermAdmin_def)
qed

text \<open>
  C32. The key file survives a rewrite: what \<^verbatim>\<open>writeKeysConfigAtomic\<close> writes for a well-formed list of keys loads
  again to the same list, and needs no further migration.
\<close>

theorem keysFile_roundtrip:
  assumes "goodKeyList xs" "list_all (textKey timeJSON) xs"
  shows "loadConfig timeJSON (marshalIndent (encodeAPIKeysConfig xs)) = Inr (xs, False)"
  using assms by (rule loadConfig_file)

theorem keysFile_roundtrip_witness:
  "goodKeyList [demoKey] \<and> list_all (textKey demoTime) [demoKey] \<and>
   loadConfig demoTime (marshalIndent (encodeAPIKeysConfig [demoKey])) = Inr ([demoKey], False)"
  using keysFile_roundtrip [OF demoKey_good] demoKey_good by blast

end
