(* ===== verification/ServerSafety.thy ===== *)
theory ServerSafety
  imports Frames AuthSafety
begin

text \<open>
  What the server as a whole guarantees: changes only by authorised keys, an audit entry for every management
  request that is let through, balanced counters, and no deadlock.
\<close>

section \<open>Requests in sequence\<close>

text \<open>A run of the server: one request after the other.\<close>

fun session ::
  "muxMatch \<Rightarrow> (request \<Rightarrow> response) \<Rightarrow> (string \<Rightarrow> string option) \<Rightarrow> Registry \<Rightarrow> uiFiles \<Rightarrow> request list \<Rightarrow> response list srv" where
  "session mux nf tj g ui [] = State_Monad.return []"
| "session mux nf tj g ui (r # rs) =
     do { resp \<leftarrow> serve mux nf tj g ui r; resps \<leftarrow> session mux nf tj g ui rs; State_Monad.return (resp # resps) }"

definition routed :: "muxMatch \<Rightarrow> request \<Rightarrow> bool" where
  "routed mux r \<longleftrightarrow> mux routes r \<noteq> None"

text \<open>The number of routed requests whose response satisfies \<open>P\<close>.\<close>

definition countRouted :: "muxMatch \<Rightarrow> (response \<Rightarrow> bool) \<Rightarrow> request list \<Rightarrow> response list \<Rightarrow> nat" where
  "countRouted mux P rs resps = length (filter (\<lambda>(r, resp). routed mux r \<and> P resp) (List.zip rs resps))"

lemma chain_counters:
  assumes "\<And>r. frameS (h r)" "held (os sv) = []" "run_state (chain tj h r) sv = (resp, sv')"
  shows "held (os sv') = []" "stuck (os sv') = stuck (os sv)" "clock (os sv') = clock (os sv)"
    "requestCounters (os sv') =
       (case requestCounters (os sv) of (tot, okc, err) \<Rightarrow>
          (tot + 1, if status resp < 400 then okc + 1 else okc, if status resp < 400 then err else err + 1))"
proof -
  let ?inner = "securityHeadersMiddleware (rateLimitMiddleware (auditMiddleware tj (authMiddleware tj
    (routeValidationMiddleware h))))"
  define sv0 where "sv0 = sv\<lparr>os := (os sv)\<lparr>metrics := RequestsTotal_update (\<lambda>n. n + 1) (metrics (os sv))\<rparr>\<rparr>"
  obtain x sv1 where 1: "run_state (?inner r) sv0 = (x, sv1)" by (rule prod.exhaust)
  have fr: "frameS (?inner r)" by (intro framedS assms(1))
  have s: "same (os sv0) (os sv1)" by (rule frameSD [OF fr _ 1]) (simp add: sv0_def assms(2))
  have resp: "resp = x" "sv' = sv1\<lparr>os := (os sv1)\<lparr>metrics := (if status x < 400 then RequestsOK_update (\<lambda>n. n + 1) (metrics (os sv1))
      else RequestsErr_update (\<lambda>n. n + 1) (metrics (os sv1)))\<rparr>\<rparr>"
    using assms(3) 1 unfolding chain_def metricsMiddleware_def sv0_def
    by (auto simp: liftIO_def tick_def split: prod.splits if_splits)
  show "held (os sv') = []" "stuck (os sv') = stuck (os sv)" "clock (os sv') = clock (os sv)"
    "requestCounters (os sv') =
       (case requestCounters (os sv) of (tot, okc, err) \<Rightarrow>
          (tot + 1, if status resp < 400 then okc + 1 else okc, if status resp < 400 then err else err + 1))"
    using s assms(2) unfolding resp by (simp_all add: same_def requestCounters_def sv0_def)
qed

lemma serve_counters:
  assumes "held (os sv) = []" "run_state (serve mux nf tj g ui r) sv = (resp, sv')"
  shows "held (os sv') = []" "stuck (os sv') = stuck (os sv)" "clock (os sv') = clock (os sv)"
    "requestCounters (os sv') =
       (case requestCounters (os sv) of (tot, okc, err) \<Rightarrow>
          (tot + of_nat (countRouted mux (\<lambda>_. True) [r] [resp]), okc + of_nat (countRouted mux (\<lambda>x. status x < 400) [r] [resp]),
           err + of_nat (countRouted mux (\<lambda>x. \<not> status x < 400) [r] [resp])))"
proof -
  have fr: "frameS (liftIO (dispatch g ui e r'))" for e r' by (intro framedS frame_dispatch)
  have "held (os sv') = [] \<and> stuck (os sv') = stuck (os sv) \<and> clock (os sv') = clock (os sv) \<and> requestCounters (os sv') =
       (case requestCounters (os sv) of (tot, okc, err) \<Rightarrow>
          (tot + of_nat (countRouted mux (\<lambda>_. True) [r] [resp]), okc + of_nat (countRouted mux (\<lambda>x. status x < 400) [r] [resp]),
           err + of_nat (countRouted mux (\<lambda>x. \<not> status x < 400) [r] [resp])))"
  proof (cases "mux routes r")
    case None
    then show ?thesis using assms by (auto simp: serve_def countRouted_def routed_def)
  next
    case (Some ev)
    obtain e vars where ev: "ev = (e, vars)" by (cases ev)
    have run: "run_state (chain tj (\<lambda>r. liftIO (dispatch g ui e r)) (r\<lparr>pathVars := vars\<rparr>)) sv = (resp, sv')"
      using assms(2) Some ev by (simp add: serve_def)
    show ?thesis
      using chain_counters [OF fr assms(1) run] Some by (simp add: countRouted_def routed_def split: prod.splits)
  qed
  then show "held (os sv') = []" "stuck (os sv') = stuck (os sv)" "clock (os sv') = clock (os sv)"
    "requestCounters (os sv') =
       (case requestCounters (os sv) of (tot, okc, err) \<Rightarrow>
          (tot + of_nat (countRouted mux (\<lambda>_. True) [r] [resp]), okc + of_nat (countRouted mux (\<lambda>x. status x < 400) [r] [resp]),
           err + of_nat (countRouted mux (\<lambda>x. \<not> status x < 400) [r] [resp])))"
    by blast+
qed

lemma countRouted_Cons: "countRouted mux P (r # rs) (x # xs) = countRouted mux P [r] [x] + countRouted mux P rs xs"
  by (simp add: countRouted_def)

lemma session_counters:
  "held (os sv) = [] \<Longrightarrow> run_state (session mux nf tj g ui rs) sv = (resps, sv') \<Longrightarrow>
   held (os sv') = [] \<and> stuck (os sv') = stuck (os sv) \<and> requestCounters (os sv') =
       (case requestCounters (os sv) of (tot, okc, err) \<Rightarrow>
          (tot + of_nat (countRouted mux (\<lambda>_. True) rs resps), okc + of_nat (countRouted mux (\<lambda>x. status x < 400) rs resps),
           err + of_nat (countRouted mux (\<lambda>x. \<not> status x < 400) rs resps)))"
proof (induction rs arbitrary: sv sv' resps)
  case Nil
  then show ?case by (auto simp: countRouted_def)
next
  case (Cons r rs)
  obtain x sv1 where 1: "run_state (serve mux nf tj g ui r) sv = (x, sv1)" by (rule prod.exhaust)
  obtain xs sv2 where 2: "run_state (session mux nf tj g ui rs) sv1 = (xs, sv2)" by (rule prod.exhaust)
  have r: "resps = x # xs" "sv' = sv2" using Cons.prems(2) 1 2 by simp_all
  show ?case
    using Cons.IH [OF serve_counters(1) [OF Cons.prems(1) 1] 2] serve_counters [OF Cons.prems(1) 1]
    unfolding r countRouted_Cons [of mux _ r rs x xs] by (simp add: algebra_simps split: prod.splits)
qed

section \<open>Who may change the registry\<close>

text \<open>
  What the server relies on in \<^verbatim>\<open>gorilla/mux\<close>: a match is one of the registered routes, its method matcher
  agrees with the request, and the path starts with the text of the template before the first variable; a
  template without variables is the whole path, except for a \<^verbatim>\<open>PathPrefix\<close>.
\<close>

fun routeMatches :: "string option \<times> string \<times> endpoint \<Rightarrow> request \<Rightarrow> bool" where
  "routeMatches (m, t, e) r \<longleftrightarrow>
     (case m of None \<Rightarrow> True | Some x \<Rightarrow> reqMethod r = x) \<and>
     (if CHR ''{'' \<in> set t then hasPrefix (urlPath r) (takeWhile (\<lambda>c. c \<noteq> CHR ''{'') t)
      else if e = EUI then hasPrefix (urlPath r) t else urlPath r = t)"

definition routerContract :: "muxMatch \<Rightarrow> bool" where
  "routerContract mux \<longleftrightarrow>
     (\<forall>r e vars. mux routes r = Some (e, vars) \<longrightarrow> (\<exists>m t. (m, t, e) \<in> set routes \<and> routeMatches (m, t, e) r))"

text \<open>The endpoints that change the store, and the permission each of them takes.\<close>

fun neededPermission :: "endpoint \<Rightarrow> Permission option" where
  "neededPermission EUploadProvider = Some PermWrite"
| "neededPermission EUploadModule = Some PermWrite"
| "neededPermission EDeprecateProvider = Some PermWrite"
| "neededPermission EDeprecateModule = Some PermWrite"
| "neededPermission EDeleteProvider = Some PermAdmin"
| "neededPermission EDeleteModule = Some PermAdmin"
| "neededPermission EGC = Some PermAdmin"
| "neededPermission _ = None"

definition mayUse :: "KeyStore \<Rightarrow> request \<Rightarrow> Permission \<Rightarrow> bool" where
  "mayUse ks r p \<longleftrightarrow> extractAPIKey r \<noteq> [] \<and>
     (\<exists>ak \<in> set (keysList ks). Enabled ak \<and> Hash ak = sha256Hex (extractAPIKey r) \<and> permits ak p)"

lemma permits_admin: "permits ak PermAdmin \<Longrightarrow> permits ak PermWrite"
  by (simp add: permits_def PermRead_def PermWrite_def PermAdmin_def)

text \<open>The routes of these endpoints.\<close>

definition mutationRoute :: "string option \<times> string \<times> endpoint \<Rightarrow> bool" where
  "mutationRoute mte = (case mte of (m, t, e) \<Rightarrow>
     (case neededPermission e of
        None \<Rightarrow> True
      | Some p \<Rightarrow> e \<noteq> EUI \<and> hasPrefix (takeWhile (\<lambda>c. c \<noteq> CHR ''{'') t) ''/api/v1/'' \<and>
          (p = PermWrite \<and> m = Some ''POST'' \<or> p = PermAdmin \<and> m = Some ''DELETE'' \<or>
           p = PermAdmin \<and> m = Some ''POST'' \<and> t = ''/api/v1/gc'')))"

lemma mutation_routes: "list_all mutationRoute routes"
  by code_simp

lemma hasPrefix_trans: "hasPrefix s t \<Longrightarrow> hasPrefix t u \<Longrightarrow> hasPrefix s u"
  unfolding hasPrefix_iff_prefix by (rule prefix_order.trans)

lemma takeWhile_no: "c \<notin> set t \<Longrightarrow> takeWhile (\<lambda>x. x \<noteq> c) t = t"
  by (rule takeWhile_eq_all_conv [THEN iffD2]) auto

lemma required_enough:
  assumes "routerContract mux" "mux routes r = Some (e, vars)" "neededPermission e = Some p"
  shows "\<not> isPublic r" "permits ak (requiredPermission r) \<Longrightarrow> permits ak p"
proof -
  obtain m t where mt: "(m, t, e) \<in> set routes" "routeMatches (m, t, e) r"
    using assms(1,2) unfolding routerContract_def by blast
  have route: "mutationRoute (m, t, e)" using mutation_routes mt(1) by (auto simp: list_all_iff)
  have pre: "hasPrefix (takeWhile (\<lambda>c. c \<noteq> CHR ''{'') t) ''/api/v1/''" and ui: "e \<noteq> EUI"
    and kind: "p = PermWrite \<and> m = Some ''POST'' \<or> p = PermAdmin \<and> m = Some ''DELETE'' \<or>
      p = PermAdmin \<and> m = Some ''POST'' \<and> t = ''/api/v1/gc''"
    using route assms(3) unfolding mutationRoute_def prod.case by simp_all
  have lit: "urlPath r = t" if "CHR ''{'' \<notin> set t" using mt(2) ui that by simp
  have path: "hasPrefix (urlPath r) ''/api/v1/''"
  proof (cases "CHR ''{'' \<in> set t")
    case True
    then have "hasPrefix (urlPath r) (takeWhile (\<lambda>c. c \<noteq> CHR ''{'') t)" using mt(2) by simp
    then show ?thesis by (rule hasPrefix_trans [OF _ pre])
  next
    case False
    show ?thesis using pre unfolding takeWhile_no [OF False] lit [OF False] .
  qed
  have gc: "urlPath r = t" if "t = ''/api/v1/gc''" by (rule lit) (simp add: that)
  have meth: "reqMethod r = x" if "m = Some x" for x using mt(2) that by simp
  have "\<not> isRead r" using kind meth by (auto simp: isRead_def)
  then show "\<not> isPublic r" using path by (simp add: isPublic_def)
  have "requiredPermission r = PermAdmin \<or> requiredPermission r = p"
    using kind meth gc by (auto simp: requiredPermission_def)
  then show "permits ak (requiredPermission r) \<Longrightarrow> permits ak p" using kind permits_admin by auto
qed

text \<open>The authorization middleware: the handler runs for an authorised key, or its result does not depend on it.\<close>

lemma HasPermission_mayUse:
  assumes "goodKeys ks" "run_state (HasPermission tj ks (extractAPIKey r) p) w = ((ks', ok), w')"
  shows "goodKeys ks' \<and> (ok \<longleftrightarrow> mayUse ks' r p)"
  using HasPermission_good [OF assms] matchKey_iff [of ks'] by (auto simp: mayUse_def)

definition keysKept :: "'a srv \<Rightarrow> bool" where
  "keysKept m \<longleftrightarrow> (\<forall>sv r sv'. run_state m sv = (r, sv') \<longrightarrow> keyStore sv' = keyStore sv)"

lemma keysKept_liftIO: "keysKept (liftIO m)"
  by (auto simp: keysKept_def liftIO_def split: prod.splits)

lemma keysKept_routeValidation: "(\<And>r. keysKept (h r)) \<Longrightarrow> keysKept (routeValidationMiddleware h r)"
  by (auto simp: keysKept_def routeValidationMiddleware_def split: option.splits)

text \<open>\<open>refused h r sv (resp, sv')\<close>: the answer is one of the refusals, and the handler had no part in it.\<close>

definition refused :: "(handler \<Rightarrow> handler) \<Rightarrow> request \<Rightarrow> Server \<Rightarrow> response \<times> Server \<Rightarrow> bool" where
  "refused mw r sv out \<longleftrightarrow> status (fst out) \<in> {401, 403, 429} \<and> (\<forall>h. run_state (mw h r) sv = out)"

lemma auth_cases:
  assumes "goodKeys (keyStore sv)" "\<not> isPublic r" "\<And>r. keysKept (h r)"
    and "run_state (authMiddleware tj h r) sv = (resp, sv')"
  shows "mayUse (keyStore sv') r (requiredPermission r) \<or> refused (authMiddleware tj) r sv (resp, sv')"
proof (cases "extractAPIKey r = []")
  case True
  then have "run_state (authMiddleware tj h' r) sv = (resp, sv')" for h'
    using assms(2,4) by (simp add: authMiddleware_def)
  moreover have "status resp = 401" using assms(2,4) True by (auto simp: authMiddleware_def liftIO_def split: prod.splits)
  ultimately show ?thesis by (simp add: refused_def)
next
  case False
  obtain ks ok w where hp: "run_state (HasPermission tj (keyStore sv) (extractAPIKey r) (requiredPermission r)) (os sv) = ((ks, ok), w)"
    by (metis prod.exhaust)
  note good = HasPermission_mayUse [OF assms(1) hp]
  define sv1 where "sv1 = sv\<lparr>os := w, keyStore := ks\<rparr>"
  have w: "run_state (withKeys (\<lambda>ks. HasPermission tj ks (extractAPIKey r) (requiredPermission r))) sv = (ok, sv1)"
    using hp by (simp add: withKeys_def sv1_def)
  show ?thesis
  proof (cases ok)
    case True
    then have "run_state (h r) sv1 = (resp, sv')" using assms(2,4) False w by (simp add: authMiddleware_def)
    then have "keyStore sv' = ks" using assms(3) by (auto simp: keysKept_def sv1_def)
    then show ?thesis using good True by simp
  next
    case no: False
    have "run_state (authMiddleware tj h' r) sv = (resp, sv')" for h'
      using assms(2,4) False w no by (simp add: authMiddleware_def)
    moreover have "status resp = 403"
      using assms(2,4) False w no by (auto simp: authMiddleware_def split: prod.splits)
    ultimately show ?thesis by (simp add: refused_def)
  qed
qed

text \<open>Through the other middleware: each refuses by itself, or runs the next handler once and keeps its status.\<close>

definition guarded :: "(handler \<Rightarrow> handler) \<Rightarrow> request \<Rightarrow> bool" where
  "guarded mw r \<longleftrightarrow> (\<forall>h sv resp sv'. (\<forall>r. keysKept (h r)) \<longrightarrow> goodKeys (keyStore sv) \<longrightarrow>
     run_state (mw h r) sv = (resp, sv') \<longrightarrow>
     mayUse (keyStore sv') r (requiredPermission r) \<or> refused mw r sv (resp, sv'))"

definition runsOnce :: "(handler \<Rightarrow> handler) \<Rightarrow> request \<Rightarrow> Server \<Rightarrow> bool" where
  "runsOnce mw r sv \<longleftrightarrow> (\<exists>sv0 post. goodKeys (keyStore sv0) \<and>
     (\<forall>h. run_state (mw h r) sv = post (run_state (h r) sv0)) \<and>
     (\<forall>out. status (fst (post out)) = status (fst out) \<and> keyStore (snd (post out)) = keyStore (snd out)))"

definition transparent :: "(handler \<Rightarrow> handler) \<Rightarrow> request \<Rightarrow> bool" where
  "transparent mw r \<longleftrightarrow> (\<forall>sv. goodKeys (keyStore sv) \<longrightarrow>
     (\<exists>out. status (fst out) = 429 \<and> (\<forall>h. run_state (mw h r) sv = out)) \<or> runsOnce mw r sv)"

lemma guarded_transparent:
  assumes "guarded mw r" "transparent outer r"
  shows "guarded (\<lambda>h. outer (mw h)) r"
  unfolding guarded_def
proof (intro allI impI)
  fix h sv resp sv'
  assume h: "\<forall>r. keysKept (h r)" "goodKeys (keyStore sv)" and run: "run_state (outer (mw h) r) sv = (resp, sv')"
  consider (refuse) out where "status (fst out) = 429" "\<forall>h. run_state (outer h r) sv = out" | (once) "runsOnce outer r sv"
    using assms(2) h(2) unfolding transparent_def by blast
  then show "mayUse (keyStore sv') r (requiredPermission r) \<or> refused (\<lambda>h. outer (mw h)) r sv (resp, sv')"
  proof cases
    case refuse
    then show ?thesis using run by (auto simp: refused_def)
  next
    case once
    then obtain sv0 post where p: "goodKeys (keyStore sv0)" "\<And>h. run_state (outer h r) sv = post (run_state (h r) sv0)"
      "\<And>out. status (fst (post out)) = status (fst out)" "\<And>out. keyStore (snd (post out)) = keyStore (snd out)"
      unfolding runsOnce_def by blast
    obtain x sv1 where 1: "run_state (mw h r) sv0 = (x, sv1)" by (rule prod.exhaust)
    have out: "post (x, sv1) = (resp, sv')" using p(2) [of "mw h"] run 1 by simp
    have eqs: "keyStore sv' = keyStore sv1" "status resp = status x"
      using p(3,4) [of "(x, sv1)"] unfolding out by simp_all
    have "mayUse (keyStore sv1) r (requiredPermission r) \<or> refused mw r sv0 (x, sv1)"
      using assms(1) h(1) p(1) 1 unfolding guarded_def by blast
    then show ?thesis using eqs p(2) out by (auto simp: refused_def)
  qed
qed

lemma runsOnceI:
  assumes "goodKeys (keyStore start)" "\<And>h. run_state (mw h r) sv = post (run_state (h r) start)"
    and "\<And>out. status (fst (post out)) = status (fst out)" "\<And>out. keyStore (snd (post out)) = keyStore (snd out)"
  shows "runsOnce mw r sv"
  using assms unfolding runsOnce_def by blast

lemma withHeaders_status [simp]: "status (withHeaders hs resp) = status resp"
  by (simp add: withHeaders_def)

lemma runsOnce_headers: "goodKeys (keyStore sv) \<Longrightarrow> runsOnce securityHeadersMiddleware r sv"
  by (rule runsOnceI [where post = "\<lambda>(x, sv). (withHeaders securityHeaders x, sv)"])
     (auto simp: securityHeadersMiddleware_def split: prod.splits)

lemma runsOnce_metrics: "goodKeys (keyStore sv) \<Longrightarrow> runsOnce metricsMiddleware r sv"
  for sv :: Server
  by (rule runsOnceI [where start = "sv\<lparr>os := (os sv)\<lparr>metrics := RequestsTotal_update (\<lambda>n. n + 1) (metrics (os sv))\<rparr>\<rparr>"
      and post = "\<lambda>(x :: response, sv). (x, snd (run_state (liftIO (if status x < 400 then tick RequestsOK_update else tick RequestsErr_update)) sv))"])
     (auto simp: metricsMiddleware_def liftIO_def tick_def split: prod.splits)

lemma transparent_rate: "transparent rateLimitMiddleware r"
  unfolding transparent_def
proof (intro allI impI)
  fix sv :: Server assume g: "goodKeys (keyStore sv)"
  obtain ok rl where a: "allow (clock (os sv)) (clientAddress (limiter sv) r) (limiter sv) = (ok, rl)" by (rule prod.exhaust)
  show "(\<exists>out. status (fst out) = 429 \<and> (\<forall>h. run_state (rateLimitMiddleware h r) sv = out)) \<or> runsOnce rateLimitMiddleware r sv"
  proof (cases ok)
    case True
    have "runsOnce rateLimitMiddleware r sv"
      by (rule runsOnceI [where start = "sv\<lparr>limiter := rl\<rparr>" and post = id]) (simp_all add: rateLimitMiddleware_def a g True)
    then show ?thesis ..
  next
    case False
    let ?out = "run_state (rateLimitMiddleware (\<lambda>_. State_Monad.return unanswered) r) sv"
    have "status (fst ?out) = 429 \<and> (\<forall>h. run_state (rateLimitMiddleware h r) sv = ?out)"
      using False a by (simp add: rateLimitMiddleware_def split: prod.splits)
    then show ?thesis by blast
  qed
qed

lemma transparent_audit: "transparent (auditMiddleware tj) r"
  unfolding transparent_def
proof (intro allI impI disjI2)
  fix sv :: Server assume g: "goodKeys (keyStore sv)"
  show "runsOnce (auditMiddleware tj) r sv"
  proof (cases "hasPrefix (urlPath r) ''/api/v1/''")
    case False
    then show ?thesis by (intro runsOnceI [where start = sv and post = id]) (simp_all add: auditMiddleware_def g)
  next
    case True
    obtain ks ak w where v: "run_state (Validate tj (keyStore sv) (extractAPIKey r)) (os sv) = ((ks, ak), w)"
      by (metis prod.exhaust)
    define name where "name = (case ak of Some k \<Rightarrow> KName k | None \<Rightarrow> ''anonymous'')"
    have ak: "extractAPIKey r = [] \<Longrightarrow> ks = keyStore sv \<and> ak = None \<and> w = os sv" using v by (auto simp: Validate_def)
    have good: "goodKeys ks" using Validate_good [OF g v] by blast
    show ?thesis
    proof (rule runsOnceI)
      show "goodKeys (keyStore (sv\<lparr>os := w, keyStore := ks\<rparr>))" using good by simp
      show "run_state (auditMiddleware tj h r) sv =
          (\<lambda>(x, sv). (x, snd (run_state (Log ''api_request'' name (reqMethod r) (urlPath r) (remoteAddr r) (status x)
             (reqMethod r @ '' '' @ urlPath r)) sv))) (run_state (h r) (sv\<lparr>os := w, keyStore := ks\<rparr>))" for h
        using True v ak by (auto simp: auditMiddleware_def withKeys_def name_def Log_def split: prod.splits)
    qed (auto simp: Log_def split: prod.splits)
  qed
qed

lemma guarded_chain: "\<not> isPublic r \<Longrightarrow> guarded (chain tj) r"
proof -
  assume pr: "\<not> isPublic r"
  have auth: "guarded (\<lambda>h. authMiddleware tj (routeValidationMiddleware h)) r"
    unfolding guarded_def
  proof (intro allI impI)
    fix h sv resp sv'
    assume h: "\<forall>r. keysKept (h r)" "goodKeys (keyStore sv)"
      and run: "run_state (authMiddleware tj (routeValidationMiddleware h) r) sv = (resp, sv')"
    have "keysKept (routeValidationMiddleware h r')" for r' using h(1) by (intro keysKept_routeValidation) simp
    from auth_cases [OF h(2) pr this run]
    show "mayUse (keyStore sv') r (requiredPermission r) \<or>
        refused (\<lambda>h. authMiddleware tj (routeValidationMiddleware h)) r sv (resp, sv')"
      by (auto simp: refused_def)
  qed
  have t: "transparent securityHeadersMiddleware r" "transparent metricsMiddleware r"
    using runsOnce_headers runsOnce_metrics by (auto simp: transparent_def)
  have "guarded (\<lambda>h. metricsMiddleware (securityHeadersMiddleware (rateLimitMiddleware (auditMiddleware tj
      (authMiddleware tj (routeValidationMiddleware h)))))) r"
    by (intro guarded_transparent [OF _ t(2)] guarded_transparent [OF _ t(1)] guarded_transparent [OF _ transparent_rate]
      guarded_transparent [OF _ transparent_audit] auth)
  then show "guarded (chain tj) r" unfolding chain_def .
qed

section \<open>The audit log\<close>

definition auditKept :: "'a srv \<Rightarrow> bool" where
  "auditKept m \<longleftrightarrow> (\<forall>sv r sv'. run_state m sv = (r, sv') \<longrightarrow> auditFile sv' = auditFile sv)"

named_theorems auditing

lemma auditKept_return [auditing]: "auditKept (State_Monad.return x)"
  by (simp add: auditKept_def)

lemma auditKept_bind [auditing]: "auditKept m \<Longrightarrow> (\<And>x. auditKept (k x)) \<Longrightarrow> auditKept (State_Monad.bind m k)"
  unfolding auditKept_def by (auto split: prod.splits)

lemma auditKept_if [auditing]: "auditKept m \<Longrightarrow> auditKept m' \<Longrightarrow> auditKept (if b then m else m')"
  by simp

lemma auditKept_option [auditing]:
  "auditKept g \<Longrightarrow> (\<And>x. auditKept (h x)) \<Longrightarrow> auditKept (case r of None \<Rightarrow> g | Some x \<Rightarrow> h x)"
  by (cases r) auto

lemma auditKept_lifted [auditing]: "auditKept (liftIO m)" "auditKept (withKeys n)"
  by (auto simp: auditKept_def liftIO_def withKeys_def split: prod.splits)

lemma auditKept_inner [auditing]:
  "(\<And>r. auditKept (h r)) \<Longrightarrow> auditKept (authMiddleware tj (routeValidationMiddleware h) r)"
  unfolding authMiddleware_def routeValidationMiddleware_def by (intro auditing; assumption?)

text \<open>The entry of a request: who, what and with which outcome.\<close>

definition entryFor :: "int \<Rightarrow> string \<Rightarrow> request \<Rightarrow> nat \<Rightarrow> AuditEntry" where
  "entryFor now name r code =
     \<lparr>auditTime = now, auditEvent = ''api_request'', auditKey = name, auditMethod = reqMethod r, auditPath = urlPath r,
      auditRemote = remoteAddr r, auditStatus = code, auditDetail = reqMethod r @ '' '' @ urlPath r\<rparr>"

text \<open>The names an entry may carry: that of an enabled key with the hash of the key presented, or \<^verbatim>\<open>anonymous\<close>.\<close>

definition auditNames :: "request \<Rightarrow> string set" where
  "auditNames r = insert ''anonymous'' (KName ` {ak :: APIKey. Enabled ak \<and> Hash ak = sha256Hex (extractAPIKey r)})"

lemma Validate_name:
  "run_state (Validate tj ks key) w = ((ks', Some ak), w') \<Longrightarrow> Enabled ak \<and> Hash ak = sha256Hex key"
  by (auto simp: Validate_def matchKey_def hashKey_def find_Some_iff split: if_splits prod.splits)

lemma audit_entry:
  assumes "hasPrefix (urlPath r) ''/api/v1/''" "\<And>r. auditKept (h r)" "\<And>r. frameS (h r)" "held (os sv) = []"
    and "run_state (auditMiddleware tj h r) sv = (resp, sv')"
  shows "\<exists>name \<in> auditNames r. auditFile sv' = map_option (\<lambda>es. es @ [entryFor (clock (os sv)) name r (status resp)]) (auditFile sv)"
proof -
  obtain ks ak w where v: "run_state (Validate tj (keyStore sv) (extractAPIKey r)) (os sv) = ((ks, ak), w)"
    by (metis prod.exhaust)
  define name where "name = (case ak of Some k \<Rightarrow> KName k | None \<Rightarrow> ''anonymous'')"
  have ak: "extractAPIKey r = [] \<Longrightarrow> ks = keyStore sv \<and> ak = None \<and> w = os sv" using v by (auto simp: Validate_def)
  have name: "name \<in> auditNames r" using Validate_name v by (auto simp: name_def auditNames_def split: option.splits)
  have w: "held w = []" "clock w = clock (os sv)"
    using frameD [OF frame_keys(1) [of UNIV] _ v] assms(4) by (simp_all add: same_def)
  let ?sv1 = "sv\<lparr>os := w, keyStore := ks\<rparr>"
  obtain x sv2 where 2: "run_state (h r) ?sv1 = (x, sv2)" by (rule prod.exhaust)
  have kept: "auditFile sv2 = auditFile sv" using assms(2) 2 by (auto simp: auditKept_def)
  have clk: "clock (os sv2) = clock (os sv)" using frameSD [OF assms(3) _ 2] w by (simp add: same_def)
  have "resp = x \<and> sv' = sv2\<lparr>auditFile := map_option (\<lambda>es. es @ [entryFor (clock (os sv2)) name r (status x)]) (auditFile sv2)\<rparr>"
    using assms(1,5) v ak 2 by (auto simp: auditMiddleware_def withKeys_def name_def Log_def entryFor_def split: prod.splits if_splits)
  then show ?thesis using name kept clk by auto
qed

lemma chain_audit:
  assumes "hasPrefix (urlPath r) ''/api/v1/''" "\<And>r. auditKept (h r)" "\<And>r. frameS (h r)" "held (os sv) = []"
    and "run_state (chain tj h r) sv = (resp, sv')"
  shows "status resp = 429 \<and> auditFile sv' = auditFile sv \<or>
    (\<exists>name \<in> auditNames r. auditFile sv' = map_option (\<lambda>es. es @ [entryFor (clock (os sv)) name r (status resp)]) (auditFile sv))"
proof -
  define inner where "inner = authMiddleware tj (routeValidationMiddleware h)"
  define sv0 where "sv0 = sv\<lparr>os := (os sv)\<lparr>metrics := RequestsTotal_update (\<lambda>n. n + 1) (metrics (os sv))\<rparr>\<rparr>"
  obtain x sv1 where 1: "run_state (rateLimitMiddleware (auditMiddleware tj inner) r) sv0 = (x, sv1)" by (rule prod.exhaust)
  have out: "status resp = status x" "auditFile sv' = auditFile sv1"
    using assms(5) 1 unfolding chain_def metricsMiddleware_def securityHeadersMiddleware_def sv0_def inner_def
    by (auto simp: liftIO_def tick_def split: prod.splits if_splits)
  obtain ok rl where a: "allow (clock (os sv0)) (clientAddress (limiter sv0) r) (limiter sv0) = (ok, rl)" by (rule prod.exhaust)
  show ?thesis
  proof (cases ok)
    case False
    then have "status x = 429 \<and> auditFile sv1 = auditFile sv"
      using 1 a by (auto simp: rateLimitMiddleware_def liftIO_def tick_def sv0_def)
    then show ?thesis using out by simp
  next
    case True
    then have "run_state (auditMiddleware tj inner r) (sv0\<lparr>limiter := rl\<rparr>) = (x, sv1)"
      using 1 a by (simp add: rateLimitMiddleware_def)
    moreover have "auditKept (inner r')" "frameS (inner r')" for r'
      using assms(2,3) by (auto simp: inner_def intro!: auditing framedS)
    ultimately have "\<exists>name \<in> auditNames r. auditFile sv1 = map_option (\<lambda>es. es @ [entryFor (clock (os (sv0\<lparr>limiter := rl\<rparr>))) name r (status x)]) (auditFile (sv0\<lparr>limiter := rl\<rparr>))"
      using assms(1,4) by (intro audit_entry [where h = inner and tj = tj]) (auto simp: sv0_def)
    then show ?thesis using out by (simp add: sv0_def)
  qed
qed

section \<open>Properties\<close>

text \<open>A small server for the witnesses: a router that looks at literal text only, and requests to it.\<close>

definition demoMux :: muxMatch where
  "demoMux rts r = map_option (\<lambda>(m, t, e). (e, [])) (find (\<lambda>rt. routeMatches rt r) rts)"

definition demoServer :: Server where
  "demoServer = \<lparr>os = demoKeysWorld, keyStore = demoKeys, limiter = NewRateLimiter 100 60000000000 False,
     auditFile = Some []\<rparr>"

definition demoRegistry :: Registry where
  "demoRegistry = \<lparr>store = \<lparr>basePath = [''d''], baseURL = []\<rparr>, signer = None, maxUploadSize = 100,
     zipDecoder = (\<lambda>_. Inl ErrIO), tarDecoder = (\<lambda>_. \<lparr>gzOpen = Some ErrIO, tarEntries = [], tarEnd = None, gzTrailer = None, gzClose = None\<rparr>), osText = (\<lambda>_. [])\<rparr>"

definition gcRequest :: request where
  "gcRequest = \<lparr>reqMethod = ''POST'', urlPath = ''/api/v1/gc'', reqHeader = [], remoteAddr = ''10.0.0.1:99'',
     pathVars = [], reqBody = [], multipartReader = Some ErrInvalid, nextPart = Inl ErrInvalid\<rparr>"

definition demoUI :: uiFiles where
  "demoUI = \<lparr>uiIndexHTML = ''<html>'', uiStyleCSS = [], uiAppJS = []\<rparr>"

abbreviation demoServe :: "request \<Rightarrow> response srv" where
  "demoServe \<equiv> serve demoMux (\<lambda>_. unanswered) demoTime demoRegistry demoUI"

lemma demo_contract: "routerContract demoMux"
  unfolding routerContract_def demoMux_def
proof (intro allI impI)
  fix r e vars
  assume "map_option (\<lambda>(m, t, e). (e, [])) (find (\<lambda>rt. routeMatches rt r) routes) = Some (e, vars)"
  then obtain m t where "find (\<lambda>rt. routeMatches rt r) routes = Some (m, t, e)" by auto
  then have "(m, t, e) \<in> set routes \<and> routeMatches (m, t, e) r" unfolding find_Some_iff by (metis nth_mem)
  then show "\<exists>m t. (m, t, e) \<in> set routes \<and> routeMatches (m, t, e) r" by blast
qed

lemma demo_route: "demoMux routes gcRequest = Some (EGC, [])"
  by code_simp

lemma demo_reachable: "reachableKeys demoTime (\<lambda>_. zeroTime) (keyStore demoServer)"
  by (simp add: demoServer_def) (rule reachableKeys.start [OF demo_start])

lemma demo_held: "held (os demoServer) = []"
  by (simp add: demoServer_def demoKeysWorld_def)

text \<open>
  C4. Only an authorised key changes the registry.  A request that the router sends to an endpoint that uploads,
  deprecates, deletes or collects garbage is either made with an enabled key that has the permission of that
  endpoint (write for uploads and deprecations, admin for deletions and garbage collection), or it is
  answered with 401, 403 or 429 and the handler has no part in the outcome: any other handler in its place
  would have left the same response and the same state.
\<close>

theorem mutations_authorised:
  assumes "routerContract mux" "reachableKeys tj nj (keyStore sv)" "mux routes r = Some (e, vars)"
    and "neededPermission e = Some p" "run_state (serve mux nf tj g ui r) sv = (resp, sv')"
  shows "mayUse (keyStore sv') r p \<or>
    status resp \<in> {401, 403, 429} \<and> (\<forall>h. run_state (chain tj h (r\<lparr>pathVars := vars\<rparr>)) sv = (resp, sv'))"
proof -
  let ?r = "r\<lparr>pathVars := vars\<rparr>"
  have run: "run_state (chain tj (\<lambda>r. liftIO (dispatch g ui e r)) ?r) sv = (resp, sv')"
    using assms(3,5) by (simp add: serve_def)
  have same: "isPublic ?r = isPublic r" "requiredPermission ?r = requiredPermission r" "extractAPIKey ?r = extractAPIKey r"
    by (simp_all add: isPublic_def isRead_def privateSecurityRead_def requiredPermission_def extractAPIKey_def)
  note needs = required_enough [OF assms(1,3,4)]
  have "mayUse (keyStore sv') ?r (requiredPermission ?r) \<or> refused (chain tj) ?r sv (resp, sv')"
  proof -
    have "guarded (chain tj) ?r" by (rule guarded_chain) (use needs(1) same(1) in simp)
    then show ?thesis
      unfolding guarded_def using run reachable_good [OF assms(2)] keysKept_liftIO by (elim allE impE) auto
  qed
  then show ?thesis using needs(2) same by (auto simp: mayUse_def refused_def)
qed

theorem mutations_authorised_witness:
  "routerContract demoMux \<and> neededPermission EGC = Some PermAdmin \<and>
   status (fst (run_state (demoServe gcRequest) demoServer)) \<in> {401, 403, 429}"
proof -
  obtain resp sv' where run: "run_state (demoServe gcRequest) demoServer = (resp, sv')" by (rule prod.exhaust)
  have "\<not> mayUse (keyStore sv') gcRequest PermAdmin"
    by (simp add: mayUse_def extractAPIKey_def gcRequest_def lookupStr_def hasPrefix_def)
  moreover have need: "neededPermission EGC = Some PermAdmin" by simp
  ultimately have "status resp \<in> {401, 403, 429}"
    using mutations_authorised [OF demo_contract demo_reachable demo_route need run] by blast
  then show ?thesis unfolding run fst_conv using demo_contract need by blast
qed



text \<open>
  No request deadlocks the server: whatever requests come and whatever calls fail in between, every lock that a
  handler takes is released when it ends, and no handler ever waits for a lock that it holds.
\<close>

theorem locks_released:
  assumes "held (os sv) = []" "run_state (session mux nf tj g ui rs) sv = (resps, sv')"
  shows "held (os sv') = [] \<and> stuck (os sv') = stuck (os sv)"
  using session_counters [OF assms] by blast

theorem locks_released_witness:
  "held (os demoServer) = [] \<and>
   stuck (os (snd (run_state (session demoMux (\<lambda>_. unanswered) demoTime demoRegistry demoUI [gcRequest, gcRequest]) demoServer))) =
   stuck (os demoServer)"
  using locks_released [OF demo_held surjective_pairing] demo_held by blast

text \<open>
  C33. The request counters are exact: after any sequence of requests the total has grown by the number of requests
  that had a route, the successes by those of them answered with a status below 400 and the errors by the
  others, modulo 64 bits; no handler touches them.
\<close>

theorem request_counters_exact:
  assumes "held (os sv) = []" "run_state (session mux nf tj g ui rs) sv = (resps, sv')"
  shows "RequestsTotal (metrics (os sv')) = RequestsTotal (metrics (os sv)) + of_nat (countRouted mux (\<lambda>_. True) rs resps) \<and>
    RequestsOK (metrics (os sv')) = RequestsOK (metrics (os sv)) + of_nat (countRouted mux (\<lambda>x. status x < 400) rs resps) \<and>
    RequestsErr (metrics (os sv')) = RequestsErr (metrics (os sv)) + of_nat (countRouted mux (\<lambda>x. \<not> status x < 400) rs resps)"
  using session_counters [OF assms] by (simp add: requestCounters_def)

theorem request_counters_exact_witness:
  "let (resps, sv') = run_state (session demoMux (\<lambda>_. unanswered) demoTime demoRegistry demoUI [gcRequest]) demoServer in
     RequestsTotal (metrics (os sv')) = of_nat (countRouted demoMux (\<lambda>_. True) [gcRequest] resps)"
proof -
  obtain resps sv' where run: "run_state (session demoMux (\<lambda>_. unanswered) demoTime demoRegistry demoUI [gcRequest]) demoServer = (resps, sv')"
    by (rule prod.exhaust)
  show ?thesis
    using request_counters_exact [OF demo_held run] unfolding run
    by (simp add: demoServer_def demoKeysWorld_def NewMetrics_def)
qed

end
