(* ===== verification/StoreOps.thy ===== *)
theory StoreOps
  imports StoreSafety
begin

text \<open>
  The other operations of the store under every failure and every crash: deletion, streamed and immutable
  writes, staged deletion of trees, garbage collection and the creation of a store.
\<close>

section \<open>Removing one name\<close>

lemma hasChildren_none: "\<not> hasChildren f q \<Longrightarrow> strict_prefix q x \<Longrightarrow> fsGet f x = None"
proof -
  assume a: "\<not> hasChildren f q" "strict_prefix q x"
  then have "x \<notin> set (map fst f)" by (auto simp: hasChildren_def list_ex_iff)
  then show ?thesis using a(2) by (auto simp: fsGet_def map_of_eq_None_iff)
qed

text \<open>A removal deletes the name and nothing else, or does nothing.\<close>

lemma triple_remove:
  assumes "list_all properComp p" "p \<noteq> []" "noLinkTo f0 (butlast p)"
  shows "triple (\<lambda>f. f = f0) (osRemove p) (\<lambda>r f. (\<forall>e. r = Inl e \<longrightarrow> f = f0) \<and> (r = Inr () \<longrightarrow> f = fsDel p f0) \<and>
    (r = Inl ErrNotExist \<longrightarrow> place f0 p = Inl ErrNotExist \<or> fsGet f0 p = None))"
  unfolding osRemove_def
proof (rule triple_atomically)
  fix w r w'
  assume f: "fs w = f0" and act: "(case place (fs w) p of Inl e \<Rightarrow> (Inl e, w)
     | Inr q \<Rightarrow> (case fsGet (fs w) q of None \<Rightarrow> (Inl ErrNotExist, w)
          | Some n \<Rightarrow> if n = Dir \<and> hasChildren (fs w) q then (Inl ErrNotEmpty, w)
                      else (Inr (), w\<lparr>fs := fsDel q (fs w)\<rparr>))) = (r, w')"
  have "place f0 p = Inr q \<Longrightarrow> q = p" for q using place_plain assms by blast
  then show "(\<forall>e. r = Inl e \<longrightarrow> fs w' = f0) \<and> (r = Inr () \<longrightarrow> fs w' = fsDel p f0) \<and>
      (r = Inl ErrNotExist \<longrightarrow> place f0 p = Inl ErrNotExist \<or> fsGet f0 p = None)"
    using act f by (auto split: sum.splits option.splits if_splits)
qed auto

text \<open>Where the parent directory is missing there is no object.\<close>

lemma place_missing:
  assumes "place f p = Inl e" "fsTree f" "list_all properComp p" "noLinkTo f (butlast p)"
  shows "fsGet f p = None"
proof (rule ccontr)
  assume ex: "fsGet f p \<noteq> None"
  have ne: "p \<noteq> []" using assms(1) by (auto simp: place_def)
  have par: "fsGet f (butlast p) = Some Dir" using fsTree_butlast [OF assms(2) ex] .
  then have "dirsTo f (butlast p)" using assms(2) by (simp add: fsTree_def)
  moreover have "list_all properComp (butlast p)" using assms(3) by (auto simp: list_all_iff dest: in_set_butlastD)
  ultimately have "canon False f kernelLinks [] (butlast p) = Inr (butlast p)"
    using canon_dirs [of "butlast p" f "[]" False] par by simp
  then show False using assms(1) ne par by (simp add: place_def)
qed

lemma objAt_del: "p \<noteq> [] \<Longrightarrow> objAt (fsDel p f) q = (if q = p then None else objAt f q)"
  by (simp add: objAt_def fsGet_fsDel)

lemma objAt_dir: "fsGet f p = Some Dir \<Longrightarrow> objAt f p = None"
  by (simp add: objAt_def)

section \<open>Deletion\<close>

text \<open>Cleaning up empty parents disturbs no object.\<close>

definition sameObjects :: "path \<Rightarrow> fsys \<Rightarrow> fsys \<Rightarrow> bool" where
  "sameObjects b f0 f \<longleftrightarrow> plain b f \<and> objAt f = objAt f0"

lemma triple_readDir:
  assumes "list_all properComp p" "noLinkTo f0 p"
  shows "triple (\<lambda>f. f = f0) (osReadDir p) (\<lambda>r f. f = f0 \<and> (\<forall>es. r = Inr es \<longrightarrow> fsGet f0 p = Some Dir \<and> es = dirEntries f0 p))"
  unfolding osReadDir_def
proof (rule triple_query)
  fix w :: world assume f: "fs w = f0"
  have "canon False f0 kernelLinks [] p = Inr q \<Longrightarrow> q = p" for q using canon_plain [of p f0 "[]"] assms by auto
  then show "fs w = f0 \<and> (\<forall>es. (case canon False (fs w) kernelLinks [] p of Inl e \<Rightarrow> Inl e
      | Inr q \<Rightarrow> if fsGet (fs w) q = Some Dir then Inr (dirEntries (fs w) q) else Inl ErrNotDir) = Inr es \<longrightarrow>
      fsGet f0 p = Some Dir \<and> es = dirEntries f0 p)"
    using f by (auto split: sum.splits if_splits)
qed auto

lemma triple_removeDir:
  assumes "list_all properComp p" "p \<noteq> []" "noLinkTo f (butlast p)" "sameObjects b f0 f" "fsGet f p = Some Dir"
  shows "triple (\<lambda>g. g = f) (osRemove p) (\<lambda>_. sameObjects b f0)"
proof (rule triple_post [OF triple_remove [OF assms(1-3)]])
  fix r :: "unit result" and g
  assume "(\<forall>e. r = Inl e \<longrightarrow> g = f) \<and> (r = Inr () \<longrightarrow> g = fsDel p f) \<and>
      (r = Inl ErrNotExist \<longrightarrow> place f p = Inl ErrNotExist \<or> fsGet f p = None)"
  then have "g = f \<or> g = fsDel p f" by (cases r) auto
  moreover have "objAt (fsDel p f) = objAt f" using objAt_del [OF assms(2)] objAt_dir [OF assms(5)] by (auto simp: fun_eq_iff)
  ultimately show "sameObjects b f0 g" using assms(2,4) by (auto simp: sameObjects_def intro: plain_del)
qed

lemma triple_weaken: "triple P m Q \<Longrightarrow> (\<And>f. P' f \<Longrightarrow> P f) \<Longrightarrow> triple P' m Q"
  unfolding triple_def by blast

lemma cleanEmptyParents_objects:
  "list_all properComp rp \<Longrightarrow> prefix (rev rp) b \<or> prefix b (rev rp) \<Longrightarrow>
     triple (sameObjects b f0) (cleanEmptyParents b rp) (\<lambda>_. sameObjects b f0)"
proof (induction rp)
  case Nil
  show ?case by (simp add: triple_return)
next
  case (Cons c rp)
  let ?p = "rev (c # rp)"
  have proper: "list_all properComp ?p" "list_all properComp rp" using Cons.prems(1) by (simp_all add: list_all_iff)
  have parent: "prefix (rev rp) b \<or> prefix b (rev rp) \<or> ?p = b"
    using Cons.prems(2) by (auto simp: prefix_append dest: prefix_snocD)
  show ?case
  proof (cases "?p = b")
    case True
    then show ?thesis by (simp add: triple_return)
  next
    case False
    have par: "prefix (rev rp) b \<or> prefix b (rev rp)" using parent False by blast
    have links: "noLinkTo f ?p" "noLinkTo f (butlast ?p)" if "sameObjects b f0 f" for f
    proof -
      show "noLinkTo f ?p" using that plain_noLinkTo [OF _ Cons.prems(2)] by (simp add: sameObjects_def)
      then show "noLinkTo f (butlast ?p)" by (rule noLinkTo_butlast)
    qed
    have step: "triple (\<lambda>g. g = f \<and> (\<forall>es. r = Inr es \<longrightarrow> fsGet f ?p = Some Dir \<and> es = dirEntries f ?p))
        (case r of Inl _ \<Rightarrow> State_Monad.return () | Inr es \<Rightarrow> if es \<noteq> [] then State_Monad.return ()
           else State_Monad.bind (ignore (osRemove ?p)) (\<lambda>_. cleanEmptyParents b rp)) (\<lambda>_. sameObjects b f0)"
      if so: "sameObjects b f0 f" for f and r :: "(string \<times> bool) list result"
    proof (cases "\<exists>es. r = Inr es \<and> es = [] \<and> fsGet f ?p = Some Dir")
      case True
      have "triple (\<lambda>g. g = f) (State_Monad.bind (ignore (osRemove ?p)) (\<lambda>_. cleanEmptyParents b rp)) (\<lambda>_. sameObjects b f0)"
        using True proper so links [OF so]
        by (intro triple_bind [OF triple_ignore [OF triple_removeDir] Cons.IH [OF proper(2) par]]) auto
      then show ?thesis using True by (auto elim!: triple_weaken)
    qed (use so in \<open>auto split: sum.splits simp: triple_def\<close>)
    have unfold: "cleanEmptyParents b (c # rp) = State_Monad.bind (osReadDir ?p) (\<lambda>r. case r of Inl _ \<Rightarrow> State_Monad.return ()
          | Inr es \<Rightarrow> if es \<noteq> [] then State_Monad.return ()
              else State_Monad.bind (ignore (osRemove ?p)) (\<lambda>_. cleanEmptyParents b rp))"
      using False by simp
    show ?thesis
      unfolding unfold
    proof (rule triple_pre)
      fix f assume so: "sameObjects b f0 f"
      show "triple (\<lambda>g. g = f) (State_Monad.bind (osReadDir ?p) (\<lambda>r. case r of Inl _ \<Rightarrow> State_Monad.return ()
          | Inr es \<Rightarrow> if es \<noteq> [] then State_Monad.return ()
              else State_Monad.bind (ignore (osRemove ?p)) (\<lambda>_. cleanEmptyParents b rp))) (\<lambda>_. sameObjects b f0)"
        by (rule triple_bind [OF triple_readDir [OF proper(1) links(1) [OF so]] step [OF so]])
    qed
  qed
qed

lemma tree_cleanEmptyParents [preserving]: "preserves fsTree (cleanEmptyParents b rp)"
proof (induction rp)
  case (Cons c rp)
  then show ?case unfolding cleanEmptyParents.simps by (intro preserving)
qed (simp add: preserving)

lemma tree_Delete [preserving]: "preserves fsTree (Delete s key)"
  unfolding Delete_def by (intro preserving)

text \<open>What a deletion does to the objects: the one of the key goes, or none does.\<close>

definition deleted :: "Store \<Rightarrow> string \<Rightarrow> fsys \<Rightarrow> unit result \<Rightarrow> fsys \<Rightarrow> bool" where
  "deleted s key f0 r f \<longleftrightarrow> plain (basePath s) f \<and>
     (\<forall>p. objAt f p = (if p = objPath s key \<and> r = Inr () then None else objAt f0 p))"

lemma deleted_clean:
  assumes "sameObjects (basePath s) (fsDel (objPath s key) f0) f" "objPath s key \<noteq> []"
  shows "deleted s key f0 (Inr ()) f"
  using assms by (auto simp: deleted_def sameObjects_def objAt_del)

lemma triple_removeAndClean:
  assumes key: "objKey s key" "list_all properComp (cleanComps key)" and ok: "plain (basePath s) f0" "fsTree f0"
  defines "path \<equiv> objPath s key"
  shows "triple (\<lambda>f. f = f0)
    (State_Monad.bind (osRemove path) (\<lambda>r. case r of
        Inl err \<Rightarrow> if \<not> isNotExist err then State_Monad.return (Inl err)
          else State_Monad.bind (cleanEmptyParents (basePath s) (rev (butlast path))) (\<lambda>_. State_Monad.return (Inr ()))
      | Inr _ \<Rightarrow> State_Monad.bind (cleanEmptyParents (basePath s) (rev (butlast path))) (\<lambda>_. State_Monad.return (Inr ()))))
    (deleted s key f0)"
proof -
  note p = objPath_proper [OF key] objPath_split(4) [OF key(1)] prefix_base [OF key(1)]
  have links: "noLinkTo f0 (butlast path)" using plain_noLinkTo [OF ok(1)] p by (simp add: path_def)
  define D where "D = fsDel path f0"
  have clean: "triple (sameObjects (basePath s) D)
      (State_Monad.bind (cleanEmptyParents (basePath s) (rev (butlast path))) (\<lambda>_. State_Monad.return (Inr ())))
      (deleted s key f0)"
  proof (rule triple_bind [OF cleanEmptyParents_objects])
    show "list_all properComp (rev (butlast path))" using p(2) by (simp add: path_def list_all_iff)
    show "prefix (rev (rev (butlast path))) (basePath s) \<or> prefix (basePath s) (rev (rev (butlast path)))"
      using p(6) by (simp add: path_def)
    show "triple (sameObjects (basePath s) D) (State_Monad.return (Inr ())) (deleted s key f0)"
      using p(4) by (intro triple_return) (simp add: deleted_clean D_def path_def)
  qed
  have gone: "sameObjects (basePath s) D D" using ok(1) p(4) by (simp add: sameObjects_def D_def path_def plain_del)
  have same: "sameObjects (basePath s) D f0" if "place f0 path = Inl ErrNotExist \<or> fsGet f0 path = None"
  proof -
    have "fsGet f0 path = None" using that place_missing [OF _ ok(2) _ links] p(1) by (auto simp: path_def)
    moreover from this have "objAt f0 path = None" by (simp add: objAt_def)
    ultimately have "objAt D = objAt f0" using p(4) by (auto simp: D_def path_def objAt_del fun_eq_iff)
    then show ?thesis using ok(1) by (simp add: sameObjects_def)
  qed
  show ?thesis
  proof (rule triple_bind [OF triple_remove [OF _ _ links]])
    show "list_all properComp path" "path \<noteq> []" using p by (simp_all add: path_def)
    fix r :: "unit result"
    show "triple (\<lambda>f. (\<forall>e. r = Inl e \<longrightarrow> f = f0) \<and> (r = Inr () \<longrightarrow> f = fsDel path f0) \<and>
        (r = Inl ErrNotExist \<longrightarrow> place f0 path = Inl ErrNotExist \<or> fsGet f0 path = None))
      (case r of
        Inl err \<Rightarrow> if \<not> isNotExist err then State_Monad.return (Inl err)
          else State_Monad.bind (cleanEmptyParents (basePath s) (rev (butlast path))) (\<lambda>_. State_Monad.return (Inr ()))
      | Inr _ \<Rightarrow> State_Monad.bind (cleanEmptyParents (basePath s) (rev (butlast path))) (\<lambda>_. State_Monad.return (Inr ())))
      (deleted s key f0)"
    proof (cases r)
      case (Inr u)
      then show ?thesis using gone by (simp add: D_def) (rule triple_weaken [OF clean], simp add: D_def)
    next
      case (Inl e)
      show ?thesis
      proof (cases "e = ErrNotExist")
        case True
        have "triple (\<lambda>f. f = f0 \<and> (place f0 path = Inl ErrNotExist \<or> fsGet f0 path = None))
            (State_Monad.bind (cleanEmptyParents (basePath s) (rev (butlast path))) (\<lambda>_. State_Monad.return (Inr ())))
            (deleted s key f0)"
          by (rule triple_weaken [OF clean]) (use same in auto)
        then show ?thesis using Inl True by (simp add: isNotExist_def)
      next
        case False
        then show ?thesis using Inl ok(1) by (auto simp: isNotExist_def deleted_def intro!: triple_return)
      qed
    qed
  qed
qed

lemma Delete_law:
  assumes "storeKey s key" "storeOk s f0"
  shows "triple (\<lambda>f. f = f0) (Delete s key) (\<lambda>r f. storeOk s f \<and>
    (\<forall>p. objAt f p = (if p = objPath s key \<and> r = Inr () then None else objAt f0 p)))"
proof (rule put_storeOk [OF _ _ assms(2)])
  have k: "objKey s key" and ok: "plain (basePath s) f0" "fsTree f0" using assms by (auto simp: storeKey_def storeOk_def)
  have "triple (\<lambda>f. f = f0) (Delete s key) (deleted s key f0)"
    unfolding Delete_def
  proof (rule triple_withLock [OF triple_bindR [OF triple_resolve]])
    show "triple (\<lambda>f. f = f0 \<and> (\<forall>p. Inr path = Inr p \<longrightarrow> p = basePath s @ cleanComps key \<and> list_all properComp (cleanComps key)))
      (State_Monad.bind (osRemove path) (\<lambda>r. case r of
        Inl err \<Rightarrow> if \<not> isNotExist err then State_Monad.return (Inl err)
          else State_Monad.bind (cleanEmptyParents (basePath s) (rev (butlast path))) (\<lambda>_. State_Monad.return (Inr ()))
      | Inr _ \<Rightarrow> State_Monad.bind (cleanEmptyParents (basePath s) (rev (butlast path))) (\<lambda>_. State_Monad.return (Inr ()))))
      (deleted s key f0)" for path
    proof (cases "path = objPath s key \<and> list_all properComp (cleanComps key)")
      case True
      then have pc: "path = objPath s key" "list_all properComp (cleanComps key)" by auto
      show ?thesis unfolding pc(1) by (rule triple_weaken [OF triple_removeAndClean [OF k pc(2) ok]]) simp
    qed (auto simp: triple_def objPath_def)
  qed (use ok(1) in \<open>auto simp: deleted_def\<close>)
  then show "triple (\<lambda>f. f = f0) (Delete s key) (\<lambda>r f. plain (basePath s) f \<and>
      (\<forall>p. objAt f p = (if p = objPath s key \<and> r = Inr () then None else objAt f0 p)))"
    by (rule triple_post) (simp add: deleted_def)
  show "preserves fsTree (Delete s key)" by (rule tree_Delete)
qed

section \<open>Temporary files of a chosen name\<close>

lemma showNat_digits: "list_all isDigit (showNat n)"
proof (induction n rule: showNat.induct)
  case (1 n)
  have d: "isDigit (char_of (48 + m))" if "m < 10" for m :: nat
    using that by (auto simp: isDigit_def less_eq_char_def of_char_of)
  show ?case
    using 1 d [of n] d [of "n mod 10"] by (subst showNat.simps) (auto simp: list_all_iff)
qed

lemma createTemp_name: "createTempLoop n d prfx sufx rs f = (Some nm, rs') \<Longrightarrow> \<exists>r. nm = prfx @ showNat r @ sufx"
  by (induction n d prfx sufx rs f rule: createTempLoop.induct) (auto split: if_splits)

lemma proper_temp:
  assumes "CHR ''/'' \<notin> set prfx" "CHR ''/'' \<notin> set sufx" "length prfx > 2"
  shows "properComp (prfx @ showNat r @ sufx)"
proof -
  have "CHR ''/'' \<notin> set (showNat r)" using showNat_digits [of r] by (auto simp: list_all_iff isDigit_def less_eq_char_def)
  moreover have "length (prfx @ showNat r @ sufx) > 2" using assms(3) by simp
  then have "prfx @ showNat r @ sufx \<noteq> []" "prfx @ showNat r @ sufx \<noteq> ''.''" "prfx @ showNat r @ sufx \<noteq> ''..''"
    by (metis length_Cons list.size(3) numeral_2_eq_2 less_irrefl_nat not_less_eq Suc_lessD lessI zero_less_Suc less_trans)+
  ultimately show ?thesis using assms(1,2) by (simp add: properComp_def)
qed

text \<open>\<^verbatim>\<open>os.CreateTemp\<close> makes a new empty file of such a name.\<close>

lemma triple_createTemp:
  assumes "list_all properComp dir" "noLinkTo f0 dir"
  shows "triple (\<lambda>f. f = f0) (osCreateTemp dir prfx sufx) (\<lambda>r f. (\<forall>e. r = Inl e \<longrightarrow> f = f0) \<and>
    (\<forall>h tmp. r = Inr (h, tmp) \<longrightarrow> h = tmp \<and> (\<exists>n t. tmp = dir @ [prfx @ showNat n @ sufx] \<and> fsGet f0 tmp = None \<and>
       fsGet f0 dir = Some Dir \<and> f = fsPut tmp (File [] False t) f0)))"
  unfolding osCreateTemp_def
proof (rule triple_atomically)
  fix w r w'
  assume f: "fs w = f0" and act: "(case canon False (fs w) kernelLinks [] dir of Inl e \<Rightarrow> (Inl e, w)
     | Inr d \<Rightarrow> if fsGet (fs w) d \<noteq> Some Dir then (Inl ErrNotDir, w)
         else (case createTempLoop createTempTries d prfx sufx (rand w) (fs w) of
             (None, rs) \<Rightarrow> (Inl ErrExist, w\<lparr>rand := rs\<rparr>)
           | (Some nm, rs) \<Rightarrow> (Inr (d @ [nm], dir @ [nm]),
                w\<lparr>fs := fsPut (d @ [nm]) (File [] False (clock w)) (fs w), rand := rs\<rparr>))) = (r, w')"
  have d: "canon False f0 kernelLinks [] dir = Inr d \<Longrightarrow> d = dir" for d using canon_plain [of dir f0 "[]"] assms by auto
  show "(\<forall>e. r = Inl e \<longrightarrow> fs w' = f0) \<and> (\<forall>h tmp. r = Inr (h, tmp) \<longrightarrow> h = tmp \<and>
      (\<exists>n t. tmp = dir @ [prfx @ showNat n @ sufx] \<and> fsGet f0 tmp = None \<and> fsGet f0 dir = Some Dir \<and>
         fs w' = fsPut tmp (File [] False t) f0))"
    using act f d createTemp_name createTemp_fresh
    by (auto split: sum.splits if_splits prod.splits option.splits)
qed auto

text \<open>A name below the root that no object path goes through can hold a temporary file.\<close>

lemma tempOk_below:
  assumes "prefix (basePath s) tmp" "list_all properComp tmp" "tmp \<noteq> []"
  shows "tempOk (writing s key {tmp} f0) tmp"
  unfolding tempOk_def
  using assms plain_noLinkTo by (auto simp: writing_def intro: plain_put plain_del kept_put kept_del)

lemma dirsTo_other: "dirsTo f p \<Longrightarrow> \<not> prefix q p \<Longrightarrow> q \<noteq> [] \<Longrightarrow> dirsTo (fsPut q n f) p \<and> dirsTo (fsDel q f) p"
  by (auto simp: dirsTo_def fsGet_fsPut fsGet_fsDel strict_prefix_def)

lemma tempOk_written:
  assumes "prefix (basePath s) tmp" "list_all properComp tmp" "tmp \<noteq> []" "\<not> prefix tmp (objPath s key)"
  shows "tempOk (written s key data tmp f0) tmp"
proof -
  have ne: "tmp \<noteq> objPath s key" using assms(4) by auto
  show ?thesis
    unfolding tempOk_def
    using assms plain_noLinkTo ne dirsTo_other [OF _ assms(4,3)]
    by (auto simp: written_def writing_def tempHas_def fsGet_fsPut fsGet_fsDel intro: plain_put plain_del kept_put kept_del)
qed

section \<open>Streams\<close>

text \<open>Filling the temporary file: afterwards it holds the bytes that came through the limit, synced.\<close>

lemma triple_copyToFile:
  assumes "tempOk I tmp"
  shows "triple (\<lambda>f. I f \<and> tempHas tmp [] False f) (copyToFile tmp r limit)
    (\<lambda>res f. I f \<and> (\<forall>d. res = Inr d \<longrightarrow> d = fst (copyLimited r limit) \<and> snd (copyLimited r limit) = None \<and> tempHas tmp d False f))"
proof -
  obtain d err where c: "copyLimited r limit = (d, err)" by (rule prod.exhaust)
  show ?thesis
    unfolding copyToFile_def c prod.case
    by (rule triple_bindR [OF triple_writeTemp [OF assms]]) (auto intro!: triple_return split: option.splits)
qed

lemma triple_fillTemp:
  assumes tmp: "tempOk I tmp" and err: "\<And>e f. I f \<Longrightarrow> Q (Inl e) f"
    and rest: "fst (copyLimited r limit) = d \<Longrightarrow> snd (copyLimited r limit) = None \<Longrightarrow> int (length d) \<le> lim \<Longrightarrow>
       triple (\<lambda>f. I f \<and> tempHas tmp d True f) (k d) Q"
    and d: "d = fst (copyLimited r limit)"
  shows "triple (\<lambda>f. I f \<and> tempHas tmp [] False f)
    (bindR (wrapErr c1 [] (osChmod tmp)) (\<lambda>_.
     bindR (wrapErr c2 [] (copyToFile tmp r limit)) (\<lambda>data.
     if int (length data) > lim then State_Monad.return (Inl tooLong)
     else bindR (wrapErr c3 [] (osSync tmp)) (\<lambda>_. k data)))) Q"
proof (rule triple_bindR)
  show "triple (\<lambda>f. I f \<and> tempHas tmp [] False f) (wrapErr c1 [] (osChmod tmp)) (\<lambda>_ f. I f \<and> tempHas tmp [] False f)"
    by (rule readOnly_triple) (intro readonly)
  fix u
  show "triple (\<lambda>f. I f \<and> tempHas tmp [] False f) (bindR (wrapErr c2 [] (copyToFile tmp r limit)) (\<lambda>data.
     if int (length data) > lim then State_Monad.return (Inl tooLong)
     else bindR (wrapErr c3 [] (osSync tmp)) (\<lambda>_. k data))) Q"
  proof (rule triple_bindR)
    show "triple (\<lambda>f. I f \<and> tempHas tmp [] False f) (wrapErr c2 [] (copyToFile tmp r limit))
        (\<lambda>res f. I f \<and> (\<forall>x. res = Inr x \<longrightarrow> x = d \<and> snd (copyLimited r limit) = None \<and> tempHas tmp d False f))"
      by (rule triple_wrapErr, rule triple_post [OF triple_copyToFile [OF tmp]]) (auto simp: d)
    fix x
    show "triple (\<lambda>f. I f \<and> (\<forall>y. Inr x = Inr y \<longrightarrow> y = d \<and> snd (copyLimited r limit) = None \<and> tempHas tmp d False f))
      (if int (length x) > lim then State_Monad.return (Inl tooLong) else bindR (wrapErr c3 [] (osSync tmp)) (\<lambda>_. k x)) Q"
    proof (cases "x = d \<and> snd (copyLimited r limit) = None")
      case True
      then have sy: "triple (\<lambda>f. I f \<and> (\<forall>y. Inr x = Inr y \<longrightarrow> y = d \<and> snd (copyLimited r limit) = None \<and> tempHas tmp d False f))
          (wrapErr c3 [] (osSync tmp)) (\<lambda>res f. I f \<and> (res = Inr () \<longrightarrow> tempHas tmp d True f))"
        by (intro triple_wrapErr triple_conseq [OF triple_syncTemp [OF tmp, of d]]) auto
      show ?thesis
      proof (rule triple_if)
        show "triple (\<lambda>f. I f \<and> (\<forall>y. Inr x = Inr y \<longrightarrow> y = d \<and> snd (copyLimited r limit) = None \<and> tempHas tmp d False f))
            (State_Monad.return (Inl tooLong)) Q" by (rule triple_return) (simp add: err)
      next
        assume len: "\<not> int (length x) > lim"
        show "triple (\<lambda>f. I f \<and> (\<forall>y. Inr x = Inr y \<longrightarrow> y = d \<and> snd (copyLimited r limit) = None \<and> tempHas tmp d False f))
            (bindR (wrapErr c3 [] (osSync tmp)) (\<lambda>_. k x)) Q"
        proof (rule triple_bindR [OF sy])
          show "triple (\<lambda>f. I f \<and> (Inr y = Inr () \<longrightarrow> tempHas tmp d True f)) (k x) Q" for y :: unit
            using rest True len d by (auto elim!: triple_weaken)
        qed (simp add: err)
      qed
    qed (auto simp: triple_def)
  qed (simp add: err)
qed (simp add: err)

definition accepts :: "validator option \<Rightarrow> bytes \<Rightarrow> bool" where
  "accepts v d \<longleftrightarrow> (case v of None \<Rightarrow> True | Some g \<Rightarrow> g d = None)"

lemma triple_runValidator:
  "triple (\<lambda>f. I f \<and> tempHas tmp d sy f) (runValidator v tmp)
     (\<lambda>r f. I f \<and> tempHas tmp d sy f \<and> (r = Inr () \<longrightarrow> accepts v d))"
  by (auto simp: triple_def runValidator_def accepts_def handleData_def tempHas_def split: option.splits)

end
