(* ===== verification/Streams.thy ===== *)
theory Streams
  imports StoreOps
begin

text \<open>
  Streamed writes under every failure and every crash: \<^verbatim>\<open>PutStreamImmutable\<close>, which stores an upload under a
  name computed from its contents.
\<close>

section \<open>Publishing under a computed name\<close>

text \<open>The object to be written, and the name it gets.\<close>

definition uploaded :: "stream \<Rightarrow> 64 word \<Rightarrow> bytes" where
  "uploaded r maxSize = fst (copyLimited r (limitPlusOne maxSize))"

text \<open>The result and the state when the temporary file \<open>tmp\<close> has been filled and \<open>K\<close> is the destination.\<close>

definition published :: "Store \<Rightarrow> string \<Rightarrow> path \<Rightarrow> bytes \<Rightarrow> fsys \<Rightarrow> (nat \<times> string \<times> bool) result \<Rightarrow> fsys \<Rightarrow> bool" where
  "published s K tmp d f0 res f \<longleftrightarrow>
     (case res of
        Inl _ \<Rightarrow> writing s K {tmp} f0 f
      | Inr (n, k, existed) \<Rightarrow> n = length d \<and> k = K \<and>
          (if existed then writing s K {tmp} f0 f \<and> fsGet f0 (objPath s K) \<noteq> None
           else written s K d tmp f0 f \<and> fsGet f0 (objPath s K) = None))"

lemma published_Inl: "writing s K {tmp} f0 f \<Longrightarrow> published s K tmp d f0 (Inl e) f"
  by (simp add: published_def)

lemma tempOk_published:
  assumes "prefix (basePath s) tmp" "list_all properComp tmp" "tmp \<noteq> []" "\<not> prefix tmp (objPath s K)"
  shows "tempOk (published s K tmp d f0 res) tmp"
proof (cases "(\<exists>e. res = Inl e) \<or> (\<exists>n. res = Inr (n, K, True) \<and> n = length d \<and> fsGet f0 (objPath s K) \<noteq> None)")
  case True
  then have "published s K tmp d f0 res = writing s K {tmp} f0" by (auto simp: published_def fun_eq_iff)
  then show ?thesis using tempOk_below [OF assms(1-3)] by simp
next
  case False
  have "published s K tmp d f0 res = written s K d tmp f0 \<or> published s K tmp d f0 res = (\<lambda>_. False)"
    using False by (auto simp: published_def fun_eq_iff split: sum.splits)
  then show ?thesis using tempOk_written [OF assms] assms(2,3) by (auto simp: tempOk_def)
qed

lemma writing_object: "writing s K {tmp} f0 f \<Longrightarrow> objPath s K \<noteq> tmp \<Longrightarrow> objKey s K \<Longrightarrow>
    fsGet f (objPath s K) = fsGet f0 (objPath s K)"
proof -
  assume w: "writing s K {tmp} f0 f" "objPath s K \<noteq> tmp" "objKey s K"
  have "\<not> prefix (objPath s K) (butlast (objPath s K))"
    using objPath_split(4) [OF w(3)] prefix_length_le [of "objPath s K" "butlast (objPath s K)"]
    by (cases "objPath s K" rule: rev_cases) auto
  then show ?thesis using w by (auto simp: writing_def kept_def)
qed

lemma writing_found:
  assumes "writing s K {tmp} f0 f" "\<not> prefix tmp (objPath s K)" "objKey s K" "list_all properComp (cleanComps K)"
    and "fsTree f0" "fsGet f0 (objPath s K) \<noteq> None"
  shows "\<exists>n. statNode f (objPath s K) = Inr n"
proof -
  have ne: "objPath s K \<noteq> tmp" using assms(2) by auto
  have here: "fsGet f (objPath s K) = fsGet f0 (objPath s K)" by (rule writing_object [OF assms(1) ne assms(3)])
  have "dirsTo f0 (objPath s K)" using assms(5,6) by (simp add: fsTree_def)
  moreover have "fsGet f q = fsGet f0 q" if "strict_prefix q (objPath s K)" "fsGet f0 q \<noteq> None" for q
  proof -
    have "q \<noteq> tmp" using that(1) assms(2) by (auto simp: strict_prefix_def)
    then show ?thesis using assms(1) that(2) by (auto simp: writing_def kept_def)
  qed
  ultimately have dirs: "dirsTo f (objPath s K)" by (auto simp: dirsTo_def)
  have "fsGet f (objPath s K) \<noteq> Some (Link t m)" for t m
    using writing_noLink(3) [OF assms(3,1)] by (auto simp: noLinkTo_def)
  then have "canon False f kernelLinks [] (objPath s K) = Inr (objPath s K)"
    using canon_dirs [of "objPath s K" f "[]" False] objPath_proper(1) [OF assms(3,4)] dirs here assms(6) by simp
  then show ?thesis using here assms(6) by (auto simp: statNode_def split: option.splits)
qed

lemma triple_statTarget:
  assumes "\<not> prefix tmp (objPath s K)" "objKey s K" "list_all properComp (cleanComps K)" "fsTree f0"
  shows "triple (\<lambda>f. writing s K {tmp} f0 f \<and> X f) (osStat (objPath s K))
    (\<lambda>r f. (writing s K {tmp} f0 f \<and> X f) \<and> (\<forall>i. r = Inr i \<longrightarrow> fsGet f0 (objPath s K) \<noteq> None) \<and>
       (r = Inl ErrNotExist \<longrightarrow> fsGet f0 (objPath s K) = None))"
  unfolding osStat_def
proof (rule triple_query)
  fix w :: world assume I: "writing s K {tmp} f0 (fs w) \<and> X (fs w)"
  have ne: "objPath s K \<noteq> tmp" using assms(1) by auto
  have here: "fsGet (fs w) (objPath s K) = fsGet f0 (objPath s K)" using writing_object I ne assms(2) by blast
  have "canon False (fs w) kernelLinks [] (objPath s K) = Inr q \<Longrightarrow> q = objPath s K" for q
    using canon_plain [of "objPath s K" "fs w" "[]"] objPath_proper(1) [OF assms(2,3)] writing_noLink(3) [OF assms(2)] I by auto
  moreover have "\<exists>n. statNode (fs w) (objPath s K) = Inr n" if "fsGet f0 (objPath s K) \<noteq> None"
    using writing_found [OF _ assms(1-4) that] I by blast
  ultimately show "(writing s K {tmp} f0 (fs w) \<and> X (fs w)) \<and>
      (\<forall>i. map_sum id nodeInfo (statNode (fs w) (objPath s K)) = Inr i \<longrightarrow> fsGet f0 (objPath s K) \<noteq> None) \<and>
      (map_sum id nodeInfo (statNode (fs w) (objPath s K)) = Inl ErrNotExist \<longrightarrow> fsGet f0 (objPath s K) = None)"
    using I here
    by (cases "fsGet f0 (objPath s K)") (auto simp: statNode_def split: sum.splits option.splits)
qed auto

lemma triple_mkdirTarget:
  assumes "\<not> prefix tmp (objPath s K)" "objKey s K" "list_all properComp (cleanComps K)"
  shows "triple (\<lambda>f. writing s K {tmp} f0 f \<and> tempHas tmp d b f) (osMkdirAll (butlast (objPath s K)))
    (\<lambda>r f. writing s K {tmp} f0 f \<and> tempHas tmp d b f)"
proof -
  have "triple (\<lambda>f. writing s K {tmp} f0 f \<and> tempHas tmp d b f) (mkdirAllRev (rev (butlast (objPath s K))))
    (\<lambda>r f. (writing s K {tmp} f0 f \<and> tempHas tmp d b f) \<and> (r = Inr () \<longrightarrow> fsGet f (rev (rev (butlast (objPath s K)))) = Some Dir))"
  proof (rule triple_mkdirAllRev)
    show "list_all properComp (rev (rev (butlast (objPath s K))))" using objPath_proper [OF assms(2,3)] by simp
    fix f p
    assume I: "writing s K {tmp} f0 f \<and> tempHas tmp d b f" and p: "prefix p (rev (rev (butlast (objPath s K))))"
    show "noLinkTo f p" using below_dir_noLink [OF assms(2)] I p by (auto simp: writing_def)
    assume new: "p \<noteq> []" "fsGet f p = None"
    have "prefix p (objPath s K)" using p prefixeq_butlast prefix_order.trans by (metis rev_rev_ident)
    then have "p \<noteq> tmp" using assms(1) by blast
    moreover have "p \<noteq> tmp \<Longrightarrow> fsGet f0 p = None" using I new(2) by (auto simp: writing_def kept_def)
    ultimately show "writing s K {tmp} f0 (fsPut p Dir f) \<and> tempHas tmp d b (fsPut p Dir f)"
      using I new p by (auto simp: writing_def kept_def tempHas_def fsGet_fsPut intro!: plain_put)
  qed
  then show ?thesis unfolding osMkdirAll_def by (rule triple_post) auto
qed

text \<open>From the locked destination on.\<close>

lemma triple_placeUpload:
  assumes "\<not> prefix tmp (objPath s K)" "objKey s K" "list_all properComp (cleanComps K)" "fsTree f0"
    and tmp: "tempOk (writing s K {tmp} f0) tmp"
  shows "triple (\<lambda>f. writing s K {tmp} f0 f \<and> tempHas tmp d True f)
     (State_Monad.bind (osStat (objPath s K)) (\<lambda>st. case st of
        Inr _ \<Rightarrow> State_Monad.return (Inr (length d, K, True))
      | Inl err \<Rightarrow>
          if \<not> isNotExist err then State_Monad.return (Inl err)
          else
            bindR (wrapErr c1 [] (osMkdirAll (butlast (objPath s K)))) (\<lambda>_.
            bindR (wrapErr c2 [] (osClose h)) (\<lambda>_.
            bindR (wrapErr c3 [] (osRename tmp (objPath s K))) (\<lambda>_.
            State_Monad.return (Inr (length d, K, False)))))))
     (published s K tmp d f0)"
proof (rule triple_bind [OF triple_statTarget [OF assms(1-4)]])
  let ?I = "\<lambda>f. writing s K {tmp} f0 f \<and> tempHas tmp d True f"
  fix st :: "FileInfo result"
  show "triple (\<lambda>f. ?I f \<and> (\<forall>i. st = Inr i \<longrightarrow> fsGet f0 (objPath s K) \<noteq> None) \<and> (st = Inl ErrNotExist \<longrightarrow> fsGet f0 (objPath s K) = None))
    (case st of
        Inr _ \<Rightarrow> State_Monad.return (Inr (length d, K, True))
      | Inl err \<Rightarrow>
          if \<not> isNotExist err then State_Monad.return (Inl err)
          else
            bindR (wrapErr c1 [] (osMkdirAll (butlast (objPath s K)))) (\<lambda>_.
            bindR (wrapErr c2 [] (osClose h)) (\<lambda>_.
            bindR (wrapErr c3 [] (osRename tmp (objPath s K))) (\<lambda>_.
            State_Monad.return (Inr (length d, K, False)))))) (published s K tmp d f0)"
  proof (cases "st = Inl ErrNotExist \<and> fsGet f0 (objPath s K) = None")
    case True
    have rename: "triple ?I (bindR (wrapErr c3 [] (osRename tmp (objPath s K))) (\<lambda>_. State_Monad.return (Inr (length d, K, False))))
        (published s K tmp d f0)"
    proof (rule triple_bindR)
      show "triple ?I (wrapErr c3 [] (osRename tmp (objPath s K)))
          (\<lambda>r f. (\<forall>e. r = Inl e \<longrightarrow> writing s K {tmp} f0 f) \<and> (r = Inr () \<longrightarrow> written s K d tmp f0 f))"
        by (rule triple_wrapErr, rule triple_post [OF triple_publish_writing [OF assms(2,3) tmp assms(1)]]) auto
    qed (use True in \<open>auto intro!: triple_return simp: published_def\<close>)
    have "triple ?I
        (bindR (wrapErr c1 [] (osMkdirAll (butlast (objPath s K)))) (\<lambda>_.
            bindR (wrapErr c2 [] (osClose h)) (\<lambda>_.
            bindR (wrapErr c3 [] (osRename tmp (objPath s K))) (\<lambda>_.
            State_Monad.return (Inr (length d, K, False)))))) (published s K tmp d f0)"
    proof (rule triple_bindR)
      show "triple ?I (wrapErr c1 [] (osMkdirAll (butlast (objPath s K)))) (\<lambda>_. ?I)"
        by (rule triple_wrapErr, rule triple_mkdirTarget [OF assms(1-3)])
      show "triple ?I (bindR (wrapErr c2 [] (osClose h)) (\<lambda>_. bindR (wrapErr c3 [] (osRename tmp (objPath s K))) (\<lambda>_.
          State_Monad.return (Inr (length d, K, False))))) (published s K tmp d f0)"
      proof (rule triple_bindR)
        show "triple ?I (wrapErr c2 [] (osClose h)) (\<lambda>_. ?I)" by (rule readOnly_triple) (intro readonly)
      qed (rule rename, simp add: published_Inl)
    qed (simp add: published_Inl)
    then show ?thesis using True by (simp add: isNotExist_def)
  next
    case False
    then show ?thesis
      by (cases st) (auto simp: isNotExist_def published_def triple_def)
  qed
qed

lemma triple_resolveTarget:
  "triple I (resolve s key) (\<lambda>r f. I f \<and> (\<forall>path. r = Inr path \<longrightarrow> path = objPath s key \<and> list_all properComp (cleanComps key)))"
proof (rule triple_pre)
  fix g assume I: "I g"
  show "triple (\<lambda>f. f = g) (resolve s key)
      (\<lambda>r f. I f \<and> (\<forall>path. r = Inr path \<longrightarrow> path = objPath s key \<and> list_all properComp (cleanComps key)))"
    by (rule triple_post [OF triple_resolve]) (use I in \<open>auto simp: objPath_def\<close>)
qed

lemma triple_lockTarget:
  assumes K: "objKey s K" and tree: "fsTree f0" and tmp: "tempOk (writing s K {tmp} f0) tmp" and np: "\<not> prefix tmp (objPath s K)"
  shows "triple (\<lambda>f. writing s K {tmp} f0 f \<and> tempHas tmp d True f)
    (bindR (resolve s K) (\<lambda>destination. withLock K
       (State_Monad.bind (osStat destination) (\<lambda>st. case st of
          Inr _ \<Rightarrow> State_Monad.return (Inr (length d, K, True))
        | Inl err \<Rightarrow>
            if \<not> isNotExist err then State_Monad.return (Inl err)
            else
              bindR (wrapErr c1 [] (osMkdirAll (butlast destination))) (\<lambda>_.
              bindR (wrapErr c2 [] (osClose h)) (\<lambda>_.
              bindR (wrapErr c3 [] (osRename tmp destination)) (\<lambda>_.
              State_Monad.return (Inr (length d, K, False)))))))))
    (published s K tmp d f0)"
proof (rule triple_bindR [OF triple_resolveTarget])
  let ?I = "\<lambda>f. writing s K {tmp} f0 f \<and> tempHas tmp d True f"
  fix dst
  show "triple (\<lambda>f. ?I f \<and> (\<forall>path. Inr dst = Inr path \<longrightarrow> path = objPath s K \<and> list_all properComp (cleanComps K)))
    (withLock K
       (State_Monad.bind (osStat dst) (\<lambda>st. case st of
          Inr _ \<Rightarrow> State_Monad.return (Inr (length d, K, True))
        | Inl err \<Rightarrow>
            if \<not> isNotExist err then State_Monad.return (Inl err)
            else
              bindR (wrapErr c1 [] (osMkdirAll (butlast dst))) (\<lambda>_.
              bindR (wrapErr c2 [] (osClose h)) (\<lambda>_.
              bindR (wrapErr c3 [] (osRename tmp dst)) (\<lambda>_.
              State_Monad.return (Inr (length d, K, False))))))))
    (published s K tmp d f0)"
  proof (cases "dst = objPath s K \<and> list_all properComp (cleanComps K)")
    case True
    then have dst: "dst = objPath s K" and pc: "list_all properComp (cleanComps K)" by auto
    show ?thesis
      unfolding dst
      by (rule triple_weaken [OF triple_withLock [OF triple_placeUpload [OF np K pc tree tmp]]]) (auto intro: published_Inl)
  qed (auto simp: triple_def)
qed (auto intro: published_Inl)

text \<open>The part between the creation of the temporary file and its removal.\<close>

definition immutableBody ::
  "Store \<Rightarrow> stream \<Rightarrow> 64 word \<Rightarrow> validator option \<Rightarrow> (bytes \<Rightarrow> string) \<Rightarrow> path \<Rightarrow> path \<Rightarrow> (nat \<times> string \<times> bool) result io" where
  "immutableBody s r maxSize validate key f tmp =
      (bindR (wrapErr ''chmod temp: %w'' [] (osChmod f)) (\<lambda>_.
       bindR (wrapErr ''copy: %w'' [] (copyToFile f r (limitPlusOne maxSize))) (\<lambda>data.
       if int (length data) > sint maxSize then
         State_Monad.return (Inl (Wrapf ''%w of %d bytes'' [showInt (sint maxSize)] ErrUploadTooLarge))
       else
         bindR (wrapErr ''sync: %w'' [] (osSync f)) (\<lambda>_.
         bindR (wrapErr ''seek temp: %w'' [] (osSeekStart f)) (\<lambda>_.
         bindR (runValidator validate f) (\<lambda>_.
         bindR (resolve s (key data)) (\<lambda>destination.
         withLock (key data)
          (do { st \<leftarrow> osStat destination;
                case st of
                  Inr _ \<Rightarrow> State_Monad.return (Inr (length data, key data, True))
                | Inl err \<Rightarrow>
                    if \<not> isNotExist err then State_Monad.return (Inl err)
                    else
                      bindR (wrapErr ''mkdir: %w'' [] (osMkdirAll (butlast destination))) (\<lambda>_.
                      bindR (wrapErr ''close: %w'' [] (osClose f)) (\<lambda>_.
                      bindR (wrapErr ''rename: %w'' [] (osRename tmp destination)) (\<lambda>_.
                      State_Monad.return (Inr (length data, key data, False))))) }))))))))"

lemma PutStreamImmutable_body:
  "PutStreamImmutable s r maxSize validate key =
     bindR (wrapErr ''open temp: %w'' [] (osCreateTemp (basePath s) ''.tmp-upload-'' [])) (\<lambda>(f, tmp).
       finally_do (immutableBody s r maxSize validate key f tmp) (do { ignore (osClose f); ignore (osRemove tmp) }))"
  unfolding PutStreamImmutable_def immutableBody_def Let_def ..

text \<open>What a validated upload satisfies.\<close>

definition goodUpload :: "stream \<Rightarrow> 64 word \<Rightarrow> validator option \<Rightarrow> bool" where
  "goodUpload r maxSize v \<longleftrightarrow> snd (copyLimited r (limitPlusOne maxSize)) = None \<and>
     int (length (uploaded r maxSize)) \<le> sint maxSize \<and> accepts v (uploaded r maxSize)"

lemma triple_immutableBody:
  assumes K: "objKey s (key (uploaded r m))" and tree: "fsTree f0"
    and tmp: "tempOk (writing s (key (uploaded r m)) {tmp} f0) tmp" and np: "\<not> prefix tmp (objPath s (key (uploaded r m)))"
  shows "triple (\<lambda>f. writing s (key (uploaded r m)) {tmp} f0 f \<and> tempHas tmp [] False f)
    (immutableBody s r m v key tmp tmp)
    (\<lambda>res f. published s (key (uploaded r m)) tmp (uploaded r m) f0 res f \<and> (\<forall>x. res = Inr x \<longrightarrow> goodUpload r m v))"
  unfolding immutableBody_def
proof (rule triple_fillTemp [OF tmp])
  let ?K = "key (uploaded r m)" and ?d = "uploaded r m"
  let ?I = "\<lambda>f. writing s ?K {tmp} f0 f \<and> tempHas tmp ?d True f"
  show "?d = fst (copyLimited r (limitPlusOne m))" by (simp add: uploaded_def)
  assume ok: "snd (copyLimited r (limitPlusOne m)) = None" "int (length ?d) \<le> sint m"
  let ?rest = "bindR (resolve s ?K) (\<lambda>destination.
         withLock ?K
          (do { st \<leftarrow> osStat destination;
                case st of
                  Inr _ \<Rightarrow> State_Monad.return (Inr (length ?d, ?K, True))
                | Inl err \<Rightarrow>
                    if \<not> isNotExist err then State_Monad.return (Inl err)
                    else
                      bindR (wrapErr ''mkdir: %w'' [] (osMkdirAll (butlast destination))) (\<lambda>_.
                      bindR (wrapErr ''close: %w'' [] (osClose tmp)) (\<lambda>_.
                      bindR (wrapErr ''rename: %w'' [] (osRename tmp destination)) (\<lambda>_.
                      State_Monad.return (Inr (length ?d, ?K, False))))) }))"
  show "triple ?I (bindR (wrapErr ''seek temp: %w'' [] (osSeekStart tmp)) (\<lambda>_. bindR (runValidator v tmp) (\<lambda>_. ?rest)))
    (\<lambda>res f. published s ?K tmp ?d f0 res f \<and> (\<forall>x. res = Inr x \<longrightarrow> goodUpload r m v))"
  proof (rule triple_bindR)
    show "triple ?I (wrapErr ''seek temp: %w'' [] (osSeekStart tmp)) (\<lambda>_. ?I)" by (rule readOnly_triple) (intro readonly)
    show "triple ?I (bindR (runValidator v tmp) (\<lambda>_. ?rest)) (\<lambda>res f. published s ?K tmp ?d f0 res f \<and> (\<forall>x. res = Inr x \<longrightarrow> goodUpload r m v))"
    proof (rule triple_bindR [OF triple_runValidator])
      fix u :: unit
      show "triple (\<lambda>f. writing s ?K {tmp} f0 f \<and> tempHas tmp ?d True f \<and> (Inr u = Inr () \<longrightarrow> accepts v ?d)) ?rest
          (\<lambda>res f. published s ?K tmp ?d f0 res f \<and> (\<forall>x. res = Inr x \<longrightarrow> goodUpload r m v))"
      proof (cases "accepts v ?d")
        case True
        then have "goodUpload r m v" using ok by (simp add: goodUpload_def)
        then show ?thesis
          by (intro triple_conseq [OF triple_lockTarget [OF K tree tmp np]]) auto
      qed (simp add: triple_def)
    qed (simp add: published_Inl)
  qed (simp add: published_Inl)
qed (simp add: published_Inl)

section \<open>The law\<close>

text \<open>A key whose path does not start at a temporary name.\<close>

definition dataKey :: "Store \<Rightarrow> string \<Rightarrow> bool" where
  "dataKey s K \<longleftrightarrow> storeKey s K \<and> \<not> hasPrefix (hd (cleanComps K)) ''.tmp-''"

lemma upload_temp_name: "hasPrefix (''.tmp-upload-'' @ x) ''.tmp-''"
  by (simp add: hasPrefix_def)

lemma upload_temp:
  assumes "dataKey s K" "tmp = basePath s @ [''.tmp-upload-'' @ showNat n @ []]"
  shows "list_all properComp tmp" "tmp \<noteq> []" "prefix (basePath s) tmp" "tempName tmp" "\<not> prefix tmp (objPath s K)"
proof -
  have K: "list_all properComp (basePath s)" "cleanComps K \<noteq> []" "\<not> hasPrefix (hd (cleanComps K)) ''.tmp-''"
    using assms(1) by (auto simp: dataKey_def storeKey_def objKey_def)
  have "properComp (''.tmp-upload-'' @ showNat n @ [])" by (rule proper_temp) simp_all
  then show "list_all properComp tmp" using K(1) assms(2) by simp
  show "tmp \<noteq> []" "prefix (basePath s) tmp" using assms(2) by simp_all
  show "tempName tmp" using upload_temp_name assms(2) by (simp add: tempName_def del: append.simps)
  show "\<not> prefix tmp (objPath s K)"
  proof
    assume "prefix tmp (objPath s K)"
    then have "prefix [''.tmp-upload-'' @ showNat n @ []] (cleanComps K)" by (simp add: assms(2) objPath_def)
    then have "hd (cleanComps K) = ''.tmp-upload-'' @ showNat n @ []" by (auto simp: prefix_def)
    then show False using K(3) upload_temp_name by metis
  qed
qed

lemma published_objects:
  assumes "published s K tmp d f0 res f" "tempName tmp" "\<not> tempName p"
  shows "objAt f p = (if p = objPath s K \<and> (\<exists>n k. res = Inr (n, k, False)) then Some (d, True) else objAt f0 p)"
proof -
  have ne: "p \<noteq> tmp" using assms(2,3) by auto
  consider (kept) "writing s K {tmp} f0 f" "\<nexists>n k. res = Inr (n, k, False)" | (new) n k where "written s K d tmp f0 f" "res = Inr (n, k, False)"
    using assms(1) by (auto simp: published_def split: sum.splits prod.splits if_splits)
  then show ?thesis
  proof cases
    case kept
    then show ?thesis using ne by (auto simp: writing_def intro: kept_objects)
  next
    case new
    have "objAt f (objPath s K) = Some (d, True)" using new(1) by (auto simp: written_def tempHas_def objAt_def)
    moreover have "p \<noteq> objPath s K \<Longrightarrow> objAt f p = objAt f0 p"
      using new(1) ne by (auto simp: written_def writing_def intro: kept_objects)
    ultimately show ?thesis using new(2) by auto
  qed
qed

lemma published_plain: "published s K tmp d f0 res f \<Longrightarrow> plain (basePath s) f"
  by (auto simp: published_def writing_def written_def split: sum.splits if_splits)

lemma published_result:
  "published s K tmp d f0 (Inr (n, k, e)) f \<Longrightarrow> n = length d \<and> k = K \<and> (e \<longleftrightarrow> fsGet f0 (objPath s K) \<noteq> None)"
  by (auto simp: published_def split: if_splits)

lemma tree_immutable [preserving]: "preserves fsTree (PutStreamImmutable s r m v key)"
proof -
  have "preserves fsTree (runValidator v f)" for f
    by (rule preserves_readOnly) (auto simp: readOnly_def runValidator_def split: option.splits)
  moreover have "preserves fsTree (copyToFile f r l)" for f l
    unfolding copyToFile_def by (intro preserving)
  ultimately show ?thesis
    unfolding PutStreamImmutable_def Let_def by (intro preserving; assumption?)
qed

text \<open>What an immutable write did, as its caller sees it.\<close>

definition stored ::
  "Store \<Rightarrow> stream \<Rightarrow> 64 word \<Rightarrow> validator option \<Rightarrow> string \<Rightarrow> fsys \<Rightarrow> (nat \<times> string \<times> bool) result \<Rightarrow> fsys \<Rightarrow> bool" where
  "stored s r m v K f0 res f \<longleftrightarrow>
     (\<forall>p. \<not> tempName p \<longrightarrow> objAt f p =
        (if p = objPath s K \<and> (\<exists>n k. res = Inr (n, k, False)) then Some (uploaded r m, True) else objAt f0 p)) \<and>
     (\<forall>n k e. res = Inr (n, k, e) \<longrightarrow> n = length (uploaded r m) \<and> k = K \<and> goodUpload r m v \<and>
        (e \<longleftrightarrow> fsGet f0 (objPath s K) \<noteq> None))"

lemma stored_Inl: "stored s r m v K f0 (Inl e) f0"
  by (simp add: stored_def)

lemma published_stored:
  assumes "published s K tmp (uploaded r m) f0 res f" "\<forall>x. res = Inr x \<longrightarrow> goodUpload r m v" "tempName tmp"
  shows "plain (basePath s) f \<and> stored s r m v K f0 res f"
proof -
  have "n = length (uploaded r m) \<and> k = K \<and> goodUpload r m v \<and> (e \<longleftrightarrow> fsGet f0 (objPath s K) \<noteq> None)"
    if "res = Inr (n, k, e)" for n k e
    using published_result [of s K tmp "uploaded r m" f0 n k e f] assms(1,2) that by simp
  then show ?thesis
    unfolding stored_def using published_plain [OF assms(1)] published_objects [OF assms(1,3)] by blast
qed

lemma PutStreamImmutable_law:
  assumes "dataKey s (key (uploaded r m))" "storeOk s f0"
  shows "triple (\<lambda>f. f = f0) (PutStreamImmutable s r m v key)
    (\<lambda>res f. storeOk s f \<and> stored s r m v (key (uploaded r m)) f0 res f)"
proof (rule put_storeOk [OF _ tree_immutable assms(2)])
  let ?K = "key (uploaded r m)" and ?d = "uploaded r m"
  have K: "objKey s ?K" "list_all properComp (basePath s)" using assms(1) by (auto simp: dataKey_def storeKey_def objKey_def)
  have ok: "plain (basePath s) f0" "fsTree f0" using assms(2) by (auto simp: storeOk_def)
  have link: "noLinkTo f0 (basePath s)" using plain_noLinkTo [OF ok(1)] by simp
  show "triple (\<lambda>f. f = f0) (PutStreamImmutable s r m v key) (\<lambda>res f. plain (basePath s) f \<and> stored s r m v ?K f0 res f)"
    unfolding PutStreamImmutable_body
  proof (rule triple_bindR)
    show "triple (\<lambda>f. f = f0) (wrapErr ''open temp: %w'' [] (osCreateTemp (basePath s) ''.tmp-upload-'' []))
        (\<lambda>r f. (\<forall>e. r = Inl e \<longrightarrow> f = f0) \<and> (\<forall>h tmp. r = Inr (h, tmp) \<longrightarrow> h = tmp \<and>
          (\<exists>n t. tmp = basePath s @ [''.tmp-upload-'' @ showNat n @ []] \<and> fsGet f0 tmp = None \<and> fsGet f0 (basePath s) = Some Dir \<and>
            f = fsPut tmp (File [] False t) f0)))"
      by (rule triple_wrapErr, rule triple_post [OF triple_createTemp [OF K(2) link]]) auto
  next
    fix ht :: "path \<times> path"
    obtain h tmp where ht: "ht = (h, tmp)" by (rule prod.exhaust)
    let ?P = "\<lambda>f. \<exists>n t. h = tmp \<and> tmp = basePath s @ [''.tmp-upload-'' @ showNat n @ []] \<and> f = fsPut tmp (File [] False t) f0"
    show "triple (\<lambda>f. (\<forall>e. Inr ht = Inl e \<longrightarrow> f = f0) \<and> (\<forall>h tmp. Inr ht = Inr (h, tmp) \<longrightarrow> h = tmp \<and>
          (\<exists>n t. tmp = basePath s @ [''.tmp-upload-'' @ showNat n @ []] \<and> fsGet f0 tmp = None \<and> fsGet f0 (basePath s) = Some Dir \<and>
            f = fsPut tmp (File [] False t) f0)))
        (case ht of (f, tmp) \<Rightarrow> finally_do (immutableBody s r m v key f tmp) (do { ignore (osClose f); ignore (osRemove tmp) }))
        (\<lambda>res f. plain (basePath s) f \<and> stored s r m v ?K f0 res f)"
    proof (cases "\<exists>n. h = tmp \<and> tmp = basePath s @ [''.tmp-upload-'' @ showNat n @ []]")
      case True
      then obtain n where h: "h = tmp" and n: "tmp = basePath s @ [''.tmp-upload-'' @ showNat n @ []]" by blast
      note t = upload_temp [OF assms(1) n]
      have start: "writing s ?K {tmp} f0 (fsPut tmp (File [] False x) f0) \<and> tempHas tmp [] False (fsPut tmp (File [] False x) f0)" for x
        using t(2) ok(1) by (auto simp: writing_def tempHas_def fsGet_fsPut intro: plain_put kept_put)
      have body: "triple (\<lambda>f. writing s ?K {tmp} f0 f \<and> tempHas tmp [] False f)
          (finally_do (immutableBody s r m v key tmp tmp) (do { ignore (osClose tmp); ignore (osRemove tmp) }))
          (\<lambda>res f. published s ?K tmp ?d f0 res f \<and> (\<forall>x. res = Inr x \<longrightarrow> goodUpload r m v))"
      proof (rule triple_finally [OF triple_immutableBody [where key = key and r = r and m = m, OF K(1) ok(2) tempOk_below [OF t(3,1,2)] t(5)]])
        fix res
        have "tempOk (\<lambda>f. published s ?K tmp ?d f0 res f \<and> (\<forall>x. res = Inr x \<longrightarrow> goodUpload r m v)) tmp"
          using tempOk_published [OF t(3,1,2,5), of ?d f0 res] by (auto simp: tempOk_def)
        then show "triple (\<lambda>f. published s ?K tmp ?d f0 res f \<and> (\<forall>x. res = Inr x \<longrightarrow> goodUpload r m v))
            (do { ignore (osClose tmp); ignore (osRemove tmp) })
            (\<lambda>_ f. published s ?K tmp ?d f0 res f \<and> (\<forall>x. res = Inr x \<longrightarrow> goodUpload r m v))"
          by (rule triple_cleanup(1))
      qed
      show ?thesis
        unfolding ht h prod.case
      proof (rule triple_conseq [OF body])
        fix res f
        assume "published s ?K tmp ?d f0 res f \<and> (\<forall>x. res = Inr x \<longrightarrow> goodUpload r m v)"
        then show "plain (basePath s) f \<and> stored s r m v ?K f0 res f" using published_stored [OF _ _ t(4)] by blast
      qed (use start in auto)
    qed (auto simp: triple_def ht)
  qed (use ok(1) in \<open>auto simp: stored_def\<close>)
qed

end
