(* ===== verification/Objects.thy ===== *)
theory Objects
  imports Streams Indexes
begin

text \<open>
  The store as the handlers see it: a map from paths to the bytes stored there.  A program refines a relation
  between the map before, its result and the map after, whatever calls fail and wherever the machine stops;
  relations compose like the programs do.
\<close>

section \<open>Refinement\<close>

type_synonym objs = "path \<Rightarrow> bytes option"

definition objects :: "fsys \<Rightarrow> objs" where
  "objects f p = (if tempName p then None else objectAt f p)"

definition refines :: "(fsys \<Rightarrow> bool) \<Rightarrow> (fsys \<Rightarrow> objs) \<Rightarrow> 'a io \<Rightarrow> (objs \<Rightarrow> 'a \<Rightarrow> objs \<Rightarrow> bool) \<Rightarrow> bool" where
  "refines ok obs m R \<longleftrightarrow> (\<forall>f0. ok f0 \<longrightarrow> triple (\<lambda>f. f = f0) m (\<lambda>r f. ok f \<and> R (obs f0) r (obs f)))"

lemma refinesD:
  "refines ok obs m R \<Longrightarrow> ok (fs w) \<Longrightarrow> run_state m w = (r, w') \<Longrightarrow> ok (fs w') \<and> R (obs (fs w)) r (obs (fs w'))"
  unfolding refines_def by (blast dest: tripleD)

lemma refinesI:
  "(\<And>f0. ok f0 \<Longrightarrow> triple (\<lambda>f. f = f0) m (\<lambda>r f. ok f \<and> R (obs f0) r (obs f))) \<Longrightarrow> refines ok obs m R"
  by (simp add: refines_def)

lemma refines_post: "refines ok obs m R \<Longrightarrow> (\<And>a r b. R a r b \<Longrightarrow> R' a r b) \<Longrightarrow> refines ok obs m R'"
  unfolding refines_def triple_def by blast

lemma refines_return: "(\<And>a. R a x a) \<Longrightarrow> refines ok obs (State_Monad.return x) R"
  by (auto simp: refines_def triple_def)

lemma refines_bind:
  assumes "refines ok obs m R1" "\<And>x. refines ok obs (k x) (R2 x)" "\<And>a x b r c. R1 a x b \<Longrightarrow> R2 x b r c \<Longrightarrow> R a r c"
  shows "refines ok obs (State_Monad.bind m k) R"
  unfolding refines_def triple_def
proof (intro allI impI)
  fix f0 w r w' assume ok: "ok f0" "fs w = f0" and run: "run_state (State_Monad.bind m k) w = (r, w')"
  obtain x w1 where 1: "run_state m w = (x, w1)" by (rule prod.exhaust)
  have 2: "run_state (k x) w1 = (r, w')" using run 1 by simp
  have "ok (fs w1) \<and> R1 (obs (fs w)) x (obs (fs w1))" using refinesD [OF assms(1) _ 1] ok by simp
  moreover from this have "ok (fs w') \<and> R2 x (obs (fs w1)) r (obs (fs w'))" using refinesD [OF assms(2) _ 2] by simp
  ultimately show "ok (fs w') \<and> R (obs f0) r (obs (fs w'))" using assms(3) ok by blast
qed

lemma refines_ignore: "refines ok obs m (\<lambda>a _ b. R a () b) \<Longrightarrow> refines ok obs (ignore m) R"
  unfolding ignore_def by (rule refines_bind, assumption, rule refines_return [where R = "\<lambda>a r b. a = b"]) auto

lemma refines_readOnly: "readOnly m \<Longrightarrow> (\<And>r a. R a r a) \<Longrightarrow> refines ok obs m R"
  by (auto simp: refines_def triple_def dest: readOnlyD)

lemma refines_withLock:
  assumes "refines ok obs m R" "\<And>a. R a (Inl ErrDeadlock) a"
  shows "refines ok obs (withLock key m) R"
  unfolding refines_def using assms by (auto intro!: triple_withLock simp: refines_def)

lemma refines_readOnly_bind:
  assumes "readOnly m" "\<And>x. refines ok obs (k x) R"
  shows "refines ok obs (State_Monad.bind m k) R"
  by (rule refines_bind [OF refines_readOnly [OF assms(1), where R = "\<lambda>a _ b. b = a"] assms(2)]) auto

lemma refines_bindR:
  assumes "refines ok obs m Q" "\<And>x. refines ok obs (k x) (R2 x)" "\<And>a e b. Q a (Inl e) b \<Longrightarrow> R a (Inl e) b"
    "\<And>a x b r c. Q a (Inr x) b \<Longrightarrow> R2 x b r c \<Longrightarrow> R a r c"
  shows "refines ok obs (bindR m k) R"
  unfolding bindR_def
proof (rule refines_bind [OF assms(1), where ?R2.0 = "\<lambda>x a r c. case x of Inl e \<Rightarrow> r = Inl e \<and> c = a | Inr y \<Rightarrow> R2 y a r c"])
  fix x
  show "refines ok obs (case x of Inl e \<Rightarrow> State_Monad.return (Inl e) | Inr y \<Rightarrow> k y)
      (\<lambda>a r c. case x of Inl e \<Rightarrow> r = Inl e \<and> c = a | Inr y \<Rightarrow> R2 y a r c)"
    using assms(2) by (cases x) (auto intro: refines_return)
next
  fix a x b r c
  assume "Q a x b" "case x of Inl e \<Rightarrow> r = Inl e \<and> c = b | Inr y \<Rightarrow> R2 y b r c"
  then show "R a r c" using assms(3,4) by (cases x) auto
qed

section \<open>The operations\<close>

definition specGet :: "path \<Rightarrow> objs \<Rightarrow> bytes result \<Rightarrow> objs \<Rightarrow> bool" where
  "specGet p a r b \<longleftrightarrow> b = a \<and> seen r (a p)"

definition specSet :: "path \<Rightarrow> bytes option \<Rightarrow> objs \<Rightarrow> unit result \<Rightarrow> objs \<Rightarrow> bool" where
  "specSet p v a r b \<longleftrightarrow> b = (if r = Inr () then a(p := v) else a)"

text \<open>
  What a handler relies on in the store: reading, writing and removing objects by their keys.  The undo
  operations of the handlers are built from these.
\<close>

locale artifact_store =
  fixes ok :: "fsys \<Rightarrow> bool"
    and obs :: "fsys \<Rightarrow> objs"
    and at :: "string \<Rightarrow> path"
    and isKey :: "string \<Rightarrow> bool"
    and get :: "string \<Rightarrow> bytes result io"
    and put :: "string \<Rightarrow> bytes \<Rightarrow> unit result io"
    and del :: "string \<Rightarrow> unit result io"
  assumes get: "isKey k \<Longrightarrow> refines ok obs (get k) (specGet (at k))"
    and put: "isKey k \<Longrightarrow> refines ok obs (put k d) (specSet (at k) (Some d))"
    and del: "isKey k \<Longrightarrow> refines ok obs (del k) (specSet (at k) None)"
begin

text \<open>Putting back what was there: the object has its old value, is gone, or, if that fails too, is as it was.\<close>

lemma restore:
  assumes "isKey k"
  shows "refines ok obs (case previous of Inr d \<Rightarrow> ignore (put k d) | Inl _ \<Rightarrow> ignore (del k))
    (\<lambda>a _ b. b = a \<or> b = a(at k := (case previous of Inr d \<Rightarrow> Some d | Inl _ \<Rightarrow> None)))"
proof (cases previous)
  case (Inl e)
  have "refines ok obs (ignore (del k)) (\<lambda>a _ b. b = a \<or> b = a(at k := None))"
    by (rule refines_ignore, rule refines_post [OF del [OF assms]]) (auto simp: specSet_def)
  then show ?thesis using Inl by simp
next
  case (Inr d)
  have "refines ok obs (ignore (put k d)) (\<lambda>a _ b. b = a \<or> b = a(at k := Some d))"
    by (rule refines_ignore, rule refines_post [OF put [OF assms]]) (auto simp: specSet_def)
  then show ?thesis using Inr by simp
qed

lemma discard:
  assumes "c \<Longrightarrow> isKey k"
  shows "refines ok obs (if c then ignore (del k) else State_Monad.return ())
    (\<lambda>a _ b. b = a \<or> c \<and> b = a(at k := None))"
proof (cases c)
  case True
  have "refines ok obs (ignore (del k)) (\<lambda>a _ b. b = a \<or> c \<and> b = a(at k := None))"
    by (rule refines_ignore, rule refines_post [OF del [OF assms [OF True]]]) (use True in \<open>auto simp: specSet_def\<close>)
  then show ?thesis using True by simp
qed (simp add: refines_return)

end

lemma storeKey_not_temp: "storeKey s key \<Longrightarrow> \<not> tempName (objPath s key)"
  by (simp add: storeKey_def)

interpretation artifacts: artifact_store "storeOk s" objects "objPath s" "storeKey s" "Get s" "Put s" "Delete s" for s
proof unfold_locales
  fix k d assume k: "storeKey s k"
  note nt = storeKey_not_temp [OF k]
  show "refines (storeOk s) objects (Get s k) (specGet (objPath s k))"
    by (rule refinesI, rule triple_post [OF fileStore.get_law [OF k]]) (use nt in \<open>auto simp: specGet_def objects_def\<close>)
  show "refines (storeOk s) objects (Put s k d) (specSet (objPath s k) (Some d))"
    by (rule refinesI, rule triple_post [OF fileStore.put_law [OF k]]) (use nt in \<open>auto simp: specSet_def objects_def fun_eq_iff\<close>)
  show "refines (storeOk s) objects (Delete s k) (specSet (objPath s k) None)"
    by (rule refinesI, rule triple_post [OF Delete_law [OF k]])
       (use nt in \<open>auto simp: specSet_def objects_def objectAt_def fun_eq_iff\<close>)
qed

section \<open>Uploads and indexes\<close>

definition specStore ::
  "path \<Rightarrow> string \<Rightarrow> stream \<Rightarrow> 64 word \<Rightarrow> validator option \<Rightarrow> objs \<Rightarrow> (nat \<times> string \<times> bool) result \<Rightarrow> objs \<Rightarrow> bool" where
  "specStore p K r m v a res b \<longleftrightarrow>
     (case res of
        Inl _ \<Rightarrow> b = a
      | Inr (n, k, existed) \<Rightarrow> k = K \<and> n = length (uploaded r m) \<and> goodUpload r m v \<and>
          (if existed then b = a else a p = None \<and> b = a(p := Some (uploaded r m))))"

lemma objectAt_None: "fsGet f p = None \<Longrightarrow> objectAt f p = None"
  by (simp add: objectAt_def objAt_def)

lemma refines_immutable:
  assumes "dataKey s (key (uploaded r m))"
  shows "refines (storeOk s) objects (PutStreamImmutable s r m v key)
    (specStore (objPath s (key (uploaded r m))) (key (uploaded r m)) r m v)"
proof (rule refinesI, rule triple_post [OF PutStreamImmutable_law [where key = key, OF assms]])
  let ?K = "key (uploaded r m)"
  fix f0 res f
  assume post: "storeOk s f \<and> stored s r m v ?K f0 res f"
  have nt: "\<not> tempName (objPath s ?K)" using assms by (simp add: dataKey_def storeKey_def)
  have ob: "objects f p = (if p = objPath s ?K \<and> (\<exists>n k. res = Inr (n, k, False)) then Some (uploaded r m) else objects f0 p)" for p
    using post nt by (auto simp: stored_def objects_def objectAt_def)
  have "specStore (objPath s ?K) ?K r m v (objects f0) res (objects f)"
  proof (cases res)
    case (Inl e)
    then show ?thesis using ob by (simp add: specStore_def fun_eq_iff)
  next
    case (Inr x)
    obtain n k e where x: "x = (n, k, e)" by (cases x)
    have facts: "n = length (uploaded r m)" "k = ?K" "goodUpload r m v" "e \<longleftrightarrow> fsGet f0 (objPath s ?K) \<noteq> None"
      using post Inr x by (auto simp: stored_def)
    have "\<not> e \<Longrightarrow> objects f0 (objPath s ?K) = None" using facts(4) objectAt_None by (simp add: objects_def)
    then show ?thesis using ob Inr x facts(1-3) by (auto simp: specStore_def fun_eq_iff)
  qed
  then show "storeOk s f \<and> specStore (objPath s ?K) ?K r m v (objects f0) res (objects f)" using post by blast
qed

text \<open>
  An update of an index changes that file at most, and nothing when it fails.  On a file that lists semantic
  versions it does to the index what \<open>g\<close> says.
\<close>

definition goodFile :: "bytes option \<Rightarrow> bool" where
  "goodFile ob \<longleftrightarrow> (case indexAt ob of None \<Rightarrow> True | Some idx \<Rightarrow> goodIndex idx)"

definition specIndex :: "path \<Rightarrow> (Index \<Rightarrow> Index) \<Rightarrow> objs \<Rightarrow> unit result \<Rightarrow> objs \<Rightarrow> bool" where
  "specIndex p g a r b \<longleftrightarrow> b = a(p := b p) \<and> (r \<noteq> Inr () \<longrightarrow> b = a) \<and>
     (r = Inr () \<and> goodFile (a p) \<longrightarrow> (\<exists>old. indexAt (a p) = Some old \<and> goodIndex old \<and> indexAt (b p) = Some (g old)))"

lemma refines_index:
  assumes k: "storeKey s key"
    and step: "\<And>idx ob. goodIndex idx \<Longrightarrow> indexAt ob = Some idx \<Longrightarrow>
      indexAt (case step idx of None \<Rightarrow> ob | Some d \<Rightarrow> Some d) = Some (g idx)"
  shows "refines (storeOk s) objects
    (withLock key (readModifyWrite (Get s) (putUnlocked s) key (\<lambda>r. map_sum id step (indexOf key r))))
    (specIndex (objPath s key) g)"
proof (rule refinesI)
  fix f0 assume ok: "storeOk s f0"
  let ?p = "objPath s key"
  let ?m = "withLock key (readModifyWrite (Get s) (putUnlocked s) key (\<lambda>r. map_sum id step (indexOf key r)))"
  note nt = storeKey_not_temp [OF k]
  have any: "triple (\<lambda>f. f = f0) ?m (\<lambda>r f. storeOk s f \<and>
        (\<forall>p. \<not> tempName p \<longrightarrow> p \<noteq> ?p \<or> r \<noteq> Inr () \<longrightarrow> objectAt f p = objectAt f0 p))"
    by (rule triple_withLock [OF triple_post [OF unlockedStore.rmw [OF k ok]]]) (use ok in auto)
  have good: "triple (\<lambda>f. f = f0) ?m (\<lambda>r f. r = Inr () \<and> goodFile (objectAt f0 ?p) \<longrightarrow>
      (\<exists>old. indexAt (objectAt f0 ?p) = Some old \<and> goodIndex old \<and> indexAt (objectAt f ?p) = Some (g old)))"
  proof (cases "goodFile (objectAt f0 ?p)")
    case True
    then have gi: "\<And>idx. indexAt (objectAt f0 ?p) = Some idx \<Longrightarrow> goodIndex idx" by (simp add: goodFile_def)
    show ?thesis
      by (rule triple_post [OF index_update [where step = step and g = g, OF k ok step]]) (use gi in auto)
  qed (simp add: triple_def)
  show "triple (\<lambda>f. f = f0) ?m (\<lambda>r f. storeOk s f \<and> specIndex ?p g (objects f0) r (objects f))"
  proof (rule triple_conseq [OF triple_conj [OF any good]])
    fix r :: "unit result" and f
    assume a: "(storeOk s f \<and> (\<forall>p. \<not> tempName p \<longrightarrow> p \<noteq> ?p \<or> r \<noteq> Inr () \<longrightarrow> objectAt f p = objectAt f0 p)) \<and>
      (r = Inr () \<and> goodFile (objectAt f0 ?p) \<longrightarrow>
      (\<exists>old. indexAt (objectAt f0 ?p) = Some old \<and> goodIndex old \<and> indexAt (objectAt f ?p) = Some (g old)))"
    have "objects f = (objects f0)(?p := objects f ?p)" "r \<noteq> Inr () \<Longrightarrow> objects f = objects f0"
      using a nt by (auto simp: objects_def fun_eq_iff)
    then show "storeOk s f \<and> specIndex ?p g (objects f0) r (objects f)"
      using a nt unfolding specIndex_def by (simp add: objects_def)
  qed auto
qed

lemma refines_addVersion:
  "storeKey s key \<Longrightarrow> validVersion version \<Longrightarrow>
     refines (storeOk s) objects (addVersionToIndex s key version) (specIndex (objPath s key) (addedTo version))"
  unfolding addVersionToIndex_rmw by (rule refines_index) (auto intro: add_step)

lemma refines_removeVersion:
  "storeKey s key \<Longrightarrow>
     refines (storeOk s) objects (removeVersionFromIndex s key version) (specIndex (objPath s key) (removedFrom version))"
  unfolding removeVersionFromIndex_rmw by (rule refines_index) (auto intro: remove_step)

end
