(* ===== verification/Keys.thy ===== *)
theory Keys
  imports Objects Validation
begin

text \<open>The keys that the handlers build from valid names lead to distinct paths below the storage root.\<close>

section \<open>Paths of keys\<close>

lemma isName_proper: "isName n \<Longrightarrow> properComp n"
  using isName_chars [of n] by (auto simp: properComp_def)

lemma validVersion_proper: "validVersion v \<Longrightarrow> properComp v"
proof -
  assume v: "validVersion v"
  have t: "versionText v" using validVersion_text(1) [OF v] .
  have "CHR ''/'' \<notin> set v" using t by (auto simp: versionText_def list_all_iff versionChar_def char_class_defs less_eq_char_def)
  moreover have "v \<noteq> ''.''" "v \<noteq> ''..''" using v by (auto simp: validVersion_def semver_eval)
  ultimately show "properComp v" using t by (simp add: properComp_def versionText_def)
qed

lemma cleanComps_join: "list_all properComp cs \<Longrightarrow> cs \<noteq> [] \<Longrightarrow> cleanComps (joinWith ''/'' cs) = cs"
proof -
  assume cs: "list_all properComp cs" "cs \<noteq> []"
  have "splitAt CHR ''/'' (joinWith ''/'' cs) = cs"
    using cs by (intro splitAt_join) (auto simp: list_all_iff properComp_def)
  then show ?thesis using cleanGo_proper [OF cs(1)] by (simp add: cleanComps_def)
qed

lemma objPath_join: "list_all properComp cs \<Longrightarrow> cs \<noteq> [] \<Longrightarrow> objPath s (joinWith ''/'' cs) = basePath s @ cs"
  by (simp add: objPath_def cleanComps_join)

definition rootOk :: "Store \<Rightarrow> bool" where
  "rootOk s \<longleftrightarrow> list_all properComp (basePath s)"

lemma dataKey_join:
  assumes "rootOk s" "list_all properComp cs" "cs \<noteq> []" "\<not> hasPrefix (last cs) ''.tmp-''" "\<not> hasPrefix (hd cs) ''.tmp-''"
  shows "dataKey s (joinWith ''/'' cs)"
  using assms cleanComps_join [OF assms(2,3)]
  by (simp add: dataKey_def storeKey_def objKey_def tempName_def rootOk_def objPath_def)

lemma dataKey_storeKey: "dataKey s k \<Longrightarrow> storeKey s k"
  by (simp add: dataKey_def)

text \<open>Names of files in a version's directory: anything that is no path and no temporary name.\<close>

definition plainFile :: "string \<Rightarrow> bool" where
  "plainFile f \<longleftrightarrow> properComp f \<and> \<not> hasPrefix f ''.tmp-''"

lemma plainFileI: "f \<noteq> [] \<Longrightarrow> hd f \<noteq> CHR ''.'' \<Longrightarrow> CHR ''/'' \<notin> set f \<Longrightarrow> plainFile f"
  by (cases f) (auto simp: plainFile_def properComp_def hasPrefix_def)

section \<open>Modules\<close>

definition moduleNames :: "string \<Rightarrow> string \<Rightarrow> string \<Rightarrow> string \<Rightarrow> bool" where
  "moduleNames ns n p v \<longleftrightarrow> validArtifactName ns \<and> validArtifactName n \<and> validArtifactName p \<and> validVersion v"

definition moduleDir :: "Store \<Rightarrow> string \<Rightarrow> string \<Rightarrow> string \<Rightarrow> path" where
  "moduleDir s ns n p = basePath s @ [''modules'', ns, n, p]"

lemma moduleNames_proper:
  "moduleNames ns n p v \<Longrightarrow> list_all properComp [''modules'', ns, n, p, v]"
  using isName_proper validVersion_proper by (auto simp: moduleNames_def validArtifactName_iff properComp_def)

lemma modules_root: "\<not> hasPrefix ''modules'' ''.tmp-''" "\<not> hasPrefix ''index.json'' ''.tmp-''" "properComp ''index.json''"
  by (simp_all add: hasPrefix_def properComp_def)

lemma module_file:
  assumes "moduleNames ns n p v" "plainFile f"
  shows "objPath s (moduleVersionPrefix ns n p v @ ''/'' @ f) = moduleDir s ns n p @ [v, f]"
    "rootOk s \<Longrightarrow> dataKey s (moduleVersionPrefix ns n p v @ ''/'' @ f)"
proof -
  let ?cs = "[''modules'', ns, n, p, v, f]"
  have key: "moduleVersionPrefix ns n p v @ ''/'' @ f = joinWith ''/'' ?cs" by (simp add: moduleVersionPrefix_def)
  have pc: "list_all properComp ?cs" using moduleNames_proper [OF assms(1)] assms(2) by (simp add: plainFile_def)
  show "objPath s (moduleVersionPrefix ns n p v @ ''/'' @ f) = moduleDir s ns n p @ [v, f]"
    unfolding key by (subst objPath_join [OF pc]) (simp_all add: moduleDir_def)
  show "rootOk s \<Longrightarrow> dataKey s (moduleVersionPrefix ns n p v @ ''/'' @ f)"
    unfolding key by (rule dataKey_join [OF _ pc]) (use assms(2) modules_root in \<open>simp_all add: plainFile_def\<close>)
qed

lemma module_index:
  assumes "moduleNames ns n p v"
  shows "objPath s (moduleIndexKey ns n p) = moduleDir s ns n p @ [''index.json'']"
    "rootOk s \<Longrightarrow> dataKey s (moduleIndexKey ns n p)"
proof -
  let ?cs = "[''modules'', ns, n, p, ''index.json'']"
  have key: "moduleIndexKey ns n p = joinWith ''/'' ?cs" by (simp add: moduleIndexKey_def)
  have pc: "list_all properComp ?cs" using moduleNames_proper [OF assms] modules_root by simp
  show "objPath s (moduleIndexKey ns n p) = moduleDir s ns n p @ [''index.json'']"
    unfolding key by (subst objPath_join [OF pc]) (simp_all add: moduleDir_def)
  show "rootOk s \<Longrightarrow> dataKey s (moduleIndexKey ns n p)"
    unfolding key by (rule dataKey_join [OF _ pc]) (use modules_root in simp_all)
qed

section \<open>Providers\<close>

definition providerNames :: "string \<Rightarrow> string \<Rightarrow> string \<Rightarrow> bool" where
  "providerNames ns n v \<longleftrightarrow> validArtifactName ns \<and> validArtifactName n \<and> validVersion v"

definition providerDir :: "Store \<Rightarrow> string \<Rightarrow> string \<Rightarrow> path" where
  "providerDir s ns n = basePath s @ [''providers'', ns, n]"

lemma providerNames_proper:
  "providerNames ns n v \<Longrightarrow> list_all properComp [''providers'', ns, n, v]"
  using isName_proper validVersion_proper by (auto simp: providerNames_def validArtifactName_iff properComp_def)

lemma provider_file:
  assumes "providerNames ns n v" "plainFile f"
  shows "objPath s (providerVersionPrefix ns n v @ f) = providerDir s ns n @ [v, f]"
    "rootOk s \<Longrightarrow> dataKey s (providerVersionPrefix ns n v @ f)"
proof -
  let ?cs = "[''providers'', ns, n, v, f]"
  have key: "providerVersionPrefix ns n v @ f = joinWith ''/'' ?cs" by (simp add: providerVersionPrefix_def)
  have pc: "list_all properComp ?cs" using providerNames_proper [OF assms(1)] assms(2) by (simp add: plainFile_def)
  show "objPath s (providerVersionPrefix ns n v @ f) = providerDir s ns n @ [v, f]"
    unfolding key by (subst objPath_join [OF pc]) (simp_all add: providerDir_def)
  show "rootOk s \<Longrightarrow> dataKey s (providerVersionPrefix ns n v @ f)"
    unfolding key by (rule dataKey_join [OF _ pc]) (use assms(2) in \<open>simp_all add: plainFile_def hasPrefix_def\<close>)
qed

lemma provider_index:
  assumes "providerNames ns n v"
  shows "objPath s (providerIndexKey ns n) = providerDir s ns n @ [''index.json'']"
    "rootOk s \<Longrightarrow> dataKey s (providerIndexKey ns n)"
proof -
  let ?cs = "[''providers'', ns, n, ''index.json'']"
  have key: "providerIndexKey ns n = joinWith ''/'' ?cs" by (simp add: providerIndexKey_def)
  have pc: "list_all properComp ?cs" using providerNames_proper [OF assms] modules_root by simp
  show "objPath s (providerIndexKey ns n) = providerDir s ns n @ [''index.json'']"
    unfolding key by (subst objPath_join [OF pc]) (simp_all add: providerDir_def)
  show "rootOk s \<Longrightarrow> dataKey s (providerIndexKey ns n)"
    unfolding key by (rule dataKey_join [OF _ pc]) (simp_all add: hasPrefix_def)
qed

end
