(* ===== verification/Publish.thy ===== *)
theory Publish
  imports Keys Management
begin

text \<open>
  Publishing: what an upload does to the objects of the store, whatever fails on the way and wherever the
  machine stops.
\<close>

section \<open>Running a program forward\<close>

text \<open>\<open>sofar P R\<close>: the relation \<open>R\<close> from the start of a program, when \<open>P\<close> relates the start to where it is now.\<close>

definition sofar :: "(objs \<Rightarrow> objs \<Rightarrow> bool) \<Rightarrow> (objs \<Rightarrow> 'r \<Rightarrow> objs \<Rightarrow> bool) \<Rightarrow> objs \<Rightarrow> 'r \<Rightarrow> objs \<Rightarrow> bool" where
  "sofar P R b r d \<longleftrightarrow> (\<forall>a. P a b \<longrightarrow> R a r d)"

lemma refines_start: "refines ok obs m (sofar (=) R) \<Longrightarrow> refines ok obs m R"
  by (simp add: sofar_def [abs_def])

lemma sofar_bind:
  assumes "refines ok obs m Q" "\<And>x. refines ok obs (k x) (sofar (\<lambda>a c. \<exists>b. P a b \<and> Q b x c) R)"
  shows "refines ok obs (State_Monad.bind m k) (sofar P R)"
  by (rule refines_bind [OF assms]) (auto simp: sofar_def)

lemma sofar_return: "(\<And>a b. P a b \<Longrightarrow> R a x b) \<Longrightarrow> refines ok obs (State_Monad.return x) (sofar P R)"
  by (rule refines_return) (simp add: sofar_def)

lemma sofar_weaken:
  "refines ok obs m (sofar P R) \<Longrightarrow> (\<And>a b. P' a b \<Longrightarrow> P a b) \<Longrightarrow> refines ok obs m (sofar P' R)"
  by (erule refines_post) (auto simp: sofar_def)

lemma sofar_false: "(\<And>a b. \<not> P a b) \<Longrightarrow> readOnly m \<Longrightarrow> refines ok obs m (sofar P R)"
  by (rule refines_readOnly) (auto simp: sofar_def)

lemma sofar_case_sum:
  assumes "\<And>e. x = Inl e \<Longrightarrow> refines ok obs (g e) (sofar P R)" "\<And>y. x = Inr y \<Longrightarrow> refines ok obs (h y) (sofar P R)"
  shows "refines ok obs (case x of Inl e \<Rightarrow> g e | Inr y \<Rightarrow> h y) (sofar P R)"
  using assms by (cases x) auto

section \<open>The steps of a publication\<close>

lemma refines_tick: "refines ok obs (tick upd) (\<lambda>a _ b. b = a)"
  by (rule refines_readOnly [OF readOnly_tick(1)]) simp

lemma refines_restoreObject:
  "storeKey s k \<Longrightarrow> refines (storeOk s) objects (restoreObject s k previous)
     (\<lambda>a _ b. b = a \<or> b = a(objPath s k := (case previous of Inr d \<Rightarrow> Some d | Inl _ \<Rightarrow> None)))"
  unfolding restoreObject_def by (rule artifacts.restore)

lemma refines_deleteUnless:
  "storeKey s k \<Longrightarrow> refines (storeOk s) objects (deleteUnless s existed k)
     (\<lambda>a _ b. b = a \<or> \<not> existed \<and> b = a(objPath s k := None))"
  unfolding deleteUnless_def by (rule artifacts.discard)

text \<open>The artifact that replaced metadata named before.\<close>

definition oldArtifact :: "(bytes \<Rightarrow> string option) \<Rightarrow> string \<Rightarrow> bytes option \<Rightarrow> string \<Rightarrow> bool" where
  "oldArtifact dec fn ob old \<longleftrightarrow> (\<exists>data. ob = Some data \<and> dec data = Some old \<and> old \<noteq> [] \<and> old \<noteq> fn)"

lemma refines_removeOld:
  assumes "\<And>data old. previous = Inr data \<Longrightarrow> dec data = Some old \<Longrightarrow> old \<noteq> [] \<Longrightarrow> old \<noteq> fn \<Longrightarrow> storeKey s (prfx @ old)"
  shows "refines (storeOk s) objects (removeOldArtifact s prfx fn dec previous)
    (\<lambda>a _ b. b = a \<or> (\<exists>data old. previous = Inr data \<and> dec data = Some old \<and> old \<noteq> [] \<and> old \<noteq> fn \<and>
        b = a(objPath s (prfx @ old) := None)))"
proof (cases "\<exists>data old. previous = Inr data \<and> dec data = Some old \<and> old \<noteq> [] \<and> old \<noteq> fn")
  case True
  then obtain data old where old: "previous = Inr data" "dec data = Some old" "old \<noteq> []" "old \<noteq> fn" by blast
  have "refines (storeOk s) objects (ignore (Delete s (prfx @ old))) (\<lambda>a _ b. b = a \<or> b = a(objPath s (prfx @ old) := None))"
    by (rule refines_ignore, rule refines_post [OF artifacts.del [OF assms [OF old]]]) (auto simp: specSet_def)
  then show ?thesis
    using old by (simp add: removeOldArtifact_def)
next
  case False
  then have "removeOldArtifact s prfx fn dec previous = State_Monad.return ()"
    by (auto simp: removeOldArtifact_def split: sum.splits option.splits)
  then show ?thesis by (simp add: refines_return)
qed

text \<open>Whatever the key, a deletion keeps the store in order.\<close>

lemma plain_del_any: "plain b f \<Longrightarrow> plain b (fsDel p f)"
proof -
  assume pl: "plain b f"
  have "fsGet (fsDel p f) q = fsGet f q \<or> fsGet (fsDel p f) q = None" for q
    by (auto simp: fsGet_def fsDel_def map_of_filter_key)
  then show ?thesis using pl unfolding plain_def by (metis option.distinct(1))
qed

lemma plain_remove [preserving]: "preserves (plain b) (osRemove p)"
  unfolding osRemove_def
  by (rule preserves_atomically) (auto split: sum.splits option.splits if_splits intro!: plain_del_any)

lemma plain_cleanEmptyParents [preserving]: "preserves (plain b) (cleanEmptyParents base rp)"
proof (induction rp)
  case (Cons c rp)
  then show ?case unfolding cleanEmptyParents.simps by (intro preserving)
qed (simp add: preserving)

lemma refines_delete_any: "refines (storeOk s) objects (ignore (Delete s key)) (\<lambda>_ _ _. True)"
proof -
  have p: "preserves (plain (basePath s)) (Delete s key)" unfolding Delete_def by (intro preserving)
  have t: "preserves fsTree (Delete s key)" by (rule tree_Delete)
  have "refines (storeOk s) objects (Delete s key) (\<lambda>_ _ _. True)"
    unfolding refines_def triple_def storeOk_def using preservesD [OF p] preservesD [OF t] by blast
  then show ?thesis by (rule refines_ignore)
qed

lemma refines_removeOld_any: "refines (storeOk s) objects (removeOldArtifact s prfx fn dec previous) (\<lambda>_ _ _. True)"
  by (auto simp: removeOldArtifact_def intro!: refines_delete_any refines_return split: sum.splits option.splits)

lemma refines_removeOld_tidy:
  assumes at: "\<And>o1. plainFile o1 \<Longrightarrow> storeKey s (prfx @ o1) \<and> objPath s (prfx @ o1) = D @ [o1]"
    and tidy: "\<And>d o1. T (Some d) \<Longrightarrow> dec d = Some o1 \<Longrightarrow> o1 \<noteq> [] \<Longrightarrow> plainFile o1"
  shows "refines (storeOk s) objects (removeOldArtifact s prfx fn dec previous)
    (\<lambda>a _ b. (\<forall>d. previous = Inr d \<longrightarrow> T (Some d)) \<longrightarrow>
       b = a \<or> (\<exists>d old. previous = Inr d \<and> dec d = Some old \<and> old \<noteq> [] \<and> old \<noteq> fn \<and> b = a(D @ [old] := None)))"
proof (cases "\<forall>d. previous = Inr d \<longrightarrow> T (Some d)")
  case True
  then have key: "storeKey s (prfx @ o1) \<and> objPath s (prfx @ o1) = D @ [o1]"
    if "previous = Inr d" "dec d = Some o1" "o1 \<noteq> []" for d o1
    using that tidy at by blast
  show ?thesis
    by (rule refines_post [OF refines_removeOld]) (use key in \<open>auto simp del: append.simps append_assoc\<close>)
qed (rule refines_post [OF refines_removeOld_any], blast)

section \<open>Modules\<close>

text \<open>
  The publication of an artifact at \<open>A\<close>: its metadata at \<open>M\<close> is set and its version put into the index at
  \<open>I\<close>, after which the artifact named before, in the same directory, is removed; or something failed, and
  then the index and an artifact that existed before are as they were.
\<close>

definition specPublish ::
  "path \<Rightarrow> path \<Rightarrow> path \<Rightarrow> bytes \<Rightarrow> string \<Rightarrow> string \<Rightarrow> (bytes \<Rightarrow> string option) \<Rightarrow> bool \<Rightarrow> objs \<Rightarrow> response \<Rightarrow> objs \<Rightarrow> bool" where
  "specPublish A M I meta version fn dec existed a resp b \<longleftrightarrow>
     status resp \<in> {200, 500} \<and>
     (\<forall>q. q \<notin> {A, M, I} \<longrightarrow> b q = a q \<or>
        status resp = 200 \<and> b q = None \<and> (\<exists>old. oldArtifact dec fn (a M) old \<and> q = butlast A @ [old])) \<and>
     (status resp = 200 \<longrightarrow> b A = a A \<and> b M = Some meta \<and>
        (goodFile (a I) \<longrightarrow> (\<exists>old. indexAt (a I) = Some old \<and> goodIndex old \<and> indexAt (b I) = Some (addedTo version old)))) \<and>
     (status resp \<noteq> 200 \<longrightarrow> b I = a I \<and> b M \<in> {a M, Some meta, None} \<and> (b A = a A \<or> \<not> existed \<and> b A = None))"

text \<open>What the registry writes into \<^verbatim>\<open>artifact.json\<close>: the name of a module package, if any.\<close>

definition tidyModule :: "bytes option \<Rightarrow> bool" where
  "tidyModule ob \<longleftrightarrow> (\<forall>data old. ob = Some data \<longrightarrow> moduleFilename data = Some old \<longrightarrow> old = [] \<or> matchString moduleFileRE old)"

lemma module_file_name:
  assumes "matchString moduleFileRE f"
  shows "plainFile f" "f \<noteq> ''artifact.json''"
proof -
  obtain h where h: "hashSuffix h" "f = moduleFile h" using assms by (auto simp: matchString_iff inLang_moduleFile)
  have "CHR ''/'' \<notin> set h" using h(1)
    by (auto simp: hashSuffix_def list_all_iff hexChar_def isDigit_def less_eq_char_def dest!: bspec [where x = "CHR ''/''"])
  then show "plainFile f" using h(2) by (intro plainFileI) (auto simp: moduleFile_def)
  show "f \<noteq> ''artifact.json''" using h(2) by (simp add: moduleFile_def)
qed

lemma artifact_json: "plainFile ''artifact.json''"
  by (rule plainFileI) simp_all

lemma sha_hex: "length (sha256Hex d) = 64" "list_all hexChar (sha256Hex d)"
  using sha256Hex_shape [of d] by (auto simp: lowerHex_def hexChar_def list_all_iff)

lemma module_artifact_name: "matchString moduleFileRE (''module_'' @ sha256Hex d @ ''.tar.gz'')"
proof -
  have "hashSuffix (''_'' @ sha256Hex d)" using sha_hex by (auto simp: hashSuffix_def)
  then have "inLang moduleFileRE (moduleFile (''_'' @ sha256Hex d)) []" by (auto simp: inLang_moduleFile)
  then show ?thesis by (auto simp: matchString_iff moduleFile_def)
qed

text \<open>The last step of a successful publication, on the objects.\<close>

lemma publish_success:
  assumes ne: "A \<noteq> M" "A \<noteq> I" "M \<noteq> I" and prev: "seen prev (a M)" and b1: "b1 = a(M := Some meta)"
    and add: "specIndex I (addedTo v) b1 (Inr ()) b2"
    and last: "b3 = b2 \<or> (\<exists>d old. prev = Inr d \<and> dec d = Some old \<and> old \<noteq> [] \<and> old \<noteq> fn \<and> b3 = b2(butlast A @ [old] := None))"
    and gone: "\<And>old. oldArtifact dec fn (a M) old \<Longrightarrow> butlast A @ [old] \<notin> {A, M, I}"
    and resp: "status resp = 200"
  shows "specPublish A M I meta v fn dec existed a resp b3"
proof -
  have b2: "b2 q = a q" if "q \<notin> {M, I}" for q
    using add that unfolding specIndex_def b1 by (metis fun_upd_other insertCI)
  have M: "b2 M = Some meta" using add ne(3) unfolding specIndex_def b1 by (metis fun_upd_same fun_upd_other)
  have I: "\<exists>old. indexAt (a I) = Some old \<and> goodIndex old \<and> indexAt (b2 I) = Some (addedTo v old)" if "goodFile (a I)"
    using add that ne(3) unfolding specIndex_def b1 by auto
  consider (kept) "b3 = b2" | (removed) old where "oldArtifact dec fn (a M) old" "b3 = b2(butlast A @ [old] := None)"
    using last prev by (auto simp: oldArtifact_def seen_def)
  then show ?thesis
  proof cases
    case kept
    then show ?thesis using b2 M I ne resp by (auto simp: specPublish_def)
  next
    case removed
    have out: "butlast A @ [old] \<noteq> A" "butlast A @ [old] \<noteq> M" "butlast A @ [old] \<noteq> I" using gone [OF removed(1)] by auto
    have "b3 A = a A" "b3 M = Some meta" "b3 I = b2 I" using removed(2) out b2 [of A] M ne by auto
    moreover have "b3 q = a q \<or> b3 q = None \<and> q = butlast A @ [old]" if "q \<notin> {A, M, I}" for q
      using removed(2) b2 [of q] that by auto
    ultimately show ?thesis using removed(1) resp I unfolding specPublish_def by auto
  qed
qed

lemma refines_publishModule:
  fixes sha existed
  assumes names: "moduleNames ns n p v" and root: "rootOk (store g)" and fn: "matchString moduleFileRE fn"
  defines "D \<equiv> moduleDir (store g) ns n p"
  defines "meta \<equiv> marshal (encodeModuleArtifactMeta \<lparr>MFilename = fn, SHA256 = sha\<rparr>)"
  shows "refines (storeOk (store g)) objects
    (publishModule g ns n p v fn sha (moduleVersionPrefix ns n p v @ ''/'' @ fn) existed)
    (\<lambda>a resp b. tidyModule (a (D @ [v, ''artifact.json''])) \<longrightarrow>
       specPublish (D @ [v, fn]) (D @ [v, ''artifact.json'']) (D @ [''index.json'']) meta v fn moduleFilename existed a resp b)"
proof -
  let ?s = "store g" and ?A = "D @ [v, fn]" and ?M = "D @ [v, ''artifact.json'']" and ?I = "D @ [''index.json'']"
  let ?prfx = "moduleVersionPrefix ns n p v"
  let ?R = "\<lambda>a resp b. tidyModule (a ?M) \<longrightarrow> specPublish ?A ?M ?I meta v fn moduleFilename existed a resp b"
  have fileAt: "objPath ?s (?prfx @ ''/'' @ f) = D @ [v, f]" "storeKey ?s (?prfx @ ''/'' @ f)" if "plainFile f" for f
    using module_file [OF names that] root dataKey_storeKey by (auto simp: D_def)
  have idx: "objPath ?s (moduleIndexKey ns n p) = ?I" "storeKey ?s (moduleIndexKey ns n p)"
    using module_index [OF names] root dataKey_storeKey by (auto simp: D_def)
  have v: "validVersion v" using names by (simp add: moduleNames_def)
  note fns = module_file_name [OF fn]
  have ne: "?A \<noteq> ?M" "?A \<noteq> ?I" "?M \<noteq> ?I" using fns(2) by auto
  have old: "plainFile o1 \<and> o1 \<noteq> ''artifact.json''" if "tidyModule (Some data)" "moduleFilename data = Some o1" "o1 \<noteq> []" for data o1
    using that module_file_name [of o1] by (auto simp: tidyModule_def)
  note get = artifacts.get [OF fileAt(2) [OF artifact_json], unfolded fileAt(1) [OF artifact_json]]
  note put = artifacts.put [OF fileAt(2) [OF artifact_json], unfolded fileAt(1) [OF artifact_json]]
  note drop = refines_deleteUnless [OF fileAt(2) [OF fns(1)], unfolded fileAt(1) [OF fns(1)]]
  note undo = refines_restoreObject [OF fileAt(2) [OF artifact_json], unfolded fileAt(1) [OF artifact_json]]
  note add = refines_addVersion [OF idx(2) v, unfolded idx(1)]
  have late: "refines (storeOk ?s) objects (removeOldArtifact ?s (?prfx @ ''/'') fn moduleFilename previous)
      (\<lambda>a _ b. (\<forall>d. previous = Inr d \<longrightarrow> tidyModule (Some d)) \<longrightarrow>
         b = a \<or> (\<exists>d old. previous = Inr d \<and> moduleFilename d = Some old \<and> old \<noteq> [] \<and> old \<noteq> fn \<and> b = a((D @ [v]) @ [old] := None)))" for previous
    by (rule refines_removeOld_tidy) (use fileAt old in simp_all)
  have gone: "D @ [v, o1] \<notin> {?A, ?M, ?I}" if "tidyModule (Some d)" "moduleFilename d = Some o1" "o1 \<noteq> []" "o1 \<noteq> fn" for d o1
    using that old by auto
  have final: "specPublish ?A ?M ?I meta v fn moduleFilename existed a (succeeded msg) b3"
    if last: "(\<forall>d. prev = Inr d \<longrightarrow> tidyModule (Some d)) \<longrightarrow>
           b3 = b2 \<or> (\<exists>d old. prev = Inr d \<and> moduleFilename d = Some old \<and> old \<noteq> [] \<and> old \<noteq> fn \<and> b3 = b2((D @ [v]) @ [old] := None))"
      and ix: "specIndex ?I (addedTo v) b1 (Inr u) b2" and st: "specSet ?M (Some meta) b0 (Inr u') b1"
      and gt: "specGet ?M a prev b0" and tidy: "tidyModule (a ?M)"
    for a b0 b1 b2 b3 prev msg u u'
  proof (rule publish_success [where prev = prev, OF ne _ _ ix [simplified]])
    show "seen prev (a ?M)" "b1 = a(?M := Some meta)" using gt st by (simp_all add: specGet_def specSet_def)
    then have "\<forall>d. prev = Inr d \<longrightarrow> tidyModule (Some d)" using tidy by (auto simp: seen_def)
    then show "b3 = b2 \<or> (\<exists>d old. prev = Inr d \<and> moduleFilename d = Some old \<and> old \<noteq> [] \<and> old \<noteq> fn \<and> b3 = b2(butlast ?A @ [old] := None))"
      using last by (simp add: butlast_append)
    show "butlast ?A @ [o1] \<notin> {?A, ?M, ?I}" if o1: "oldArtifact moduleFilename fn (a ?M) o1" for o1
    proof -
      obtain d where "a ?M = Some d" "moduleFilename d = Some o1" "o1 \<noteq> []" "o1 \<noteq> fn"
        using o1 by (auto simp: oldArtifact_def)
      then show ?thesis using gone [of d o1] tidy by (simp add: butlast_append)
    qed
  qed simp
  have aj: "''/artifact.json'' = ''/'' @ ''artifact.json''" by simp
  show ?thesis
    unfolding publishModule_def Let_def AddModuleVersion_def meta_def [symmetric] aj
    apply (rule refines_start, rule sofar_bind [OF get], rule sofar_bind [OF put], rule sofar_case_sum)
     apply (rule sofar_bind [OF drop], rule sofar_return)
    subgoal using ne by (auto simp: specPublish_def specGet_def specSet_def)
    apply (rule sofar_bind [OF add], rule sofar_case_sum)
     apply (rule sofar_bind [OF undo], rule sofar_bind [OF drop], rule sofar_return)
    subgoal using ne by (auto simp: specPublish_def specGet_def specSet_def specIndex_def seen_def split: if_splits sum.splits)
    apply (rule sofar_bind [OF late], rule sofar_bind [OF refines_tick], rule sofar_return)
    subgoal by (elim exE conjE, hypsubst, rule impI, rule final)
    done
qed

section \<open>The handler\<close>

text \<open>An upload: the body is stored under the name its hash gives it, then published.\<close>

lemma upload_then:
  assumes K: "dataKey s (key (uploaded r m))" and ok: "storeOk s (fs w)"
    and pub: "\<And>n existed. refines (storeOk s) objects (publish n (key (uploaded r m)) existed) (R existed)"
    and run: "run_state (State_Monad.bind (PutStreamImmutable s r m v key)
      (\<lambda>p. case p of Inl err \<Rightarrow> State_Monad.return (reject err) | Inr (n, k, existed) \<Rightarrow> publish n k existed)) w = (resp, w')"
  defines "A \<equiv> objPath s (key (uploaded r m))"
  shows "storeOk s (fs w') \<and>
    ((\<exists>err. resp = reject err) \<and> objects (fs w') = objects (fs w) \<or>
     (\<exists>a existed. goodUpload r m v \<and> (existed \<longleftrightarrow> fsGet (fs w) A \<noteq> None) \<and>
        a = (if existed then objects (fs w) else (objects (fs w))(A := Some (uploaded r m))) \<and>
        R existed a resp (objects (fs w'))))"
proof -
  obtain p w1 where 1: "run_state (PutStreamImmutable s r m v key) w = (p, w1)" by (rule prod.exhaust)
  have st: "stored s r m v (key (uploaded r m)) (fs w) p (fs w1)" and ok1: "storeOk s (fs w1)"
    using tripleD [OF PutStreamImmutable_law [where key = key, OF K ok] _ 1] by auto
  have sp: "specStore A (key (uploaded r m)) r m v (objects (fs w)) p (objects (fs w1))"
    using refinesD [OF refines_immutable [where key = key, OF K] ok 1] by (simp add: A_def)
  show ?thesis
  proof (cases p)
    case (Inl err)
    then show ?thesis using run 1 sp ok1 by (auto simp: specStore_def)
  next
    case (Inr x)
    obtain n k ex where x: "x = (n, k, ex)" by (cases x)
    have k: "k = key (uploaded r m)" "goodUpload r m v" "ex \<longleftrightarrow> fsGet (fs w) A \<noteq> None"
      using st Inr x by (auto simp: stored_def A_def)
    have "run_state (publish n (key (uploaded r m)) ex) w1 = (resp, w')" using run 1 Inr x k by simp
    from refinesD [OF pub ok1 this]
    have "storeOk s (fs w') \<and> R ex (objects (fs w1)) resp (objects (fs w'))" .
    moreover have "objects (fs w1) = (if ex then objects (fs w) else (objects (fs w))(A := Some (uploaded r m)))"
      using sp Inr x by (auto simp: specStore_def split: if_splits)
    ultimately show ?thesis using k by blast
  qed
qed

lemma serialized_run:
  assumes "run_state (serialized m) w = (Inr resp, w')"
  shows "\<exists>w1 w2. fs w1 = fs w \<and> run_state m w1 = (resp, w2) \<and> fs w2 = fs w'"
proof -
  obtain x w2 where m: "run_state m (w\<lparr>held := mutationMu # held w\<rparr>) = (x, w2)" by (rule prod.exhaust)
  then have "x = resp" "fs w2 = fs w'"
    using assms by (auto simp: serialized_def withLock_def split: if_splits)
  then show ?thesis using m by (intro exI [of _ "w\<lparr>held := mutationMu # held w\<rparr>"] exI [of _ w2]) simp
qed

lemma serialized_returns:
  assumes "mutationMu \<notin> set (held w)"
  shows "\<exists>resp w'. run_state (serialized m) w = (Inr resp, w')"
proof -
  obtain x w2 where "run_state m (w\<lparr>held := mutationMu # held w\<rparr>) = (x, w2)" by (rule prod.exhaust)
  then show ?thesis using assms by (simp add: serialized_def withLock_def)
qed

lemma rejected_status [simp]: "status (writeUploadError t err) \<noteq> 200" "status (storeFailed g err) \<noteq> 200"
  by (simp_all add: writeUploadError_def storeFailed_def)

text \<open>Both upload handlers check the request before they store anything.\<close>

lemma upload_handler_run:
  assumes "run_state (serialized
     (case x of
        Inl err \<Rightarrow> State_Monad.return (writeUploadError t err)
      | Inr u \<Rightarrow>
          if length (sData u) < k then State_Monad.return (failed 400 m)
          else (case V u of
               Some err \<Rightarrow> State_Monad.return (failed 400 (t' err))
             | None \<Rightarrow> body u))) w = (Inr resp, w')"
  shows "status resp \<noteq> 200 \<and> fs w' = fs w \<or>
    (\<exists>u w1 w2. x = Inr u \<and> fs w1 = fs w \<and> run_state (body u) w1 = (resp, w2) \<and> fs w2 = fs w')"
proof -
  from serialized_run [OF assms] obtain w1 w2 where w: "fs w1 = fs w" "fs w2 = fs w'" and run: "run_state
     (case x of
        Inl err \<Rightarrow> State_Monad.return (writeUploadError t err)
      | Inr u \<Rightarrow>
          if length (sData u) < k then State_Monad.return (failed 400 m)
          else (case V u of
               Some err \<Rightarrow> State_Monad.return (failed 400 (t' err))
             | None \<Rightarrow> body u)) w1 = (resp, w2)" by blast
  show ?thesis
  proof (cases "\<exists>u. x = Inr u \<and> \<not> length (sData u) < k \<and> V u = None")
    case True
    then obtain u where u: "x = Inr u" "\<not> length (sData u) < k" "V u = None" by blast
    have "run_state (body u) w1 = (resp, w2)" using run u by simp
    then show ?thesis using u(1) w by blast
  next
    case False
    then have "status resp \<noteq> 200" "w2 = w1" using run by (auto split: sum.splits if_splits option.splits)
    then show ?thesis using w by simp
  qed
qed

definition moduleFileOf :: "bytes \<Rightarrow> string" where
  "moduleFileOf d = ''module_'' @ sha256Hex d @ ''.tar.gz''"

definition acceptedModule :: "Registry \<Rightarrow> stream \<Rightarrow> bool" where
  "acceptedModule g u \<longleftrightarrow> snd (copyLimited u (limitPlusOne (maxUploadSize g))) = None \<and>
     int (length (uploaded u (maxUploadSize g))) \<le> sint (maxUploadSize g) \<and>
     validateModuleArchive (tarDecoder g) (uploaded u (maxUploadSize g)) (maxUploadSize g) = None"

text \<open>
  The outcome of a module upload.  On success the uploaded package is stored, its metadata names it and the
  index lists its version; besides these only the package that the metadata named before may be gone.
  On failure the index and every object that existed are as before, up to the metadata, which can keep its
  new value or be lost when undoing fails too.
\<close>

definition moduleUploadOutcome :: "Registry \<Rightarrow> request \<Rightarrow> fsys \<Rightarrow> response \<Rightarrow> fsys \<Rightarrow> bool" where
  "moduleUploadOutcome g r f resp f' =
     (let v = var r ''version''; D = moduleDir (store g) (var r ''namespace'') (var r ''name'') (var r ''provider'');
          M = D @ [v, ''artifact.json'']; I = D @ [''index.json'']; a = objects f; b = objects f' in
      (status resp = 200 \<longrightarrow> (\<exists>u d fn A. multipartUploadPart (bodyLimit g) r = Inr u \<and> acceptedModule g u \<and>
          d = uploaded u (maxUploadSize g) \<and> fn = moduleFileOf d \<and> A = D @ [v, fn] \<and>
          b A = (if fsGet f A = None then Some d else a A) \<and>
          b M = Some (marshal (encodeModuleArtifactMeta \<lparr>MFilename = fn, SHA256 = sha256Hex d\<rparr>)) \<and>
          (goodFile (a I) \<longrightarrow> (\<exists>old. indexAt (a I) = Some old \<and> indexAt (b I) = Some (addedTo v old))) \<and>
          (\<forall>q. q \<notin> {A, M, I} \<longrightarrow> b q = a q \<or> b q = None \<and> (\<exists>old. oldArtifact moduleFilename fn (a M) old \<and> q = D @ [v, old])))) \<and>
      (status resp \<noteq> 200 \<longrightarrow> b I = a I \<and>
          (\<forall>q. q \<noteq> M \<longrightarrow> b q = a q \<or> a q = None \<and> (\<exists>d. q = D @ [v, moduleFileOf d]))))"

lemma moduleUpload_unchanged: "status resp \<noteq> 200 \<Longrightarrow> objects f' = objects f \<Longrightarrow> moduleUploadOutcome g r f resp f'"
  by (simp add: moduleUploadOutcome_def Let_def)

lemma moduleUpload_published:
  fixes f and r :: request and g :: Registry
  defines "v \<equiv> var r ''version''" and "D \<equiv> moduleDir (store g) (var r ''namespace'') (var r ''name'') (var r ''provider'')"
  assumes u: "multipartUploadPart (bodyLimit g) r = Inr u" "acceptedModule g u"
    and d: "d = uploaded u (maxUploadSize g)" "fn = moduleFileOf d"
    and ex: "existed \<longleftrightarrow> fsGet f (D @ [v, fn]) \<noteq> None"
    and a: "a = (if existed then objects f else (objects f)(D @ [v, fn] := Some d))"
    and pub: "specPublish (D @ [v, fn]) (D @ [v, ''artifact.json'']) (D @ [''index.json''])
      (marshal (encodeModuleArtifactMeta \<lparr>MFilename = fn, SHA256 = sha256Hex d\<rparr>)) v fn moduleFilename existed a resp (objects f')"
  shows "moduleUploadOutcome g r f resp f'"
proof -
  let ?A = "D @ [v, fn]" and ?M = "D @ [v, ''artifact.json'']" and ?I = "D @ [''index.json'']"
  have ne: "?A \<noteq> ?M" "?A \<noteq> ?I" "?M \<noteq> ?I" using d(2) by (auto simp: moduleFileOf_def)
  have old: "a q = objects f q" if "q \<noteq> ?A" for q using a that by simp
  have A: "a ?A = (if fsGet f ?A = None then Some d else objects f ?A)" using a ex by simp
  have absent: "objects f ?A = None" if "\<not> existed" using that ex objectAt_None by (simp add: objects_def)
  show ?thesis
  proof (cases "status resp = 200")
    case True
    have A': "objects f' ?A = a ?A" and M': "objects f' ?M = Some (marshal (encodeModuleArtifactMeta \<lparr>MFilename = fn, SHA256 = sha256Hex d\<rparr>))"
      using pub True unfolding specPublish_def by blast+
    have I': "\<exists>i. indexAt (objects f ?I) = Some i \<and> indexAt (objects f' ?I) = Some (addedTo v i)" if "goodFile (objects f ?I)"
      using pub True old [OF ne(2) [symmetric]] that unfolding specPublish_def by auto
    have rest: "objects f' q = objects f q \<or> objects f' q = None \<and> (\<exists>o1. oldArtifact moduleFilename fn (objects f ?M) o1 \<and> q = D @ [v, o1])"
      if q: "q \<notin> {?A, ?M, ?I}" for q
      using pub q old [of q] old [OF ne(1) [symmetric]] unfolding specPublish_def by (auto simp: butlast_append)
    show ?thesis
      unfolding moduleUploadOutcome_def Let_def v_def [symmetric] D_def [symmetric]
      using True u A' [unfolded A] M' I' rest by (auto simp: d)
  next
    case False
    have I: "objects f' ?I = objects f ?I" using pub False old [of ?I] ne by (simp add: specPublish_def)
    have "objects f' q = objects f q \<or> objects f q = None \<and> q = ?A" if q: "q \<noteq> ?M" for q
    proof (cases "q = ?A")
      case True
      then show ?thesis using pub False absent a by (cases existed) (auto simp: specPublish_def)
    next
      case other: False
      then show ?thesis using pub False q I old [of q] by (cases "q = ?I") (auto simp: specPublish_def)
    qed
    then show ?thesis
      using False I d(2) unfolding moduleUploadOutcome_def Let_def v_def [symmetric] D_def [symmetric] by blast
  qed
qed

definition moduleBody :: "Registry \<Rightarrow> string \<Rightarrow> string \<Rightarrow> string \<Rightarrow> string \<Rightarrow> stream \<Rightarrow> response io" where
  "moduleBody g ns n p v u = State_Monad.bind
     (PutStreamImmutable (store g) u (maxUploadSize g)
        (Some (\<lambda>f. invalidArchive g (validateModuleArchive (tarDecoder g) f (maxUploadSize g))))
        (\<lambda>data. moduleVersionPrefix ns n p v @ ''/'' @ moduleFileOf data))
     (\<lambda>x. case x of
        Inl err \<Rightarrow> State_Monad.return (storeFailed g err)
      | Inr (_, key, existed) \<Rightarrow> publishModule g ns n p v (moduleFileOf (teed g u)) (sha256Hex (teed g u)) key existed)"

lemma uploadModuleHandler_body:
  "uploadModuleHandler g r = serialized
     (case multipartUploadPart (bodyLimit g) r of
        Inl err \<Rightarrow> State_Monad.return (writeUploadError (osText g) err)
      | Inr u \<Rightarrow>
          if length (sData u) < 2 then State_Monad.return (failed 400 ''File too small'')
          else (case ValidateUpload (peek4 u) ''tar.gz'' of
               Some err \<Rightarrow> State_Monad.return (failed 400 (errorString (osText g) err))
             | None \<Rightarrow> moduleBody g (var r ''namespace'') (var r ''name'') (var r ''provider'') (var r ''version'') u))"
  unfolding uploadModuleHandler_def moduleBody_def moduleFileOf_def Let_def ..

lemma moduleBody_outcome:
  fixes g :: Registry and r :: request
  defines "v \<equiv> var r ''version''" and "D \<equiv> moduleDir (store g) (var r ''namespace'') (var r ''name'') (var r ''provider'')"
  assumes names: "moduleNames (var r ''namespace'') (var r ''name'') (var r ''provider'') (var r ''version'')"
    and root: "rootOk (store g)" and ok: "storeOk (store g) (fs w)" and tidy: "tidyModule (objects (fs w) (D @ [v, ''artifact.json'']))"
    and u: "multipartUploadPart (bodyLimit g) r = Inr u"
    and run: "run_state (moduleBody g (var r ''namespace'') (var r ''name'') (var r ''provider'') (var r ''version'') u) w = (resp, w')"
  shows "storeOk (store g) (fs w') \<and> moduleUploadOutcome g r (fs w) resp (fs w')"
proof -
  let ?prfx = "moduleVersionPrefix (var r ''namespace'') (var r ''name'') (var r ''provider'') (var r ''version'')"
  let ?d = "uploaded u (maxUploadSize g)"
  let ?fn = "moduleFileOf ?d"
  let ?V = "Some (\<lambda>f. invalidArchive g (validateModuleArchive (tarDecoder g) f (maxUploadSize g)))"
  have teed: "teed g u = ?d" by (simp add: teed_def uploaded_def)
  have fn: "matchString moduleFileRE ?fn" unfolding moduleFileOf_def by (rule module_artifact_name)
  have K: "dataKey (store g) (?prfx @ ''/'' @ ?fn)" "objPath (store g) (?prfx @ ''/'' @ ?fn) = D @ [v, ?fn]"
    using module_file [OF names module_file_name(1) [OF fn]] root by (auto simp: D_def v_def)
  note pub = refines_publishModule [OF names root fn]
  have st: "storeOk (store g) (fs w')" and
    res: "(\<exists>err. resp = storeFailed g err) \<and> objects (fs w') = objects (fs w) \<or>
     (\<exists>a existed. goodUpload u (maxUploadSize g) ?V \<and> (existed \<longleftrightarrow> fsGet (fs w) (D @ [v, ?fn]) \<noteq> None) \<and>
        a = (if existed then objects (fs w) else (objects (fs w))(D @ [v, ?fn] := Some ?d)) \<and>
        (tidyModule (a (D @ [v, ''artifact.json''])) \<longrightarrow> specPublish (D @ [v, ?fn]) (D @ [v, ''artifact.json'']) (D @ [''index.json''])
           (marshal (encodeModuleArtifactMeta \<lparr>MFilename = ?fn, SHA256 = sha256Hex ?d\<rparr>)) v ?fn moduleFilename existed a resp (objects (fs w'))))"
    using upload_then [where key = "\<lambda>data. ?prfx @ ''/'' @ moduleFileOf data", OF K(1) ok pub run [unfolded moduleBody_def teed], unfolded K(2)]
    unfolding D_def v_def by blast+
  from res show ?thesis
  proof (elim disjE exE conjE)
    fix err assume "resp = storeFailed g err" "objects (fs w') = objects (fs w)"
    then show ?thesis using st moduleUpload_unchanged [of resp "fs w'" "fs w" g r] by simp
  next
    fix a existed
    assume gu: "goodUpload u (maxUploadSize g) ?V" and ex: "existed \<longleftrightarrow> fsGet (fs w) (D @ [v, ?fn]) \<noteq> None"
      and a: "a = (if existed then objects (fs w) else (objects (fs w))(D @ [v, ?fn] := Some ?d))"
      and sp: "tidyModule (a (D @ [v, ''artifact.json''])) \<longrightarrow> specPublish (D @ [v, ?fn]) (D @ [v, ''artifact.json'']) (D @ [''index.json''])
           (marshal (encodeModuleArtifactMeta \<lparr>MFilename = ?fn, SHA256 = sha256Hex ?d\<rparr>)) v ?fn moduleFilename existed a resp (objects (fs w'))"
    have "?fn \<noteq> ''artifact.json''" using module_file_name(2) [OF fn] .
    then have "tidyModule (a (D @ [v, ''artifact.json'']))" using a tidy by simp
    moreover have "acceptedModule g u"
      using gu by (auto simp: goodUpload_def accepts_def acceptedModule_def invalidArchive_def split: option.splits)
    ultimately show ?thesis
      using moduleUpload_published [OF u _ refl refl ex [unfolded D_def v_def] a [unfolded D_def v_def]] sp st
      unfolding D_def v_def by blast
  qed
qed


definition demoUpload :: request where
  "demoUpload = \<lparr>reqMethod = ''POST'', urlPath = [], reqHeader = [], remoteAddr = ''10.0.0.1:99'',
     pathVars = [(''namespace'', ''acme''), (''name'', ''net''), (''provider'', ''aws''), (''version'', ''1.0.0''),
       (''os'', ''linux''), (''arch'', ''amd64'')],
     reqBody = [], multipartReader = None,
     nextPart = Inr \<lparr>formName = ''file'', partFileName = ''m.tar.gz'', headBytes = 0,
       content = \<lparr>sData = [CHR 0x1F, CHR 0x8B, CHR 0x08, CHR 0x00], sErr = None\<rparr>, tailBytes = 0\<rparr>\<rparr>"

definition demoPublisher :: Registry where
  "demoPublisher = \<lparr>store = demoStore, signer = Some \<lparr>entity = (\<lambda>_ _. Inr ''sig''), KeyID = ''K'', PublicArmor = ''A''\<rparr>, maxUploadSize = 100, zipDecoder = (\<lambda>_. Inr []),
     tarDecoder = (\<lambda>_. \<lparr>gzOpen = None, tarEntries = [], tarEnd = None, gzTrailer = None, gzClose = None\<rparr>), osText = (\<lambda>_. [])\<rparr>"

lemma demo_upload:
  "moduleNames (var demoUpload ''namespace'') (var demoUpload ''name'') (var demoUpload ''provider'') (var demoUpload ''version'')"
  "rootOk (store demoPublisher)" "storeOk (store demoPublisher) (fs (demoWorld [] fl))" "mutationMu \<notin> set (held (demoWorld [] fl))"
  "objects (fs (demoWorld [] fl)) (moduleDir (store demoPublisher) ns n p @ q) = None"
proof -
  show "moduleNames (var demoUpload ''namespace'') (var demoUpload ''name'') (var demoUpload ''provider'') (var demoUpload ''version'')"
    by (simp add: moduleNames_def validArtifactName_iff isName_def demoUpload_def lookupStr_def validVersion_def semver_eval
        nameChar_def char_class_defs less_eq_char_def)
  show "storeOk (store demoPublisher) (fs (demoWorld [] fl))" by (simp add: demoPublisher_def demo_files)
  show "rootOk (store demoPublisher)" by (simp add: demoPublisher_def demoStore_def rootOk_def properComp_def)
qed (simp_all add: demoWorld_def objects_def objectAt_def objAt_def fsGet_def moduleDir_def demoPublisher_def demoStore_def)


end
