(* ===== verification/PublishProvider.thy ===== *)
theory PublishProvider
  imports Publish
begin

text \<open>
  Publishing a provider package: the metadata of its platform, the checksum file of the version with its
  signature, and the index.
\<close>

section \<open>Checksums and undoing\<close>

text \<open>A checksum file with its signature: lines for some platforms, signed with the registry's key.\<close>

definition signedSums :: "RegistrySigner option \<Rightarrow> bytes option \<Rightarrow> bytes option \<Rightarrow> bool" where
  "signedSums so c sig \<longleftrightarrow>
     (\<exists>sg w entries d. so = Some sg \<and> entries \<noteq> [] \<and> c = Some (checksumsText entries) \<and> sig = Some d \<and>
        entity sg w (checksumsText entries) = Inr d)"

lemma readOnly_List [readonly]: "readOnly (List s prfx delim)"
  unfolding List_def by (auto intro!: readonly split: sum.splits)

lemma readOnly_Get [readonly]: "readOnly (Get s k)"
  unfolding Get_def by (intro readonly)

lemma readOnly_readPlatforms [readonly]: "readOnly (readPlatforms s objs)"
  by (induction objs) (auto intro!: readonly)

lemma readOnly_publishedPlatforms [readonly]: "readOnly (publishedPlatforms s prfx pms)"
  by (induction pms) (auto intro!: readonly simp: Exists_def)

lemma readOnly_platforms [readonly]: "readOnly (GetProviderPlatforms s ns n v)"
  unfolding GetProviderPlatforms_def by (intro readonly)

text \<open>Rebuilding the checksums changes the two files at most, and to a signed file when it succeeds.\<close>

definition specSums :: "path \<Rightarrow> path \<Rightarrow> RegistrySigner option \<Rightarrow> objs \<Rightarrow> unit result \<Rightarrow> objs \<Rightarrow> bool" where
  "specSums C S so a r b \<longleftrightarrow> (\<forall>q. q \<notin> {C, S} \<longrightarrow> b q = a q) \<and> (r = Inr () \<longrightarrow> signedSums so (b C) (b S))"

lemma specSums_same: "r \<noteq> Inr () \<Longrightarrow> specSums C S so a r a"
  by (simp add: specSums_def)

lemma refines_Sign:
  "refines ok obs (Sign sg d) (\<lambda>a r b. b = a \<and> (\<forall>x. r = Inr x \<longrightarrow> (\<exists>w. entity sg w d = Inr x)))"
  by (auto simp: refines_def triple_def Sign_def)

lemma refines_putPair:
  assumes "storeKey s k1" "storeKey s k2" "objPath s k1 \<noteq> objPath s k2"
  shows "refines (storeOk s) objects (bindR (Put s k1 c) (\<lambda>_. Put s k2 d))
    (\<lambda>a r b. (\<forall>q. q \<notin> {objPath s k1, objPath s k2} \<longrightarrow> b q = a q) \<and> (r = Inr () \<longrightarrow> b (objPath s k1) = Some c \<and> b (objPath s k2) = Some d))"
  by (rule refines_bindR [OF artifacts.put [OF assms(1)] artifacts.put [OF assms(2)]])
     (use assms(3) in \<open>auto simp: specSet_def split: if_splits\<close>)

lemma refines_rebuild:
  assumes names: "providerChecksumsNames n v = (c, sg)"
    and keys: "storeKey s (providerVersionPrefix ns n v @ c)" "storeKey s (providerVersionPrefix ns n v @ sg)"
    and paths: "objPath s (providerVersionPrefix ns n v @ c) = C" "objPath s (providerVersionPrefix ns n v @ sg) = S" "C \<noteq> S"
  shows "refines (storeOk s) objects (rebuildProviderChecksums s so ns n v) (specSums C S so)"
proof (cases so)
  case None
  then show ?thesis by (simp add: rebuildProviderChecksums_def refines_return specSums_same)
next
  case (Some sr)
  have sign: "refines (storeOk s) objects
     (bindR (Sign sr (checksumsText es)) (\<lambda>signature. bindR (Put s (providerVersionPrefix ns n v @ c) (checksumsText es)) (\<lambda>_.
         Put s (providerVersionPrefix ns n v @ sg) signature))) (specSums C S so)" if "es \<noteq> []" for es
    by (rule refines_bindR [OF refines_Sign refines_putPair [OF keys]])
       (use paths that Some in \<open>auto simp: specSums_def signedSums_def\<close>)
  show ?thesis
    unfolding rebuildProviderChecksums_def names Some option.case prod.case
    by (rule refines_bindR [OF refines_readOnly [OF readOnly_platforms, where R = "\<lambda>a _ b. b = a"] refines_readOnly_bind [OF readOnly_publishedPlatforms]])
       (use sign Some in \<open>auto intro!: refines_return specSums_same\<close>)
qed

lemma refines_restoreAll:
  assumes "\<And>k p. (k, p) \<in> set saved \<Longrightarrow> storeKey s k"
  shows "refines (storeOk s) objects (foldIO (\<lambda>(key, previous) _. restoreObject s key previous) saved ())
    (\<lambda>a _ b. \<forall>q. q \<notin> (objPath s \<circ> fst) ` set saved \<longrightarrow> b q = a q)"
  using assms
proof (induction saved)
  case (Cons x saved)
  obtain k p where x: "x = (k, p)" by (cases x)
  have k: "storeKey s k" using Cons.prems [of k p] x by simp
  have ih: "refines (storeOk s) objects (foldIO (\<lambda>(key, previous) _. restoreObject s key previous) saved u)
      (\<lambda>a _ b. \<forall>q. q \<notin> (objPath s \<circ> fst) ` set saved \<longrightarrow> b q = a q)" for u
    by (cases u, hypsubst, rule Cons.IH) (use Cons.prems in auto)
  show ?case
    unfolding foldIO.simps x prod.case
    by (rule refines_bind [OF refines_restoreObject [OF k] ih]) (auto split: if_splits)
qed (simp add: refines_return)

lemma refines_restorePublication:
  assumes "\<And>k p. (k, p) \<in> set saved \<Longrightarrow> storeKey s k" "storeKey s zipKey" "objPath s zipKey \<notin> (objPath s \<circ> fst) ` set saved"
  shows "refines (storeOk s) objects (restorePublication s saved existed zipKey)
    (\<lambda>a _ b. (\<forall>q. q \<notin> insert (objPath s zipKey) ((objPath s \<circ> fst) ` set saved) \<longrightarrow> b q = a q) \<and>
       (b (objPath s zipKey) = a (objPath s zipKey) \<or> \<not> existed \<and> b (objPath s zipKey) = None))"
  unfolding restorePublication_def
  by (rule refines_bind [OF refines_restoreAll refines_deleteUnless]) (use assms in auto)

section \<open>The files of a provider version\<close>

text \<open>What the registry writes into the metadata of a platform: the name of a provider package, if any.\<close>

definition tidyPlatform :: "bytes option \<Rightarrow> bool" where
  "tidyPlatform ob \<longleftrightarrow> (\<forall>data old. ob = Some data \<longrightarrow> platformFilename data = Some old \<longrightarrow> old = [] \<or> matchString providerFileRE old)"

definition sumsFile :: "string \<Rightarrow> string \<Rightarrow> string" where
  "sumsFile n v = ''terraform-provider-'' @ n @ ''_'' @ v @ ''_SHA256SUMS''"

definition platformFile :: "string \<Rightarrow> string \<Rightarrow> string" where
  "platformFile os1 arch = os1 @ ''_'' @ arch @ ''.json''"

lemma checksums_names: "providerChecksumsNames n v = (sumsFile n v, sumsFile n v @ ''.sig'')"
  by (simp add: providerChecksumsNames_def sumsFile_def)

lemma platform_key: "platformMetaKey ns n v os1 arch = providerVersionPrefix ns n v @ platformFile os1 arch"
  by (simp add: platformMetaKey_def platformFile_def)

lemma provider_file_name:
  assumes "matchString providerFileRE f"
  shows "plainFile f" "last f = CHR ''p''"
proof -
  obtain n v os1 arch h where f: "f = providerFile n v os1 arch h" "isName n" "versionText v" "isName os1" "isName arch" "hashSuffix h"
    using assms by (auto simp: matchString_iff inLang_providerFile)
  have "CHR ''/'' \<notin> set h" using f(6)
    by (auto simp: hashSuffix_def list_all_iff hexChar_def isDigit_def less_eq_char_def dest!: bspec [where x = "CHR ''/''"])
  then show "plainFile f" using f isName_chars(2) versionText_chars(2)
    by (intro plainFileI) (auto simp: providerFile_def)
  show "last f = CHR ''p''" using f(1) by (simp add: providerFile_def)
qed

lemma version_files:
  assumes "providerNames ns n v" "validArtifactName os1" "validArtifactName arch"
  shows "plainFile (sumsFile n v)" "plainFile (sumsFile n v @ ''.sig'')" "plainFile (platformFile os1 arch)"
    "last (sumsFile n v) = CHR ''S''" "last (sumsFile n v @ ''.sig'') = CHR ''g''" "last (platformFile os1 arch) = CHR ''n''"
proof -
  have n: "CHR ''/'' \<notin> set n" "CHR ''/'' \<notin> set v" "CHR ''/'' \<notin> set os1" "CHR ''/'' \<notin> set arch" "os1 \<noteq> []" "CHR ''.'' \<notin> set os1"
    using assms isName_chars(1,2,4) validVersion_proper by (auto simp: providerNames_def validArtifactName_iff properComp_def)
  show "plainFile (sumsFile n v)" "plainFile (sumsFile n v @ ''.sig'')"
    using n by (intro plainFileI; simp add: sumsFile_def)+
  show "plainFile (platformFile os1 arch)"
    using n by (intro plainFileI) (cases os1; auto simp: platformFile_def)+
qed (simp_all add: sumsFile_def platformFile_def)

section \<open>Publication\<close>

definition specProvider ::
  "path \<Rightarrow> path \<Rightarrow> path \<Rightarrow> path \<Rightarrow> path \<Rightarrow> RegistrySigner option \<Rightarrow> bytes \<Rightarrow> string \<Rightarrow> string \<Rightarrow> bool \<Rightarrow>
     objs \<Rightarrow> response \<Rightarrow> objs \<Rightarrow> bool" where
  "specProvider A P C S I so meta version fn existed a resp b \<longleftrightarrow>
     status resp \<in> {200, 500} \<and>
     (\<forall>q. q \<notin> {A, P, C, S, I} \<longrightarrow> b q = a q \<or>
        status resp = 200 \<and> b q = None \<and> (\<exists>old. oldArtifact platformFilename fn (a P) old \<and> q = butlast A @ [old])) \<and>
     (status resp = 200 \<longrightarrow> b A = a A \<and> b P = Some meta \<and> signedSums so (b C) (b S) \<and>
        (goodFile (a I) \<longrightarrow> (\<exists>old. indexAt (a I) = Some old \<and> indexAt (b I) = Some (addedTo version old)))) \<and>
     (status resp \<noteq> 200 \<longrightarrow> b I = a I \<and> (b A = a A \<or> \<not> existed \<and> b A = None))"

lemma provider_success:
  assumes ne: "distinct [A, P, C, S, I]" and prev: "seen prev (a P)" and b1: "b1 = a(P := Some meta)"
    and sums: "specSums C S so b1 (Inr ()) b2" and add: "specIndex I (addedTo v) b2 (Inr ()) b3"
    and last: "b4 = b3 \<or> (\<exists>d old. prev = Inr d \<and> platformFilename d = Some old \<and> old \<noteq> [] \<and> old \<noteq> fn \<and> b4 = b3(butlast A @ [old] := None))"
    and gone: "\<And>old. oldArtifact platformFilename fn (a P) old \<Longrightarrow> butlast A @ [old] \<notin> {A, P, C, S, I}"
    and resp: "status resp = 200"
  shows "specProvider A P C S I so meta v fn existed a resp b4"
proof -
  have b2: "b2 q = b1 q" if "q \<notin> {C, S}" for q using sums that by (simp add: specSums_def)
  have b3: "b3 q = b2 q" if "q \<noteq> I" for q using add that unfolding specIndex_def by (metis fun_upd_other)
  have I1: "b2 I = a I" using b2 [of I] b1 ne by auto
  have I: "\<exists>old. indexAt (a I) = Some old \<and> indexAt (b3 I) = Some (addedTo v old)" if "goodFile (a I)"
    using add that unfolding specIndex_def I1 by auto
  have sg: "signedSums so (b3 C) (b3 S)" using sums b3 [of C] b3 [of S] ne by (auto simp: specSums_def)
  have A: "b3 A = a A" "b3 P = Some meta" using b1 b2 [of A] b2 [of P] b3 [of A] b3 [of P] ne by auto
  have rest: "b3 q = a q" if "q \<notin> {A, P, C, S, I}" for q using that b3 [of q] b2 [of q] b1 by simp
  consider (kept) "b4 = b3" | (removed) old where "oldArtifact platformFilename fn (a P) old" "b4 = b3(butlast A @ [old] := None)"
    using last prev by (auto simp: oldArtifact_def seen_def)
  then show ?thesis
  proof cases
    case kept
    then show ?thesis using A I sg rest resp by (simp add: specProvider_def)
  next
    case removed
    have out: "butlast A @ [old] \<noteq> q" if "q \<in> {A, P, C, S, I}" for q using gone [OF removed(1)] that by blast
    have kept: "b4 A = b3 A" "b4 P = b3 P" "b4 C = b3 C" "b4 S = b3 S" "b4 I = b3 I"
      using removed(2) out [of A] out [of P] out [of C] out [of S] out [of I] by auto
    have "b4 q = a q \<or> b4 q = None \<and> q = butlast A @ [old]" if "q \<notin> {A, P, C, S, I}" for q
      using removed(2) rest [OF that] by auto
    then show ?thesis using removed(1) resp I sg A unfolding specProvider_def kept by auto
  qed
qed

text \<open>Failures leave the index and what existed.\<close>

lemma provider_failure:
  assumes ne: "distinct [A, P, C, S, I]" and same: "\<And>q. q \<notin> {A, P, C, S} \<Longrightarrow> b q = a q"
    and A: "b A = a A \<or> \<not> existed \<and> b A = None" and resp: "status resp = 500"
  shows "specProvider A P C S I so meta v fn existed a resp b"
proof -
  have "b I = a I" using same [of I] ne by auto
  then show ?thesis using same A resp unfolding specProvider_def by simp
qed

lemma specProvider_rest:
  "specProvider A P C S I so meta v fn existed a resp b \<Longrightarrow> q \<notin> {A, P, C, S, I} \<Longrightarrow>
     b q = a q \<or> b q = None \<and> (\<exists>old. oldArtifact platformFilename fn (a P) old \<and> q = butlast A @ [old])"
  unfolding specProvider_def by blast

lemma specProvider_failed:
  "specProvider A P C S I so meta v fn existed a resp b \<Longrightarrow> status resp \<noteq> 200 \<Longrightarrow> q \<notin> {P, C, S} \<Longrightarrow>
     b q = a q \<or> q = A \<and> \<not> existed \<and> b A = None"
  unfolding specProvider_def by (cases "q = A"; cases "q = I") auto

lemma refines_publishProvider:
  fixes so sha existed
  assumes names: "providerNames ns n v" "validArtifactName os1" "validArtifactName arch" and root: "rootOk (store g)"
    and fn: "matchString providerFileRE fn"
  defines "D \<equiv> providerDir (store g) ns n"
  defines "meta \<equiv> marshal (encodePlatformMeta \<lparr>OS = os1, Arch = arch, Filename = fn, Shasum = sha, Protocols = Some [''5.0'']\<rparr>)"
  shows "refines (storeOk (store g)) objects
    (publishProvider g ns n v os1 arch fn sha (providerVersionPrefix ns n v @ fn) existed)
    (\<lambda>a resp b. tidyPlatform (a (D @ [v, platformFile os1 arch])) \<longrightarrow>
       specProvider (D @ [v, fn]) (D @ [v, platformFile os1 arch]) (D @ [v, sumsFile n v]) (D @ [v, sumsFile n v @ ''.sig''])
         (D @ [''index.json'']) (signer g) meta v fn existed a resp b)"
proof -
  let ?s = "store g" and ?prfx = "providerVersionPrefix ns n v"
  let ?A = "D @ [v, fn]" and ?P = "D @ [v, platformFile os1 arch]" and ?C = "D @ [v, sumsFile n v]"
  let ?S = "D @ [v, sumsFile n v @ ''.sig'']" and ?I = "D @ [''index.json'']"
  let ?R = "\<lambda>a resp b. tidyPlatform (a ?P) \<longrightarrow> specProvider ?A ?P ?C ?S ?I (signer g) meta v fn existed a resp b"
  note vf = version_files [OF names] and fns = provider_file_name [OF fn]
  have fileAt: "objPath ?s (?prfx @ f) = D @ [v, f]" "storeKey ?s (?prfx @ f)" if "plainFile f" for f
    using provider_file [OF names(1) that] root dataKey_storeKey by (auto simp: D_def)
  have idx: "objPath ?s (providerIndexKey ns n) = ?I" "storeKey ?s (providerIndexKey ns n)"
    using provider_index [OF names(1)] root dataKey_storeKey by (auto simp: D_def)
  have v: "validVersion v" using names by (simp add: providerNames_def)
  have other: "f \<notin> {platformFile os1 arch, sumsFile n v, sumsFile n v @ ''.sig''}" if "last f = CHR ''p''" for f
    using vf(4-6) that by auto
  have ne: "distinct [?A, ?P, ?C, ?S, ?I]" using other [OF fns(2)] vf(4-6) by (auto dest: arg_cong [where f = last])
  then have CS: "?C \<noteq> ?S" by simp
  note get = artifacts.get [OF fileAt(2) [OF vf(3)], unfolded fileAt(1) [OF vf(3)]]
    and put = artifacts.put [OF fileAt(2) [OF vf(3)], unfolded fileAt(1) [OF vf(3)]]
    and get1 = artifacts.get [OF fileAt(2) [OF vf(1)], unfolded fileAt(1) [OF vf(1)]]
    and get2 = artifacts.get [OF fileAt(2) [OF vf(2)], unfolded fileAt(1) [OF vf(2)]]
  note drop = refines_deleteUnless [OF fileAt(2) [OF fns(1)], unfolded fileAt(1) [OF fns(1)]]
  note add = refines_addVersion [OF idx(2) v, unfolded idx(1)]
  note sums = refines_rebuild [OF checksums_names fileAt(2) [OF vf(1)] fileAt(2) [OF vf(2)] fileAt(1) [OF vf(1)] fileAt(1) [OF vf(2)] CS]
  have undo: "refines (storeOk ?s) objects (restorePublication ?s
      [(?prfx @ platformFile os1 arch, p1), (?prfx @ sumsFile n v, p2), (?prfx @ sumsFile n v @ ''.sig'', p3)] existed (?prfx @ fn))
      (\<lambda>a _ b. (\<forall>q. q \<notin> {?A, ?P, ?C, ?S} \<longrightarrow> b q = a q) \<and> (b ?A = a ?A \<or> \<not> existed \<and> b ?A = None))" for p1 p2 p3
    by (rule refines_post [OF refines_restorePublication])
       (use fileAt [OF vf(1)] fileAt [OF vf(2)] fileAt [OF vf(3)] fileAt [OF fns(1)] ne in auto)
  have old: "plainFile o1 \<and> last o1 = CHR ''p''" if "tidyPlatform (Some d)" "platformFilename d = Some o1" "o1 \<noteq> []" for d o1
    using that provider_file_name [of o1] by (auto simp: tidyPlatform_def)
  have late: "refines (storeOk ?s) objects (removeOldArtifact ?s ?prfx fn platformFilename previous)
      (\<lambda>a _ b. (\<forall>d. previous = Inr d \<longrightarrow> tidyPlatform (Some d)) \<longrightarrow>
         b = a \<or> (\<exists>d old. previous = Inr d \<and> platformFilename d = Some old \<and> old \<noteq> [] \<and> old \<noteq> fn \<and> b = a((D @ [v]) @ [old] := None)))" for previous
    by (rule refines_removeOld_tidy) (use fileAt old in simp_all)
  have final: "specProvider ?A ?P ?C ?S ?I (signer g) meta v fn existed a (succeeded msg) b4"
    if last: "(\<forall>d. prev = Inr d \<longrightarrow> tidyPlatform (Some d)) \<longrightarrow>
           b4 = b3 \<or> (\<exists>d old. prev = Inr d \<and> platformFilename d = Some old \<and> old \<noteq> [] \<and> old \<noteq> fn \<and> b4 = b3((D @ [v]) @ [old] := None))"
      and ix: "specIndex ?I (addedTo v) b2 (Inr u) b3" and su: "specSums ?C ?S (signer g) b1 (Inr u1) b2"
      and rd: "specGet ?S c2 r2 b1" "specGet ?C c1 r1 c2"
      and st: "specSet ?P (Some meta) a0 (Inr u2) c1" and gt: "specGet ?P a prev a0" and tidy: "tidyPlatform (a ?P)"
    for a a0 b1 b2 b3 b4 c1 c2 r1 r2 prev msg u u1 u2
  proof (rule provider_success [where prev = prev, OF ne _ _ su [simplified] ix [simplified]])
    show "seen prev (a ?P)" "b1 = a(?P := Some meta)" using gt st rd by (simp_all add: specGet_def specSet_def)
    then have "\<forall>d. prev = Inr d \<longrightarrow> tidyPlatform (Some d)" using tidy by (auto simp: seen_def)
    then show "b4 = b3 \<or> (\<exists>d old. prev = Inr d \<and> platformFilename d = Some old \<and> old \<noteq> [] \<and> old \<noteq> fn \<and> b4 = b3(butlast ?A @ [old] := None))"
      using last by (simp add: butlast_append)
    show "butlast ?A @ [o1] \<notin> {?A, ?P, ?C, ?S, ?I}" if o1: "oldArtifact platformFilename fn (a ?P) o1" for o1
    proof -
      obtain d where d: "a ?P = Some d" "platformFilename d = Some o1" "o1 \<noteq> []" "o1 \<noteq> fn"
        using o1 by (auto simp: oldArtifact_def)
      then have "last o1 = CHR ''p''" using old [of d o1] tidy by simp
      then show ?thesis using other [of o1] d(4) by (auto simp: butlast_append)
    qed
  qed simp
  show ?thesis
    unfolding publishProvider_def Let_def AddProviderVersion_def meta_def [symmetric] checksums_names prod.case platform_key
    apply (rule refines_start, rule sofar_bind [OF get], rule sofar_bind [OF put], rule sofar_case_sum)
     apply (rule sofar_bind [OF drop], rule sofar_return)
    subgoal using ne by (auto simp: specGet_def specSet_def intro!: provider_failure)
    apply (rule sofar_bind [OF get1], rule sofar_bind [OF get2], rule sofar_bind [OF sums], rule sofar_case_sum)
     apply (rule sofar_bind [OF undo], rule sofar_return)
    subgoal using ne by (auto simp: specGet_def specSet_def specSums_def intro!: provider_failure)
    apply (rule sofar_bind [OF add], rule sofar_case_sum)
     apply (rule sofar_bind [OF undo], rule sofar_return)
    subgoal using ne by (auto simp: specGet_def specSet_def specSums_def specIndex_def intro!: provider_failure)
    apply (rule sofar_bind [OF late], rule sofar_bind [OF refines_tick], rule sofar_return)
    subgoal by (elim exE conjE, hypsubst, rule impI, rule final)
    done
qed

section \<open>The handler\<close>

abbreviation providerRequest :: "request \<Rightarrow> bool" where
  "providerRequest r \<equiv> providerNames (var r ''namespace'') (var r ''name'') (var r ''version'') \<and>
     validArtifactName (var r ''os'') \<and> validArtifactName (var r ''arch'')"

definition packageOf :: "request \<Rightarrow> bytes \<Rightarrow> string" where
  "packageOf r d = providerArtifactName (var r ''name'') (var r ''version'') (var r ''os'') (var r ''arch'') (sha256Hex d)"

lemma package_name:
  assumes "providerRequest r"
  shows "matchString providerFileRE (packageOf r d)"
proof -
  have "hashSuffix (''_'' @ sha256Hex d)" using sha_hex by (auto simp: hashSuffix_def)
  moreover have "isName (var r ''name'')" "versionText (var r ''version'')" "isName (var r ''os'')" "isName (var r ''arch'')"
    using assms validVersion_text(1) by (simp_all add: providerNames_def validArtifactName_iff)
  ultimately show ?thesis
    unfolding matchString_iff inLang_providerFile
    by (intro exI [of _ "''_'' @ sha256Hex d"] exI) (auto simp: packageOf_def providerArtifactName_def providerFile_def)
qed

definition acceptedProvider :: "Registry \<Rightarrow> string \<Rightarrow> stream \<Rightarrow> bool" where
  "acceptedProvider g n u \<longleftrightarrow> snd (copyLimited u (limitPlusOne (maxUploadSize g))) = None \<and>
     int (length (uploaded u (maxUploadSize g))) \<le> sint (maxUploadSize g) \<and>
     validateProviderArchive (zipDecoder g) (uploaded u (maxUploadSize g)) n (maxUploadSize g) = None"

definition platformMetaOf :: "request \<Rightarrow> bytes \<Rightarrow> PlatformMeta" where
  "platformMetaOf r d =
     \<lparr>OS = var r ''os'', Arch = var r ''arch'', Filename = packageOf r d, Shasum = sha256Hex d, Protocols = Some [''5.0'']\<rparr>"

text \<open>
  The outcome of a provider upload.  On success the package is stored, the metadata of its platform names it
  with its hash, the checksum file is signed and the index lists the version; besides these only the package
  that the metadata named before may be gone.  On failure the index and every object that existed are as
  before, up to the metadata, checksum and signature files, which are put back unless that fails too.
\<close>

definition providerUploadOutcome :: "Registry \<Rightarrow> request \<Rightarrow> fsys \<Rightarrow> response \<Rightarrow> fsys \<Rightarrow> bool" where
  "providerUploadOutcome g r f resp f' =
     (let n = var r ''name''; v = var r ''version''; D = providerDir (store g) (var r ''namespace'') n;
          P = D @ [v, platformFile (var r ''os'') (var r ''arch'')]; C = D @ [v, sumsFile n v];
          S = D @ [v, sumsFile n v @ ''.sig'']; I = D @ [''index.json'']; a = objects f; b = objects f' in
      (status resp = 200 \<longrightarrow> (\<exists>u d A. multipartUploadPart (bodyLimit g) r = Inr u \<and> acceptedProvider g n u \<and>
          d = uploaded u (maxUploadSize g) \<and> A = D @ [v, packageOf r d] \<and>
          b A = (if fsGet f A = None then Some d else a A) \<and>
          b P = Some (marshal (encodePlatformMeta (platformMetaOf r d))) \<and> signedSums (signer g) (b C) (b S) \<and>
          (goodFile (a I) \<longrightarrow> (\<exists>old. indexAt (a I) = Some old \<and> indexAt (b I) = Some (addedTo v old))) \<and>
          (\<forall>q. q \<notin> {A, P, C, S, I} \<longrightarrow> b q = a q \<or>
             b q = None \<and> (\<exists>old. oldArtifact platformFilename (packageOf r d) (a P) old \<and> q = D @ [v, old])))) \<and>
      (status resp \<noteq> 200 \<longrightarrow> b I = a I \<and>
          (\<forall>q. q \<notin> {P, C, S} \<longrightarrow> b q = a q \<or> a q = None \<and> (\<exists>d. q = D @ [v, packageOf r d]))))"

lemma providerUpload_unchanged: "status resp \<noteq> 200 \<Longrightarrow> objects f' = objects f \<Longrightarrow> providerUploadOutcome g r f resp f'"
  by (simp add: providerUploadOutcome_def Let_def)

lemma providerUpload_published:
  fixes f and r :: request and g :: Registry
  defines "n \<equiv> var r ''name''" and "v \<equiv> var r ''version''" 
  defines "D \<equiv> providerDir (store g) (var r ''namespace'') n"
    and "pf \<equiv> platformFile (var r ''os'') (var r ''arch'')"
  assumes u: "multipartUploadPart (bodyLimit g) r = Inr u" "acceptedProvider g n u"
    and d: "d = uploaded u (maxUploadSize g)"
    and ex: "existed \<longleftrightarrow> fsGet f (D @ [v, packageOf r d]) \<noteq> None"
    and a: "a = (if existed then objects f else (objects f)(D @ [v, packageOf r d] := Some d))"
    and ne: "distinct [D @ [v, packageOf r d], D @ [v, pf], D @ [v, sumsFile n v], D @ [v, sumsFile n v @ ''.sig''], D @ [''index.json'']]"
    and pub: "specProvider (D @ [v, packageOf r d]) (D @ [v, pf]) (D @ [v, sumsFile n v]) (D @ [v, sumsFile n v @ ''.sig'']) (D @ [''index.json''])
      (signer g) (marshal (encodePlatformMeta (platformMetaOf r d))) v (packageOf r d) existed a resp (objects f')"
  shows "providerUploadOutcome g r f resp f'"
proof -
  let ?A = "D @ [v, packageOf r d]" and ?P = "D @ [v, pf]" and ?I = "D @ [''index.json'']"
  let ?X = "{?A, ?P, D @ [v, sumsFile n v], D @ [v, sumsFile n v @ ''.sig''], ?I}"
  have old: "a q = objects f q" if "q \<noteq> ?A" for q using a that by simp
  have A: "a ?A = (if fsGet f ?A = None then Some d else objects f ?A)" using a ex by simp
  have absent: "objects f ?A = None" if "\<not> existed" using that ex objectAt_None by (simp add: objects_def)
  have neA: "?P \<noteq> ?A" "?I \<noteq> ?A" using ne by (simp_all only: distinct.simps list.set) blast+
  show ?thesis
  proof (cases "status resp = 200")
    case True
    have A': "objects f' ?A = a ?A" and P': "objects f' ?P = Some (marshal (encodePlatformMeta (platformMetaOf r d)))"
      and S': "signedSums (signer g) (objects f' (D @ [v, sumsFile n v])) (objects f' (D @ [v, sumsFile n v @ ''.sig'']))"
      using pub True unfolding specProvider_def by blast+
    have I': "\<exists>i. indexAt (objects f ?I) = Some i \<and> indexAt (objects f' ?I) = Some (addedTo v i)" if "goodFile (objects f ?I)"
      using pub True old [OF neA(2)] that unfolding specProvider_def by auto
    have rest: "objects f' q = objects f q \<or> objects f' q = None \<and> (\<exists>o1. oldArtifact platformFilename (packageOf r d) (objects f ?P) o1 \<and> q = D @ [v, o1])"
      if q: "q \<notin> ?X" for q
      using specProvider_rest [OF pub q] old [of q] q unfolding old [OF neA(1)] by (simp add: butlast_append)
    show ?thesis
      unfolding providerUploadOutcome_def Let_def v_def [symmetric] D_def [symmetric] n_def [symmetric] pf_def [symmetric]
      using True u A' [unfolded A] P' S' I' rest by (auto simp: d)
  next
    case False
    have I: "objects f' ?I = objects f ?I" using pub False old [OF neA(2)] by (simp add: specProvider_def)
    have "objects f' q = objects f q \<or> objects f q = None \<and> q = ?A"
      if q: "q \<notin> {?P, D @ [v, sumsFile n v], D @ [v, sumsFile n v @ ''.sig'']}" for q
      using specProvider_failed [OF pub False q] absent old [of q] a by (cases "q = ?A"; cases existed) auto
    then show ?thesis
      unfolding providerUploadOutcome_def Let_def v_def [symmetric] D_def [symmetric] n_def [symmetric] pf_def [symmetric]
      using False I by auto
  qed
qed

definition providerBody :: "Registry \<Rightarrow> request \<Rightarrow> stream \<Rightarrow> response io" where
  "providerBody g r u = State_Monad.bind
     (PutStreamImmutable (store g) u (maxUploadSize g)
        (Some (\<lambda>f. invalidArchive g (validateProviderArchive (zipDecoder g) f (var r ''name'') (maxUploadSize g))))
        (\<lambda>data. providerVersionPrefix (var r ''namespace'') (var r ''name'') (var r ''version'') @ packageOf r data))
     (\<lambda>x. case x of
        Inl err \<Rightarrow> State_Monad.return (storeFailed g err)
      | Inr (_, key, existed) \<Rightarrow>
          publishProvider g (var r ''namespace'') (var r ''name'') (var r ''version'') (var r ''os'') (var r ''arch'')
            (packageOf r (teed g u)) (sha256Hex (teed g u)) key existed)"

lemma uploadProviderHandler_body:
  "uploadProviderHandler g r = serialized
     (case multipartUploadPart (bodyLimit g) r of
        Inl err \<Rightarrow> State_Monad.return (writeUploadError (osText g) err)
      | Inr u \<Rightarrow>
          if length (sData u) < 4 then State_Monad.return (failed 400 ''File too small'')
          else (case ValidateUpload (take 4 (sData u)) ''zip'' of
               Some err \<Rightarrow> State_Monad.return (failed 400 (errorString (osText g) err))
             | None \<Rightarrow> providerBody g r u))"
  unfolding uploadProviderHandler_def providerBody_def packageOf_def Let_def ..

lemma providerBody_outcome:
  fixes g :: Registry and r :: request
  defines "v \<equiv> var r ''version''" and "n \<equiv> var r ''name''" and "pf \<equiv> platformFile (var r ''os'') (var r ''arch'')"
  defines "D \<equiv> providerDir (store g) (var r ''namespace'') n"
  assumes names: "providerRequest r"
    and root: "rootOk (store g)" and ok: "storeOk (store g) (fs w)" and tidy: "tidyPlatform (objects (fs w) (D @ [v, pf]))"
    and u: "multipartUploadPart (bodyLimit g) r = Inr u" and run: "run_state (providerBody g r u) w = (resp, w')"
  shows "storeOk (store g) (fs w') \<and> providerUploadOutcome g r (fs w) resp (fs w')"
proof -
  let ?prfx = "providerVersionPrefix (var r ''namespace'') (var r ''name'') (var r ''version'')"
  let ?d = "uploaded u (maxUploadSize g)"
  let ?fn = "packageOf r ?d"
  let ?V = "Some (\<lambda>f. invalidArchive g (validateProviderArchive (zipDecoder g) f (var r ''name'') (maxUploadSize g)))"
  let ?sp = "specProvider (D @ [v, ?fn]) (D @ [v, pf]) (D @ [v, sumsFile n v]) (D @ [v, sumsFile n v @ ''.sig'']) (D @ [''index.json''])
    (signer g) (marshal (encodePlatformMeta (platformMetaOf r ?d))) v ?fn"
  have teed: "teed g u = ?d" by (simp add: teed_def uploaded_def)
  have n: "providerNames (var r ''namespace'') (var r ''name'') (var r ''version'')" "validArtifactName (var r ''os'')" "validArtifactName (var r ''arch'')"
    using names by simp_all
  note fn = package_name [OF names, of ?d]
  note fns = provider_file_name [OF fn] and vf = version_files [OF n]
  have K: "dataKey (store g) (?prfx @ ?fn)" "objPath (store g) (?prfx @ ?fn) = D @ [v, ?fn]"
    using provider_file [OF n(1) fns(1)] root by (auto simp: D_def v_def n_def)
  have "?fn \<notin> {pf, sumsFile n v, sumsFile n v @ ''.sig''}" "pf \<notin> {sumsFile n v, sumsFile n v @ ''.sig''}"
    using fns(2) vf(4-6) unfolding pf_def n_def v_def by (auto dest: arg_cong [where f = last])
  then have ne: "distinct [D @ [v, ?fn], D @ [v, pf], D @ [v, sumsFile n v], D @ [v, sumsFile n v @ ''.sig''], D @ [''index.json'']]"
    by simp
  note pub = refines_publishProvider [OF n root fn, where sha = "sha256Hex ?d"]
  have st: "storeOk (store g) (fs w')" and
    res: "(\<exists>err. resp = storeFailed g err) \<and> objects (fs w') = objects (fs w) \<or>
     (\<exists>a existed. goodUpload u (maxUploadSize g) ?V \<and> (existed \<longleftrightarrow> fsGet (fs w) (D @ [v, ?fn]) \<noteq> None) \<and>
        a = (if existed then objects (fs w) else (objects (fs w))(D @ [v, ?fn] := Some ?d)) \<and>
        (tidyPlatform (a (D @ [v, pf])) \<longrightarrow> ?sp existed a resp (objects (fs w'))))"
    using upload_then [where key = "\<lambda>data. ?prfx @ packageOf r data", OF K(1) ok pub run [unfolded providerBody_def teed], unfolded K(2)]
    unfolding D_def v_def n_def pf_def platformMetaOf_def by blast+
  from res show ?thesis
  proof (elim disjE exE conjE)
    fix err assume "resp = storeFailed g err" "objects (fs w') = objects (fs w)"
    then show ?thesis using st providerUpload_unchanged [of resp "fs w'" "fs w" g r] by simp
  next
    fix a existed
    assume gu: "goodUpload u (maxUploadSize g) ?V" and ex: "existed \<longleftrightarrow> fsGet (fs w) (D @ [v, ?fn]) \<noteq> None"
      and a: "a = (if existed then objects (fs w) else (objects (fs w))(D @ [v, ?fn] := Some ?d))"
      and sp: "tidyPlatform (a (D @ [v, pf])) \<longrightarrow> ?sp existed a resp (objects (fs w'))"
    have "tidyPlatform (a (D @ [v, pf]))" using a tidy ne by auto
    moreover have "acceptedProvider g n u"
      using gu by (auto simp: goodUpload_def accepts_def acceptedProvider_def invalidArchive_def n_def split: option.splits)
    ultimately show ?thesis
      using providerUpload_published [OF u _ refl ex [unfolded D_def v_def n_def] a [unfolded D_def v_def n_def] ne [unfolded D_def v_def n_def pf_def]] sp st
      unfolding D_def v_def n_def pf_def by blast
  qed
qed



end
