(* ===== verification/Removal.thy ===== *)
theory Removal
  imports Publish
begin

text \<open>
  Deleting a version: its directory is moved aside in one step, the index is updated, and then the directory
  is removed or moved back.
\<close>

section \<open>Moving and removing directories\<close>

text \<open>Sequencing where what follows depends on what the first step can return.\<close>

lemma refines_bind_dep:
  assumes "refines ok obs m Q" "\<And>x a b. Q a x b \<Longrightarrow> refines ok obs (k x) (R2 x)" "\<And>a x b r c. Q a x b \<Longrightarrow> R2 x b r c \<Longrightarrow> R a r c"
  shows "refines ok obs (State_Monad.bind m k) R"
  unfolding refines_def triple_def
proof (intro allI impI)
  fix f0 w r w' assume ok: "ok f0" "fs w = f0" and run: "run_state (State_Monad.bind m k) w = (r, w')"
  obtain x w1 where 1: "run_state m w = (x, w1)" by (rule prod.exhaust)
  have q: "ok (fs w1)" "Q (obs (fs w)) x (obs (fs w1))" using refinesD [OF assms(1) _ 1] ok by auto
  have "run_state (k x) w1 = (r, w')" using run 1 by simp
  from refinesD [OF assms(2) [OF q(2)] q(1) this] show "ok (fs w') \<and> R (obs f0) r (obs (fs w'))"
    using assms(3) [OF q(2)] ok by blast
qed

lemma refines_bindR_dep:
  assumes "refines ok obs m Q" "\<And>x a b. Q a (Inr x) b \<Longrightarrow> refines ok obs (k x) (R2 x)" "\<And>a e b. Q a (Inl e) b \<Longrightarrow> R a (Inl e) b"
    "\<And>a x b r c. Q a (Inr x) b \<Longrightarrow> R2 x b r c \<Longrightarrow> R a r c"
  shows "refines ok obs (bindR m k) R"
  unfolding bindR_def
proof (rule refines_bind_dep [OF assms(1), where ?R2.0 = "\<lambda>x a r c. case x of Inl e \<Rightarrow> r = Inl e \<and> c = a | Inr y \<Rightarrow> R2 y a r c"])
  fix x a b assume "Q a x b"
  then show "refines ok obs (case x of Inl e \<Rightarrow> State_Monad.return (Inl e) | Inr y \<Rightarrow> k y)
      (\<lambda>a r c. case x of Inl e \<Rightarrow> r = Inl e \<and> c = a | Inr y \<Rightarrow> R2 y a r c)"
    using assms(2) by (cases x) (auto intro: refines_return)
next
  fix a x b r c
  assume "Q a x b" "case x of Inl e \<Rightarrow> r = Inl e \<and> c = b | Inr y \<Rightarrow> R2 y b r c"
  then show "R a r c" using assms(3,4) by (cases x) auto
qed

definition below :: "Store \<Rightarrow> path \<Rightarrow> bool" where
  "below s p \<longleftrightarrow> list_all properComp p \<and> prefix (basePath s) p \<and> p \<noteq> [] \<and> \<not> tempName p"

definition moved :: "path \<Rightarrow> path \<Rightarrow> objs \<Rightarrow> objs" where
  "moved src dst a p = (if prefix dst p then a (src @ drop (length dst) p) else if prefix src p then None else a p)"

definition specRename :: "path \<Rightarrow> path \<Rightarrow> objs \<Rightarrow> unit result \<Rightarrow> objs \<Rightarrow> bool" where
  "specRename src dst a r b \<longleftrightarrow> b = (if r = Inr () then moved src dst a else a)"

lemma place_below:
  assumes "below s p" "plain (basePath s) f" "place f p = Inr q"
  shows "q = p"
proof (rule place_plain [OF _ _ assms(3)])
  show "list_all properComp p" using assms(1) by (simp add: below_def)
  show "noLinkTo f (butlast p)"
    by (rule noLinkTo_butlast, rule plain_noLinkTo [OF assms(2)]) (use assms(1) in \<open>simp add: below_def\<close>)
qed

lemma tempName_append: "p \<noteq> [] \<Longrightarrow> tempName (q @ p) \<longleftrightarrow> tempName p"
  by (simp add: tempName_def)

lemma objects_children: "fsTree f \<Longrightarrow> fsGet f p \<noteq> Some Dir \<Longrightarrow> strict_prefix p q \<Longrightarrow> objects f q = None"
  using no_children [of f p q] by (simp add: objects_def objectAt_None)

lemma objects_move:
  assumes "\<not> tempName src" "\<not> tempName dst" "\<not> prefix src dst" "\<not> prefix dst src"
  shows "objects (fsMove src dst f) = moved src dst (objects f)"
proof
  fix p
  have get: "fsGet (fsMove src dst f) p =
      (if prefix dst p then fsGet f (src @ drop (length dst) p) else if prefix src p then None else fsGet f p)"
    by (rule fsGet_fsMove [OF assms(3,4)])
  have temp: "tempName (src @ drop (length dst) p) \<longleftrightarrow> tempName p" if d: "prefix dst p"
  proof -
    obtain zs where "p = dst @ zs" using d by (auto simp: prefix_def)
    then show ?thesis using assms(1,2) by (cases "zs = []") (simp_all add: tempName_append)
  qed
  show "objects (fsMove src dst f) p = moved src dst (objects f) p"
    using temp by (simp add: moved_def objects_def objectAt_def objAt_def get)
qed

lemma objects_moveFile:
  assumes "\<not> tempName src" "\<not> tempName dst" "\<not> prefix src dst" "\<not> prefix dst src" "fsTree f"
    "fsGet f src = Some n" "n \<noteq> Dir" "fsGet f dst \<noteq> Some Dir" "dst \<noteq> []" "src \<noteq> []"
  shows "objects (fsPut dst n (fsDel src f)) = moved src dst (objects f)"
proof
  fix p
  have src: "objects f q = None" if "strict_prefix src q" for q using objects_children [OF assms(5) _ that] assms(6,7) by simp
  have dst: "objects f q = None" if "strict_prefix dst q" for q using objects_children [OF assms(5) _ that] assms(8) by simp
  have ne: "src \<noteq> dst" using assms(3) by auto
  consider "p = dst" | "strict_prefix dst p" | "p = src" | "strict_prefix src p" | "\<not> prefix dst p" "\<not> prefix src p"
    by (auto simp: strict_prefix_def)
  then show "objects (fsPut dst n (fsDel src f)) p = moved src dst (objects f) p"
  proof cases
    case 1
    then show ?thesis using assms ne by (simp add: moved_def objects_def objectAt_def objAt_def fsGet_fsPut fsGet_fsDel)
  next
    case 2
    then have "strict_prefix src (src @ drop (length dst) p)" by (auto simp: strict_prefix_def prefix_def)
    then have "moved src dst (objects f) p = None" using src 2 by (simp add: moved_def strict_prefix_def)
    moreover have "p \<noteq> dst" "p \<noteq> src" using 2 assms(4) by (auto simp: strict_prefix_def)
    ultimately show ?thesis
      using dst [OF 2] assms by (auto simp: objects_def objectAt_def objAt_def fsGet_fsPut fsGet_fsDel)
  next
    case 3
    then show ?thesis using assms ne by (simp add: moved_def objects_def objectAt_def objAt_def fsGet_fsPut fsGet_fsDel)
  next
    case 4
    have "\<not> prefix dst p" using 4 assms(3,4) prefix_same_cases by (auto simp: strict_prefix_def)
    moreover from this have "p \<noteq> dst" "p \<noteq> src" using 4 by (auto simp: strict_prefix_def)
    ultimately show ?thesis
      using src [OF 4] 4 assms by (auto simp: moved_def strict_prefix_def objects_def objectAt_def objAt_def fsGet_fsPut fsGet_fsDel)
  next
    case 5
    then show ?thesis using assms by (auto simp: moved_def objects_def objectAt_def objAt_def fsGet_fsPut fsGet_fsDel)
  qed
qed

lemma plain_move:
  assumes "plain b f" "prefix b src" "\<not> prefix src dst" "\<not> prefix dst src"
  shows "plain b (fsMove src dst f)"
  unfolding plain_def fsGet_fsMove [OF assms(3,4)]
proof (intro allI impI)
  fix p t m assume "prefix p b \<or> prefix b p"
  then have p: "fsGet f p \<noteq> Some (Link t m)" using assms(1) unfolding plain_def by blast
  have "fsGet f (src @ x) \<noteq> Some (Link t m)" for x
    using assms(1,2) unfolding plain_def by (metis prefix_prefix)
  then show "(if prefix dst p then fsGet f (src @ drop (length dst) p) else if prefix src p then None else fsGet f p) \<noteq> Some (Link t m)"
    using p by simp
qed

lemma refines_rename:
  assumes src: "below s src" and dst: "below s dst" and np: "\<not> prefix src dst" "\<not> prefix dst src"
  shows "refines (storeOk s) objects (osRename src dst) (specRename src dst)"
proof (rule refinesI)
  fix f0 assume ok: "storeOk s f0"
  have pl: "plain (basePath s) f0" and tr: "fsTree f0" using ok by (auto simp: storeOk_def)
  have nt: "\<not> tempName src" "\<not> tempName dst" "src \<noteq> []" "dst \<noteq> []" "prefix (basePath s) src"
    using src dst by (auto simp: below_def)
  have step: "plain (basePath s) (fs w') \<and> specRename src dst (objects f0) r (objects (fs w'))"
    if f: "fs w = f0" and act: "renameAct src dst w = (r, w')" for w r w'
  proof (cases "r = Inr ()")
    case False
    then have "w' = w" using act by (auto simp: renameAct_def split: sum.splits option.splits if_splits)
    then show ?thesis using False pl f by (simp add: specRename_def)
  next
    case r: True
    obtain p q n where p: "place (fs w) src = Inr p" "place (fs w) dst = Inr q" "fsGet (fs w) p = Some n"
      and c: "fsGet (fs w) q \<noteq> Some Dir" and w': "p \<noteq> q \<Longrightarrow> fs w' = (if n = Dir then fsMove p q (fs w) else fsPut q n (fsDel p (fs w)))"
      using act r by (auto simp: renameAct_def split: sum.splits option.splits if_splits)
    have pq: "p = src" "q = dst" using place_below [OF src pl] place_below [OF dst pl] p f by auto
    then have w': "fs w' = (if n = Dir then fsMove src dst f0 else fsPut dst n (fsDel src f0))" using w' np f by auto
    show ?thesis
    proof (cases "n = Dir")
      case True
      then show ?thesis
        using w' r objects_move [OF nt(1,2) np] plain_move [OF pl nt(5) np] by (simp add: specRename_def)
    next
      case False
      have "\<And>t m. n \<noteq> Link t m" using pl p(3) f pq nt(5) unfolding plain_def by metis
      then have "plain (basePath s) (fsPut dst n (fsDel src f0))" by (intro plain_put plain_del pl nt)
      then show ?thesis
        using w' r f pq False objects_moveFile [OF nt(1,2) np tr] p(3) c(1) nt by (simp add: specRename_def)
    qed
  qed
  show "triple (\<lambda>f. f = f0) (osRename src dst) (\<lambda>r f. storeOk s f \<and> specRename src dst (objects f0) r (objects f))"
  proof (rule put_storeOk [OF _ tree_rename ok])
    show "triple (\<lambda>f. f = f0) (osRename src dst) (\<lambda>r f. plain (basePath s) f \<and> specRename src dst (objects f0) r (objects f))"
      unfolding osRename_def by (rule triple_atomically) (use step pl in \<open>auto simp: specRename_def\<close>)
  qed
qed

text \<open>Removing a tree, even partly, touches nothing outside it.\<close>

lemma objects_filter:
  assumes "\<And>p. p \<notin> T \<Longrightarrow> P p" "[] \<notin> T"
  shows "q \<notin> T \<Longrightarrow> objects (filter (\<lambda>(x, _). P x) f) q = objects f q"
    "(\<And>p. P p \<longrightarrow> p \<notin> T) \<Longrightarrow> q \<in> T \<Longrightarrow> objects (filter (\<lambda>(x, _). P x) f) q = None"
  using assms by (auto simp: objects_def objectAt_def objAt_def fsGet_def map_of_filter_key)

lemma plain_filter: "plain b f \<Longrightarrow> plain b (filter (\<lambda>(x, _). P x) f)"
proof -
  assume pl: "plain b f"
  have "fsGet (filter (\<lambda>(x, _). P x) f) q = fsGet f q \<or> fsGet (filter (\<lambda>(x, _). P x) f) q = None" for q
    by (auto simp: fsGet_def map_of_filter_key)
  then show ?thesis using pl unfolding plain_def by (metis option.distinct(1))
qed

lemma refines_removeAll:
  assumes p: "below s p"
  shows "refines (storeOk s) objects (osRemoveAll p) (\<lambda>a r b. \<forall>q. \<not> prefix p q \<longrightarrow> b q = a q)"
proof (rule refinesI)
  fix f0 assume ok: "storeOk s f0"
  have pl: "plain (basePath s) f0" using ok by (simp add: storeOk_def)
  have ne: "[] \<notin> {q. prefix p q}" using p by (simp add: below_def)
  let ?Q = "\<lambda>f. plain (basePath s) f \<and> (\<forall>q. \<not> prefix p q \<longrightarrow> objects f q = objects f0 q)"
  have part: "?Q (fs (removeFirst p k w))" if w: "fs w = f0" for k w
  proof (cases "place f0 p")
    case (Inr q)
    have "q = p" using place_below [OF p pl Inr] .
    define vs where "vs = take k (rev (sort (filter (\<lambda>x. prefix p x) (map fst f0))))"
    have vs: "set vs \<subseteq> {x. prefix p x}" "fs (removeFirst p k w) = filter (\<lambda>(x, _). x \<notin> set vs) f0"
      using Inr w \<open>q = p\<close> by (auto simp: removeFirst_def Let_def vs_def dest!: in_set_takeD)
    show ?thesis
      unfolding vs(2) using plain_filter [OF pl, of "\<lambda>x. x \<notin> set vs"] objects_filter(1) [of "{x. prefix p x}" "\<lambda>x. x \<notin> set vs"] ne vs(1) by auto
  qed (use w pl in \<open>simp add: removeFirst_def\<close>)
  show "triple (\<lambda>f. f = f0) (osRemoveAll p) (\<lambda>r f. storeOk s f \<and> (\<forall>q. \<not> prefix p q \<longrightarrow> objects f q = objects f0 q))"
  proof (rule put_storeOk [OF _ tree_removeAll ok])
    show "triple (\<lambda>f. f = f0) (osRemoveAll p) (\<lambda>r. ?Q)"
      unfolding osRemoveAll_def
    proof (rule triple_syscall)
      fix w :: world and r w'
      assume f: "fs w = f0" and act: "(case place (fs w) p of Inl e \<Rightarrow> (if isNotExist e then Inr () else Inl e, w)
         | Inr q \<Rightarrow> (Inr (), w\<lparr>fs := fsDelTree q (fs w)\<rparr>)) = (r, w')"
      then have "fs w' = f0 \<or> fs w' = fsDelTree p f0" using place_below [OF p pl] by (auto split: sum.splits)
      then show "?Q (fs w')"
        using pl plain_filter [OF pl, of "\<lambda>x. \<not> prefix p x"] objects_filter(1) [of "{x. prefix p x}" "\<lambda>x. \<not> prefix p x"] ne
        by (auto simp: fsDelTree_def)
    qed (use part pl in auto)
  qed
qed

section \<open>Moving a version aside\<close>

definition trashOf :: "path \<Rightarrow> path \<Rightarrow> bool" where
  "trashOf D t \<longleftrightarrow> (\<exists>c. t = D @ [c] \<and> properComp c \<and> hasPrefix c ''.trash-'')"

definition inTrash :: "path \<Rightarrow> path \<Rightarrow> bool" where
  "inTrash D p \<longleftrightarrow> (\<exists>t. trashOf D t \<and> prefix t p)"

lemma trash_not_temp: "hasPrefix c ''.trash-'' \<Longrightarrow> \<not> hasPrefix c ''.tmp-''"
  unfolding hasPrefix_iff_prefix using prefix_same_cases [of "''.trash-''" c "''.tmp-''"] by auto

lemma trash_below:
  assumes "trashOf D t" "list_all properComp D" "prefix (basePath s) D"
  shows "below s t"
  using assms trash_not_temp by (auto simp: trashOf_def below_def tempName_def prefix_def)

lemma objects_put: "p \<noteq> [] \<Longrightarrow> q \<noteq> p \<Longrightarrow> objects (fsPut p n f) q = objects f q" "p \<noteq> [] \<Longrightarrow> q \<noteq> p \<Longrightarrow> objects (fsDel p f) q = objects f q"
  by (simp_all add: objects_def objectAt_def objAt_def fsGet_fsPut fsGet_fsDel)

lemma refines_createTrash:
  assumes D: "list_all properComp D" "prefix (basePath s) D" and c: "properComp c"
  shows "refines (storeOk s) objects (osCreateTemp D (''.trash-'' @ c @ ''-'') [])
    (\<lambda>a r b. case r of Inl _ \<Rightarrow> b = a | Inr (h, t) \<Rightarrow> h = t \<and> trashOf D t \<and> (\<forall>q. q \<noteq> t \<longrightarrow> b q = a q))"
proof (rule refinesI)
  fix f0 assume ok: "storeOk s f0"
  have pl: "plain (basePath s) f0" using ok by (simp add: storeOk_def)
  have nl: "noLinkTo f0 D" using plain_noLinkTo [OF pl] D(2) by simp
  let ?R = "\<lambda>a r b. case r of Inl _ \<Rightarrow> b = a | Inr (h, t) \<Rightarrow> h = t \<and> trashOf D t \<and> (\<forall>q. q \<noteq> t \<longrightarrow> b q = a q)"
  have name: "trashOf D (D @ [''.trash-'' @ c @ ''-'' @ showNat n])" for n
    using c showNat_digits [of n] by (auto simp: trashOf_def hasPrefix_def properComp_def list_all_iff isDigit_def less_eq_char_def)
  show "triple (\<lambda>f. f = f0) (osCreateTemp D (''.trash-'' @ c @ ''-'') []) (\<lambda>r f. storeOk s f \<and> ?R (objects f0) r (objects f))"
  proof (rule put_storeOk [OF _ tree_createTemp ok])
    show "triple (\<lambda>f. f = f0) (osCreateTemp D (''.trash-'' @ c @ ''-'') []) (\<lambda>r f. plain (basePath s) f \<and> ?R (objects f0) r (objects f))"
      by (rule triple_post [OF triple_createTemp [OF D(1) nl]])
         (use pl name in \<open>auto split: sum.splits intro!: plain_put simp: objects_put\<close>)
  qed
qed

lemma refines_remove:
  assumes t: "below s t"
  shows "refines (storeOk s) objects (osRemove t) (\<lambda>a r b. \<forall>q. q \<noteq> t \<longrightarrow> b q = a q)"
proof (rule refinesI)
  fix f0 assume ok: "storeOk s f0"
  have pl: "plain (basePath s) f0" using ok by (simp add: storeOk_def)
  have tt: "list_all properComp t" "t \<noteq> []" "noLinkTo f0 (butlast t)"
    using t plain_noLinkTo [OF pl, THEN noLinkTo_butlast] by (auto simp: below_def)
  show "triple (\<lambda>f. f = f0) (osRemove t) (\<lambda>r f. storeOk s f \<and> (\<forall>q. q \<noteq> t \<longrightarrow> objects f q = objects f0 q))"
  proof (rule put_storeOk [OF _ tree_remove ok], rule triple_post [OF triple_remove [OF tt]])
    fix r :: "unit result" and f
    assume "(\<forall>e. r = Inl e \<longrightarrow> f = f0) \<and> (r = Inr () \<longrightarrow> f = fsDel t f0) \<and>
      (r = Inl ErrNotExist \<longrightarrow> place f0 t = Inl ErrNotExist \<or> fsGet f0 t = None)"
    then have "f = f0 \<or> f = fsDel t f0" by (cases r) auto
    then show "plain (basePath s) f \<and> (\<forall>q. q \<noteq> t \<longrightarrow> objects f q = objects f0 q)"
      using pl plain_del [OF pl tt(2)] objects_put(2) [OF tt(2)] by auto
  qed
qed

text \<open>
  After staging, the version's directory \<open>V\<close> in \<open>D\<close> is where \<open>sdTrash\<close> says, with all it holds; a failure
  leaves at most an empty marker.
\<close>

definition specStage :: "path \<Rightarrow> string \<Rightarrow> objs \<Rightarrow> stagedDelete result \<Rightarrow> objs \<Rightarrow> bool" where
  "specStage D v a r b \<longleftrightarrow>
     (case r of
        Inl _ \<Rightarrow> \<forall>p. \<not> inTrash D p \<longrightarrow> b p = a p
      | Inr sd \<Rightarrow> sdPath sd = D @ [v] \<and> trashOf D (sdTrash sd) \<and>
          (\<forall>x. b (sdTrash sd @ x) = a (D @ [v] @ x)) \<and>
          (\<forall>p. \<not> inTrash D p \<longrightarrow> b p = (if prefix (D @ [v]) p then None else a p)))"

lemma trash_apart:
  assumes "trashOf D t" "\<not> hasPrefix v ''.trash-''"
  shows "\<not> prefix t (D @ [v])" "\<not> prefix (D @ [v]) t" "prefix (D @ [v]) p \<Longrightarrow> \<not> prefix t p" "\<not> inTrash D (D @ v # x)"
  using assms prefix_same_cases by (fastforce simp: trashOf_def inTrash_def)+

lemma refines_trash_close:
  assumes "below s t"
  shows "refines (storeOk s) objects (onErr (osClose t) (ignore (osRemove t))) (\<lambda>a r b. \<forall>q. q \<noteq> t \<longrightarrow> b q = a q)"
proof -
  have rm: "refines (storeOk s) objects (ignore (osRemove t)) (\<lambda>a _ b. \<forall>q. q \<noteq> t \<longrightarrow> b q = a q)"
    by (rule refines_ignore [OF refines_remove [OF assms]])
  have rest: "refines (storeOk s) objects (case r of Inl e \<Rightarrow> State_Monad.bind (ignore (osRemove t)) (\<lambda>_. State_Monad.return (Inl e))
      | Inr x \<Rightarrow> State_Monad.return (Inr x)) (\<lambda>a _ b. \<forall>q. q \<noteq> t \<longrightarrow> b q = a q)" for r :: "unit result"
  proof (cases r)
    case (Inl e)
    show ?thesis
      unfolding Inl sum.case by (rule refines_bind [OF rm refines_return [where R = "\<lambda>a _ b. b = a"]]) auto
  qed (simp add: refines_return)
  show ?thesis
    unfolding onErr_def by (rule refines_readOnly_bind [OF _ rest]) (intro readonly)
qed

lemma refines_stage:
  assumes D: "list_all properComp D" "prefix (basePath s) D" and v: "properComp v" "\<not> hasPrefix v ''.trash-''" "\<not> hasPrefix v ''.tmp-''"
    and key: "basePath s @ cleanComps (trimSuffix key ''/'') = D @ [v]"
  shows "refines (storeOk s) objects (StageDeleteTree s key) (specStage D v)"
proof -
  let ?V = "D @ [v]"
  have V: "below s ?V" using D v by (auto simp: below_def tempName_def prefix_def)
  let ?R = "specStage D v"
  have move: "refines (storeOk s) objects
      (bindR (osRename ?V t) (\<lambda>_. State_Monad.return (Inr \<lparr>sdPath = ?V, sdTrash = t\<rparr>))) ?R" if t: "trashOf D t" for t
  proof (rule refines_bindR [OF refines_rename [OF V trash_below [OF t D] trash_apart(2,1) [OF t v(2)]] refines_return [where R = "\<lambda>a r b. b = a \<and> r = Inr \<lparr>sdPath = ?V, sdTrash = t\<rparr>"]])
    show "?R a r c" if "specRename ?V t a (Inr x) b" "c = b \<and> r = Inr \<lparr>sdPath = ?V, sdTrash = t\<rparr>" for a b c r x
    proof -
      have c: "c = moved ?V t a" using that by (simp add: specRename_def)
      have "c p = (if prefix ?V p then None else a p)" if "\<not> inTrash D p" for p
        using that t unfolding c moved_def inTrash_def by auto
      moreover have "c (t @ x) = a (?V @ x)" for x unfolding c moved_def by simp
      ultimately show ?thesis using that(2) t by (simp add: specStage_def)
    qed
  qed (auto simp: specRename_def specStage_def)
  have off: "q \<noteq> t" if "trashOf D t" "\<not> inTrash D q" for t q using that by (auto simp: inTrash_def)
  have carry: "?R a r c" if "\<forall>q. q \<noteq> t \<longrightarrow> b q = a q" "?R b r c" "trashOf D t" for a b c t r
  proof (cases r)
    case (Inl e)
    then show ?thesis using that off [OF that(3)] by (simp add: specStage_def)
  next
    case (Inr sd)
    have "?V @ x \<noteq> t" for x using trash_apart(2) [OF that(3) v(2)] by (auto simp: prefix_def)
    then show ?thesis using that off [OF that(3)] Inr by (simp add: specStage_def)
  qed
  have unmark: "refines (storeOk s) objects (bindR (osRemove t) (\<lambda>_.
      bindR (osRename ?V t) (\<lambda>_. State_Monad.return (Inr \<lparr>sdPath = ?V, sdTrash = t\<rparr>)))) ?R" if t: "trashOf D t" for t
    by (rule refines_bindR [OF refines_remove [OF trash_below [OF t D]] move [OF t]])
       (use off [OF t] carry [OF _ _ t] in \<open>auto simp: specStage_def\<close>)
  have marker: "refines (storeOk s) objects (bindR (onErr (osClose t) (ignore (osRemove t))) (\<lambda>_. bindR (osRemove t) (\<lambda>_.
      bindR (osRename ?V t) (\<lambda>_. State_Monad.return (Inr \<lparr>sdPath = ?V, sdTrash = t\<rparr>))))) ?R" if t: "trashOf D t" for t
    by (rule refines_bindR [OF refines_trash_close [OF trash_below [OF t D]] unmark [OF t]])
       (use off [OF t] carry [OF _ _ t] in \<open>auto simp: specStage_def\<close>)
  have found: "refines (storeOk s) objects (resolve s (trimSuffix key ''/'')) (\<lambda>a r b. b = a \<and> (\<forall>path. r = Inr path \<longrightarrow> path = ?V))"
    by (rule refinesI, rule triple_post [OF triple_resolve]) (use key in auto)
  have stat: "refines (storeOk s) objects (osStat ?V) (\<lambda>a r b. b = a)"
    by (rule refines_readOnly) (intro readonly, simp)
  have create: "refines (storeOk s) objects (bindR (osCreateTemp D (''.trash-'' @ v @ ''-'') []) (\<lambda>(marker, trash).
     bindR (onErr (osClose marker) (ignore (osRemove trash))) (\<lambda>_. bindR (osRemove trash) (\<lambda>_.
     bindR (osRename ?V trash) (\<lambda>_. State_Monad.return (Inr \<lparr>sdPath = ?V, sdTrash = trash\<rparr>)))))) ?R"
  proof (rule refines_bindR_dep [OF refines_createTrash [OF D v(1)], where ?R2.0 = "\<lambda>_. ?R"])
    fix x a b assume "case Inr x of Inl _ \<Rightarrow> b = a | Inr (h, t) \<Rightarrow> h = t \<and> trashOf D t \<and> (\<forall>q. q \<noteq> t \<longrightarrow> b q = a q)"
    then obtain t where x: "x = (t, t)" and t: "trashOf D t" by (cases x) auto
    show "refines (storeOk s) objects (case x of (marker, trash) \<Rightarrow>
     bindR (onErr (osClose marker) (ignore (osRemove trash))) (\<lambda>_. bindR (osRemove trash) (\<lambda>_.
     bindR (osRename ?V trash) (\<lambda>_. State_Monad.return (Inr \<lparr>sdPath = ?V, sdTrash = trash\<rparr>))))) ?R"
      unfolding x prod.case by (rule marker [OF t])
  next
    fix a x b r c
    assume q: "case Inr x of Inl _ \<Rightarrow> b = a | Inr (h, t) \<Rightarrow> h = t \<and> trashOf D t \<and> (\<forall>q. q \<noteq> t \<longrightarrow> b q = a q)" and r: "?R b r c"
    obtain t where "trashOf D t" "\<forall>q. q \<noteq> t \<longrightarrow> b q = a q" using q by (cases x) auto
    then show "?R a r c" using carry r by blast
  qed (simp add: specStage_def)
  show ?thesis
    unfolding StageDeleteTree_def
  proof (rule refines_bindR_dep [OF found, where ?R2.0 = "\<lambda>_. ?R"])
    fix path a b assume "b = a \<and> (\<forall>p. Inr path = Inr p \<longrightarrow> p = ?V)"
    then have path: "path = ?V" by auto
    show "refines (storeOk s) objects (bindR (osStat path) (\<lambda>_.
       bindR (osCreateTemp (butlast path) (''.trash-'' @ last path @ ''-'') []) (\<lambda>(marker, trash).
       bindR (onErr (osClose marker) (ignore (osRemove trash))) (\<lambda>_. bindR (osRemove trash) (\<lambda>_.
       bindR (osRename path trash) (\<lambda>_. State_Monad.return (Inr \<lparr>sdPath = path, sdTrash = trash\<rparr>))))))) ?R"
      unfolding path butlast_snoc last_snoc by (rule refines_bindR [OF stat create]) (auto simp: specStage_def)
  qed (auto simp: specStage_def)
qed


section \<open>Deletion of a version\<close>

text \<open>
  A deletion keeps all objects of the version or none, and none if the index lost it; it changes no other
  object of the registry.
\<close>

definition deleteOutcome :: "path \<Rightarrow> string \<Rightarrow> objs \<Rightarrow> response \<Rightarrow> objs \<Rightarrow> bool" where
  "deleteOutcome D v a resp b \<longleftrightarrow>
     (let V = D @ [v]; I = D @ [''index.json'']; here = (\<forall>p. prefix V p \<longrightarrow> b p = a p); gone = (\<forall>p. prefix V p \<longrightarrow> b p = None);
          removed = (goodFile (a I) \<longrightarrow> (\<exists>old. indexAt (a I) = Some old \<and> indexAt (b I) = Some (removedFrom v old))) in
      (\<forall>p. \<not> inTrash D p \<and> \<not> prefix V p \<and> p \<noteq> I \<longrightarrow> b p = a p) \<and>
      status resp \<in> {200, 404, 500} \<and>
      (status resp = 200 \<longrightarrow> gone \<and> removed) \<and>
      (status resp = 404 \<longrightarrow> here \<and> b I = a I) \<and>
      (status resp = 500 \<longrightarrow> (here \<or> gone) \<and> b I = a I \<or> gone \<and> removed))"

text \<open>What follows the staging, from the objects \<open>b\<close> with the version in \<open>T\<close>.\<close>

definition deleteRest :: "path \<Rightarrow> string \<Rightarrow> path \<Rightarrow> objs \<Rightarrow> response \<Rightarrow> objs \<Rightarrow> bool" where
  "deleteRest D v T b resp c \<longleftrightarrow>
     (let V = D @ [v]; I = D @ [''index.json'']; still = (\<forall>p. prefix V p \<longrightarrow> c p = b p);
          removed = (goodFile (b I) \<longrightarrow> (\<exists>old. indexAt (b I) = Some old \<and> indexAt (c I) = Some (removedFrom v old))) in
      (\<forall>p. \<not> inTrash D p \<and> \<not> prefix V p \<and> p \<noteq> I \<longrightarrow> c p = b p) \<and> status resp \<in> {200, 500} \<and>
      (status resp = 200 \<longrightarrow> still \<and> removed) \<and>
      (status resp = 500 \<longrightarrow> (still \<or> (\<forall>x. c (V @ x) = b (T @ x))) \<and> c I = b I \<or> still \<and> removed))"

lemma index_visible:
  assumes "v \<noteq> ''index.json''"
  shows "\<not> inTrash D (D @ [''index.json''])" "\<not> prefix (D @ [v]) (D @ [''index.json''])"
  using assms by (auto simp: inTrash_def trashOf_def hasPrefix_def prefix_def)

lemma delete_stage_rest:
  assumes v: "v \<noteq> ''index.json''" "\<not> hasPrefix v ''.trash-''"
    and st: "specStage D v a (Inr sd) b" and rest: "deleteRest D v (sdTrash sd) b resp c"
  shows "deleteOutcome D v a resp c"
proof -
  define V I where "V = D @ [v]" and "I = D @ [''index.json'']"
  note vi = V_def [symmetric] I_def [symmetric]
  have T: "trashOf D (sdTrash sd)" and inT: "\<And>x. b (sdTrash sd @ x) = a (V @ x)"
    and out: "\<And>p. \<not> inTrash D p \<Longrightarrow> b p = (if prefix V p then None else a p)" using st by (simp_all add: specStage_def V_def)
  have gone: "b p = None" if "prefix V p" for p using out [of p] trash_apart(4) [OF T v(2)] that by (auto simp: prefix_def V_def)
  have I: "b I = a I" using out [of I] index_visible [OF v(1), of D] unfolding vi by simp
  have restored: "\<forall>p. prefix V p \<longrightarrow> c p = a p" if "\<forall>x. c (V @ x) = b (sdTrash sd @ x)"
    using that inT by (auto simp: prefix_def)
  have still: "\<forall>p. prefix V p \<longrightarrow> c p = None" if "\<forall>p. prefix V p \<longrightarrow> c p = b p" using that gone by simp
  note parts = rest [unfolded deleteRest_def Let_def vi I]
  have other: "\<forall>p. \<not> inTrash D p \<and> \<not> prefix V p \<and> p \<noteq> I \<longrightarrow> c p = a p" using parts out by auto
  show ?thesis
    unfolding deleteOutcome_def Let_def vi
  proof (intro conjI other impI)
    show "status resp \<in> {200, 404, 500}" using parts by blast
    assume "status resp = 200"
    then show "\<forall>p. prefix V p \<longrightarrow> c p = None" using parts still by blast
  next
    assume "status resp = 200" "goodFile (a I)"
    then show "\<exists>old. indexAt (a I) = Some old \<and> indexAt (c I) = Some (removedFrom v old)" using parts by blast
  next
    assume "status resp = 500"
    then show "((\<forall>p. prefix V p \<longrightarrow> c p = a p) \<or> (\<forall>p. prefix V p \<longrightarrow> c p = None)) \<and> c I = a I \<or>
      (\<forall>p. prefix V p \<longrightarrow> c p = None) \<and> (goodFile (a I) \<longrightarrow> (\<exists>old. indexAt (a I) = Some old \<and> indexAt (c I) = Some (removedFrom v old)))"
      using parts still restored by blast
  qed (use parts in auto)
qed

lemma delete_not_staged:
  assumes v: "v \<noteq> ''index.json''" "\<not> hasPrefix v ''.trash-''"
    and same: "\<forall>p. \<not> inTrash D p \<longrightarrow> b p = a p" and resp: "status resp = 404"
  shows "deleteOutcome D v a resp b"
proof -
  have "\<not> inTrash D p" if "prefix (D @ [v]) p" for p using that v(2) by (auto simp: inTrash_def trashOf_def prefix_def)
  then show ?thesis
    using same resp index_visible(1) [OF v(1), of D] unfolding deleteOutcome_def Let_def by auto
qed

lemma rest_undone:
  assumes v: "v \<noteq> ''index.json''" and T: "trashOf D T" and c: "c = b \<or> c = moved T (D @ [v]) b" and resp: "status resp = 500"
  shows "deleteRest D v T b resp c"
proof -
  let ?V = "D @ [v]" and ?I = "D @ [''index.json'']"
  have out: "c p = b p" if "\<not> inTrash D p" "\<not> prefix ?V p" for p
    using c that T by (auto simp: moved_def inTrash_def)
  have "(\<forall>p. prefix ?V p \<longrightarrow> c p = b p) \<or> (\<forall>x. c (?V @ x) = b (T @ x))" using c by (auto simp: moved_def)
  then show ?thesis
    using out out [OF index_visible [OF v]] resp unfolding deleteRest_def Let_def by auto
qed

lemma rest_done:
  assumes v: "v \<noteq> ''index.json''" "\<not> hasPrefix v ''.trash-''" and T: "trashOf D T"
    and ix: "specIndex (D @ [''index.json'']) (removedFrom v) b (Inr u) b1" and c: "\<forall>q. \<not> prefix T q \<longrightarrow> c q = b1 q"
    and resp: "status resp \<in> {200, 500}"
  shows "deleteRest D v T b resp c"
proof -
  let ?V = "D @ [v]" and ?I = "D @ [''index.json'']"
  have b1: "b1 p = b p" if "p \<noteq> ?I" for p using ix that unfolding specIndex_def by (metis fun_upd_other)
  have cI: "c ?I = b1 ?I" using c index_visible(1) [OF v(1)] T by (auto simp: inTrash_def)
  have still: "c p = b p" if "prefix ?V p" for p
  proof -
    have "p \<noteq> ?I" using index_visible(2) [OF v(1), of D] that by blast
    then show ?thesis using c trash_apart(3) [OF T v(2) that] b1 [of p] by simp
  qed
  have out: "c p = b p" if "\<not> inTrash D p" "p \<noteq> ?I" for p using c b1 [OF that(2)] that(1) T by (auto simp: inTrash_def)
  have "goodFile (b ?I) \<longrightarrow> (\<exists>old. indexAt (b ?I) = Some old \<and> indexAt (c ?I) = Some (removedFrom v old))"
    using ix unfolding specIndex_def cI by auto
  then show ?thesis using still out resp unfolding deleteRest_def Let_def by blast
qed

lemma refines_deleteVersion:
  assumes D: "list_all properComp D" "prefix (basePath (store g)) D" and v: "properComp v" "\<not> hasPrefix v ''.trash-''" "\<not> hasPrefix v ''.tmp-''"
    "v \<noteq> ''index.json''"
    and key: "basePath (store g) @ cleanComps (trimSuffix prfx ''/'') = D @ [v]"
    and remove: "refines (storeOk (store g)) objects removeFromIndex (specIndex (D @ [''index.json'']) (removedFrom v))"
  shows "refines (storeOk (store g)) objects (deleteVersion g prfx removeFromIndex msg) (deleteOutcome D v)"
proof -
  let ?s = "store g" and ?V = "D @ [v]" and ?I = "D @ [''index.json'']"
  have V: "below ?s ?V" using D v by (auto simp: below_def tempName_def prefix_def)
  have rest: "refines (storeOk ?s) objects
     (do { ix \<leftarrow> removeFromIndex;
           case ix of
             Inl _ \<Rightarrow> do { ignore (osRename T ?V); State_Monad.return (failed 500 ''Index update failed'') }
           | Inr _ \<Rightarrow> do { c \<leftarrow> osRemoveAll T; State_Monad.return (case c of Inl _ \<Rightarrow> failed 500 ''Delete cleanup failed'' | Inr _ \<Rightarrow> succeeded msg) } })
     (deleteRest D v T)" if T: "trashOf D T" for T
  proof -
    note b = trash_below [OF T D] and ap = trash_apart(1,2) [OF T v(2)]
    have undo: "refines (storeOk ?s) objects (ignore (osRename T ?V)) (\<lambda>a _ b. b = a \<or> b = moved T ?V a)"
      by (rule refines_ignore, rule refines_post [OF refines_rename [OF b V ap]]) (auto simp: specRename_def)
    show ?thesis
      apply (rule refines_start, rule sofar_bind [OF remove], rule sofar_case_sum)
       apply (rule sofar_bind [OF undo], rule sofar_return)
      subgoal by (rule rest_undone [OF v(4) T]) (auto simp: specIndex_def)
      apply (rule sofar_bind [OF refines_removeAll [OF b]], rule sofar_return)
      subgoal by (elim exE conjE, hypsubst, rule rest_done [OF v(4,2) T], assumption+) (simp split: sum.split)
      done
  qed
  show ?thesis
    unfolding deleteVersion_def rollbackDelete_def commitDelete_def
  proof (rule refines_bind_dep [OF refines_stage [OF D v(1-3) key], where ?R2.0 = "\<lambda>x a r b. case x of Inl _ \<Rightarrow> b = a \<and> status r = 404 | Inr sd \<Rightarrow> deleteRest D v (sdTrash sd) a r b"])
    show "deleteOutcome D v a r c" if "specStage D v a x b" "case x of Inl _ \<Rightarrow> c = b \<and> status r = 404 | Inr sd \<Rightarrow> deleteRest D v (sdTrash sd) b r c" for a x b r c
    proof (cases x)
      case (Inl e)
      then show ?thesis using that delete_not_staged [OF v(4,2)] by (auto simp: specStage_def)
    next
      case (Inr sd)
      then show ?thesis using that delete_stage_rest [OF v(4,2)] by simp
    qed
    show "refines (storeOk ?s) objects (case x of Inl _ \<Rightarrow> State_Monad.return (failed 404 ''Version not found'')
          | Inr staged \<Rightarrow>
              do { ix \<leftarrow> removeFromIndex;
                   case ix of
                     Inl _ \<Rightarrow> do { ignore (osRename (sdTrash staged) (sdPath staged));
                                  State_Monad.return (failed 500 ''Index update failed'') }
                   | Inr _ \<Rightarrow>
                       do { c \<leftarrow> osRemoveAll (sdTrash staged);
                            State_Monad.return
                              (case c of
                                 Inl _ \<Rightarrow> failed 500 ''Delete cleanup failed''
                               | Inr _ \<Rightarrow> succeeded msg) } })
        (\<lambda>a r b. case x of Inl _ \<Rightarrow> b = a \<and> status r = 404 | Inr sd \<Rightarrow> deleteRest D v (sdTrash sd) a r b)"
      if "specStage D v a x b" for x a b
      using that rest by (cases x) (auto simp: specStage_def intro: refines_return)
  qed
qed

section \<open>The handlers\<close>

lemma version_name:
  assumes "validVersion v"
  shows "properComp v" "\<not> hasPrefix v ''.trash-''" "\<not> hasPrefix v ''.tmp-''" "v \<noteq> ''index.json''"
proof -
  show p: "properComp v" using assms by (rule validVersion_proper)
  have "v \<noteq> []" using p by (simp add: properComp_def)
  moreover have "hd v \<noteq> CHR ''.''" "hd v \<noteq> CHR ''i''" using validVersion_text(3) [OF assms] by (auto simp: isDigit_def less_eq_char_def)
  ultimately show "\<not> hasPrefix v ''.trash-''" "\<not> hasPrefix v ''.tmp-''" "v \<noteq> ''index.json''"
    by (cases v; simp add: hasPrefix_def)+
qed

lemma trim_version: "CHR ''/'' \<notin> set v \<Longrightarrow> v \<noteq> [] \<Longrightarrow> trimSuffix (k @ v) ''/'' = k @ v"
proof -
  assume v: "CHR ''/'' \<notin> set v" "v \<noteq> []"
  have "drop (length (k @ v) - 1) (k @ v) = [last v]" using v(2) by (cases v rule: rev_cases) auto
  moreover have "last v \<noteq> CHR ''/''" using v last_in_set by metis
  ultimately show ?thesis by (auto simp: trimSuffix_def hasSuffix_def)
qed

lemma serialized_refines:
  assumes "refines ok obs m R" "ok (fs w)" "mutationMu \<notin> set (held w)"
  shows "\<exists>resp w'. run_state (serialized m) w = (Inr resp, w') \<and> ok (fs w') \<and> R (obs (fs w)) resp (obs (fs w'))"
proof -
  obtain resp w' where run: "run_state (serialized m) w = (Inr resp, w')" using serialized_returns [OF assms(3)] by blast
  obtain w1 w2 where "fs w1 = fs w" "run_state m w1 = (resp, w2)" "fs w2 = fs w'" using serialized_run [OF run] by blast
  then show ?thesis using refinesD [OF assms(1), of w1 resp w2] assms(2) run by auto
qed

text \<open>
  C3. Deleting a module version is all or nothing, whatever calls fail and wherever the machine stops.  Afterwards
  either every object of the version is as before or none is left, and when the index no longer lists the
  version none is left.  200 means that the version is gone and the index holds the other versions, 404 that
  nothing changed.  No other object of the registry changes in any case.
\<close>

theorem deleteModuleVersion_transactional:
  assumes names: "moduleNames (var r ''namespace'') (var r ''name'') (var r ''provider'') (var r ''version'')"
    and root: "rootOk (store g)" and ok: "storeOk (store g) (fs w)" and free: "mutationMu \<notin> set (held w)"
  shows "\<exists>resp w'. run_state (deleteModuleVersionHandler g r) w = (Inr resp, w') \<and> storeOk (store g) (fs w') \<and>
    deleteOutcome (moduleDir (store g) (var r ''namespace'') (var r ''name'') (var r ''provider'')) (var r ''version'')
      (objects (fs w)) resp (objects (fs w'))"
proof -
  let ?ns = "var r ''namespace''" and ?n = "var r ''name''" and ?p = "var r ''provider''" and ?v = "var r ''version''"
  let ?cs = "[''modules'', ?ns, ?n, ?p, ?v]"
  have v: "validVersion ?v" using names by (simp add: moduleNames_def)
  note vn = version_name [OF v]
  have pc: "list_all properComp ?cs" using moduleNames_proper [OF names] .
  have D: "list_all properComp (moduleDir (store g) ?ns ?n ?p)" "prefix (basePath (store g)) (moduleDir (store g) ?ns ?n ?p)"
    using pc root by (simp_all add: moduleDir_def rootOk_def)
  have "trimSuffix (moduleVersionPrefix ?ns ?n ?p ?v) ''/'' = joinWith ''/'' ?cs"
    using trim_version [of ?v "''modules/'' @ ?ns @ ''/'' @ ?n @ ''/'' @ ?p @ ''/''"] vn(1)
    by (simp add: moduleVersionPrefix_def properComp_def)
  then have key: "basePath (store g) @ cleanComps (trimSuffix (moduleVersionPrefix ?ns ?n ?p ?v) ''/'') = moduleDir (store g) ?ns ?n ?p @ [?v]"
    using cleanComps_join [OF pc] by (simp add: moduleDir_def)
  have idx: "objPath (store g) (moduleIndexKey ?ns ?n ?p) = moduleDir (store g) ?ns ?n ?p @ [''index.json'']" "storeKey (store g) (moduleIndexKey ?ns ?n ?p)"
    using module_index [OF names] root dataKey_storeKey by auto
  note remove = refines_removeVersion [OF idx(2), of ?v, unfolded idx(1)]
  show ?thesis
    unfolding deleteModuleVersionHandler_def Let_def RemoveModuleVersion_def
    by (rule serialized_refines [OF refines_deleteVersion [OF D vn key remove] ok free])
qed

theorem deleteModuleVersion_transactional_witness:
  "storeOk demoStore (fs (demoWorld [] [Pass, Crash 0])) \<and>
   (\<exists>resp w'. run_state (deleteModuleVersionHandler demoPublisher demoUpload) (demoWorld [] [Pass, Crash 0]) = (Inr resp, w') \<and>
      deleteOutcome [''d'', ''modules'', ''acme'', ''net'', ''aws''] ''1.0.0'' (objects (fs (demoWorld [] [Pass, Crash 0]))) resp (objects (fs w')))"
proof -
  have "moduleDir (store demoPublisher) (var demoUpload ''namespace'') (var demoUpload ''name'') (var demoUpload ''provider'') =
      [''d'', ''modules'', ''acme'', ''net'', ''aws'']" "var demoUpload ''version'' = ''1.0.0''"
    by (simp_all add: moduleDir_def demoPublisher_def demoStore_def demoUpload_def lookupStr_def)
  then show ?thesis
    using deleteModuleVersion_transactional [OF demo_upload(1,2) demo_upload(3,4) [where fl = "[Pass, Crash 0]"]]
      demo_upload(3) [where fl = "[Pass, Crash 0]"] by (auto simp: demoPublisher_def)
qed

text \<open>
  C15. Deleting a provider version is all or nothing in the same way: its packages, platform metadata, checksum and
  signature files stay together or go together, and they are gone when the index no longer lists the version.
\<close>

theorem deleteProviderVersion_transactional:
  assumes names: "providerNames (var r ''namespace'') (var r ''name'') (var r ''version'')"
    and root: "rootOk (store g)" and ok: "storeOk (store g) (fs w)" and free: "mutationMu \<notin> set (held w)"
  shows "\<exists>resp w'. run_state (deleteProviderVersionHandler g r) w = (Inr resp, w') \<and> storeOk (store g) (fs w') \<and>
    deleteOutcome (providerDir (store g) (var r ''namespace'') (var r ''name'')) (var r ''version'')
      (objects (fs w)) resp (objects (fs w'))"
proof -
  let ?ns = "var r ''namespace''" and ?n = "var r ''name''" and ?v = "var r ''version''"
  let ?cs = "[''providers'', ?ns, ?n, ?v]" and ?k = "''providers/'' @ ?ns @ ''/'' @ ?n @ ''/'' @ ?v"
  have v: "validVersion ?v" using names by (simp add: providerNames_def)
  note vn = version_name [OF v]
  have pc: "list_all properComp ?cs" using providerNames_proper [OF names] .
  have D: "list_all properComp (providerDir (store g) ?ns ?n)" "prefix (basePath (store g)) (providerDir (store g) ?ns ?n)"
    using pc root by (simp_all add: providerDir_def rootOk_def)
  have "trimSuffix ?k ''/'' = joinWith ''/'' ?cs"
    using trim_version [of ?v "''providers/'' @ ?ns @ ''/'' @ ?n @ ''/''"] vn(1) by (simp add: properComp_def)
  then have key: "basePath (store g) @ cleanComps (trimSuffix ?k ''/'') = providerDir (store g) ?ns ?n @ [?v]"
    using cleanComps_join [OF pc] by (simp add: providerDir_def)
  have idx: "objPath (store g) (providerIndexKey ?ns ?n) = providerDir (store g) ?ns ?n @ [''index.json'']" "storeKey (store g) (providerIndexKey ?ns ?n)"
    using provider_index [OF names] root dataKey_storeKey by auto
  note remove = refines_removeVersion [OF idx(2), of ?v, unfolded idx(1)]
  show ?thesis
    unfolding deleteProviderVersionHandler_def Let_def RemoveProviderVersion_def
    by (rule serialized_refines [OF refines_deleteVersion [OF D vn key remove] ok free])
qed

theorem deleteProviderVersion_transactional_witness:
  "storeOk demoStore (fs (demoWorld [] [Pass, Crash 0])) \<and>
   (\<exists>resp w'. run_state (deleteProviderVersionHandler demoPublisher demoUpload) (demoWorld [] [Pass, Crash 0]) = (Inr resp, w') \<and>
      deleteOutcome [''d'', ''providers'', ''acme'', ''net''] ''1.0.0'' (objects (fs (demoWorld [] [Pass, Crash 0]))) resp (objects (fs w')))"
proof -
  have n: "providerNames (var demoUpload ''namespace'') (var demoUpload ''name'') (var demoUpload ''version'')"
    using demo_upload(1) by (simp add: providerNames_def moduleNames_def)
  have "providerDir (store demoPublisher) (var demoUpload ''namespace'') (var demoUpload ''name'') =
      [''d'', ''providers'', ''acme'', ''net'']" "var demoUpload ''version'' = ''1.0.0''"
    by (simp_all add: providerDir_def demoPublisher_def demoStore_def demoUpload_def lookupStr_def)
  then show ?thesis
    using deleteProviderVersion_transactional [OF n demo_upload(2) demo_upload(3,4) [where fl = "[Pass, Crash 0]"]]
      demo_upload(3) [where fl = "[Pass, Crash 0]"] by (auto simp: demoPublisher_def)
qed

end
