(* ===== verification/Collect.thy ===== *)
theory Collect
  imports StoreOps
begin

text \<open>Garbage collection: what it removes and what it leaves.\<close>

text \<open>Every file system has proper names only: no empty name, no separator, neither \<^verbatim>\<open>.\<close> nor \<^verbatim>\<open>..\<close>.\<close>

definition namesOk :: "fsys \<Rightarrow> bool" where
  "namesOk f \<longleftrightarrow> list_all (\<lambda>(p, _). list_all properComp p) f"

text \<open>The files that a collection at the time \<open>now\<close> is for.\<close>

definition stale :: "Store \<Rightarrow> int \<Rightarrow> fsys \<Rightarrow> path \<Rightarrow> bool" where
  "stale s now f p \<longleftrightarrow> prefix (basePath s) p \<and> tempName p \<and>
     (\<exists>d sy t. fsGet f p = Some (File d sy t) \<and> t < now - hourNanos)"

definition due :: "path \<Rightarrow> int \<Rightarrow> (path \<times> FileInfo) list \<Rightarrow> path set" where
  "due base cutoff es = {base @ r | r i. (r, i) \<in> set es \<and> \<not> isDirectory i \<and> hasPrefix (last (base @ r)) ''.tmp-'' \<and> modTime i < cutoff}"

lemma due_simps [simp]:
  "due base cutoff [] = {}"
  "due base cutoff ((r, i) # es) =
     (if \<not> isDirectory i \<and> hasPrefix (last (base @ r)) ''.tmp-'' \<and> modTime i < cutoff then insert (base @ r) (due base cutoff es)
      else due base cutoff es)"
  by (auto simp: due_def)

lemma finite_due [simp]: "finite (due base cutoff es)"
  by (induction es) auto

text \<open>The walk over entries that are where the walk saw them.\<close>

definition entriesOk :: "path \<Rightarrow> fsys \<Rightarrow> (path \<times> FileInfo) list \<Rightarrow> bool" where
  "entriesOk base f es \<longleftrightarrow> distinct (map fst es) \<and>
     (\<forall>(r, i) \<in> set es. list_all properComp (base @ r) \<and> (\<exists>n. fsGet f (base @ r) = Some n \<and> i = nodeInfo n))"

definition collected :: "path set \<Rightarrow> fsys \<Rightarrow> nat \<Rightarrow> error option \<Rightarrow> fsys \<Rightarrow> bool" where
  "collected S f n err f' \<longleftrightarrow> (\<forall>p. fsGet f' p = fsGet f p \<or> p \<in> S \<and> fsGet f' p = None) \<and>
     (err = None \<longrightarrow> (\<forall>p \<in> S. fsGet f' p = None) \<and> n = card S)"

lemma collect_law:
  assumes "plain base f0" "fsTree f0" "entriesOk base f0 es"
  shows "triple (\<lambda>f. f = f0) (collect base cutoff k es) (\<lambda>(n, err) f. k \<le> n \<and> collected (due base cutoff es) f0 (n - k) err f)"
  using assms
proof (induction es arbitrary: k f0)
  case Nil
  then show ?case by (auto simp: triple_def collected_def)
next
  case (Cons e es)
  obtain r i where e: "e = (r, i)" by (cases e)
  let ?p = "base @ r"
  have es: "entriesOk base f0 es" using Cons.prems(3) by (auto simp: entriesOk_def)
  have pr: "list_all properComp ?p" "r \<notin> fst ` set es" and ex: "\<exists>n. fsGet f0 ?p = Some n \<and> i = nodeInfo n"
    using Cons.prems(3) e by (auto simp: entriesOk_def)
  have link: "noLinkTo f0 (butlast ?p)" by (rule noLinkTo_butlast, rule plain_noLinkTo [OF Cons.prems(1)]) simp
  show ?case
  proof (cases "\<not> isDirectory i \<and> hasPrefix (last ?p) ''.tmp-'' \<and> modTime i < cutoff")
    case False
    then have "collect base cutoff k (e # es) = collect base cutoff k es" by (auto simp: e Let_def)
    moreover have "due base cutoff (e # es) = due base cutoff es" using False unfolding e due_simps by (rule if_not_P)
    ultimately show ?thesis using Cons.IH [OF Cons.prems(1,2) es] by simp
  next
    case True
    have "?p \<noteq> []" using ex True by (auto simp: fsGet_def)
    then have ok: "list_all properComp ?p" "?p \<noteq> []" "r \<notin> fst ` set es" using pr by simp_all
    have new: "?p \<notin> due base cutoff es" using ok(3) by (auto simp: due_def image_iff)
    have isF: "fsGet f0 ?p \<noteq> Some Dir" "fsGet f0 ?p \<noteq> None" using ex True by auto
    let ?f1 = "fsDel ?p f0"
    have f1: "plain base ?f1" "fsTree ?f1"
      using plain_del [OF Cons.prems(1) ok(2)] fsTree_del [OF Cons.prems(2), of ?p] no_children [OF Cons.prems(2) isF(1)] by auto
    have "fsGet ?f1 (base @ r') = fsGet f0 (base @ r')" if "(r', i') \<in> set es" for r' i'
    proof -
      have "r' \<noteq> r" using that ok(3) by force
      then show ?thesis using fsGet_fsDel [OF ok(2)] by simp
    qed
    then have es1: "entriesOk base ?f1 es" using es unfolding entriesOk_def by fastforce
    have ih: "triple (\<lambda>f. f = ?f1) (collect base cutoff (k + 1) es)
        (\<lambda>(n, err) f. k + 1 \<le> n \<and> collected (due base cutoff es) ?f1 (n - (k + 1)) err f)"
      by (rule Cons.IH [OF f1 es1])
    have step: "triple (\<lambda>f. f = f0) (osRemove ?p) (\<lambda>res f. (\<forall>e. res = Inl e \<longrightarrow> f = f0 \<and> \<not> isNotExist e) \<and> (res = Inr () \<longrightarrow> f = ?f1))"
      by (rule triple_post [OF triple_remove [OF ok(1,2) link]])
         (use isF place_missing [OF _ Cons.prems(2) ok(1) link] in \<open>auto simp: isNotExist_def\<close>)
    have out: "collected (due base cutoff (e # es)) f0 (n - k) err f" if "k + 1 \<le> n" "collected (due base cutoff es) ?f1 (n - (k + 1)) err f" for n err f
      using that True new ok(2) by (auto simp: e collected_def fsGet_fsDel split: if_splits)
    show ?thesis
      unfolding e collect.simps Let_def if_P [OF True]
    proof (rule triple_bind [OF step])
      fix res :: "unit result"
      show "triple (\<lambda>f. (\<forall>e. res = Inl e \<longrightarrow> f = f0 \<and> \<not> isNotExist e) \<and> (res = Inr () \<longrightarrow> f = ?f1))
          (case res of
             Inl err \<Rightarrow> if \<not> isNotExist err then State_Monad.return (k, Some err) else collect base cutoff (k + 1) es
           | Inr _ \<Rightarrow> collect base cutoff (k + 1) es)
          (\<lambda>(n, err) f. k \<le> n \<and> collected (due base cutoff ((r, i) # es)) f0 (n - k) err f)"
      proof (cases res)
        case (Inl err)
        then show ?thesis by (auto simp: triple_def collected_def)
      next
        case (Inr u)
        have "triple (\<lambda>f. f = ?f1) (collect base cutoff (k + 1) es)
            (\<lambda>(n, err) f. k \<le> n \<and> collected (due base cutoff ((r, i) # es)) f0 (n - k) err f)"
          by (rule triple_post [OF ih]) (use out [unfolded e] in \<open>auto split: prod.splits\<close>)
        then show ?thesis using Inr by simp
      qed
    qed
  qed
qed

lemma namesOk_get: "namesOk f \<Longrightarrow> fsGet f p = Some n \<Longrightarrow> list_all properComp p"
  by (auto simp: namesOk_def fsGet_def list_all_iff split: if_splits dest!: map_of_SomeD)

text \<open>The names below a directory, relative to it.\<close>

definition namesBelow :: "fsys \<Rightarrow> path \<Rightarrow> path list" where
  "namesBelow f q = sort (remdups (map (drop (length q)) (filter (\<lambda>k. strict_prefix q k) (map fst f))))"

lemma namesBelow_iff: "r \<in> set (namesBelow f q) \<longleftrightarrow> r \<noteq> [] \<and> fsGet f (q @ r) \<noteq> None"
proof -
  have "r \<in> set (namesBelow f q) \<longleftrightarrow> (\<exists>k. k \<in> fst ` set f \<and> strict_prefix q k \<and> r = drop (length q) k)"
    unfolding namesBelow_def set_sort set_remdups set_map set_filter by blast
  also have "\<dots> \<longleftrightarrow> (\<exists>k. k \<in> fst ` set f \<and> k = q @ r \<and> r \<noteq> [])"
    by (intro ex_cong1) (auto simp: strict_prefix_def prefix_def)
  also have "\<dots> \<longleftrightarrow> r \<noteq> [] \<and> q @ r \<in> fst ` set f" by (metis (no_types))
  also have "\<dots> \<longleftrightarrow> r \<noteq> [] \<and> fsGet f (q @ r) \<noteq> None"
    using map_of_eq_None_iff [of f "q @ r"] by (auto simp: fsGet_def)
  finally show ?thesis .
qed

lemma walkEntries_dir:
  "fsGet f q = Some Dir \<Longrightarrow> walkEntries f q = ([], nodeInfo Dir) #
     map (\<lambda>r. (r, case fsGet f (q @ r) of Some n \<Rightarrow> nodeInfo n | None \<Rightarrow> nodeInfo Dir)) (namesBelow f q)"
  by (simp add: walkEntries_def namesBelow_def)

lemma walkEntries_other:
  "fsGet f q = None \<Longrightarrow> walkEntries f q = []" "fsGet f q = Some n \<Longrightarrow> n \<noteq> Dir \<Longrightarrow> walkEntries f q = [([], nodeInfo n)]"
  by (cases n; simp add: walkEntries_def)+

lemma walk_cases:
  obtains "fsGet f q = Some Dir" | "fsGet f q = None" | n where "fsGet f q = Some n" "n \<noteq> Dir"
  by (cases "fsGet f q") auto

lemma walk_entries:
  "(r, i) \<in> set (walkEntries f q) \<Longrightarrow> \<exists>n. fsGet f (q @ r) = Some n \<and> i = nodeInfo n"
  "fsTree f \<Longrightarrow> fsGet f (q @ r) = Some n \<Longrightarrow> (r, nodeInfo n) \<in> set (walkEntries f q)"
  "distinct (map fst (walkEntries f q))"
proof -
  show "(r, i) \<in> set (walkEntries f q) \<Longrightarrow> \<exists>n. fsGet f (q @ r) = Some n \<and> i = nodeInfo n"
    by (cases rule: walk_cases [of f q])
       (auto simp: walkEntries_dir walkEntries_other image_iff namesBelow_iff)
  show "(r, nodeInfo n) \<in> set (walkEntries f q)" if t: "fsTree f" "fsGet f (q @ r) = Some n"
  proof (cases "r = []")
    case True
    then show ?thesis using t(2) by (cases "n = Dir") (simp_all add: walkEntries_dir walkEntries_other)
  next
    case False
    have "fsGet f q = Some Dir" using fsTree_strict [OF t(1), of "q @ r" q] t(2) False by (simp add: strict_prefix_def)
    moreover have "r \<in> set (namesBelow f q)" using False t(2) by (simp add: namesBelow_iff)
    ultimately show ?thesis using t(2) by (auto simp: walkEntries_dir image_iff)
  qed
  have "distinct (namesBelow f q)" "[] \<notin> set (namesBelow f q)" by (simp_all add: namesBelow_iff) (simp add: namesBelow_def)
  then show "distinct (map fst (walkEntries f q))"
    by (cases rule: walk_cases [of f q]) (simp_all add: walkEntries_dir walkEntries_other comp_def)
qed

lemma due_stale:
  assumes "plain (basePath s) f" "fsTree f"
  shows "due (basePath s) (now - hourNanos) (walkEntries f (basePath s)) = {p. stale s now f p}"
proof (intro equalityI subsetI CollectI)
  fix p assume "p \<in> due (basePath s) (now - hourNanos) (walkEntries f (basePath s))"
  then obtain r i where p: "p = basePath s @ r" and e: "(r, i) \<in> set (walkEntries f (basePath s))" "\<not> isDirectory i"
    "hasPrefix (last p) ''.tmp-''" "modTime i < now - hourNanos" by (auto simp: due_def)
  obtain n where n: "fsGet f p = Some n" "i = nodeInfo n" using walk_entries(1) [OF e(1)] p by auto
  have "n \<noteq> Link t m" for t m using assms(1) n(1) p unfolding plain_def by (metis prefixI)
  then obtain d sy t where "n = File d sy t" using e(2) n(2) by (cases n) auto
  moreover have "p \<noteq> []" using n e(2) by (auto simp: fsGet_def)
  ultimately show "stale s now f p" using p e n by (auto simp: stale_def tempName_def)
next
  fix p assume "p \<in> {p. stale s now f p}"
  then obtain r d sy t where p: "p = basePath s @ r" "tempName p" "fsGet f p = Some (File d sy t)" "t < now - hourNanos"
    by (auto simp: stale_def prefix_def)
  then show "p \<in> due (basePath s) (now - hourNanos) (walkEntries f (basePath s))"
    using walk_entries(2) [OF assms(2), of "basePath s" r "File d sy t"] by (force simp: due_def tempName_def)
qed

text \<open>
  C16. Garbage collection removes exactly the abandoned temporary files.  Whatever fails on the way, the only entries
  that can disappear are regular files below the storage root whose name starts with \<^verbatim>\<open>.tmp-\<close> and whose last
  modification is more than an hour ago; so no published object, no metadata and no upload of the last hour
  is touched.  When no error is reported all of them are gone, and the reported number is how many there were.
\<close>

theorem GarbageCollect_exact:
  assumes ok: "storeOk s (fs w)" and names: "namesOk (fs w)" and root: "list_all properComp (basePath s)"
    and run: "run_state (GarbageCollect s) w = ((n, err), w')"
  shows "(\<forall>p. fsGet (fs w') p = fsGet (fs w) p \<or> stale s (clock w) (fs w) p \<and> fsGet (fs w') p = None) \<and>
    (err = None \<longrightarrow> (\<forall>p. stale s (clock w) (fs w) p \<longrightarrow> fsGet (fs w') p = None) \<and> n = card {p. stale s (clock w) (fs w) p})"
proof -
  have pl: "plain (basePath s) (fs w)" and tr: "fsTree (fs w)" using ok by (auto simp: storeOk_def)
  obtain r w1 where walk: "run_state (osWalk (basePath s)) w = (r, w1)" by (rule prod.exhaust)
  have f1: "fs w1 = fs w" using readOnlyD [OF readOnly_calls(9) walk] .
  show ?thesis
  proof (cases r)
    case (Inl e)
    then show ?thesis using run walk f1 by (auto simp: GarbageCollect_def timeNow_def)
  next
    case (Inr es)
    have q: "place (fs w) (basePath s) = Inr q \<Longrightarrow> q = basePath s" for q
      using place_plain [OF root] noLinkTo_butlast [OF plain_noLinkTo [OF pl]] by auto
    have es: "es = walkEntries (fs w) (basePath s)"
      using walk Inr q by (auto simp: osWalk_def query_def syscall_def split: list.splits fault.splits sum.splits if_splits)
    have eo: "entriesOk (basePath s) (fs w) es"
    proof -
      have "list_all properComp (basePath s @ r') \<and> (\<exists>n. fsGet (fs w) (basePath s @ r') = Some n \<and> i = nodeInfo n)"
        if "(r', i) \<in> set es" for r' i
        using walk_entries(1) that namesOk_get [OF names] unfolding es by blast
      then show ?thesis using walk_entries(3) [of "fs w" "basePath s"] unfolding entriesOk_def es by blast
    qed
    have c: "run_state (collect (basePath s) (clock w - hourNanos) 0 es) w1 = ((n, err), w')"
      using run walk Inr by (simp add: GarbageCollect_def timeNow_def)
    have "collected {p. stale s (clock w) (fs w) p} (fs w) n err (fs w')"
      using tripleD [OF collect_law [OF pl tr eo] f1 c] by (simp add: es due_stale [OF pl tr])
    then show ?thesis by (auto simp: collected_def)
  qed
qed

definition oldWorld :: world where
  "oldWorld = (demoWorld [([''d'', ''.tmp-x''], File ''a'' False 0), ([''d'', ''x''], File ''b'' True 0)] [])
     \<lparr>clock := 3600000000001\<rparr>"

lemma old_walk: "walkEntries (fs oldWorld) [''d''] =
    [([], nodeInfo Dir), ([''.tmp-x''], nodeInfo (File ''a'' False 0)), ([''x''], nodeInfo (File ''b'' True 0))]"
  by code_simp

lemma old_collected: "\<exists>w'. run_state (GarbageCollect demoStore) oldWorld = ((1, None), w')"
proof -
  have "run_state (osWalk [''d'']) oldWorld = (Inr (walkEntries (fs oldWorld) [''d'']), oldWorld)"
    by (simp add: os_eval oldWorld_def demoWorld_def)
  then show ?thesis unfolding old_walk
    by (simp add: GarbageCollect_def demoStore_def) (simp add: os_eval oldWorld_def demoWorld_def hourNanos_def)
qed

theorem GarbageCollect_exact_witness:
  "\<exists>w'. run_state (GarbageCollect demoStore) oldWorld = ((1, None), w') \<and>
     fsGet (fs w') [''d'', ''.tmp-x''] = None \<and> fsGet (fs w') [''d'', ''x''] = Some (File ''b'' True 0)"
proof -
  obtain w' where run: "run_state (GarbageCollect demoStore) oldWorld = ((1, None), w')" using old_collected by blast
  have ok: "storeOk demoStore (fs oldWorld)" using demo_files [where fl = "[]"] by (simp add: oldWorld_def)
  have names: "namesOk (fs oldWorld)" "list_all properComp (basePath demoStore)"
    by (simp_all add: oldWorld_def demoWorld_def demoStore_def namesOk_def properComp_def)
  have st: "stale demoStore (clock oldWorld) (fs oldWorld) [''d'', ''.tmp-x'']" "\<not> stale demoStore (clock oldWorld) (fs oldWorld) [''d'', ''x'']"
    by (auto simp: stale_def oldWorld_def demoWorld_def demoStore_def tempName_def hasPrefix_def fsGet_def hourNanos_def)
  have "fsGet (fs oldWorld) [''d'', ''x''] = Some (File ''b'' True 0)" by (simp add: fsGet_def oldWorld_def demoWorld_def)
  then show ?thesis using GarbageCollect_exact [OF ok names run] run st by metis
qed

end
