(* ===== verification/Cli.thy ===== *)
theory Cli
  imports Http Auth
begin

text \<open>
  The ground of the command line client \<^verbatim>\<open>cmd/tfreg\<close>: what a run of the program sees and changes, the request
  helpers over \<^verbatim>\<open>http.Client\<close>, and the option parser \<^verbatim>\<open>flagSet\<close> of \<^verbatim>\<open>main.go\<close>.
\<close>

section \<open>A run of the client\<close>

text \<open>
  A request the client sends.  An upload has one form field with a file name and the bytes of the file, which end
  in an error when the file cannot be read to its end.
\<close>

record clientRequest =
  crMethod :: string
  crURL :: string
  crHeader :: "(string \<times> string) list"
  crFile :: "(string \<times> string \<times> stream) option"

record clientResponse =
  crStatus :: nat
  crRespHeader :: "(string \<times> string) list"
  crBody :: stream

text \<open>
  What surrounds the process: its environment in the form of \<^verbatim>\<open>os.Environ\<close>, the working directory, the answers of
  the network (which may depend on the requests sent before), the error of \<^verbatim>\<open>http.NewRequest\<close> for a URL that
  does not parse, the boundary that \<^verbatim>\<open>multipart.NewWriter\<close> draws, and the text of system errors.
\<close>

record setting =
  environ :: "string list"
  workDir :: path
  transport :: "clientRequest list \<Rightarrow> clientRequest \<Rightarrow> clientResponse result"
  urlError :: "string \<Rightarrow> error option"
  boundary :: string
  osText :: "error \<Rightarrow> string"

text \<open>
  What the process changes: the file system, the output, and the requests sent.  Output is kept as the format with
  its arguments.  The last field is the state of the OCI registry, of whatever type the library's model has.
\<close>

type_synonym printed = "string \<times> string list"

record 'r client =
  disk :: world
  stdin :: stream
  stdout :: "printed list"
  stderr :: "printed list"
  sent :: "clientRequest list"
  remote :: 'r

type_synonym ('r, 'a) cli = "('r client, 'a) state"

definition onDisk :: "'a io \<Rightarrow> ('r, 'a) cli" where
  "onDisk m = State (\<lambda>c. case run_state m (disk c) of (r, w) \<Rightarrow> (r, c\<lparr>disk := w\<rparr>))"

definition nl :: string where "nl = [CHR 0x0A]"

definition Printf :: "string \<Rightarrow> string list \<Rightarrow> ('r, unit) cli" where
  "Printf fmt args = State (\<lambda>c. ((), c\<lparr>stdout := stdout c @ [(fmt, args)]\<rparr>))"

definition Eprintf :: "string \<Rightarrow> string list \<Rightarrow> ('r, unit) cli" where
  "Eprintf fmt args = State (\<lambda>c. ((), c\<lparr>stderr := stderr c @ [(fmt, args)]\<rparr>))"

text \<open>\<^verbatim>\<open>fmt.Println\<close> and \<^verbatim>\<open>fmt.Fprintln(os.Stderr, ...)\<close> of one string.\<close>

definition Println :: "string \<Rightarrow> ('r, unit) cli" where
  "Println s = Printf (''%s'' @ nl) [s]"

definition Eprintln :: "string \<Rightarrow> ('r, unit) cli" where
  "Eprintln s = Eprintf (''%s'' @ nl) [s]"

text \<open>
  A step that may leave: with an error that the caller handles, or with the exit status of \<^verbatim>\<open>os.Exit\<close>, after which
  nothing runs.  Both are the left summand.
\<close>

definition bindC :: "('r, 'e + 'a) cli \<Rightarrow> ('a \<Rightarrow> ('r, 'e + 'b) cli) \<Rightarrow> ('r, 'e + 'b) cli" where
  "bindC m k = do { r \<leftarrow> m; case r of Inl e \<Rightarrow> State_Monad.return (Inl e) | Inr x \<Rightarrow> k x }"

definition exitWith :: "nat \<Rightarrow> ('r, nat + 'a) cli" where
  "exitWith code = State_Monad.return (Inl code)"

text \<open>The error of a call wrapped by \<^verbatim>\<open>fmt.Errorf\<close>, and its text in a message.\<close>

definition wrapC :: "string \<Rightarrow> string list \<Rightarrow> ('r, 'a result) cli \<Rightarrow> ('r, 'a result) cli" where
  "wrapC fmt args m = do { r \<leftarrow> m; State_Monad.return (map_sum (Wrapf fmt args) id r) }"

abbreviation errText :: "setting \<Rightarrow> error \<Rightarrow> string" where
  "errText st e \<equiv> errorString (osText st) e"

text \<open>\<^verbatim>\<open>fmt.Fprintf(os.Stderr, format, err); os.Exit(1)\<close>\<close>

definition orDie :: "setting \<Rightarrow> string \<Rightarrow> ('r, 'a result) cli \<Rightarrow> ('r, nat + 'a) cli" where
  "orDie st fmt m =
     do { r \<leftarrow> m;
          case r of
            Inl e \<Rightarrow> do { Eprintf fmt [errText st e]; exitWith 1 }
          | Inr x \<Rightarrow> State_Monad.return (Inr x) }"

text \<open>\<^verbatim>\<open>fatalf\<close> of \<^verbatim>\<open>publish.go\<close>.\<close>

definition fatalf :: "string \<Rightarrow> string list \<Rightarrow> ('r, nat + 'a) cli" where
  "fatalf fmt args = do { Eprintf (fmt @ nl) args; exitWith 1 }"

section \<open>The environment\<close>

definition getenv :: "setting \<Rightarrow> string \<Rightarrow> string" where
  "getenv st key = lookupEnv (environ st) key"

definition envOr :: "setting \<Rightarrow> string \<Rightarrow> string \<Rightarrow> string" where
  "envOr st key defaultVal = (let v = getenv st key in if v \<noteq> [] then v else defaultVal)"

section \<open>Options\<close>

text \<open>
  A flag owns the variable that the code points to: its current value is part of the flag.
\<close>

record flag =
  flagName :: string
  flagValue :: string
  flagDef :: string
  flagDesc :: string

record boolFlag =
  boolName :: string
  boolValue :: bool
  boolDef :: bool
  boolDesc :: string

record flagSet =
  setName :: string
  flags :: "flag list"
  boolFlags :: "boolFlag list"
  restArgs :: "string list"

definition newFlagSet :: "string \<Rightarrow> flagSet" where
  "newFlagSet name = \<lparr>setName = name, flags = [], boolFlags = [], restArgs = []\<rparr>"

definition StringVar :: "string \<Rightarrow> string \<Rightarrow> string \<Rightarrow> flagSet \<Rightarrow> flagSet" where
  "StringVar name def desc s =
     s\<lparr>flags := flags s @ [\<lparr>flagName = name, flagValue = def, flagDef = def, flagDesc = desc\<rparr>]\<rparr>"

definition StringFlag :: "string \<Rightarrow> string \<Rightarrow> string \<Rightarrow> flagSet \<Rightarrow> flagSet" where
  "StringFlag name def desc s =
     s\<lparr>flags := flags s @ [\<lparr>flagName = name, flagValue = def, flagDef = def, flagDesc = desc\<rparr>]\<rparr>"

definition BoolVar :: "string \<Rightarrow> bool \<Rightarrow> string \<Rightarrow> flagSet \<Rightarrow> flagSet" where
  "BoolVar name def desc s =
     s\<lparr>boolFlags := boolFlags s @ [\<lparr>boolName = name, boolValue = def, boolDef = def, boolDesc = desc\<rparr>]\<rparr>"

definition BoolFlag :: "string \<Rightarrow> bool \<Rightarrow> string \<Rightarrow> flagSet \<Rightarrow> flagSet" where
  "BoolFlag name def desc s = BoolVar name def desc s"

text \<open>The variable behind a flag, read after parsing.\<close>

definition stringOf :: "flagSet \<Rightarrow> string \<Rightarrow> string" where
  "stringOf s name = (case find (\<lambda>f. flagName f = name) (flags s) of None \<Rightarrow> [] | Some f \<Rightarrow> flagValue f)"

definition boolOf :: "flagSet \<Rightarrow> string \<Rightarrow> bool" where
  "boolOf s name = (case find (\<lambda>f. boolName f = name) (boolFlags s) of None \<Rightarrow> False | Some f \<Rightarrow> boolValue f)"

text \<open>The assignment to the variable of the first flag of a name: the loop with its break.\<close>

fun assignFirst :: "('a \<Rightarrow> bool) \<Rightarrow> ('a \<Rightarrow> 'a) \<Rightarrow> 'a list \<Rightarrow> 'a list" where
  "assignFirst P f [] = []"
| "assignFirst P f (x # xs) = (if P x then f x # xs else x # assignFirst P f xs)"

definition setBool :: "string \<Rightarrow> flagSet \<Rightarrow> flagSet" where
  "setBool key s = s\<lparr>boolFlags := assignFirst (\<lambda>f. boolName f = key) (boolValue_update (\<lambda>_. True)) (boolFlags s)\<rparr>"

definition setString :: "string \<Rightarrow> string \<Rightarrow> flagSet \<Rightarrow> flagSet" where
  "setString key v s = s\<lparr>flags := assignFirst (\<lambda>f. flagName f = key) (flagValue_update (\<lambda>_. v)) (flags s)\<rparr>"

fun usageFlags :: "flag list \<Rightarrow> ('r, unit) cli" where
  "usageFlags [] = State_Monad.return ()"
| "usageFlags (f # fl) =
     do { Eprintf (''  --%-12s %s (default: %s)'' @ nl) [flagName f, flagDesc f, flagDef f]; usageFlags fl }"

fun usageBoolFlags :: "boolFlag list \<Rightarrow> ('r, unit) cli" where
  "usageBoolFlags [] = State_Monad.return ()"
| "usageBoolFlags (f # fl) =
     do { Eprintf (''  --%-12s %s (default: %t)'' @ nl)
            [boolName f, boolDesc f, if boolDef f then ''true'' else ''false''];
          usageBoolFlags fl }"

definition Usage :: "flagSet \<Rightarrow> ('r, unit) cli" where
  "Usage s =
     do { Eprintf (nl @ ''Usage: %s [options]'' @ nl @ nl @ ''Options:'' @ nl) [setName s];
          usageFlags (flags s);
          usageBoolFlags (boolFlags s);
          Eprintf nl [] }"

text \<open>The loop of \<^verbatim>\<open>Parse\<close>, with the arguments left over, in order; then what follows it.\<close>

fun parseLoop :: "flagSet \<Rightarrow> string list \<Rightarrow> string list \<Rightarrow> ('r, nat + flagSet) cli" where
  "parseLoop s remaining [] =
     (if remaining \<noteq> [] then
        do { Eprintf (''Error: unexpected argument %q'' @ nl) [hd remaining]; Usage s; exitWith 2 }
      else State_Monad.return (Inr (s\<lparr>restArgs := remaining\<rparr>)))"
| "parseLoop s remaining (arg # args) =
     (if hasPrefix arg ''--'' then
        let key = trimPrefix arg ''--'' in
        if key = ''help'' then do { Usage s; exitWith 0 }
        else
          let found = list_ex (\<lambda>f. boolName f = key) (boolFlags s);
              s1 = (if found then setBool key s else s) in
          if list_ex (\<lambda>f. flagName f = key) (flags s1) then
            (case args of
               [] \<Rightarrow> do { Eprintf (''Error: --%s requires a value'' @ nl) [key]; Usage s1; exitWith 2 }
             | v # args' \<Rightarrow>
                 if hasPrefix v ''--'' then
                   do { Eprintf (''Error: --%s requires a value'' @ nl) [key]; Usage s1; exitWith 2 }
                 else parseLoop (setString key v s1) remaining args')
          else if \<not> found then
            do { Eprintf (''Error: unknown option --%s'' @ nl) [key]; Usage s1; exitWith 2 }
          else parseLoop s1 remaining args
      else parseLoop s (remaining @ [arg]) args)"

definition Parse :: "flagSet \<Rightarrow> string list \<Rightarrow> ('r, nat + flagSet) cli" where
  "Parse s args = parseLoop s [] args"

end
