(* ===== verification/Flags.thy ===== *)
theory Flags
  imports Cli
begin

text \<open>
  The option parser against its grammar: a command line is a sequence of switches \<^verbatim>\<open>--name\<close> and assignments
  \<^verbatim>\<open>--name value\<close> with declared names, and the last assignment to a name counts.
\<close>

section \<open>The grammar of options\<close>

datatype cmdOption = Switch string | Assign string string

fun renderOption :: "cmdOption \<Rightarrow> string list" where
  "renderOption (Switch k) = [''--'' @ k]"
| "renderOption (Assign k v) = [''--'' @ k, v]"

fun optionKey :: "cmdOption \<Rightarrow> string" where
  "optionKey (Switch k) = k"
| "optionKey (Assign k v) = k"

definition takesValue :: "flagSet \<Rightarrow> string \<Rightarrow> bool" where
  "takesValue s k \<longleftrightarrow> k \<in> flagName ` set (flags s)"

definition isSwitch :: "flagSet \<Rightarrow> string \<Rightarrow> bool" where
  "isSwitch s k \<longleftrightarrow> k \<in> boolName ` set (boolFlags s)"

fun admissible :: "flagSet \<Rightarrow> cmdOption \<Rightarrow> bool" where
  "admissible s (Switch k) \<longleftrightarrow> k \<noteq> ''help'' \<and> isSwitch s k \<and> \<not> takesValue s k"
| "admissible s (Assign k v) \<longleftrightarrow> k \<noteq> ''help'' \<and> takesValue s k \<and> \<not> hasPrefix v ''--''"

text \<open>What the options given mean: the last value assigned to a name, and whether a switch is on.\<close>

fun lastGiven :: "string \<Rightarrow> cmdOption list \<Rightarrow> string \<Rightarrow> string" where
  "lastGiven n [] old = old"
| "lastGiven n (Switch k # opts) old = lastGiven n opts old"
| "lastGiven n (Assign k v # opts) old = lastGiven n opts (if k = n then v else old)"

section \<open>Assignments\<close>

definition applyOption :: "flagSet \<Rightarrow> cmdOption \<Rightarrow> flagSet" where
  "applyOption s opt =
     (let s1 = (if isSwitch s (optionKey opt) then setBool (optionKey opt) s else s) in
      case opt of Switch k \<Rightarrow> s1 | Assign k v \<Rightarrow> setString k v s1)"

text \<open>The names are declared once; parsing changes values only.\<close>

lemma assignFirst_map: "(\<And>x. g (f x) = g x) \<Longrightarrow> map g (assignFirst P f xs) = map g xs"
  by (induction xs) auto

lemma set_names [simp]:
  "map flagName (flags (setString k v s)) = map flagName (flags s)"
  "map boolName (boolFlags (setBool k s)) = map boolName (boolFlags s)"
  "boolFlags (setString k v s) = boolFlags s" "flags (setBool k s) = flags s"
  by (auto simp: setString_def setBool_def intro: assignFirst_map)

lemma declared_same [simp]:
  "takesValue (setString k v s) = takesValue s" "isSwitch (setString k v s) = isSwitch s"
  "takesValue (setBool k s) = takesValue s" "isSwitch (setBool k s) = isSwitch s"
  by (auto simp: takesValue_def isSwitch_def fun_eq_iff simp del: set_map simp flip: set_map)

lemma applyOption_declared [simp]:
  "takesValue (applyOption s opt) = takesValue s" "isSwitch (applyOption s opt) = isSwitch s"
  "admissible (applyOption s opt) = admissible s"
proof -
  show 1: "takesValue (applyOption s opt) = takesValue s" "isSwitch (applyOption s opt) = isSwitch s"
    by (auto simp: applyOption_def Let_def split: cmdOption.splits)
  show "admissible (applyOption s opt) = admissible s"
    by (rule ext) (rename_tac x, case_tac x; simp add: 1)
qed

lemma find_assignFirst_same:
  "list_ex P xs \<Longrightarrow> (\<And>x. P x \<Longrightarrow> P (f x)) \<Longrightarrow> find P (assignFirst P f xs) = map_option f (find P xs)"
  by (induction xs) auto

lemma find_assignFirst_other:
  "(\<And>x. P x \<Longrightarrow> \<not> Q x \<and> \<not> Q (f x)) \<Longrightarrow> find Q (assignFirst P f xs) = find Q xs"
  by (induction xs) auto

lemma find_declared: "list_ex P xs \<Longrightarrow> \<exists>x. find P xs = Some x"
  by (induction xs) auto

lemma stringOf_setString: "takesValue s k \<Longrightarrow> stringOf (setString k v s) n = (if n = k then v else stringOf s n)"
proof (cases "n = k")
  case True
  assume "takesValue s k"
  then have "list_ex (\<lambda>f. flagName f = k) (flags s)" by (auto simp: takesValue_def list_ex_iff)
  moreover from this obtain f where "find (\<lambda>f. flagName f = k) (flags s) = Some f" using find_declared by blast
  ultimately show ?thesis using True by (simp add: stringOf_def setString_def find_assignFirst_same)
next
  case False
  then show ?thesis by (simp add: stringOf_def setString_def find_assignFirst_other)
qed

lemma boolOf_setBool: "isSwitch s k \<Longrightarrow> boolOf (setBool k s) n = (n = k \<or> boolOf s n)"
proof (cases "n = k")
  case True
  assume "isSwitch s k"
  then have "list_ex (\<lambda>f. boolName f = k) (boolFlags s)" by (auto simp: isSwitch_def list_ex_iff)
  moreover from this obtain f where "find (\<lambda>f. boolName f = k) (boolFlags s) = Some f" using find_declared by blast
  ultimately show ?thesis using True by (simp add: boolOf_def setBool_def find_assignFirst_same)
next
  case False
  then show ?thesis by (simp add: boolOf_def setBool_def find_assignFirst_other)
qed

lemma unrelated [simp]:
  "stringOf (setBool k s) n = stringOf s n" "boolOf (setString k v s) n = boolOf s n"
  by (simp_all add: stringOf_def boolOf_def)

lemma apply_values:
  assumes "list_all (admissible s) opts"
  shows "stringOf (foldl applyOption s opts) n = lastGiven n opts (stringOf s n) \<and>
    (boolOf (foldl applyOption s opts) n \<longleftrightarrow> boolOf s n \<or> isSwitch s n \<and> n \<in> optionKey ` set opts)"
  using assms
proof (induction opts arbitrary: s)
  case (Cons opt opts)
  have step: "stringOf (applyOption s opt) n = lastGiven n [opt] (stringOf s n)"
    "boolOf (applyOption s opt) n \<longleftrightarrow> boolOf s n \<or> isSwitch s n \<and> n = optionKey opt"
    using Cons.prems by (cases opt; auto simp: applyOption_def Let_def stringOf_setString boolOf_setBool)+
  have adm: "list_all (admissible (applyOption s opt)) opts" using Cons.prems by simp
  show ?case using Cons.IH [OF adm] step by (cases opt) auto
qed simp

section \<open>The parser accepts exactly the grammar\<close>

lemma list_ex_declared [simp]:
  "list_ex (\<lambda>f. flagName f = k) (flags s) \<longleftrightarrow> takesValue s k"
  "list_ex (\<lambda>f. boolName f = k) (boolFlags s) \<longleftrightarrow> isSwitch s k"
  by (auto simp: takesValue_def isSwitch_def list_ex_iff)

lemma exit_left [simp]: "run_state (exitWith n) c = (Inl n, c)"
  by (simp add: exitWith_def)

lemma dashes [simp]:
  "hasPrefix (CHR ''-'' # CHR ''-'' # k) ''--''" "trimPrefix (CHR ''-'' # CHR ''-'' # k) ''--'' = k"
  by (simp_all add: hasPrefix_def trimPrefix_def)

lemma parseLoop_complete:
  fixes c :: "'r client"
  shows "list_all (admissible s) opts \<Longrightarrow>
     run_state (parseLoop s [] (concat (map renderOption opts))) c = (Inr ((foldl applyOption s opts)\<lparr>restArgs := []\<rparr>), c)"
proof (induction opts arbitrary: s)
  case (Cons opt opts)
  have adm: "admissible s opt" "list_all (admissible (applyOption s opt)) opts" using Cons.prems by simp_all
  have "(parseLoop s [] (renderOption opt @ concat (map renderOption opts)) :: ('r, nat + flagSet) cli) =
      parseLoop (applyOption s opt) [] (concat (map renderOption opts))"
    using adm(1) by (cases opt) (auto simp: applyOption_def Let_def)
  then show ?case using Cons.IH [OF adm(2)] by simp
qed simp

lemma parseLoop_leftover: "remaining \<noteq> [] \<Longrightarrow> run_state (parseLoop s remaining args) c \<noteq> (Inr s', c')"
proof (induction s remaining args arbitrary: c rule: parseLoop.induct)
  case (2 s remaining arg args)
  show ?case
    using 2 by (auto simp: Let_def exitWith_def split: list.splits prod.splits)
qed (auto simp: exitWith_def split: prod.splits)

lemma parseLoop_sound:
  "run_state (parseLoop s remaining args) c = (Inr s', c') \<Longrightarrow>
     c' = c \<and> (\<exists>opts. args = concat (map renderOption opts) \<and> list_all (admissible s) opts \<and>
       s' = (foldl applyOption s opts)\<lparr>restArgs := []\<rparr>)"
proof (induction s remaining args rule: parseLoop.induct)
  case (1 s remaining)
  then show ?case by (cases "remaining = []") (auto intro!: exI [of _ "[]"] split: prod.splits)
next
  case (2 s remaining arg args)
  show ?case
  proof (cases "hasPrefix arg ''--''")
    case False
    then have "run_state (parseLoop s (remaining @ [arg]) args) c = (Inr s', c')" using 2(4) by simp
    moreover have "run_state (parseLoop s (remaining @ [arg]) args) c \<noteq> (Inr s', c')"
      by (rule parseLoop_leftover) simp
    ultimately show ?thesis by contradiction
  next
    case True
    define k where "k = trimPrefix arg ''--''"
    have arg: "arg = ''--'' @ k" using True by (auto simp: k_def hasPrefix_iff_prefix prefix_def)
    have nh: "k \<noteq> ''help''" using 2(4) True by (auto simp: k_def [symmetric] split: prod.splits)
    define s1 where "s1 = (if isSwitch s k then setBool k s else s)"
    have decl: "takesValue s1 = takesValue s" "isSwitch s1 = isSwitch s" by (auto simp: s1_def)
    show ?thesis
    proof (cases "takesValue s k")
      case val: True
      obtain v args' where args: "args = v # args'" "\<not> hasPrefix v ''--''"
        using 2(4) True nh val decl
        by (cases args) (auto simp: k_def [symmetric] Let_def s1_def [symmetric] split: if_splits prod.splits)
      have run: "run_state (parseLoop (setString k v s1) remaining args') c = (Inr s', c')"
        using 2(4) True nh val decl args by (simp add: k_def [symmetric] Let_def s1_def [symmetric])
      have ap: "applyOption s (Assign k v) = setString k v s1" by (simp add: applyOption_def s1_def Let_def)
      have "c' = c \<and> (\<exists>opts. args' = concat (map renderOption opts) \<and> list_all (admissible (setString k v s1)) opts \<and>
         s' = (foldl applyOption (setString k v s1) opts)\<lparr>restArgs := []\<rparr>)"
        by (rule 2(1) [OF True k_def nh refl])
          (use val decl args run in \<open>simp_all add: s1_def [symmetric]\<close>)
      then obtain opts where o: "c' = c" "args' = concat (map renderOption opts)"
        "list_all (admissible s) opts" "s' = (foldl applyOption s (Assign k v # opts))\<lparr>restArgs := []\<rparr>"
        using ap applyOption_declared(3) [of s "Assign k v"] by auto
      then show ?thesis
        using args arg nh val by (intro conjI exI [of _ "Assign k v # opts"]) simp_all
    next
      case noval: False
      have sw: "isSwitch s k"
        using 2(4) True nh noval decl by (auto simp: k_def [symmetric] Let_def s1_def [symmetric] split: if_splits prod.splits)
      have run: "run_state (parseLoop s1 remaining args) c = (Inr s', c')"
        using 2(4) True nh noval decl sw by (simp add: k_def [symmetric] Let_def s1_def)
      have ap: "applyOption s (Switch k) = s1" by (simp add: applyOption_def s1_def Let_def)
      have "c' = c \<and> (\<exists>opts. args = concat (map renderOption opts) \<and> list_all (admissible s1) opts \<and>
         s' = (foldl applyOption s1 opts)\<lparr>restArgs := []\<rparr>)"
        by (rule 2(2) [OF True k_def nh refl])
          (use noval decl sw run in \<open>simp_all add: s1_def\<close>)
      then obtain opts where o: "c' = c" "args = concat (map renderOption opts)"
        "list_all (admissible s) opts" "s' = (foldl applyOption s (Switch k # opts))\<lparr>restArgs := []\<rparr>"
        using ap applyOption_declared(3) [of s "Switch k"] by auto
      then show ?thesis
        using arg nh noval sw by (intro conjI exI [of _ "Switch k # opts"]) simp_all
    qed
  qed
qed

text \<open>
  C35.  The option parser of the client accepts exactly the command lines of its grammar.  \<^verbatim>\<open>Parse\<close> returns (rather
  than printing the usage and ending the process) exactly when the arguments are a sequence of declared switches
  \<^verbatim>\<open>--name\<close> and of declared options \<^verbatim>\<open>--name value\<close> whose value does not itself start with two dashes, with no other
  argument anywhere and no \<^verbatim>\<open>--help\<close>.  Then nothing has been printed, every string variable holds the last value
  given for it or its default, and a boolean variable is on exactly when it was on or its switch occurs.
\<close>

theorem Parse_grammar:
  "run_state (Parse s args) c = (Inr s', c') \<longleftrightarrow>
     c' = c \<and>
     (\<exists>opts. args = concat (map renderOption opts) \<and> list_all (admissible s) opts \<and>
        s' = (foldl applyOption s opts)\<lparr>restArgs := []\<rparr> \<and>
        (\<forall>n. stringOf s' n = lastGiven n opts (stringOf s n)) \<and>
        (\<forall>n. boolOf s' n \<longleftrightarrow> boolOf s n \<or> isSwitch s n \<and> n \<in> optionKey ` set opts))"
proof
  assume run: "run_state (Parse s args) c = (Inr s', c')"
  obtain opts where o: "c' = c" "args = concat (map renderOption opts)" "list_all (admissible s) opts"
    "s' = (foldl applyOption s opts)\<lparr>restArgs := []\<rparr>"
    using parseLoop_sound run unfolding Parse_def by blast
  have "stringOf s' n = lastGiven n opts (stringOf s n)"
    "boolOf s' n \<longleftrightarrow> boolOf s n \<or> isSwitch s n \<and> n \<in> optionKey ` set opts" for n
    using apply_values [OF o(3), of n] o(4) by (simp_all add: stringOf_def boolOf_def)
  then show "c' = c \<and> (\<exists>opts. args = concat (map renderOption opts) \<and> list_all (admissible s) opts \<and>
        s' = (foldl applyOption s opts)\<lparr>restArgs := []\<rparr> \<and> (\<forall>n. stringOf s' n = lastGiven n opts (stringOf s n)) \<and>
        (\<forall>n. boolOf s' n \<longleftrightarrow> boolOf s n \<or> isSwitch s n \<and> n \<in> optionKey ` set opts))"
    using o by blast
qed (auto simp: Parse_def parseLoop_complete)

end
