(* ===== verification/Client.thy ===== *)
theory Client
  imports Flags
begin

text \<open>
  The commands of \<^verbatim>\<open>cmd/tfreg/main.go\<close> that talk to a registry: push, pull, list and delete, with the helpers for
  uploads, downloads and responses.
\<close>

section \<open>Paths and files\<close>

text \<open>\<^verbatim>\<open>filepath.Dir\<close> and \<^verbatim>\<open>filepath.Join\<close> of two elements.\<close>

definition filepathDir :: "string \<Rightarrow> string" where
  "filepathDir p = pathClean (rev (dropWhile (\<lambda>c. c \<noteq> CHR ''/'') (rev p)))"

definition filepathJoin :: "string \<Rightarrow> string \<Rightarrow> string" where
  "filepathJoin a b =
     (if a \<noteq> [] then pathClean (a @ ''/'' @ b) else if b \<noteq> [] then pathClean b else [])"

text \<open>Reading a whole file through a handle: a failed call may have delivered a part of it.\<close>

definition handleContent :: "world \<Rightarrow> path \<Rightarrow> stream" where
  "handleContent w h =
     (case fsGet (fs w) h of
        Some (File d _ _) \<Rightarrow> \<lparr>sData = d, sErr = None\<rparr>
      | _ \<Rightarrow> \<lparr>sData = [], sErr = Some ErrIsDir\<rparr>)"

definition readHandle :: "path \<Rightarrow> stream io" where
  "readHandle h = State (\<lambda>w.
     if crashed w then (\<lparr>sData = [], sErr = Some ErrCrashed\<rparr>, w)
     else case faults w of
            [] \<Rightarrow> (handleContent w h, w)
          | Pass # fls \<Rightarrow> (handleContent w h, w\<lparr>faults := fls\<rparr>)
          | Fail k # fls \<Rightarrow> (\<lparr>sData = take k (sData (handleContent w h)), sErr = Some ErrIO\<rparr>, w\<lparr>faults := fls\<rparr>)
          | Crash k # fls \<Rightarrow> (\<lparr>sData = [], sErr = Some ErrCrashed\<rparr>, w\<lparr>faults := fls, crashed := True\<rparr>))"

text \<open>\<^verbatim>\<open>io.ReadAll\<close>, also of a limited reader.\<close>

definition readAll :: "stream \<Rightarrow> bytes result" where
  "readAll r = (case sErr r of None \<Rightarrow> Inr (sData r) | Some e \<Rightarrow> Inl e)"

definition readAllLimited :: "stream \<Rightarrow> int \<Rightarrow> bytes result" where
  "readAllLimited r limit =
     (case copyLimited r limit of (data, None) \<Rightarrow> Inr data | (_, Some e) \<Rightarrow> Inl e)"

text \<open>\<^verbatim>\<open>os.Rename\<close> to a name that ends in a dot or two names a directory, which it refuses to replace.\<close>

definition renameTo :: "path \<Rightarrow> path \<Rightarrow> unit result io" where
  "renameTo src dst =
     (if dst = [] \<or> last dst = ''.'' \<or> last dst = ''..'' then query (\<lambda>_. Inl ErrExist) else osRename src dst)"

section \<open>Requests\<close>

definition newRequest ::
  "setting \<Rightarrow> string \<Rightarrow> string \<Rightarrow> (string \<times> string \<times> stream) option \<Rightarrow> clientRequest result" where
  "newRequest st meth url payload =
     (case urlError st url of
        Some e \<Rightarrow> Inl e
      | None \<Rightarrow> Inr \<lparr>crMethod = meth, crURL = url, crHeader = [], crFile = payload\<rparr>)"

definition setRequestHeader :: "string \<Rightarrow> string \<Rightarrow> clientRequest \<Rightarrow> clientRequest" where
  "setRequestHeader k v req = req\<lparr>crHeader := setHeader k v (crHeader req)\<rparr>"

text \<open>\<^verbatim>\<open>httpClient.Do\<close> and \<^verbatim>\<open>httpClient.Get\<close>; a process that has ended sends nothing.\<close>

definition httpDo :: "setting \<Rightarrow> clientRequest \<Rightarrow> ('r, clientResponse result) cli" where
  "httpDo st req = State (\<lambda>c.
     if crashed (disk c) then (Inl ErrCrashed, c)
     else (transport st (sent c) req, c\<lparr>sent := sent c @ [req]\<rparr>))"

definition httpGet :: "setting \<Rightarrow> string \<Rightarrow> ('r, clientResponse result) cli" where
  "httpGet st url = bindC (State_Monad.return (newRequest st ''GET'' url None)) (httpDo st)"

definition responseHeader :: "clientResponse \<Rightarrow> string \<Rightarrow> string" where
  "responseHeader resp k = lookupStr (crRespHeader resp) k"

text \<open>
  \<^verbatim>\<open>uploadFile\<close>: the file is copied into the request while it is sent, and a read error ends the request body with
  that error.  When the URL does not parse the pipe is closed before anything is read.
\<close>

definition uploadFile :: "setting \<Rightarrow> string \<Rightarrow> string \<Rightarrow> string \<Rightarrow> ('r, clientResponse result) cli" where
  "uploadFile st url filePath apiKey =
     bindC (wrapC ''cannot open file: %w'' [] (onDisk (osOpen (osPath (workDir st) filePath)))) (\<lambda>h.
     case newRequest st ''POST'' url None of
       Inl e \<Rightarrow> do { onDisk (ignore (osClose h)); State_Monad.return (Inl e) }
     | Inr req \<Rightarrow>
         do { data \<leftarrow> onDisk (readHandle h);
              onDisk (ignore (osClose h));
              let req1 = setRequestHeader ''Content-Type'' (''multipart/form-data; boundary='' @ boundary st)
                           (req\<lparr>crFile := Some (''file'', pathBase filePath, data)\<rparr>);
                  req2 = (if apiKey \<noteq> [] then setRequestHeader ''X-API-Key'' apiKey req1 else req1)
              in httpDo st req2 })"

text \<open>\<^verbatim>\<open>uploadArtifact\<close> of \<^verbatim>\<open>publish.go\<close>, which \<^verbatim>\<open>publish\<close> and \<^verbatim>\<open>import\<close> share.\<close>

definition uploadArtifact :: "setting \<Rightarrow> string \<Rightarrow> string \<Rightarrow> string \<Rightarrow> ('r, unit result) cli" where
  "uploadArtifact st url path apiKey =
     bindC (wrapC ''upload artifact: %w'' [] (uploadFile st url path apiKey)) (\<lambda>resp.
     bindC (wrapC ''read upload response: %w'' []
              (State_Monad.return (readAllLimited (crBody resp) (2 ^ 20)))) (\<lambda>body.
     if crStatus resp < 200 \<or> crStatus resp \<ge> 300 then
       State_Monad.return (Inl (Errorf ''registry returned HTTP %d: %s'' [showNat (crStatus resp), trimSpace body]))
     else State_Monad.return (Inr ())))"

text \<open>
  \<^verbatim>\<open>printResponse\<close>.  The body is decoded into a map of interfaces: anything but an object or null is an error, and
  of several members with one name the last counts (a number beyond the range of \<^verbatim>\<open>float64\<close>, also an error in
  Go, does not occur in the registry's answers).  The marks are those of the source in UTF-8.
\<close>

definition okMark :: string where "okMark = [CHR 0xE2, CHR 0x9C, CHR 0x93]"
definition failMark :: string where "failMark = [CHR 0xE2, CHR 0x9C, CHR 0x97]"

definition decodeObject :: "bytes \<Rightarrow> (string \<times> json) list option" where
  "decodeObject data =
     (case unmarshal data of Some (JObj kvs) \<Rightarrow> Some (rev kvs) | Some JNull \<Rightarrow> Some [] | _ \<Rightarrow> None)"

definition printResponse :: "clientResponse \<Rightarrow> ('r, nat + unit) cli" where
  "printResponse resp =
     (let body = sData (crBody resp) in
      if crStatus resp < 200 \<or> crStatus resp \<ge> 300 then
        do { Eprintf (''Error (%d): %s'' @ nl) [showNat (crStatus resp), trimSpace body]; exitWith 1 }
      else case decodeObject body of
        None \<Rightarrow> do { Println body; State_Monad.return (Inr ()) }
      | Some result \<Rightarrow>
          (case map_of result ''message'' of
             Some (JStr msg) \<Rightarrow>
               if map_of result ''success'' = Some (JBool True) then
                 do { Printf (okMark @ '' %s'' @ nl) [msg]; State_Monad.return (Inr ()) }
               else do { Eprintf (failMark @ '' %s'' @ nl) [msg]; exitWith 1 }
           | _ \<Rightarrow> do { Println body; State_Monad.return (Inr ()) }))"

section \<open>Downloads\<close>

text \<open>
  \<^verbatim>\<open>strings.EqualFold\<close> of the hexadecimal digest, which is ASCII, with another string: \<open>foldName\<close> maps exactly the
  code points that fold to an ASCII letter.
\<close>

definition equalFold :: "string \<Rightarrow> string \<Rightarrow> bool" where
  "equalFold a b \<longleftrightarrow> foldName a = foldName b"

text \<open>\<^verbatim>\<open>io.Copy\<close> from the response into the file: what was read is written before a read error is reported.\<close>

definition copyAll :: "path \<Rightarrow> stream \<Rightarrow> bytes result io" where
  "copyAll f r =
     bindR (osWrite f (sData r)) (\<lambda>_.
     State_Monad.return (case sErr r of Some e \<Rightarrow> Inl e | None \<Rightarrow> Inr (sData r)))"

definition checkSum :: "string \<Rightarrow> bytes \<Rightarrow> unit result" where
  "checkSum expectedSHA256 data =
     (if expectedSHA256 \<noteq> [] then
        let actual = sha256Hex data in
        if \<not> equalFold actual expectedSHA256
        then Inl (Errorf ''SHA256 mismatch: expected %s, got %s'' [expectedSHA256, actual])
        else Inr ()
      else Inr ())"

text \<open>\<^verbatim>\<open>downloadFileWithChecksum\<close> after the status check, with its deferred clean-up, and the whole of it.\<close>

definition saveDownload :: "path \<Rightarrow> path \<Rightarrow> string \<Rightarrow> stream \<Rightarrow> unit result io" where
  "saveDownload dir dest expectedSHA256 body =
     bindR (osMkdirAll dir) (\<lambda>_.
     bindR (osCreateTemp dir ''.tfreg-download-'' []) (\<lambda>(f, tmp).
     do { res \<leftarrow>
            bindR (copyAll f body) (\<lambda>data.
            bindR (State_Monad.return (checkSum expectedSHA256 data)) (\<lambda>_.
            bindR (osSync f) (\<lambda>_.
            bindR (osClose f) (\<lambda>_.
            renameTo tmp dest))));
          ignore (osClose f);
          (case res of Inl _ \<Rightarrow> ignore (osRemove tmp) | Inr _ \<Rightarrow> State_Monad.return ());
          State_Monad.return res }))"

definition downloadFileWithChecksum ::
  "setting \<Rightarrow> string \<Rightarrow> string \<Rightarrow> string \<Rightarrow> ('r, unit result) cli" where
  "downloadFileWithChecksum st url destPath expectedSHA256 =
     bindC (httpGet st url) (\<lambda>resp.
     if crStatus resp \<noteq> 200 then State_Monad.return (Inl (Errorf ''HTTP %d'' [showNat (crStatus resp)]))
     else onDisk (saveDownload (osPath (workDir st) (filepathDir destPath)) (osPath (workDir st) destPath)
                    expectedSHA256 (crBody resp)))"

definition downloadFile :: "setting \<Rightarrow> string \<Rightarrow> string \<Rightarrow> ('r, unit result) cli" where
  "downloadFile st url destPath = downloadFileWithChecksum st url destPath []"

definition downloadFileVerified :: "setting \<Rightarrow> string \<Rightarrow> string \<Rightarrow> string \<Rightarrow> ('r, unit result) cli" where
  "downloadFileVerified st url destPath expectedSHA256 =
     (if length expectedSHA256 \<noteq> 64 then
        State_Monad.return (Inl (Errorf ''invalid expected SHA256 checksum'' []))
      else downloadFileWithChecksum st url destPath expectedSHA256)"

section \<open>Push and delete\<close>

definition withFlags :: "string \<Rightarrow> (flagSet \<Rightarrow> flagSet) list \<Rightarrow> flagSet" where
  "withFlags name decls = foldl (\<lambda>s decl. decl s) (newFlagSet name) decls"

abbreviation registryFlag :: "setting \<Rightarrow> flagSet \<Rightarrow> flagSet" where
  "registryFlag st \<equiv>
     StringFlag ''registry'' (envOr st ''TFREG_REGISTRY'' ''http://localhost:8080'') ''Registry URL''"

abbreviation apiKeyFlag :: "setting \<Rightarrow> flagSet \<Rightarrow> flagSet" where
  "apiKeyFlag st \<equiv> StringFlag ''api-key'' (envOr st ''TFREG_API_KEY'' []) ''API key''"

text \<open>The guard of a command: a message, the usage where the code prints it, and status 1.\<close>

definition missing :: "string \<Rightarrow> flagSet option \<Rightarrow> ('r, nat + 'a) cli" where
  "missing msg usage =
     do { Eprintln msg;
          (case usage of None \<Rightarrow> State_Monad.return () | Some s \<Rightarrow> Usage s);
          exitWith 1 }"

definition pushProvider :: "setting \<Rightarrow> string list \<Rightarrow> ('r, nat + unit) cli" where
  "pushProvider st args =
     bindC (Parse (withFlags ''tfreg push provider''
        [registryFlag st, apiKeyFlag st,
         StringFlag ''namespace'' [] ''Provider namespace (e.g., hashicorp)'',
         StringFlag ''name'' [] ''Provider name (e.g., aws)'',
         StringFlag ''version'' [] ''Provider version (e.g., 6.31.0)'',
         StringFlag ''file'' [] ''Path to provider ZIP file'',
         StringFlag ''os'' ''linux'' ''Operating system'',
         StringFlag ''arch'' ''amd64'' ''Architecture'']) args) (\<lambda>fl.
     let namespace = stringOf fl ''namespace''; name = stringOf fl ''name''; ver = stringOf fl ''version'';
         fil = stringOf fl ''file''; osName = stringOf fl ''os''; arch = stringOf fl ''arch'' in
     if namespace = [] \<or> name = [] \<or> ver = [] \<or> fil = [] then
       missing ''Error: --namespace, --name, --version, and --file are required'' (Some fl)
     else
       let url = stringOf fl ''registry'' @ ''/api/v1/providers/'' @ namespace @ ''/'' @ name @ ''/'' @ ver @ ''/'' @
                 osName @ ''/'' @ arch in
       do { Printf (''Pushing provider %s/%s@%s (%s/%s)...'' @ nl) [namespace, name, ver, osName, arch];
            bindC (orDie st (''Error: %v'' @ nl) (uploadFile st url fil (stringOf fl ''api-key''))) printResponse })"

definition pushModule :: "setting \<Rightarrow> string list \<Rightarrow> ('r, nat + unit) cli" where
  "pushModule st args =
     bindC (Parse (withFlags ''tfreg push module''
        [registryFlag st, apiKeyFlag st,
         StringFlag ''namespace'' [] ''Module namespace'',
         StringFlag ''name'' [] ''Module name'',
         StringFlag ''provider'' [] ''Provider name'',
         StringFlag ''version'' [] ''Module version'',
         StringFlag ''file'' [] ''Path to module tarball (.tar.gz)'']) args) (\<lambda>fl.
     let namespace = stringOf fl ''namespace''; name = stringOf fl ''name''; provider = stringOf fl ''provider'';
         ver = stringOf fl ''version''; fil = stringOf fl ''file'' in
     if namespace = [] \<or> name = [] \<or> provider = [] \<or> ver = [] \<or> fil = [] then
       missing ''Error: --namespace, --name, --provider, --version, and --file are required'' (Some fl)
     else
       let url = stringOf fl ''registry'' @ ''/api/v1/modules/'' @ namespace @ ''/'' @ name @ ''/'' @ provider @ ''/'' @
                 ver in
       do { Printf (''Pushing module %s/%s/%s@%s...'' @ nl) [namespace, name, provider, ver];
            bindC (orDie st (''Error: %v'' @ nl) (uploadFile st url fil (stringOf fl ''api-key''))) printResponse })"

text \<open>The dispatch that \<^verbatim>\<open>handlePush\<close>, \<^verbatim>\<open>handlePull\<close>, \<^verbatim>\<open>handleBundle\<close> and \<^verbatim>\<open>handleDelete\<close> have in common.\<close>

definition byKind ::
  "string \<Rightarrow> string \<Rightarrow> (string list \<Rightarrow> ('r, nat + unit) cli) \<Rightarrow> (string list \<Rightarrow> ('r, nat + unit) cli) \<Rightarrow>
     string list \<Rightarrow> ('r, nat + unit) cli" where
  "byKind usage unknown provider module args =
     (case args of
        [] \<Rightarrow> do { Eprintln usage; exitWith 1 }
      | kind # rest \<Rightarrow>
          if kind = ''provider'' then provider rest
          else if kind = ''module'' then module rest
          else do { Eprintf (unknown @ nl) [kind]; exitWith 1 })"

definition handlePush :: "setting \<Rightarrow> string list \<Rightarrow> ('r, nat + unit) cli" where
  "handlePush st args =
     byKind ''Usage: tfreg push <provider|module> [options]''
       ''Unknown type: %s (use 'provider' or 'module')'' (pushProvider st) (pushModule st) args"

text \<open>The request that both delete commands send.\<close>

definition sendDelete :: "setting \<Rightarrow> string \<Rightarrow> string \<Rightarrow> ('r, nat + unit) cli" where
  "sendDelete st url apiKey =
     bindC (orDie st (''Error: invalid registry URL: %v'' @ nl)
              (State_Monad.return (newRequest st ''DELETE'' url None))) (\<lambda>req.
     let req1 = (if apiKey \<noteq> [] then setRequestHeader ''X-API-Key'' apiKey req else req) in
     bindC (orDie st (''Error: %v'' @ nl) (httpDo st req1)) printResponse)"

definition deleteProvider :: "setting \<Rightarrow> string list \<Rightarrow> ('r, nat + unit) cli" where
  "deleteProvider st args =
     bindC (Parse (withFlags ''tfreg delete provider''
        [registryFlag st, apiKeyFlag st,
         StringFlag ''namespace'' [] ''Provider namespace'',
         StringFlag ''name'' [] ''Provider name'',
         StringFlag ''version'' [] ''Provider version'']) args) (\<lambda>fl.
     let namespace = stringOf fl ''namespace''; name = stringOf fl ''name''; ver = stringOf fl ''version'' in
     if namespace = [] \<or> name = [] \<or> ver = [] then
       missing ''Error: --namespace, --name, and --version are required'' None
     else
       let url = stringOf fl ''registry'' @ ''/api/v1/providers/'' @ namespace @ ''/'' @ name @ ''/'' @ ver in
       do { Printf (''Deleting provider %s/%s@%s...'' @ nl) [namespace, name, ver];
            sendDelete st url (stringOf fl ''api-key'') })"

definition deleteModule :: "setting \<Rightarrow> string list \<Rightarrow> ('r, nat + unit) cli" where
  "deleteModule st args =
     bindC (Parse (withFlags ''tfreg delete module''
        [registryFlag st, apiKeyFlag st,
         StringFlag ''namespace'' [] ''Module namespace'',
         StringFlag ''name'' [] ''Module name'',
         StringFlag ''provider'' [] ''Provider name'',
         StringFlag ''version'' [] ''Module version'']) args) (\<lambda>fl.
     let namespace = stringOf fl ''namespace''; name = stringOf fl ''name''; provider = stringOf fl ''provider'';
         ver = stringOf fl ''version'' in
     if namespace = [] \<or> name = [] \<or> provider = [] \<or> ver = [] then
       missing ''Error: --namespace, --name, --provider, and --version are required'' None
     else
       let url = stringOf fl ''registry'' @ ''/api/v1/modules/'' @ namespace @ ''/'' @ name @ ''/'' @ provider @ ''/'' @
                 ver in
       do { Printf (''Deleting module %s/%s/%s@%s...'' @ nl) [namespace, name, provider, ver];
            sendDelete st url (stringOf fl ''api-key'') })"

definition handleDelete :: "setting \<Rightarrow> string list \<Rightarrow> ('r, nat + unit) cli" where
  "handleDelete st args =
     byKind ''Usage: tfreg delete <provider|module> [options]'' ''Unknown type: %s''
       (deleteProvider st) (deleteModule st) args"

section \<open>Pull\<close>

record pullMeta =
  pmFilename :: string
  pmDownloadURL :: string
  pmShasum :: string

definition setPullField :: "string \<Rightarrow> pullMeta decoder" where
  "setPullField f m j =
     (if f = ''filename'' then (let (x, ok) = decodeString (pmFilename m) j in (m\<lparr>pmFilename := x\<rparr>, ok))
      else if f = ''download_url'' then (let (x, ok) = decodeString (pmDownloadURL m) j in (m\<lparr>pmDownloadURL := x\<rparr>, ok))
      else (let (x, ok) = decodeString (pmShasum m) j in (m\<lparr>pmShasum := x\<rparr>, ok)))"

text \<open>\<^verbatim>\<open>json.NewDecoder(resp.Body).Decode(&meta)\<close>: the first value of the body counts.\<close>

definition decodePullMeta :: "bytes \<Rightarrow> pullMeta result" where
  "decodePullMeta data =
     (case decodeFirst data of
        None \<Rightarrow> Inl ErrJSON
      | Some j \<Rightarrow>
          (let (m, ok) = decodeStruct [''filename'', ''download_url'', ''shasum''] setPullField
                           \<lparr>pmFilename = [], pmDownloadURL = [], pmShasum = []\<rparr> j in
           if ok then Inr m else Inl ErrJSON))"

definition pullProvider :: "setting \<Rightarrow> string list \<Rightarrow> ('r, nat + unit) cli" where
  "pullProvider st args =
     bindC (Parse (withFlags ''tfreg pull provider''
        [registryFlag st,
         StringFlag ''namespace'' [] ''Provider namespace'',
         StringFlag ''name'' [] ''Provider name'',
         StringFlag ''version'' [] ''Provider version'',
         StringFlag ''os'' ''linux'' ''Operating system'',
         StringFlag ''arch'' ''amd64'' ''Architecture'',
         StringFlag ''output'' ''.'' ''Output directory'']) args) (\<lambda>fl.
     let namespace = stringOf fl ''namespace''; name = stringOf fl ''name''; ver = stringOf fl ''version'';
         osName = stringOf fl ''os''; arch = stringOf fl ''arch'' in
     if namespace = [] \<or> name = [] \<or> ver = [] then
       missing ''Error: --namespace, --name, and --version are required'' (Some fl)
     else
       let metaURL = stringOf fl ''registry'' @ ''/v1/providers/'' @ namespace @ ''/'' @ name @ ''/'' @ ver @
                     ''/download/'' @ osName @ ''/'' @ arch in
       do { Printf (''Fetching download info for %s/%s@%s (%s/%s)...'' @ nl) [namespace, name, ver, osName, arch];
            bindC (orDie st (''Error: %v'' @ nl) (httpGet st metaURL)) (\<lambda>resp.
            if crStatus resp \<noteq> 200 then
              do { Eprintf (''Error (%d): %s'' @ nl) [showNat (crStatus resp), sData (crBody resp)]; exitWith 1 }
            else
              bindC (orDie st (''Error parsing response: %v'' @ nl)
                       (State_Monad.return (decodePullMeta (sData (crBody resp))))) (\<lambda>meta.
              let filename = pathBase (pmFilename meta) in
              if filename = ''.'' \<or> filename = [] then
                do { Eprintln ''Error: registry returned an invalid filename''; exitWith 1 }
              else if length (pmShasum meta) \<noteq> 64 then
                do { Eprintln ''Error: registry returned an invalid SHA256 checksum''; exitWith 1 }
              else
                let dest = filepathJoin (stringOf fl ''output'') filename in
                do { Printf (''Downloading %s (sha256: %s...)...'' @ nl) [filename, take 16 (pmShasum meta)];
                     bindC (orDie st (''Error downloading: %v'' @ nl)
                              (downloadFileVerified st (pmDownloadURL meta) dest (pmShasum meta))) (\<lambda>_.
                     do { Printf (''Saved to %s'' @ nl) [dest]; State_Monad.return (Inr ()) }) })) })"

definition pullModule :: "setting \<Rightarrow> string list \<Rightarrow> ('r, nat + unit) cli" where
  "pullModule st args =
     bindC (Parse (withFlags ''tfreg pull module''
        [registryFlag st,
         StringFlag ''namespace'' [] ''Module namespace'',
         StringFlag ''name'' [] ''Module name'',
         StringFlag ''provider'' [] ''Provider name'',
         StringFlag ''version'' [] ''Module version (latest if omitted)'',
         StringFlag ''output'' ''.'' ''Output directory'']) args) (\<lambda>fl.
     let namespace = stringOf fl ''namespace''; name = stringOf fl ''name''; provider = stringOf fl ''provider'';
         ver = stringOf fl ''version''; output = stringOf fl ''output'' in
     if namespace = [] \<or> name = [] \<or> provider = [] then
       missing ''Error: --namespace, --name, and --provider are required'' (Some fl)
     else
       let base = stringOf fl ''registry'' @ ''/v1/modules/'' @ namespace @ ''/'' @ name @ ''/'' @ provider;
           downloadURL = (if ver \<noteq> [] then base @ ''/'' @ ver @ ''/download'' else base @ ''/download'') in
       do { Printf (''Downloading module %s/%s/%s...'' @ nl) [namespace, name, provider];
            bindC (orDie st (''Error: %v'' @ nl) (httpGet st downloadURL)) (\<lambda>resp.
            if crStatus resp \<noteq> 204 then
              do { Eprintf (''Error (%d): %s'' @ nl) [showNat (crStatus resp), sData (crBody resp)]; exitWith 1 }
            else
              let stem = namespace @ ''-'' @ name @ ''-'' @ provider;
                  outFile = (if ver \<noteq> [] then filepathJoin output (stem @ ''-'' @ ver @ ''.tar.gz'')
                             else filepathJoin output (stem @ ''.tar.gz''));
                  artifactURL = responseHeader resp ''X-Terraform-Get'' in
              if artifactURL = [] then
                do { Eprintln ''Error: registry response omitted X-Terraform-Get''; exitWith 1 }
              else
                bindC (orDie st (''Error downloading module: %v'' @ nl) (downloadFile st artifactURL outFile)) (\<lambda>_.
                do { Printf (''Saved to %s'' @ nl) [outFile]; State_Monad.return (Inr ()) })) })"

definition handlePull :: "setting \<Rightarrow> string list \<Rightarrow> ('r, nat + unit) cli" where
  "handlePull st args =
     byKind ''Usage: tfreg pull <provider|module> [options]'' ''Unknown type: %s''
       (pullProvider st) (pullModule st) args"

section \<open>List\<close>

text \<open>The scan for \<^verbatim>\<open>--registry\<close> and \<^verbatim>\<open>--api-key\<close>: the registry, the key and the other arguments.\<close>

fun listArgs :: "string \<Rightarrow> string \<Rightarrow> string list \<Rightarrow> string \<times> string \<times> string list" where
  "listArgs registry apiKey [] = (registry, apiKey, [])"
| "listArgs registry apiKey [a] = (registry, apiKey, [a])"
| "listArgs registry apiKey (a # b # args) =
     (if a = ''--registry'' then listArgs b apiKey args
      else if a = ''--api-key'' then listArgs registry b args
      else case listArgs registry apiKey (b # args) of (r, k, rest) \<Rightarrow> (r, k, a # rest))"

text \<open>The answer of the registry; \<^verbatim>\<open>json.RawMessage\<close> keeps the value for a second decoding.\<close>

definition setListField :: "string \<Rightarrow> (bool \<times> json option) decoder" where
  "setListField f m j =
     (if f = ''success'' then (let (x, ok) = decodeBool (fst m) j in ((x, snd m), ok)) else ((fst m, Some j), True))"

record listedItem =
  liNamespace :: string
  liName :: string
  liProvider :: string
  liVersions :: "string list option"

definition setItemField :: "string \<Rightarrow> listedItem decoder" where
  "setItemField f m j =
     (if f = ''namespace'' then (let (x, ok) = decodeString (liNamespace m) j in (m\<lparr>liNamespace := x\<rparr>, ok))
      else if f = ''name'' then (let (x, ok) = decodeString (liName m) j in (m\<lparr>liName := x\<rparr>, ok))
      else if f = ''provider'' then (let (x, ok) = decodeString (liProvider m) j in (m\<lparr>liProvider := x\<rparr>, ok))
      else (let (x, ok) = decodeSlice (decodeStruct [''version''] (\<lambda>_. decodeString)) [] (liVersions m) j in
            (m\<lparr>liVersions := x\<rparr>, ok)))"

definition decodeListed :: "string list \<Rightarrow> json option \<Rightarrow> listedItem list" where
  "decodeListed fieldNames raw =
     (case raw of
        None \<Rightarrow> []
      | Some j \<Rightarrow>
          (case fst (decodeSlice (decodeStruct fieldNames setItemField)
                       \<lparr>liNamespace = [], liName = [], liProvider = [], liVersions = None\<rparr> None j) of
             None \<Rightarrow> []
           | Some items \<Rightarrow> items))"

definition listedVersions :: "listedItem \<Rightarrow> string list" where
  "listedVersions m = (case liVersions m of None \<Rightarrow> [] | Some vs \<Rightarrow> vs)"

fun printItems :: "string \<Rightarrow> (listedItem \<Rightarrow> string) \<Rightarrow> listedItem list \<Rightarrow> ('r, unit) cli" where
  "printItems fmt label [] = State_Monad.return ()"
| "printItems fmt label (m # ms) =
     do { Printf fmt [label m, showNat (length (listedVersions m)),
                      if listedVersions m \<noteq> [] then last (listedVersions m) else ''-''];
          printItems fmt label ms }"

definition printProviders :: "json option \<Rightarrow> ('r, unit) cli" where
  "printProviders raw =
     (let providers = decodeListed [''namespace'', ''name'', ''versions''] raw in
      if providers = [] then Println ''No providers registered.''
      else do { Printf (''%-25s %-10s %s'' @ nl) [''PROVIDER'', ''VERSIONS'', ''LATEST''];
                Println (replicate 60 CHR ''-'');
                printItems (''%-25s %-10d %s'' @ nl) (\<lambda>p. liNamespace p @ ''/'' @ liName p) providers })"

definition printModules :: "json option \<Rightarrow> ('r, unit) cli" where
  "printModules raw =
     (let modules = decodeListed [''namespace'', ''name'', ''provider'', ''versions''] raw in
      if modules = [] then Println ''No modules registered.''
      else do { Printf (''%-35s %-10s %s'' @ nl) [''MODULE'', ''VERSIONS'', ''LATEST''];
                Println (replicate 60 CHR ''-'');
                printItems (''%-35s %-10d %s'' @ nl)
                  (\<lambda>m. liNamespace m @ ''/'' @ liName m @ ''/'' @ liProvider m) modules })"

definition handleList :: "setting \<Rightarrow> string list \<Rightarrow> ('r, nat + unit) cli" where
  "handleList st args =
     (if args = [] then do { Eprintln ''Usage: tfreg list <providers|modules>''; exitWith 1 }
      else case listArgs (envOr st ''TFREG_REGISTRY'' ''http://localhost:8080'') (envOr st ''TFREG_API_KEY'' []) args of
        (registry, apiKey, cleanArgs) \<Rightarrow>
          (case cleanArgs of
             [] \<Rightarrow> do { Eprintln ''Usage: tfreg list <providers|modules>''; exitWith 1 }
           | kind # _ \<Rightarrow>
               if kind \<noteq> ''providers'' \<and> kind \<noteq> ''modules'' then
                 do { Eprintf (''Unknown type: %s'' @ nl) [kind]; exitWith 1 }
               else
                 let endpoint = (if kind = ''providers'' then ''/api/v1/providers'' else ''/api/v1/modules'') in
                 bindC (orDie st (''Error: invalid registry URL: %v'' @ nl)
                          (State_Monad.return (newRequest st ''GET'' (registry @ endpoint) None))) (\<lambda>req.
                 let req1 = (if apiKey \<noteq> [] then setRequestHeader ''X-API-Key'' apiKey req else req) in
                 bindC (orDie st (''Error: %v'' @ nl) (httpDo st req1)) (\<lambda>resp.
                 let body = sData (crBody resp) in
                 case unmarshalInto (decodeStruct [''success'', ''data''] setListField) (False, None) body of
                   (_, Some _) \<Rightarrow> do { Eprintf (''Error parsing response: %s'' @ nl) [body]; exitWith 1 }
                 | ((success, raw), None) \<Rightarrow>
                     if \<not> success then do { Eprintf (''Error: %s'' @ nl) [body]; exitWith 1 }
                     else do { (if kind = ''providers'' then printProviders raw else printModules raw);
                               State_Monad.return (Inr ()) }))))"

end
