(* ===== verification/CleanPaths.thy ===== *)
theory CleanPaths
  imports Client StoreSafety
begin

text \<open>
  The path strings the client computes: a cleaned path without dots is written from its components, and the
  directory of a joined path is the directory it was joined to.
\<close>

definition cleanText :: "bool \<Rightarrow> string list \<Rightarrow> string" where
  "cleanText rooted cs =
     (if rooted then ''/'' @ joinWith ''/'' cs else if cs = [] then ''.'' else joinWith ''/'' cs)"

lemma pathClean_cleanText: "pathClean s = cleanText (hasPrefix s ''/'') (cleanComps s)"
  by (auto simp: pathClean_def cleanText_def cleanComps_def hasPrefix_def)

lemma splitAt_slash: "splitAt c (a @ c # b) = splitAt c a @ splitAt c b"
proof (induction a)
  case (Cons x a)
  then show ?case by (cases "splitAt c a") auto
qed simp

lemma splitAt_proper: "list_all properComp cs \<Longrightarrow> cs \<noteq> [] \<Longrightarrow> splitAt CHR ''/'' (joinWith ''/'' cs) = cs"
  by (rule splitAt_join) (auto simp: list_all_iff properComp_def)

lemma join_no_slash: "list_all properComp cs \<Longrightarrow> cs \<noteq> [] \<Longrightarrow> \<not> hasPrefix (joinWith ''/'' cs) ''/''"
proof -
  assume a: "list_all properComp cs" "cs \<noteq> []"
  then obtain c ds where cs: "cs = c # ds" "c \<noteq> []" "CHR ''/'' \<notin> set c"
    by (cases cs) (auto simp: properComp_def)
  then show ?thesis by (cases ds; cases c) (auto simp: hasPrefix_def)
qed

lemma join_nonempty: "list_all properComp cs \<Longrightarrow> cs \<noteq> [] \<Longrightarrow> joinWith ''/'' cs \<noteq> []"
  using splitAt_proper [of cs] by (auto simp: properComp_def)

lemma splitAt_cleanText:
  assumes "list_all properComp cs"
  shows "splitAt CHR ''/'' (cleanText r cs) =
    (if r then [] # (if cs = [] then [[]] else cs) else if cs = [] then [''.''] else cs)"
  using splitAt_proper [OF assms] by (simp add: cleanText_def)

lemma proper_last: "list_all properComp cs \<Longrightarrow> cs \<noteq> [] \<Longrightarrow> last cs \<noteq> [] \<and> last cs \<noteq> ''.''"
  by (auto simp: list_all_iff properComp_def dest: last_in_set)

lemma proper_filter: "list_all properComp cs \<Longrightarrow> filter (\<lambda>c. c \<noteq> [] \<and> c \<noteq> ''.'') cs = cs"
  by (auto simp: list_all_iff properComp_def)

lemma cleanText_rooted: "list_all properComp cs \<Longrightarrow> hasPrefix (cleanText r cs) ''/'' \<longleftrightarrow> r"
  using join_no_slash by (auto simp: cleanText_def hasPrefix_def)

lemma osPath_cleanText:
  assumes "list_all properComp cs"
  shows "osPath cwd (cleanText r cs) = (if r then [] else cwd) @ cs"
  using assms proper_last [OF assms]
  by (simp add: osPath_def Let_def splitAt_cleanText cleanText_rooted proper_filter)

lemma rev_dropWhile_last: "c \<notin> set b \<Longrightarrow> rev (dropWhile (\<lambda>x. x \<noteq> c) (rev (a @ c # b))) = a @ [c]"
proof -
  assume "c \<notin> set b"
  then have "dropWhile (\<lambda>x. x \<noteq> c) (rev b @ c # rev a) = c # rev a"
    by (subst dropWhile_append2) auto
  then show ?thesis by simp
qed

lemma cleanComps_text:
  assumes "list_all properComp cs"
  shows "cleanComps (joinWith ''/'' cs @ ''/'') = cs" "cleanComps (''/'' @ joinWith ''/'' cs @ ''/'') = cs"
proof -
  have "cleanGo r acc (xs @ [[]]) = cleanGo r acc xs" for r acc xs
    by (induction r acc xs rule: cleanGo.induct) (auto split: list.splits)
  moreover have "cleanGo r [] cs = cs" for r using cleanGo_proper [OF assms, of r "[]"] by simp
  ultimately have go: "cleanGo r [] (cs @ [[]]) = cs" "cleanGo r [] ([] # cs @ [[]]) = cs" for r by simp_all
  have sp: "splitAt CHR ''/'' (joinWith ''/'' cs @ ''/'') = (if cs = [] then [[], []] else cs @ [[]])"
    using splitAt_proper [OF assms] splitAt_slash [of "CHR ''/''" "joinWith ''/'' cs" "[]"] by auto
  then show "cleanComps (joinWith ''/'' cs @ ''/'') = cs"
    using go by (cases "cs = []") (simp_all add: cleanComps_def)
  have "splitAt CHR ''/'' (''/'' @ joinWith ''/'' cs @ ''/'') = [] # splitAt CHR ''/'' (joinWith ''/'' cs @ ''/'')"
    by simp
  then show "cleanComps (''/'' @ joinWith ''/'' cs @ ''/'') = cs"
    using sp go unfolding cleanComps_def by (cases "cs = []") simp_all
qed

lemma cleanComps_slash: "cleanComps ''/'' = []"
  by (simp add: cleanComps_def)

lemma joinWith_snoc: "cs \<noteq> [] \<Longrightarrow> joinWith sep (cs @ [c]) = joinWith sep cs @ sep @ c"
proof (induction cs)
  case (Cons a cs)
  then show ?case by (cases "cs = []") (auto simp: joinWith_Cons)
qed simp

lemma filepathDir_cleanText:
  assumes "list_all properComp cs" "properComp c"
  shows "filepathDir (cleanText r (cs @ [c])) = cleanText r cs"
proof -
  have c: "CHR ''/'' \<notin> set c" using assms(2) by (simp add: properComp_def)
  have snoc: "cs \<noteq> [] \<Longrightarrow> joinWith ''/'' (cs @ [c]) = joinWith ''/'' cs @ CHR ''/'' # c"
    by (simp add: joinWith_snoc)
  consider (bare) "\<not> r" "cs = []" | (root) "r" "cs = []" | (deep) "cs \<noteq> []" by blast
  then show ?thesis
  proof cases
    case bare
    have "dropWhile (\<lambda>x. x \<noteq> CHR ''/'') (rev c) = []" using c by auto
    then show ?thesis using bare by (simp add: cleanText_def filepathDir_def pathClean_def)
  next
    case root
    then show ?thesis
      using rev_dropWhile_last [OF c, of "[]"] by (simp add: cleanText_def filepathDir_def pathClean_def hasPrefix_def cleanComps_slash)
  next
    case deep
    have "filepathDir (cleanText r (cs @ [c])) = pathClean ((if r then ''/'' else []) @ joinWith ''/'' cs @ ''/'')"
      using snoc [OF deep] rev_dropWhile_last [OF c, of "''/'' @ joinWith ''/'' cs"] rev_dropWhile_last [OF c, of "joinWith ''/'' cs"]
      by (simp add: filepathDir_def cleanText_def)
    also have "\<dots> = cleanText r cs"
    proof (cases r)
      case True
      then show ?thesis
        using cleanComps_text(2) [OF assms(1)] by (simp add: pathClean_cleanText hasPrefix_def)
    next
      case False
      have "\<not> hasPrefix (joinWith ''/'' cs @ ''/'') ''/''"
        using join_no_slash [OF assms(1) deep] join_nonempty [OF assms(1) deep]
        by (cases "joinWith ''/'' cs") (simp_all add: hasPrefix_def)
      then show ?thesis using False cleanComps_text(1) [OF assms(1)] by (simp add: pathClean_cleanText)
    qed
    finally show ?thesis .
  qed
qed

lemma cleanGo_snoc: "properComp c \<Longrightarrow> cleanGo r acc (xs @ [c]) = cleanGo r acc xs @ [c]"
  by (induction r acc xs rule: cleanGo.induct) (auto simp: properComp_def split: list.splits)

lemma filepathJoin_cleanText:
  assumes "properComp c"
  shows "filepathJoin out c = cleanText (hasPrefix out ''/'') (cleanComps out @ [c])"
proof -
  have c: "splitAt CHR ''/'' c = [c]" "\<not> hasPrefix c ''/''" "c \<noteq> []"
  proof -
    have a: "CHR ''/'' \<notin> set c" "c \<noteq> []" using assms by (simp_all add: properComp_def)
    show "splitAt CHR ''/'' c = [c]" by (rule splitAt_no_sep [OF a(1)])
    show "\<not> hasPrefix c ''/''" using a by (cases c) (auto simp: hasPrefix_def)
    show "c \<noteq> []" by (rule a(2))
  qed
  show ?thesis
  proof (cases "out = []")
    case True
    then show ?thesis
      using c assms cleanGo_proper [of "[c]" False "[]"]
      by (simp add: filepathJoin_def pathClean_cleanText cleanComps_def hasPrefix_def)
  next
    case False
    have "hasPrefix (out @ ''/'' @ c) ''/'' = hasPrefix out ''/''" using False by (cases out) (simp_all add: hasPrefix_def)
    moreover have "cleanComps (out @ ''/'' @ c) = cleanComps out @ [c]"
      using calculation c(1) splitAt_slash [of "CHR ''/''" out c] cleanGo_snoc [OF assms] by (simp add: cleanComps_def)
    ultimately show ?thesis using False by (simp add: filepathJoin_def pathClean_cleanText)
  qed
qed

end
