(* ===== verification/Bundle.thy ===== *)
theory Bundle
  imports CleanPaths StoreOps
begin

text \<open>
  \<^verbatim>\<open>cmd/tfreg/archive.go\<close> and the bundle commands of \<^verbatim>\<open>main.go\<close>: packing a provider binary into a ZIP and a module
  directory into a compressed tarball.

  The encoders of \<^verbatim>\<open>archive/tar\<close>, \<^verbatim>\<open>compress/gzip\<close> and \<^verbatim>\<open>archive/zip\<close> are parameters: functions from the entries
  written to the bytes of the archive.  The bytes reach the file in one call, where the code writes them as the
  compressor emits them; the outcome of a failure is the same, because the error is kept and the file removed.
\<close>

section \<open>Entries\<close>

datatype bundleEntry = DirEntry string | FileEntry string bytes

fun entryName :: "bundleEntry \<Rightarrow> string" where
  "entryName (DirEntry name) = name"
| "entryName (FileEntry name data) = name"

record archiveWriter =
  writeTarGz :: "bundleEntry list \<Rightarrow> bytes"
  writeZip :: "string \<Rightarrow> bytes \<Rightarrow> bytes"

section \<open>What is left out\<close>

definition excludeModuleBundlePath :: "string \<Rightarrow> bool" where
  "excludeModuleBundlePath path =
     (if list_ex (\<lambda>part. part = ''.git'' \<or> part = ''.terraform'') (splitAt CHR ''/'' path) then True
      else let name = pathBase path in
        name = ''crash.log'' \<or> (hasPrefix name ''crash.'' \<and> hasSuffix name ''.log'') \<or>
        hasSuffix name ''.tfstate'' \<or> containsStr name ''.tfstate.'')"

section \<open>The walk\<close>

text \<open>
  \<^verbatim>\<open>filepath.Walk\<close>, which follows no link: everything below the root in lexical order, by its path relative to
  the root, with what \<^verbatim>\<open>Lstat\<close> sees there.  A path that ends in a dot denotes the directory itself.
\<close>

definition walkNodes :: "fsys \<Rightarrow> path \<Rightarrow> (path \<times> node) list" where
  "walkNodes f q =
     (case fsGet f q of
        None \<Rightarrow> []
      | Some Dir \<Rightarrow>
          ([], Dir) #
          map (\<lambda>r. (r, case fsGet f (q @ r) of Some n \<Rightarrow> n | None \<Rightarrow> Dir))
            (sort (remdups (map (drop (length q)) (filter (\<lambda>k. strict_prefix q k) (map fst f)))))
      | Some n \<Rightarrow> [([], n)])"

definition rootPlace :: "fsys \<Rightarrow> path \<Rightarrow> path result" where
  "rootPlace f p =
     (if p = [] \<or> last p = ''.'' \<or> last p = ''..'' then canon False f kernelLinks [] p else place f p)"

definition osWalkNodes :: "path \<Rightarrow> (path \<times> node) list result io" where
  "osWalkNodes p = query (\<lambda>w.
     case rootPlace (fs w) p of
       Inl e \<Rightarrow> Inl e
     | Inr q \<Rightarrow> if fsGet (fs w) q = None then Inl ErrNotExist else Inr (walkNodes (fs w) q))"

text \<open>The copy of one file into the archive: a copy error counts before a close error.\<close>

definition copyFile :: "path \<Rightarrow> bytes result io" where
  "copyFile p =
     bindR (osOpen p) (\<lambda>h.
     do { r \<leftarrow> readHandle h;
          cl \<leftarrow> osClose h;
          State_Monad.return
            (case sErr r of
               Some e \<Rightarrow> Inl e
             | None \<Rightarrow> (case cl of Inl e \<Rightarrow> Inl e | Inr _ \<Rightarrow> Inr (sData r))) })"

text \<open>
  The callback over the paths of the walk.  \<open>skip\<close> is the directory for which it returned \<^verbatim>\<open>SkipDir\<close> last,
  \<open>srcAbs\<close> the absolute path of the source, \<open>destAbs\<close> that of the archive, and \<open>acc\<close> the entries written so far.
\<close>

fun bundleWalk ::
  "string \<Rightarrow> path \<Rightarrow> path \<Rightarrow> path \<Rightarrow> path option \<Rightarrow> bundleEntry list \<Rightarrow> (path \<times> node) list \<Rightarrow>
     (bundleEntry list \<times> error option) io" where
  "bundleWalk sourceDir root srcAbs destAbs skip acc [] = State_Monad.return (acc, None)"
| "bundleWalk sourceDir root srcAbs destAbs skip acc ((r, n) # rest) =
     (if (case skip of None \<Rightarrow> False | Some p \<Rightarrow> prefix p r) then
        bundleWalk sourceDir root srcAbs destAbs skip acc rest
      else if srcAbs @ r = destAbs then bundleWalk sourceDir root srcAbs destAbs skip acc rest
      else case n of
        Link t m \<Rightarrow>
          State_Monad.return
            (acc, Some (Errorf ''symbolic links are not supported in module bundles: %s''
                          [if r = [] then sourceDir else filepathJoin sourceDir (relString r)]))
      | Dir \<Rightarrow>
          if r = [] then bundleWalk sourceDir root srcAbs destAbs skip acc rest
          else if excludeModuleBundlePath (relString r) then
            bundleWalk sourceDir root srcAbs destAbs (Some r) acc rest
          else bundleWalk sourceDir root srcAbs destAbs skip (acc @ [DirEntry (relString r)]) rest
      | File d sy t \<Rightarrow>
          if r = [] then bundleWalk sourceDir root srcAbs destAbs skip acc rest
          else if excludeModuleBundlePath (relString r) then
            bundleWalk sourceDir root srcAbs destAbs skip acc rest
          else
            do { c \<leftarrow> copyFile (root @ r);
                 case c of
                   Inl e \<Rightarrow> State_Monad.return (acc, Some e)
                 | Inr contents \<Rightarrow>
                     bundleWalk sourceDir root srcAbs destAbs skip (acc @ [FileEntry (relString r) contents]) rest })"

definition walkSource :: "path \<Rightarrow> string \<Rightarrow> path \<Rightarrow> (bundleEntry list \<times> error option) io" where
  "walkSource cwd sourceDir destAbs =
     (if sourceDir = [] then State_Monad.return ([], Some ErrNotExist)
      else do { ns \<leftarrow> osWalkNodes (osPath cwd sourceDir);
                case ns of
                  Inl e \<Rightarrow> State_Monad.return ([], Some e)
                | Inr nodes \<Rightarrow>
                    bundleWalk sourceDir (osPath cwd sourceDir) (filepathAbs cwd sourceDir) destAbs None [] nodes })"

text \<open>
  The ends of \<^verbatim>\<open>createTarGz\<close> and \<^verbatim>\<open>createZip\<close>: the writers are flushed whatever happened, the first error counts, and
  the deferred function closes the file and removes it after an error.
\<close>

definition finishArchive :: "path \<Rightarrow> path \<Rightarrow> unit result \<Rightarrow> unit result io" where
  "finishArchive f dest err =
     do { cl \<leftarrow> osClose f;
          case (case err of Inl e \<Rightarrow> Inl e | Inr _ \<Rightarrow> cl) of
            Inl e \<Rightarrow> do { ignore (osRemove dest); State_Monad.return (Inl e) }
          | Inr _ \<Rightarrow> State_Monad.return (Inr ()) }"

definition createTarGz :: "archiveWriter \<Rightarrow> path \<Rightarrow> string \<Rightarrow> string \<Rightarrow> unit result io" where
  "createTarGz aw cwd sourceDir destPath =
     bindR (osMkdirAll (osPath cwd (filepathDir destPath))) (\<lambda>_.
     let destAbs = filepathAbs cwd destPath in
     bindR (osOpenFile (osPath cwd destPath)) (\<lambda>f.
     do { (entries, walkErr) \<leftarrow> walkSource cwd sourceDir destAbs;
          wr \<leftarrow> osWrite f (writeTarGz aw entries);
          finishArchive f (osPath cwd destPath) (case walkErr of Some e \<Rightarrow> Inl e | None \<Rightarrow> wr) }))"

text \<open>In \<^verbatim>\<open>createZip\<close> the early returns leave the ZIP writer unflushed, so nothing is written.\<close>

definition createZip :: "archiveWriter \<Rightarrow> path \<Rightarrow> string \<Rightarrow> string \<Rightarrow> unit result io" where
  "createZip aw cwd sourceFile destPath =
     bindR (osMkdirAll (osPath cwd (filepathDir destPath))) (\<lambda>_.
     bindR (osOpenFile (osPath cwd destPath)) (\<lambda>f.
     do { src \<leftarrow> (if sourceFile = [] then State_Monad.return (Inl ErrNotExist) else osOpen (osPath cwd sourceFile));
          case src of
            Inl e \<Rightarrow> finishArchive f (osPath cwd destPath) (Inl e)
          | Inr h \<Rightarrow>
              do { info \<leftarrow> osFstat h;
                   case info of
                     Inl e \<Rightarrow>
                       do { ignore (osClose h); finishArchive f (osPath cwd destPath) (Inl e) }
                   | Inr _ \<Rightarrow>
                       do { r \<leftarrow> readHandle h;
                            scl \<leftarrow> osClose h;
                            wr \<leftarrow> osWrite f (writeZip aw (pathBase sourceFile) (sData r));
                            finishArchive f (osPath cwd destPath)
                              (case sErr r of
                                 Some e \<Rightarrow> Inl e
                               | None \<Rightarrow> (case scl of Inl e \<Rightarrow> Inl e | Inr _ \<Rightarrow> wr)) } } }))"

section \<open>The commands\<close>

text \<open>\<^verbatim>\<open>os.Stat\<close> of a path string, and the check that only asks whether the file is missing.\<close>

definition isMissing :: "setting \<Rightarrow> string \<Rightarrow> ('r, bool) cli" where
  "isMissing st p =
     do { r \<leftarrow> onDisk (osStat (osPath (workDir st) p));
          State_Monad.return (case r of Inl e \<Rightarrow> isNotExist e | Inr _ \<Rightarrow> False) }"

definition bundleProvider :: "archiveWriter \<Rightarrow> setting \<Rightarrow> string list \<Rightarrow> ('r, nat + unit) cli" where
  "bundleProvider aw st args =
     bindC (Parse (withFlags ''tfreg bundle provider''
        [StringFlag ''namespace'' [] ''Provider namespace'',
         StringFlag ''name'' [] ''Provider name'',
         StringFlag ''version'' [] ''Provider version'',
         StringFlag ''binary'' [] ''Path to provider binary'',
         StringFlag ''os'' ''linux'' ''Operating system'',
         StringFlag ''arch'' ''amd64'' ''Architecture'',
         StringFlag ''output'' ''.'' ''Output directory'']) args) (\<lambda>fl.
     let namespace = stringOf fl ''namespace''; name = stringOf fl ''name''; ver = stringOf fl ''version'';
         binary = stringOf fl ''binary''; osName = stringOf fl ''os''; arch = stringOf fl ''arch'' in
     if namespace = [] \<or> name = [] \<or> ver = [] \<or> binary = [] then
       missing ''Error: --namespace, --name, --version, and --binary are required'' (Some fl)
     else
       do { gone \<leftarrow> isMissing st binary;
            if gone then do { Eprintf (''Error: binary not found: %s'' @ nl) [binary]; exitWith 1 }
            else
              let filename = ''terraform-provider-'' @ name @ ''_'' @ ver @ ''_'' @ osName @ ''_'' @ arch @ ''.zip'';
                  outPath = filepathJoin (stringOf fl ''output'') filename in
              do { Printf (''Bundling provider %s/%s@%s (%s/%s)...'' @ nl) [namespace, name, ver, osName, arch];
                   bindC (orDie st (''Error creating zip: %v'' @ nl)
                            (onDisk (createZip aw (workDir st) binary outPath))) (\<lambda>_.
                   do { Printf (''Created: %s'' @ nl) [outPath]; State_Monad.return (Inr ()) }) } })"

definition bundleModule :: "archiveWriter \<Rightarrow> setting \<Rightarrow> string list \<Rightarrow> ('r, nat + unit) cli" where
  "bundleModule aw st args =
     bindC (Parse (withFlags ''tfreg bundle module''
        [StringFlag ''namespace'' [] ''Module namespace'',
         StringFlag ''name'' [] ''Module name'',
         StringFlag ''provider'' [] ''Provider name'',
         StringFlag ''version'' [] ''Module version'',
         StringFlag ''source'' [] ''Source directory containing module files'',
         StringFlag ''output'' ''.'' ''Output directory'']) args) (\<lambda>fl.
     let namespace = stringOf fl ''namespace''; name = stringOf fl ''name''; provider = stringOf fl ''provider'';
         ver = stringOf fl ''version''; source = stringOf fl ''source'' in
     if namespace = [] \<or> name = [] \<or> provider = [] \<or> ver = [] \<or> source = [] then
       missing ''Error: --namespace, --name, --provider, --version, and --source are required'' (Some fl)
     else
       do { gone \<leftarrow> isMissing st source;
            if gone then do { Eprintf (''Error: source directory not found: %s'' @ nl) [source]; exitWith 1 }
            else
              let outPath = filepathJoin (stringOf fl ''output'')
                              (namespace @ ''-'' @ name @ ''-'' @ provider @ ''-'' @ ver @ ''.tar.gz'') in
              do { Printf (''Bundling module %s/%s/%s@%s...'' @ nl) [namespace, name, provider, ver];
                   bindC (orDie st (''Error creating tarball: %v'' @ nl)
                            (onDisk (createTarGz aw (workDir st) source outPath))) (\<lambda>_.
                   do { Printf (''Created: %s'' @ nl) [outPath]; State_Monad.return (Inr ()) }) } })"

definition handleBundle :: "archiveWriter \<Rightarrow> setting \<Rightarrow> string list \<Rightarrow> ('r, nat + unit) cli" where
  "handleBundle aw st args =
     byKind ''Usage: tfreg bundle <provider|module> [options]'' ''Unknown type: %s''
       (bundleProvider aw st) (bundleModule aw st) args"

end
