(* ===== verification/Download.thy ===== *)
theory Download
  imports CleanPaths StoreOps
begin

text \<open>
  Downloads of the client under every failure and every crash: \<^verbatim>\<open>downloadFileWithChecksum\<close> publishes a complete and
  verified file or leaves the destination as it was.
\<close>

section \<open>The temporary file\<close>

definition downloadTemp :: "path \<Rightarrow> bool" where
  "downloadTemp p \<longleftrightarrow> p \<noteq> [] \<and> hasPrefix (last p) ''.tfreg-download-''"

text \<open>The directory of the destination is the root of a store with one object.\<close>

definition dirStore :: "path \<Rightarrow> Store" where
  "dirStore dir = \<lparr>basePath = dir, baseURL = []\<rparr>"

definition tempIn :: "path \<Rightarrow> path \<Rightarrow> bool" where
  "tempIn dir tmp \<longleftrightarrow> (\<exists>c. properComp c \<and> hasPrefix c ''.tfreg-download-'' \<and> tmp = dir @ [c])"

lemma cleanComps_single: "properComp c \<Longrightarrow> cleanComps c = [c]"
proof -
  assume c: "properComp c"
  then have "splitAt CHR ''/'' c = [c]" by (simp add: properComp_def splitAt_no_sep)
  moreover have "list_all properComp [c]" using c by simp
  ultimately show ?thesis unfolding cleanComps_def by (simp only: cleanGo_proper rev.simps append.simps)
qed

lemma dirStore_key:
  assumes "list_all properComp dir" "properComp c"
  shows "objKey (dirStore dir) c" "list_all properComp (cleanComps c)" "objPath (dirStore dir) c = dir @ [c]"
    "butlast (objPath (dirStore dir) c) = dir"
  using assms by (simp_all add: objKey_def objPath_def dirStore_def cleanComps_single)

lemma dirStore_temp:
  assumes dir: "list_all properComp dir" and c: "properComp c" and "\<not> hasPrefix c ''.tfreg-download-''"
    and tmp: "tempIn dir tmp"
  shows "tempOk (writing (dirStore dir) c {tmp} f0) tmp" "\<not> prefix tmp (objPath (dirStore dir) c)" "tmp \<noteq> []"
    "prefix (basePath (dirStore dir)) tmp" "list_all properComp tmp"
proof -
  obtain x where x: "tmp = dir @ [x]" "properComp x" "hasPrefix x ''.tfreg-download-''" using tmp by (auto simp: tempIn_def)
  show 1: "tmp \<noteq> []" "prefix (basePath (dirStore dir)) tmp" "list_all properComp tmp"
    using x dir by (auto simp: dirStore_def)
  show "tempOk (writing (dirStore dir) c {tmp} f0) tmp" by (rule tempOk_below) (use 1 in auto)
  have "x \<noteq> c" using x(3) assms(3) by auto
  then show "\<not> prefix tmp (objPath (dirStore dir) c)"
    using dirStore_key [OF dir c] x(1) by (auto simp: prefix_def)
qed

lemma triple_downloadTemp:
  assumes dir: "list_all properComp dir" and c: "properComp c"
  shows "triple (writing (dirStore dir) c {} f0) (osCreateTemp dir ''.tfreg-download-'' [])
    (\<lambda>r f. (\<forall>e. r = Inl e \<longrightarrow> writing (dirStore dir) c {} f0 f) \<and>
       (\<forall>h tmp. r = Inr (h, tmp) \<longrightarrow> h = tmp \<and> tempIn dir tmp \<and>
          writing (dirStore dir) c {tmp} f0 f \<and> tempHas tmp [] False f))"
proof (rule triple_pre)
  fix g assume g: "writing (dirStore dir) c {} f0 g"
  have link: "noLinkTo g dir" using g plain_noLinkTo [of dir g dir] by (simp add: writing_def dirStore_def)
  have new: "tempIn dir tmp \<and> writing (dirStore dir) c {tmp} f0 (fsPut tmp (File [] False t) g) \<and>
      tempHas tmp [] False (fsPut tmp (File [] False t) g)"
    if "tmp = dir @ [''.tfreg-download-'' @ showNat n @ []]" for tmp n t
  proof -
    have "tempIn dir tmp"
      unfolding tempIn_def using that proper_temp [of "''.tfreg-download-''" "[]" n]
      by (intro exI [of _ "''.tfreg-download-'' @ showNat n @ []"]) (simp del: append.simps add: hasPrefix_append)
    moreover have "kept dir {tmp} f0 g"
      using g dirStore_key [OF dir c] by (auto simp: writing_def intro: kept_mono)
    ultimately show ?thesis
      using that g dirStore_key(4) [OF dir c]
      by (auto simp: writing_def tempHas_def fsGet_fsPut intro!: plain_put kept_put)
  qed
  show "triple (\<lambda>f. f = g) (osCreateTemp dir ''.tfreg-download-'' [])
    (\<lambda>r f. (\<forall>e. r = Inl e \<longrightarrow> writing (dirStore dir) c {} f0 f) \<and>
       (\<forall>h tmp. r = Inr (h, tmp) \<longrightarrow> h = tmp \<and> tempIn dir tmp \<and>
          writing (dirStore dir) c {tmp} f0 f \<and> tempHas tmp [] False f))"
  proof (rule triple_post [OF triple_createTemp [OF dir link]])
    fix r :: "(path \<times> path) result" and f
    assume H: "(\<forall>e. r = Inl e \<longrightarrow> f = g) \<and>
       (\<forall>h tmp. r = Inr (h, tmp) \<longrightarrow> h = tmp \<and> (\<exists>n t. tmp = dir @ [''.tfreg-download-'' @ showNat n @ []] \<and>
          fsGet g tmp = None \<and> fsGet g dir = Some Dir \<and> f = fsPut tmp (File [] False t) g))"
    have "writing (dirStore dir) c {} f0 f" if "r = Inl e" for e using H g that by simp
    moreover have "h = tmp \<and> tempIn dir tmp \<and> writing (dirStore dir) c {tmp} f0 f \<and> tempHas tmp [] False f"
      if r: "r = Inr (h, tmp)" for h tmp
    proof -
      obtain n t where "h = tmp" "tmp = dir @ [''.tfreg-download-'' @ showNat n @ []]" "f = fsPut tmp (File [] False t) g"
        using conjunct2 [OF H, rule_format, OF r] by (elim conjE exE)
      then show ?thesis using new by simp
    qed
    ultimately show "(\<forall>e. r = Inl e \<longrightarrow> writing (dirStore dir) c {} f0 f) \<and>
       (\<forall>h tmp. r = Inr (h, tmp) \<longrightarrow> h = tmp \<and> tempIn dir tmp \<and>
          writing (dirStore dir) c {tmp} f0 f \<and> tempHas tmp [] False f)"
      by (intro conjI allI impI) simp_all
  qed
qed

section \<open>The download\<close>

definition saved :: "path \<Rightarrow> string \<Rightarrow> path \<Rightarrow> string \<Rightarrow> stream \<Rightarrow> fsys \<Rightarrow> unit result \<Rightarrow> fsys \<Rightarrow> bool" where
  "saved dir c tmp expected body f0 r f \<longleftrightarrow>
     (case r of
        Inl _ \<Rightarrow> writing (dirStore dir) c {tmp} f0 f
      | Inr _ \<Rightarrow> written (dirStore dir) c (sData body) tmp f0 f \<and> sErr body = None \<and>
                 checkSum expected (sData body) = Inr ())"

lemma triple_copyAll:
  assumes "tempOk I tmp"
  shows "triple (\<lambda>f. I f \<and> tempHas tmp [] False f) (copyAll tmp r)
    (\<lambda>res f. I f \<and> (\<forall>d. res = Inr d \<longrightarrow> d = sData r \<and> sErr r = None \<and> tempHas tmp d False f))"
  unfolding copyAll_def
  by (rule triple_bindR [OF triple_writeTemp [OF assms]]) (auto intro!: triple_return split: option.splits)

lemma triple_saveBody:
  assumes dir: "list_all properComp dir" and c: "properComp c" "\<not> hasPrefix c ''.tfreg-download-''"
    and tmp: "tempIn dir tmp"
  shows "triple (\<lambda>f. writing (dirStore dir) c {tmp} f0 f \<and> tempHas tmp [] False f)
    (bindR (copyAll tmp body) (\<lambda>data. bindR (State_Monad.return (checkSum expected data)) (\<lambda>_.
       bindR (osSync tmp) (\<lambda>_. bindR (osClose tmp) (\<lambda>_. renameTo tmp (dir @ [c]))))))
    (saved dir c tmp expected body f0)"
proof (rule triple_bindR [OF triple_copyAll])
  note key = dirStore_key [OF dir c(1)]
  note temp = dirStore_temp [OF dir c tmp]
  let ?W = "writing (dirStore dir) c {tmp} f0"
  show "tempOk ?W tmp" by (rule temp(1))
  fix d
  show "triple (\<lambda>f. ?W f \<and> (\<forall>d'. Inr d = Inr d' \<longrightarrow> d' = sData body \<and> sErr body = None \<and> tempHas tmp d' False f))
    (bindR (State_Monad.return (checkSum expected d)) (\<lambda>_.
       bindR (osSync tmp) (\<lambda>_. bindR (osClose tmp) (\<lambda>_. renameTo tmp (dir @ [c]))))) (saved dir c tmp expected body f0)"
  proof (cases "d = sData body \<and> sErr body = None \<and> checkSum expected d = Inr ()")
    case True
    have ren: "renameTo tmp (dir @ [c]) = osRename tmp (objPath (dirStore dir) c)"
      using c(1) key(3) by (simp add: renameTo_def properComp_def)
    have pub: "triple (\<lambda>f. ?W f \<and> tempHas tmp d True f) (renameTo tmp (dir @ [c])) (saved dir c tmp expected body f0)"
      unfolding ren
      by (rule triple_post [OF triple_publish_writing [OF key(1,2) temp(1,2)]])
         (use True in \<open>auto simp: saved_def split: sum.splits\<close>)
    have cl: "triple (\<lambda>f. ?W f \<and> tempHas tmp d True f) (bindR (osClose tmp) (\<lambda>_. renameTo tmp (dir @ [c])))
        (saved dir c tmp expected body f0)"
    proof (rule triple_bindR)
      show "triple (\<lambda>f. ?W f \<and> tempHas tmp d True f) (osClose tmp) (\<lambda>_ f. ?W f \<and> tempHas tmp d True f)"
        by (rule readOnly_triple) (intro readonly)
    qed (use pub in \<open>simp_all add: saved_def\<close>)
    have "triple (\<lambda>f. ?W f \<and> tempHas tmp d False f)
        (bindR (osSync tmp) (\<lambda>_. bindR (osClose tmp) (\<lambda>_. renameTo tmp (dir @ [c])))) (saved dir c tmp expected body f0)"
      by (rule triple_bindR [OF triple_syncTemp [OF temp(1)]]) (use cl in \<open>simp_all add: saved_def\<close>)
    then show ?thesis using True by (auto simp: bindR_def elim!: triple_weaken)
  next
    case False
    then show ?thesis
      by (cases "checkSum expected d") (auto simp: bindR_def saved_def triple_def)
  qed
qed (simp add: saved_def)

lemma tempOk_saved:
  assumes "list_all properComp dir" "properComp c" "\<not> hasPrefix c ''.tfreg-download-''" "tempIn dir tmp"
  shows "tempOk (saved dir c tmp expected body f0 r) tmp"
proof (cases "\<exists>e. r = Inl e")
  case True
  then have "saved dir c tmp expected body f0 r = writing (dirStore dir) c {tmp} f0" by (auto simp: saved_def fun_eq_iff)
  then show ?thesis using dirStore_temp(1) [OF assms] by simp
next
  case False
  then have "saved dir c tmp expected body f0 r = written (dirStore dir) c (sData body) tmp f0 \<or>
      saved dir c tmp expected body f0 r = (\<lambda>_. False)"
    by (auto simp: saved_def fun_eq_iff split: sum.splits)
  then show ?thesis
    using tempOk_written [OF dirStore_temp(4,5,3,2) [OF assms]] dirStore_temp(3,5) [OF assms] by (auto simp: tempOk_def)
qed

lemma triple_saveDownload:
  assumes dir: "list_all properComp dir" and c: "properComp c" "\<not> hasPrefix c ''.tfreg-download-''" and plain: "plain dir f0"
  shows "triple (\<lambda>f. f = f0) (saveDownload dir (dir @ [c]) expected body)
    (\<lambda>r f. \<exists>tmp. tempIn dir tmp \<and> saved dir c tmp expected body f0 r f)"
  unfolding saveDownload_def
proof (rule triple_bindR)
  let ?W = "\<lambda>T. writing (dirStore dir) c T f0"
  have some: "\<exists>tmp. tempIn dir tmp \<and> saved dir c tmp expected body f0 (Inl e) f" if "?W {} f" for e f
  proof -
    have "tempIn dir (dir @ [''.tfreg-download-''])" by (auto simp: tempIn_def properComp_def hasPrefix_def)
    moreover have "?W {dir @ [''.tfreg-download-'']} f" using that by (auto simp: writing_def intro: kept_mono)
    ultimately show ?thesis by (auto simp: saved_def)
  qed
  have "?W {} f0" using plain by (simp add: writing_def dirStore_def)
  then show "triple (\<lambda>f. f = f0) (osMkdirAll dir) (\<lambda>_. ?W {})"
    using triple_mkdirAll_writing [OF dirStore_key(1,2) [OF dir c(1)], of "{}" f0] dirStore_key(4) [OF dir c(1)]
    by (auto elim!: triple_conseq)
  show "triple (?W {}) (bindR (osCreateTemp dir ''.tfreg-download-'' []) (\<lambda>(f, tmp).
     do { res \<leftarrow> bindR (copyAll f body) (\<lambda>data. bindR (State_Monad.return (checkSum expected data)) (\<lambda>_.
            bindR (osSync f) (\<lambda>_. bindR (osClose f) (\<lambda>_. renameTo tmp (dir @ [c])))));
          ignore (osClose f);
          (case res of Inl _ \<Rightarrow> ignore (osRemove tmp) | Inr _ \<Rightarrow> State_Monad.return ());
          State_Monad.return res }))
    (\<lambda>r f. \<exists>tmp. tempIn dir tmp \<and> saved dir c tmp expected body f0 r f)"
  proof (rule triple_bindR [OF triple_downloadTemp [OF dir c(1)]])
    fix x :: "path \<times> path"
    obtain h tmp where x: "x = (h, tmp)" by (cases x)
    show "triple (\<lambda>f. (\<forall>e. Inr x = Inl e \<longrightarrow> ?W {} f) \<and> (\<forall>h tmp. Inr x = Inr (h, tmp) \<longrightarrow>
            h = tmp \<and> tempIn dir tmp \<and> ?W {tmp} f \<and> tempHas tmp [] False f))
      (case x of (f, tmp) \<Rightarrow> do { res \<leftarrow> bindR (copyAll f body) (\<lambda>data. bindR (State_Monad.return (checkSum expected data)) (\<lambda>_.
            bindR (osSync f) (\<lambda>_. bindR (osClose f) (\<lambda>_. renameTo tmp (dir @ [c])))));
          ignore (osClose f);
          (case res of Inl _ \<Rightarrow> ignore (osRemove tmp) | Inr _ \<Rightarrow> State_Monad.return ());
          State_Monad.return res })
      (\<lambda>r f. \<exists>tmp. tempIn dir tmp \<and> saved dir c tmp expected body f0 r f)"
    proof (cases "h = tmp \<and> tempIn dir tmp")
      case True
      let ?S = "saved dir c tmp expected body f0"
      have rest: "triple (?S r) (State_Monad.bind (ignore (osClose tmp)) (\<lambda>_.
          State_Monad.bind (case r of Inl _ \<Rightarrow> ignore (osRemove tmp) | Inr _ \<Rightarrow> State_Monad.return ()) (\<lambda>_.
          State_Monad.return r))) (\<lambda>r f. \<exists>tmp. tempIn dir tmp \<and> saved dir c tmp expected body f0 r f)" for r
      proof (rule triple_bind)
        show "triple (?S r) (ignore (osClose tmp)) (\<lambda>_. ?S r)" by (rule readOnly_triple) (intro readonly)
        have "triple (?S r) (case r of Inl _ \<Rightarrow> ignore (osRemove tmp) | Inr _ \<Rightarrow> State_Monad.return ()) (\<lambda>_. ?S r)"
          using triple_cleanup(2) [OF tempOk_saved [OF dir c]] True
          by (auto intro!: triple_case_sum triple_return)
        then show "triple (?S r) (State_Monad.bind (case r of Inl _ \<Rightarrow> ignore (osRemove tmp) | Inr _ \<Rightarrow> State_Monad.return ())
            (\<lambda>_. State_Monad.return r)) (\<lambda>r f. \<exists>tmp. tempIn dir tmp \<and> saved dir c tmp expected body f0 r f)"
          by (rule triple_bind) (use True in \<open>auto intro!: triple_return\<close>)
      qed
      show ?thesis
        unfolding x prod.case
        using True by (auto intro!: triple_bind [OF _ rest] triple_weaken [OF triple_saveBody [OF dir c]])
    next
      case False
      then show ?thesis using x by (auto simp: triple_def)
    qed
  qed (use some in blast)
  show "?W {} f \<Longrightarrow> \<exists>tmp. tempIn dir tmp \<and> saved dir c tmp expected body f0 (Inl e) f" for e f by (rule some)
qed

text \<open>What the two outcomes leave in the files that are not temporary.\<close>

lemma tempIn_download: "tempIn dir tmp \<Longrightarrow> downloadTemp tmp"
  by (auto simp: tempIn_def downloadTemp_def)

lemma saved_objects:
  assumes key: "list_all properComp dir" "properComp c" and tmp: "tempIn dir tmp" and sv: "saved dir c tmp expected body f0 r f"
    and p: "\<not> downloadTemp p"
  shows "objAt f p = (if p = dir @ [c] \<and> r = Inr () then Some (sData body, True) else objAt f0 p)"
proof -
  have ne: "p \<noteq> tmp" using p tempIn_download [OF tmp] by auto
  note k = dirStore_key [OF key]
  show ?thesis
  proof (cases r)
    case (Inl e)
    then have "kept dir {tmp} f0 f" using sv k by (simp add: saved_def writing_def)
    then show ?thesis using kept_objects ne Inl by force
  next
    case (Inr u)
    then have w: "kept dir {tmp, dir @ [c]} f0 f" "tempHas (dir @ [c]) (sData body) True f"
      using sv k by (auto simp: saved_def written_def writing_def)
    show ?thesis
    proof (cases "p = dir @ [c]")
      case True
      then show ?thesis using w(2) Inr by (auto simp: tempHas_def objAt_def)
    next
      case False
      then show ?thesis using kept_objects [OF w(1)] ne Inr by simp
    qed
  qed
qed

lemma run_bindC: "run_state (bindC m k) c = (case run_state m c of (Inl e, c') \<Rightarrow> (Inl e, c') | (Inr x, c') \<Rightarrow> run_state (k x) c')"
  by (simp add: bindC_def split: prod.splits sum.splits)

lemma run_onDisk: "run_state (onDisk m) c = (case run_state m (disk c) of (r, w) \<Rightarrow> (r, c\<lparr>disk := w\<rparr>))"
  by (simp add: onDisk_def)

text \<open>A GET request, and what its answer can be.\<close>

definition getRequest :: "string \<Rightarrow> clientRequest" where
  "getRequest url = \<lparr>crMethod = ''GET'', crURL = url, crHeader = [], crFile = None\<rparr>"

lemma run_httpGet:
  "run_state (httpGet st url) c =
     (case urlError st url of
        Some e \<Rightarrow> (Inl e, c)
      | None \<Rightarrow> if crashed (disk c) then (Inl ErrCrashed, c)
                else (transport st (sent c) (getRequest url), c\<lparr>sent := sent c @ [getRequest url]\<rparr>))"
  by (simp add: httpGet_def run_bindC newRequest_def httpDo_def getRequest_def split: option.splits)

text \<open>
  C13.  A verified download is all or nothing and never wrong.  For every answer of the network, every failure of a
  system call and a crash at any point of \<^verbatim>\<open>downloadFileVerified\<close>: if it reports success, the registry answered with
  status 200, the whole body arrived, its SHA-256 digest is the expected one, and the destination holds exactly that
  body, synced to disk; otherwise the destination is what it was before.  No other file changes, except files
  with the name of a temporary download.
\<close>

theorem downloadFileVerified_safe:
  assumes "list_all properComp (workDir st)" "list_all properComp (cleanComps output)" "properComp name"
    and "\<not> hasPrefix name ''.tfreg-download-''"
    and "plain (osPath (workDir st) (filepathDir (filepathJoin output name))) (fs (disk c))"
    and "run_state (downloadFileVerified st url (filepathJoin output name) expected) c = (r, c')"
  shows "(\<exists>resp. r = Inr () \<and> transport st (sent c) (getRequest url) = Inr resp \<and> crStatus resp = 200 \<and>
            sErr (crBody resp) = None \<and> equalFold (sha256Hex (sData (crBody resp))) expected \<and>
            objAt (fs (disk c')) (osPath (workDir st) (filepathJoin output name)) = Some (sData (crBody resp), True) \<and>
            (\<forall>p. \<not> downloadTemp p \<and> p \<noteq> osPath (workDir st) (filepathJoin output name) \<longrightarrow>
               objAt (fs (disk c')) p = objAt (fs (disk c)) p)) \<or>
         (\<exists>e. r = Inl e \<and> (\<forall>p. \<not> downloadTemp p \<longrightarrow> objAt (fs (disk c')) p = objAt (fs (disk c)) p))"
proof -
  define dir where "dir = osPath (workDir st) (filepathDir (filepathJoin output name))"
  have all: "list_all properComp (cleanComps output @ [name])" using assms(2,3) by simp
  have dest: "osPath (workDir st) (filepathJoin output name) = dir @ [name]"
    and dir: "list_all properComp dir"
    using assms(1,2) osPath_cleanText [OF all] osPath_cleanText [OF assms(2)]
    by (simp_all add: dir_def filepathJoin_cleanText [OF assms(3)] filepathDir_cleanText [OF assms(2,3)])
  have nt: "\<not> downloadTemp (dir @ [name])" using assms(4) by (simp add: downloadTemp_def)
  show ?thesis
  proof (cases "length expected = 64 \<and> urlError st url = None \<and> \<not> crashed (disk c) \<and>
      (\<exists>resp. transport st (sent c) (getRequest url) = Inr resp \<and> crStatus resp = 200)")
    case False
    then have "(\<exists>e. r = Inl e) \<and> disk c' = disk c"
      using assms(6)
      by (auto simp: downloadFileVerified_def downloadFileWithChecksum_def run_bindC run_httpGet
          split: if_splits option.splits sum.splits prod.splits)
    then show ?thesis by auto
  next
    case True
    then obtain resp where resp: "transport st (sent c) (getRequest url) = Inr resp" "crStatus resp = 200" by blast
    obtain w' where sv: "run_state (saveDownload dir (dir @ [name]) expected (crBody resp)) (disk c) = (r, w')" "disk c' = w'"
      using assms(6) True resp
      by (auto simp: downloadFileVerified_def downloadFileWithChecksum_def run_bindC run_httpGet run_onDisk
          dest dir_def [symmetric] split: prod.splits)
    obtain tmp where tmp: "tempIn dir tmp" "saved dir name tmp expected (crBody resp) (fs (disk c)) r (fs (disk c'))"
      using tripleD [OF triple_saveDownload [OF dir assms(3,4) assms(5) [folded dir_def]] refl sv(1)] sv(2) by auto
    note obj = saved_objects [OF dir assms(3) tmp]
    show ?thesis
    proof (cases r)
      case (Inl e)
      then show ?thesis using obj by auto
    next
      case (Inr u)
      then have "sErr (crBody resp) = None" "checkSum expected (sData (crBody resp)) = Inr ()"
        using tmp(2) by (auto simp: saved_def)
      moreover have "expected \<noteq> []" using True by auto
      ultimately show ?thesis
        using Inr resp obj nt unfolding dest
        by (intro disjI1 exI [of _ resp]) (auto simp: checkSum_def Let_def split: if_splits)
    qed
  qed
qed

definition demoSetting :: setting where
  "demoSetting = \<lparr>environ = [''TFREG_API_KEY=k'', ''HOME=/h''], workDir = [''d''],
     transport = \<lambda>_ req. Inr \<lparr>crStatus = 200, crRespHeader = [], crBody = \<lparr>sData = ''zip'', sErr = None\<rparr>\<rparr>,
     urlError = \<lambda>_. None, boundary = ''b'', osText = \<lambda>_. ''e''\<rparr>"

definition demoClient :: "(path \<times> node) list \<Rightarrow> fault list \<Rightarrow> unit client" where
  "demoClient nodes fl = \<lparr>disk = demoWorld nodes fl, stdin = \<lparr>sData = [], sErr = None\<rparr>, stdout = [], stderr = [], sent = [],
     remote = ()\<rparr>"

theorem downloadFileVerified_safe_witness:
  "let c = demoClient [([''d'', ''x''], File ''old'' True 0)] [Pass, Fail 0];
       r = run_state (downloadFileVerified demoSetting ''u'' (filepathJoin ''.'' ''a.zip'') (replicate 64 CHR ''0'')) c in
   list_all properComp (workDir demoSetting) \<and> list_all properComp (cleanComps ''.'') \<and> properComp ''a.zip'' \<and>
   plain (osPath (workDir demoSetting) (filepathDir (filepathJoin ''.'' ''a.zip''))) (fs (disk c)) \<and>
   objAt (fs (disk (snd r))) [''d'', ''x''] = Some (''old'', True)"
proof -
  define c where "c = demoClient [([''d'', ''x''], File ''old'' True 0)] [Pass, Fail 0]"
  obtain r c' where run: "run_state (downloadFileVerified demoSetting ''u'' (filepathJoin ''.'' ''a.zip'')
      (replicate 64 CHR ''0'')) c = (r, c')" by (rule prod.exhaust)
  have h: "list_all properComp (workDir demoSetting)" "list_all properComp (cleanComps ''.'')" "properComp ''a.zip''"
    "\<not> hasPrefix ''a.zip'' ''.tfreg-download-''"
    by (simp_all add: demoSetting_def properComp_def cleanComps_def hasPrefix_def)
  have paths: "osPath (workDir demoSetting) (filepathDir (filepathJoin ''.'' ''a.zip'')) = [''d'']"
    "osPath (workDir demoSetting) (filepathJoin ''.'' ''a.zip'') = [''d'', ''a.zip'']"
    by (code_simp)+
  have "plain (basePath demoStore) (fs (demoWorld [([''d'', ''x''], File ''old'' True 0)] [Pass, Fail 0]))"
    using demo_files [of "[([''d'', ''x''], File ''old'' True 0)]" "[Pass, Fail 0]"] by (simp add: storeOk_def)
  then have p: "plain (osPath (workDir demoSetting) (filepathDir (filepathJoin ''.'' ''a.zip''))) (fs (disk c))"
    unfolding paths by (simp add: demoStore_def c_def demoClient_def)
  have x: "\<not> downloadTemp [''d'', ''x'']" "[''d'', ''x''] \<noteq> [''d'', ''a.zip'']" "objAt (fs (disk c)) [''d'', ''x''] = Some (''old'', True)"
    by (simp_all add: downloadTemp_def hasPrefix_def c_def demoClient_def demoWorld_def objAt_def fsGet_def)
  have "objAt (fs (disk c')) [''d'', ''x''] = Some (''old'', True)"
    using downloadFileVerified_safe [OF h p run] x unfolding paths by metis
  then show ?thesis using h p run unfolding Let_def c_def [symmetric] by simp
qed

end
