(* ===== verification/BundleWalk.thy ===== *)
theory BundleWalk
  imports Bundle Download
begin

text \<open>
  What the walk of \<^verbatim>\<open>createTarGz\<close> collects: exactly the files and directories of the source none of whose
  components is on the list of excluded names.
\<close>

section \<open>Excluded names\<close>

definition privateDir :: "string \<Rightarrow> bool" where
  "privateDir c \<longleftrightarrow> c = ''.git'' \<or> c = ''.terraform''"

definition volatileName :: "string \<Rightarrow> bool" where
  "volatileName c \<longleftrightarrow>
     c = ''crash.log'' \<or> prefix ''crash.'' c \<and> suffix ''.log'' c \<or> suffix ''.tfstate'' c \<or>
     (\<exists>a b. c = a @ ''.tfstate.'' @ b)"

definition wantedPath :: "path \<Rightarrow> bool" where
  "wantedPath r \<longleftrightarrow> r \<noteq> [] \<and> list_all (\<lambda>c. \<not> privateDir c \<and> \<not> volatileName c) r"

lemma containsStr_splits: "containsStr s p \<longleftrightarrow> (\<exists>a b. s = a @ p @ b)"
proof (induction s)
  case (Cons c s)
  have "containsStr (c # s) p \<longleftrightarrow> prefix p (c # s) \<or> (\<exists>a b. s = a @ p @ b)"
    by (simp add: Cons hasPrefix_iff_prefix)
  also have "\<dots> \<longleftrightarrow> (\<exists>b. c # s = [] @ p @ b) \<or> (\<exists>a b. c # s = (c # a) @ p @ b)"
    by (auto simp: prefix_def)
  also have "\<dots> \<longleftrightarrow> (\<exists>a b. c # s = a @ p @ b)"
    by (metis append_Cons list.inject neq_Nil_conv)
  finally show ?case .
qed auto

lemma pathBase_join:
  assumes "list_all properComp r" "r \<noteq> []"
  shows "pathBase (joinWith ''/'' r) = last r"
proof -
  have l: "last r \<noteq> []" "CHR ''/'' \<notin> set (last r)" using assms by (auto simp: list_all_iff properComp_def dest: last_in_set)
  have j: "joinWith ''/'' r = (if butlast r = [] then last r else joinWith ''/'' (butlast r) @ ''/'' @ last r)"
    using joinWith_snoc [of "butlast r" "''/''" "last r"] append_butlast_last_id [OF assms(2)] by (metis joinWith.simps(2) append_Nil)
  have "last (joinWith ''/'' r) = last (last r)" using l(1) by (simp add: j)
  then have t: "trimRightCh CHR ''/'' (joinWith ''/'' r) = joinWith ''/'' r"
    using l join_nonempty [OF assms] by (intro trimRightCh_append) (auto dest: last_in_set)
  show ?thesis
    using join_nonempty [OF assms] splitAt_proper [OF assms] by (simp add: pathBase_def t Let_def)
qed

lemma exclude_iff:
  assumes "list_all properComp r" "r \<noteq> []"
  shows "excludeModuleBundlePath (relString r) \<longleftrightarrow> list_ex privateDir r \<or> volatileName (last r)"
  using assms(2) splitAt_proper [OF assms] pathBase_join [OF assms]
  by (auto simp: excludeModuleBundlePath_def relString_def privateDir_def volatileName_def Let_def
      hasPrefix_iff_prefix hasSuffix_iff_suffix containsStr_splits list_ex_iff)

lemma wantedPath_prefixes:
  assumes "list_all properComp r"
  shows "wantedPath r \<longleftrightarrow> r \<noteq> [] \<and> (\<forall>q. q \<noteq> [] \<and> prefix q r \<longrightarrow> \<not> excludeModuleBundlePath (relString q))"
proof -
  have ex: "excludeModuleBundlePath (relString q) \<longleftrightarrow> list_ex privateDir q \<or> volatileName (last q)"
    if "q \<noteq> []" "prefix q r" for q
    using that assms by (intro exclude_iff) (auto simp: prefix_def)
  have mem: "\<exists>q. q \<noteq> [] \<and> prefix q r \<and> last q = c" if "c \<in> set r" for c
  proof -
    obtain a b where "r = a @ c # b" using split_list [OF \<open>c \<in> set r\<close>] by blast
    then show ?thesis by (intro exI [of _ "a @ [c]"]) simp
  qed
  show ?thesis
  proof
    assume w: "wantedPath r"
    have "\<not> excludeModuleBundlePath (relString q)" if "q \<noteq> []" "prefix q r" for q
    proof -
      have "set q \<subseteq> set r" using that(2) by (auto simp: prefix_def)
      then show ?thesis
        using w ex [OF that] last_in_set [OF that(1)] by (auto simp: wantedPath_def list_all_iff list_ex_iff)
    qed
    then show "r \<noteq> [] \<and> (\<forall>q. q \<noteq> [] \<and> prefix q r \<longrightarrow> \<not> excludeModuleBundlePath (relString q))"
      using w by (auto simp: wantedPath_def)
  next
    assume a: "r \<noteq> [] \<and> (\<forall>q. q \<noteq> [] \<and> prefix q r \<longrightarrow> \<not> excludeModuleBundlePath (relString q))"
    have "\<not> privateDir c \<and> \<not> volatileName c" if "c \<in> set r" for c
    proof -
      obtain q where q: "q \<noteq> []" "prefix q r" "last q = c" using mem [OF \<open>c \<in> set r\<close>] by blast
      then have "\<not> list_ex privateDir q \<and> \<not> volatileName (last q)" using a ex by blast
      then show ?thesis using q(3) last_in_set [OF q(1)] by (auto simp: list_ex_iff)
    qed
    then show "wantedPath r" using a by (simp add: wantedPath_def list_all_iff)
  qed
qed

section \<open>Lexical order\<close>

text \<open>In the lexical order everything below a directory follows it without interruption.\<close>

lemma prefix_between: "p \<le> q \<Longrightarrow> q \<le> p @ y \<Longrightarrow> prefix p (q :: string list)"
proof (induction p arbitrary: q)
  case (Cons a p)
  obtain b q' where q: "q = b # q'" using Cons.prems(1) by (cases q) auto
  have "a = b" using Cons.prems by (auto simp: q Cons_le_Cons)
  then show ?case using Cons by (auto simp: q Cons_le_Cons)
qed simp

definition excl :: "path \<Rightarrow> bool" where
  "excl q \<longleftrightarrow> excludeModuleBundlePath (relString q)"

text \<open>
  The state of the walk before the paths \<open>L\<close>: the directory skipped last covers exactly those that lie below an
  excluded directory visited before.
\<close>

definition covers :: "path option \<Rightarrow> path \<Rightarrow> bool" where
  "covers skip r \<longleftrightarrow> (case skip of None \<Rightarrow> False | Some p \<Rightarrow> prefix p r)"

definition skipping :: "path option \<Rightarrow> path list \<Rightarrow> bool" where
  "skipping skip L \<longleftrightarrow>
     (\<forall>r \<in> set L. covers skip r \<longleftrightarrow> (\<exists>q. q \<noteq> [] \<and> strict_prefix q r \<and> excl q \<and> q \<notin> set L)) \<and>
     (\<forall>p. skip = Some p \<longrightarrow> (\<forall>r \<in> set L. p \<le> r))"

lemma skipping_keep:
  assumes sk: "skipping skip (r # L)" and dist: "sorted_wrt (<) (r # L)"
    and ok: "covers skip r \<or> \<not> excl r \<or> (\<forall>x \<in> set L. \<not> strict_prefix r x) \<or> r = []"
  shows "skipping skip L"
proof -
  have "covers skip x \<longleftrightarrow> (\<exists>q. q \<noteq> [] \<and> strict_prefix q x \<and> excl q \<and> q \<notin> set L)" if x: "x \<in> set L" for x
  proof
    assume "covers skip x"
    then show "\<exists>q. q \<noteq> [] \<and> strict_prefix q x \<and> excl q \<and> q \<notin> set L"
      using sk x by (auto simp: skipping_def)
  next
    assume "\<exists>q. q \<noteq> [] \<and> strict_prefix q x \<and> excl q \<and> q \<notin> set L"
    then obtain q where q: "q \<noteq> []" "strict_prefix q x" "excl q" "q \<notin> set L" by blast
    show "covers skip x"
    proof (cases "q = r")
      case True
      then have "covers skip r" using ok q x by auto
      then show ?thesis using q(2) True by (auto simp: covers_def split: option.splits dest: prefix_order.less_imp_le prefix_order.trans)
    next
      case False
      then show ?thesis using sk x q by (auto simp: skipping_def)
    qed
  qed
  then show ?thesis using sk by (auto simp: skipping_def)
qed

lemma skipping_new:
  assumes sk: "skipping skip (r # L)" and dist: "sorted_wrt (<) (r # L)" and ex: "excl r" "r \<noteq> []" and nc: "\<not> covers skip r"
  shows "skipping (Some r) L"
proof -
  have lt: "r < x" if "x \<in> set L" for x using dist that by simp
  have "covers (Some r) x \<longleftrightarrow> (\<exists>q. q \<noteq> [] \<and> strict_prefix q x \<and> excl q \<and> q \<notin> set L)" if x: "x \<in> set L" for x
  proof
    assume "covers (Some r) x"
    then have "strict_prefix r x" using lt [OF x] by (auto simp: covers_def strict_prefix_def)
    then show "\<exists>q. q \<noteq> [] \<and> strict_prefix q x \<and> excl q \<and> q \<notin> set L" using ex lt by blast
  next
    assume "\<exists>q. q \<noteq> [] \<and> strict_prefix q x \<and> excl q \<and> q \<notin> set L"
    then obtain q where q: "q \<noteq> []" "strict_prefix q x" "excl q" "q \<notin> set L" by blast
    show "covers (Some r) x"
    proof (cases "q = r")
      case True
      then show ?thesis using q(2) by (simp add: covers_def strict_prefix_def)
    next
      case False
      then have "covers skip x" using sk x q by (auto simp: skipping_def)
      then obtain p where p: "skip = Some p" "prefix p x" by (auto simp: covers_def split: option.splits)
      then obtain y where y: "x = p @ y" by (auto simp: prefix_def)
      have "p \<le> r" using sk p(1) by (auto simp: skipping_def)
      then have "prefix p r" using lt [OF x] y by (intro prefix_between [where y = y]) auto
      then show ?thesis using nc p(1) by (simp add: covers_def)
    qed
  qed
  then show ?thesis using lt by (auto simp: skipping_def dest: less_imp_le)
qed

lemma skipping_start:
  assumes "\<And>r q. r \<in> set L \<Longrightarrow> q \<noteq> [] \<Longrightarrow> strict_prefix q r \<Longrightarrow> q \<in> set L"
  shows "skipping None L"
  using assms by (auto simp: skipping_def covers_def)

text \<open>Of what is not covered, all directories above have been visited.\<close>

lemma skipping_head:
  assumes "skipping skip (r # L)" "sorted_wrt (<) (r # L)" "list_all properComp r" "r \<noteq> []"
  shows "wantedPath r \<longleftrightarrow> \<not> covers skip r \<and> \<not> excl r"
proof -
  have before: "q \<notin> set (r # L)" if "strict_prefix q r" for q
    using strict_prefix_less [OF that] assms(2) by (auto simp: less_imp_not_less)
  have "covers skip r \<longleftrightarrow> (\<exists>q. q \<noteq> [] \<and> strict_prefix q r \<and> excl q)"
    using assms(1) before by (auto simp: skipping_def)
  then show ?thesis
    using wantedPath_prefixes [OF assms(3)] assms(4) by (auto simp: excl_def strict_prefix_def)
qed

section \<open>The entries\<close>

fun entryOf :: "path \<times> node \<Rightarrow> bundleEntry" where
  "entryOf (r, Dir) = DirEntry (relString r)"
| "entryOf (r, File d sy t) = FileEntry (relString r) d"
| "entryOf (r, Link target t) = DirEntry (relString r)"

definition bundled :: "path \<Rightarrow> path \<Rightarrow> path \<times> node \<Rightarrow> bool" where
  "bundled root dest rn \<longleftrightarrow> wantedPath (fst rn) \<and> root @ fst rn \<noteq> dest"

definition isLink :: "node \<Rightarrow> bool" where
  "isLink n \<longleftrightarrow> (\<exists>t m. n = Link t m)"

lemma fsTree_noLink: "fsTree f \<Longrightarrow> fsGet f p = Some n \<Longrightarrow> \<not> isLink n \<Longrightarrow> noLinkTo f p"
  unfolding noLinkTo_def isLink_def
proof (intro allI impI)
  fix q t m assume a: "fsTree f" "fsGet f p = Some n" "\<nexists>t m. n = Link t m" "prefix q p"
  show "fsGet f q \<noteq> Some (Link t m)"
  proof (cases "q = p")
    case False
    then show ?thesis using fsTree_strict [OF a(1), of p q] a by (simp add: strict_prefix_def)
  qed (use a in auto)
qed

lemma readOnly_readHandle [readonly]: "readOnly (readHandle h)"
  by (auto simp: readOnly_def readHandle_def split: list.splits fault.splits)

lemma readOnly_copyFile [readonly]: "readOnly (copyFile p)"
  unfolding copyFile_def by (intro readonly)

lemma readHandle_data:
  "run_state (readHandle h) w = (r, w') \<Longrightarrow> sErr r = None \<Longrightarrow> \<exists>sy t. fsGet (fs w) h = Some (File (sData r) sy t)"
  by (auto simp: readHandle_def handleContent_def split: if_splits list.splits fault.splits option.splits node.splits)

lemma triple_copyFile:
  assumes "list_all properComp p" "noLinkTo f1 p"
  shows "triple (\<lambda>f. f = f1) (copyFile p)
    (\<lambda>c f. f = f1 \<and> (\<forall>x. c = Inr x \<longrightarrow> (\<exists>sy t. fsGet f1 p = Some (File x sy t))))"
  unfolding copyFile_def
proof (rule triple_bindR)
  show "triple (\<lambda>f. f = f1) (osOpen p) (\<lambda>r f. f = f1 \<and> (\<forall>h. r = Inr h \<longrightarrow> h = p))"
    unfolding osOpen_def
    by (rule triple_query) (use canon_plain [OF assms(1), of f1 "[]"] assms(2) in \<open>auto split: sum.splits\<close>)
  fix h
  show "triple (\<lambda>f. f = f1 \<and> (\<forall>h'. Inr h = Inr h' \<longrightarrow> h' = p))
    (do { r \<leftarrow> readHandle h; cl \<leftarrow> osClose h;
          State_Monad.return (case sErr r of Some e \<Rightarrow> Inl e
             | None \<Rightarrow> (case cl of Inl e \<Rightarrow> Inl e | Inr _ \<Rightarrow> Inr (sData r))) })
    (\<lambda>c f. f = f1 \<and> (\<forall>x. c = Inr x \<longrightarrow> (\<exists>sy t. fsGet f1 p = Some (File x sy t))))"
  proof (rule triple_bind)
    show "triple (\<lambda>f. f = f1 \<and> (\<forall>h'. Inr h = Inr h' \<longrightarrow> h' = p)) (readHandle h)
        (\<lambda>r f. f = f1 \<and> (sErr r = None \<longrightarrow> (\<exists>sy t. fsGet f1 p = Some (File (sData r) sy t))))"
      unfolding triple_def
    proof (intro allI impI)
      fix w r w' assume P: "fs w = f1 \<and> (\<forall>h'. Inr h = Inr h' \<longrightarrow> h' = p)" and run: "run_state (readHandle h) w = (r, w')"
      show "fs w' = f1 \<and> (sErr r = None \<longrightarrow> (\<exists>sy t. fsGet f1 p = Some (File (sData r) sy t)))"
        using readOnlyD [OF readOnly_readHandle run] readHandle_data [OF run] P by auto
    qed
    fix r
    show "triple (\<lambda>f. f = f1 \<and> (sErr r = None \<longrightarrow> (\<exists>sy t. fsGet f1 p = Some (File (sData r) sy t))))
      (State_Monad.bind (osClose h) (\<lambda>cl. State_Monad.return (case sErr r of Some e \<Rightarrow> Inl e
             | None \<Rightarrow> (case cl of Inl e \<Rightarrow> Inl e | Inr _ \<Rightarrow> Inr (sData r)))))
      (\<lambda>c f. f = f1 \<and> (\<forall>x. c = Inr x \<longrightarrow> (\<exists>sy t. fsGet f1 p = Some (File x sy t))))"
      by (rule triple_bind [OF readOnly_triple]) (auto intro: readonly intro!: triple_return split: option.splits sum.splits)
  qed
qed simp

section \<open>The law of the walk\<close>

text \<open>What holds of the paths to visit: they exist below the root, in lexical order.\<close>

definition visits :: "fsys \<Rightarrow> path \<Rightarrow> (path \<times> node) list \<Rightarrow> bool" where
  "visits f root L \<longleftrightarrow> sorted_wrt (<) (map fst L) \<and>
     (\<forall>(r, n) \<in> set L. fsGet f (root @ r) = Some n \<and> list_all properComp (root @ r))"

lemma visits_Cons:
  "visits f root ((r, n) # L) \<longleftrightarrow> visits f root L \<and> (\<forall>x \<in> fst ` set L. r < x) \<and>
     fsGet f (root @ r) = Some n \<and> list_all properComp (root @ r)"
  by (auto simp: visits_def)

text \<open>A file has nothing below it.\<close>

lemma visits_file:
  assumes "fsTree f" "visits f root ((r, File d sy t) # L)"
  shows "\<forall>x \<in> set (map fst L). \<not> strict_prefix r x"
proof
  fix x assume x: "x \<in> set (map fst L)"
  then obtain n where n: "fsGet f (root @ x) = Some n" using assms(2) by (auto simp: visits_def)
  show "\<not> strict_prefix r x"
  proof
    assume "strict_prefix r x"
    then have "strict_prefix (root @ r) (root @ x)" by (auto simp: strict_prefix_def)
    then show False using fsTree_strict [OF assms(1), of "root @ x" "root @ r"] n assms(2) by (auto simp: visits_Cons)
  qed
qed

definition collected :: "path \<Rightarrow> path \<Rightarrow> (path \<times> node) list \<Rightarrow> bundleEntry list \<Rightarrow> bundleEntry list \<times> error option \<Rightarrow> bool" where
  "collected root dest L acc res \<longleftrightarrow>
     snd res = None \<longrightarrow> fst res = acc @ map entryOf (filter (bundled root dest) L) \<and>
       list_all (\<lambda>(r, n). bundled root dest (r, n) \<longrightarrow> \<not> isLink n) L"

lemma triple_bundleWalk:
  assumes tree: "fsTree f1"
    and dest: "fsGet f1 dest \<noteq> Some Dir"
  shows "visits f1 root L \<Longrightarrow> skipping skip (map fst L) \<Longrightarrow>
    triple (\<lambda>f. f = f1) (bundleWalk sd root root dest skip acc L) (\<lambda>res f. f = f1 \<and> collected root dest L acc res)"
proof (induction L arbitrary: skip acc)
  case Nil
  show ?case by (auto intro!: triple_return simp: collected_def)
next
  case (Cons rn L)
  obtain r n where rn: "rn = (r, n)" by (cases rn)
  have v: "visits f1 root L" "fsGet f1 (root @ r) = Some n" "list_all properComp (root @ r)"
    and srt: "sorted_wrt (<) (r # map fst L)"
    using Cons.prems(1) by (auto simp: rn visits_def)
  have sk: "skipping skip (r # map fst L)" using Cons.prems(2) by (simp add: rn)
  have head: "r \<noteq> [] \<Longrightarrow> wantedPath r \<longleftrightarrow> \<not> covers skip r \<and> \<not> excl r"
    using skipping_head [OF sk srt] v(3) by simp
  have skip_nil: "covers skip r \<Longrightarrow> \<not> wantedPath r" using head by (auto simp: wantedPath_def)
  have pass: "triple (\<lambda>f. f = f1) (bundleWalk sd root root dest sk' acc L)
      (\<lambda>res f. f = f1 \<and> collected root dest (rn # L) acc res)"
    if "skipping sk' (map fst L)" "\<not> bundled root dest rn" for sk'
    by (rule triple_post [OF Cons.IH [OF v(1) that(1)]]) (use that(2) in \<open>auto simp: collected_def rn\<close>)
  have keep: "triple (\<lambda>f. f = f1) (bundleWalk sd root root dest sk' (acc @ [entryOf rn]) L)
      (\<lambda>res f. f = f1 \<and> collected root dest (rn # L) acc res)"
    if "skipping sk' (map fst L)" "bundled root dest rn" "\<not> isLink n" for sk'
    by (rule triple_post [OF Cons.IH [OF v(1) that(1)]]) (use that(2,3) in \<open>auto simp: collected_def rn\<close>)
  note keepsk = skipping_keep [OF sk srt]
  have cov: "(case skip of None \<Rightarrow> False | Some p \<Rightarrow> prefix p r) = covers skip r" by (simp add: covers_def)
  consider (covered) "covers skip r" | (dest) "\<not> covers skip r" "root @ r = dest"
    | (link) "\<not> covers skip r" "root @ r \<noteq> dest" "isLink n"
    | (root) "\<not> covers skip r" "root @ r \<noteq> dest" "\<not> isLink n" "r = []"
    | (out) "\<not> covers skip r" "root @ r \<noteq> dest" "\<not> isLink n" "r \<noteq> []" "excl r"
    | (here) "\<not> covers skip r" "root @ r \<noteq> dest" "\<not> isLink n" "r \<noteq> []" "\<not> excl r"
    by blast
  then show ?case
  proof cases
    case covered
    then show ?thesis
      using pass [of skip] keepsk skip_nil by (simp add: rn cov bundled_def)
  next
    case dest
    then obtain d sy t where "n = File d sy t \<or> isLink n" using v(2) assms(2) by (cases n) (auto simp: isLink_def)
    have nodir: "n \<noteq> Dir" using v(2) assms(2) dest by auto
    have "\<not> strict_prefix r x" if "x \<in> set (map fst L)" for x
    proof
      assume "strict_prefix r x"
      then have "strict_prefix (root @ r) (root @ x)" by (auto simp: strict_prefix_def)
      moreover have "fsGet f1 (root @ x) \<noteq> None" using v(1) that by (auto simp: visits_def)
      ultimately show False using fsTree_strict [OF tree, of "root @ x" "root @ r"] v(2) nodir by auto
    qed
    then show ?thesis
      using pass [of skip] keepsk dest by (simp add: rn cov bundled_def)
  next
    case link
    then show ?thesis
      by (auto simp: rn cov isLink_def collected_def intro!: triple_return split: node.splits)
  next
    case root
    then have "bundleWalk sd root root dest skip acc (rn # L) = bundleWalk sd root root dest skip acc L"
      by (cases n) (auto simp: rn cov isLink_def)
    then show ?thesis using pass [of skip] keepsk root by (simp add: rn bundled_def wantedPath_def)
  next
    case out
    then have nw: "\<not> bundled root dest rn" using head by (simp add: rn bundled_def)
    show ?thesis
    proof (cases n)
      case (File d sy t)
      have "skipping skip (map fst L)" using keepsk visits_file [OF tree] Cons.prems(1) by (auto simp: rn File)
      then show ?thesis using out pass [OF _ nw] File by (simp add: rn cov excl_def)
    next
      case Dir
      have "skipping (Some r) (map fst L)" using skipping_new [OF sk srt out(5,4,1)] .
      then show ?thesis using out pass [OF _ nw] Dir by (simp add: rn cov excl_def)
    next
      case (Link t m)
      then show ?thesis using out by (simp add: isLink_def)
    qed
  next
    case here
    then have w: "bundled root dest rn" using head by (simp add: rn bundled_def)
    have sk': "skipping skip (map fst L)" using keepsk here by blast
    show ?thesis
    proof (cases n)
      case (File d sy t)
      have nl: "noLinkTo f1 (root @ r)" using fsTree_noLink [OF tree v(2) here(3)] .
      have "triple (\<lambda>f. f = f1) (State_Monad.bind (copyFile (root @ r)) (\<lambda>c. case c of
            Inl e \<Rightarrow> State_Monad.return (acc, Some e)
          | Inr contents \<Rightarrow> bundleWalk sd root root dest skip (acc @ [FileEntry (relString r) contents]) L))
          (\<lambda>res f. f = f1 \<and> collected root dest (rn # L) acc res)"
      proof (rule triple_bind [OF triple_copyFile [OF v(3) nl]], rule triple_case_sum)
        fix c :: "bytes result" and e
        show "triple (\<lambda>f. f = f1 \<and> (\<forall>x. c = Inr x \<longrightarrow> (\<exists>sy t. fsGet f1 (root @ r) = Some (File x sy t))))
           (State_Monad.return (acc, Some e)) (\<lambda>res f. f = f1 \<and> collected root dest (rn # L) acc res)"
          by (rule triple_return) (simp add: collected_def)
      next
        fix c :: "bytes result" and x assume c: "c = Inr x"
        show "triple (\<lambda>f. f = f1 \<and> (\<forall>x. c = Inr x \<longrightarrow> (\<exists>sy t. fsGet f1 (root @ r) = Some (File x sy t))))
           (bundleWalk sd root root dest skip (acc @ [FileEntry (relString r) x]) L)
           (\<lambda>res f. f = f1 \<and> collected root dest (rn # L) acc res)"
        proof (cases "x = d")
          case True
          then show ?thesis using keep [OF sk' w here(3)] File by (auto simp: rn c elim!: triple_weaken)
        next
          case False
          then show ?thesis using v(2) File c by (auto simp: triple_def)
        qed
      qed
      then show ?thesis using here File by (simp add: rn cov excl_def)
    next
      case Dir
      then show ?thesis using here keep [OF sk' w] by (simp add: rn cov excl_def isLink_def)
    next
      case (Link t m)
      then show ?thesis using here by (simp add: isLink_def)
    qed
  qed
qed

section \<open>The directory tree as a list\<close>

text \<open>Names of files are proper components.\<close>

definition fsNames :: "fsys \<Rightarrow> bool" where
  "fsNames f \<longleftrightarrow> (\<forall>p. fsGet f p \<noteq> None \<longrightarrow> list_all properComp p)"

lemma sorted_wrt_remdups: "sorted_wrt (<) (sort (remdups xs))" for xs :: "'a :: linorder list"
  using strict_sorted_iff [of "sort (remdups xs)"] by simp

lemma below_image: "(\<exists>k \<in> K. strict_prefix p k \<and> x = drop (length p) k) \<longleftrightarrow> x \<noteq> [] \<and> p @ x \<in> K"
  by (force simp: strict_prefix_def prefix_def)

lemma walkNodes_dir:
  assumes "fsGet f root = Some Dir"
  shows "(r, n) \<in> set (walkNodes f root) \<longleftrightarrow> fsGet f (root @ r) = Some n"
    and "sorted_wrt (<) (map fst (walkNodes f root))"
proof -
  define below where "below = sort (remdups (map (drop (length root)) (filter (\<lambda>k. strict_prefix root k) (map fst f))))"
  have nodes: "walkNodes f root = ([], Dir) # map (\<lambda>r. (r, case fsGet f (root @ r) of Some n \<Rightarrow> n | None \<Rightarrow> Dir)) below"
    using assms by (simp add: walkNodes_def below_def)
  have mem: "x \<in> set below \<longleftrightarrow> x \<noteq> [] \<and> fsGet f (root @ x) \<noteq> None" for x
  proof -
    have "x \<in> set below \<longleftrightarrow> (\<exists>k \<in> set (map fst f). strict_prefix root k \<and> x = drop (length root) k)"
      by (auto simp: below_def)
    also have "\<dots> \<longleftrightarrow> x \<noteq> [] \<and> root @ x \<in> set (map fst f)"
      by (rule below_image)
    also have "\<dots> \<longleftrightarrow> x \<noteq> [] \<and> fsGet f (root @ x) \<noteq> None"
      using map_of_eq_None_iff [of f "root @ x"] by (auto simp: fsGet_def simp del: not_None_eq)
    finally show ?thesis .
  qed
  show "(r, n) \<in> set (walkNodes f root) \<longleftrightarrow> fsGet f (root @ r) = Some n"
    using mem [of r] assms by (cases "r = []") (auto simp: nodes)
  have "sorted_wrt (<) below" unfolding below_def by (rule sorted_wrt_remdups)
  moreover have "[] < x" if "x \<in> set below" for x using mem [of x] that by (cases x) auto
  ultimately show "sorted_wrt (<) (map fst (walkNodes f root))"
    by (simp add: nodes comp_def)
qed

lemma walkNodes_visits:
  assumes "fsGet f root = Some Dir" "fsNames f" "fsTree f"
  shows "visits f root (walkNodes f root)" "skipping None (map fst (walkNodes f root))"
proof -
  show "visits f root (walkNodes f root)"
    unfolding visits_def
  proof (intro conjI)
    show "\<forall>(r, n) \<in> set (walkNodes f root). fsGet f (root @ r) = Some n \<and> list_all properComp (root @ r)"
    proof (clarify, intro conjI)
      fix r n assume "(r, n) \<in> set (walkNodes f root)"
      then show get: "fsGet f (root @ r) = Some n" using walkNodes_dir(1) [OF assms(1)] by simp
      show "list_all properComp (root @ r)" using assms(2) get unfolding fsNames_def by blast
    qed
  qed (rule walkNodes_dir(2) [OF assms(1)])
  show "skipping None (map fst (walkNodes f root))"
  proof (rule skipping_start)
    fix r q assume r: "r \<in> set (map fst (walkNodes f root))" and q: "q \<noteq> []" "strict_prefix q r"
    obtain n where "(r, n) \<in> set (walkNodes f root)" using r by auto
    then have "fsGet f (root @ r) \<noteq> None" using walkNodes_dir(1) [OF assms(1)] by auto
    moreover have "strict_prefix (root @ q) (root @ r)" using q(2) by (auto simp: strict_prefix_def)
    ultimately have "fsGet f (root @ q) = Some Dir" using fsTree_strict [OF assms(3)] by blast
    then show "q \<in> set (map fst (walkNodes f root))" using walkNodes_dir(1) [OF assms(1), of q Dir] by force
  qed
qed

section \<open>The source\<close>

lemma rootPlace_dir:
  assumes "fsGet f p = Some Dir" "fsTree f" "list_all properComp p"
  shows "rootPlace f p = Inr p"
proof (cases "p = []")
  case True
  then show ?thesis by (simp add: rootPlace_def)
next
  case False
  have l: "last p \<noteq> ''.''" "last p \<noteq> ''..''" using assms(3) False by (auto simp: list_all_iff properComp_def dest: last_in_set)
  have par: "fsGet f (butlast p) = Some Dir" using fsTree_butlast [OF assms(2)] assms(1) by simp
  have pp: "list_all properComp (butlast p)" using assms(3) by (auto simp: list_all_iff dest: in_set_butlastD)
  have "dirsTo f (butlast p)" using assms(2) par by (simp add: fsTree_def)
  then have "canon False f kernelLinks [] (butlast p) = Inr (butlast p)"
    using canon_dirs [of "butlast p" f "[]" False] par pp by simp
  then show ?thesis using False l par by (simp add: rootPlace_def place_def)
qed

lemma cleanGo_filter:
  "list_all properComp (filter (\<lambda>c. c \<noteq> [] \<and> c \<noteq> ''.'') cs) \<Longrightarrow>
     cleanGo r acc cs = rev acc @ filter (\<lambda>c. c \<noteq> [] \<and> c \<noteq> ''.'') cs"
  by (induction cs arbitrary: acc) (auto simp: properComp_def)

lemma filepathAbs_proper:
  assumes "list_all properComp (osPath cwd p)"
  shows "filepathAbs cwd p = osPath cwd p"
proof -
  let ?cs = "filter (\<lambda>c. c \<noteq> [] \<and> c \<noteq> ''.'') (splitAt CHR ''/'' p)"
  have cs: "list_all properComp ?cs" using assms by (auto simp: osPath_def Let_def)
  have "\<not> properComp ''.''" by (simp add: properComp_def)
  then have "osPath cwd p = (if hasPrefix p ''/'' then [] else cwd) @ ?cs"
    using assms by (auto simp: osPath_def Let_def split: if_splits)
  then show ?thesis using cleanGo_filter [OF cs] by (simp add: filepathAbs_def joinPath_def)
qed

lemma triple_walkSource:
  assumes "fsTree f1" "fsNames f1" "fsGet f1 (osPath cwd src) = Some Dir" "fsGet f1 dest \<noteq> Some Dir" "src \<noteq> []"
  shows "triple (\<lambda>f. f = f1) (walkSource cwd src dest)
    (\<lambda>res f. f = f1 \<and> collected (osPath cwd src) dest (walkNodes f1 (osPath cwd src)) [] res)"
proof -
  let ?root = "osPath cwd src"
  have proper: "list_all properComp ?root" using assms(2,3) by (auto simp: fsNames_def)
  have absr: "filepathAbs cwd src = ?root" by (rule filepathAbs_proper [OF proper])
  have walk: "triple (\<lambda>f. f = f1) (osWalkNodes ?root) (\<lambda>r f. f = f1 \<and> (\<forall>ns. r = Inr ns \<longrightarrow> ns = walkNodes f1 ?root))"
    unfolding osWalkNodes_def
    by (rule triple_query) (use rootPlace_dir [OF assms(3,1) proper] in auto)
  have "triple (\<lambda>f. f = f1) (State_Monad.bind (osWalkNodes ?root) (\<lambda>ns. case ns of
           Inl e \<Rightarrow> State_Monad.return ([], Some e)
         | Inr nodes \<Rightarrow> bundleWalk src ?root ?root dest None [] nodes))
      (\<lambda>res f. f = f1 \<and> collected ?root dest (walkNodes f1 ?root) [] res)"
  proof (rule triple_bind [OF walk], rule triple_case_sum)
    fix ns :: "(path \<times> node) list result" and e
    show "triple (\<lambda>f. f = f1 \<and> (\<forall>l. ns = Inr l \<longrightarrow> l = walkNodes f1 ?root)) (State_Monad.return ([], Some e))
        (\<lambda>res f. f = f1 \<and> collected ?root dest (walkNodes f1 ?root) [] res)"
      by (rule triple_return) (simp add: collected_def)
  next
    fix ns :: "(path \<times> node) list result" and l assume ns: "ns = Inr l"
    show "triple (\<lambda>f. f = f1 \<and> (\<forall>l. ns = Inr l \<longrightarrow> l = walkNodes f1 ?root)) (bundleWalk src ?root ?root dest None [] l)
        (\<lambda>res f. f = f1 \<and> collected ?root dest (walkNodes f1 ?root) [] res)"
    proof (cases "l = walkNodes f1 ?root")
      case True
      then show ?thesis
        using triple_bundleWalk [OF assms(1,4) walkNodes_visits [OF assms(3,2,1)], of src "[]"] ns
        by (auto elim!: triple_weaken)
    next
      case False
      then show ?thesis using ns by (auto simp: triple_def)
    qed
  qed
  then show ?thesis using assms(5) by (simp add: walkSource_def absr)
qed

end
