(* ===== verification/BundleSafety.thy ===== *)
theory BundleSafety
  imports BundleWalk
begin

text \<open>
  \<^verbatim>\<open>createTarGz\<close> as a whole: what a module bundle contains, whatever fails, and why the server accepts it.
\<close>

section \<open>The contents of a bundle\<close>

text \<open>
  The entries packed from the directory \<open>root\<close> of \<open>f0\<close> into an archive in \<open>dir\<close>: its wanted files with their
  contents, its wanted directories (and directories made on the way to the archive), and no link.
\<close>

definition bundleOf :: "fsys \<Rightarrow> path \<Rightarrow> path \<Rightarrow> path \<Rightarrow> bundleEntry list \<Rightarrow> bool" where
  "bundleOf f0 root dir dest es \<longleftrightarrow>
     (\<forall>name data. FileEntry name data \<in> set es \<longleftrightarrow>
        (\<exists>r sy t. wantedPath r \<and> root @ r \<noteq> dest \<and> name = relString r \<and> fsGet f0 (root @ r) = Some (File data sy t))) \<and>
     (\<forall>r. wantedPath r \<and> root @ r \<noteq> dest \<and> fsGet f0 (root @ r) = Some Dir \<longrightarrow> DirEntry (relString r) \<in> set es) \<and>
     (\<forall>name. DirEntry name \<in> set es \<longrightarrow>
        (\<exists>r. wantedPath r \<and> list_all properComp r \<and> name = relString r \<and>
           (fsGet f0 (root @ r) = Some Dir \<or> prefix (root @ r) dir))) \<and>
     (\<forall>r target m. wantedPath r \<and> root @ r \<noteq> dest \<longrightarrow> fsGet f0 (root @ r) \<noteq> Some (Link target m)) \<and>
     distinct (map entryName es)"

lemma relString_inj:
  assumes "list_all properComp r" "list_all properComp q" "r \<noteq> []" "q \<noteq> []" "relString r = relString q"
  shows "r = q"
proof -
  have "joinWith ''/'' r = joinWith ''/'' q" using assms(3-5) by (simp add: relString_def)
  then show ?thesis using splitAt_proper [OF assms(1,3)] splitAt_proper [OF assms(2,4)] by metis
qed

lemma entryName_of [simp]: "entryName (entryOf rn) = relString (fst rn)"
  by (cases rn rule: entryOf.cases) simp_all

lemma collected_bundleOf:
  assumes f1: "fsTree f1" "fsNames f1" "fsGet f1 root = Some Dir"
    and kept: "kept dir {dest} f0 f1" and dest: "fsGet f1 dest = Some (File [] False t)"
    and col: "collected root dest (walkNodes f1 root) [] (es, None)"
  shows "bundleOf f0 root dir dest es"
proof -
  let ?L = "filter (bundled root dest) (walkNodes f1 root)"
  have es: "es = map entryOf ?L" and nolink: "\<And>r n. (r, n) \<in> set (walkNodes f1 root) \<Longrightarrow> bundled root dest (r, n) \<Longrightarrow> \<not> isLink n"
    using col by (auto simp: collected_def list_all_iff)
  have mem: "(r, n) \<in> set ?L \<longleftrightarrow> wantedPath r \<and> root @ r \<noteq> dest \<and> fsGet f1 (root @ r) = Some n" for r n
    using walkNodes_dir(1) [OF f1(3), of r n] by (auto simp: bundled_def)
  have same: "fsGet f1 p = fsGet f0 p \<or> prefix p dir \<and> fsGet f0 p = None \<and> fsGet f1 p = Some Dir" if "p \<noteq> dest" for p
    using kept that by (auto simp: kept_def)
  have proper: "list_all properComp r" if "fsGet f1 (root @ r) = Some n" for r n
    using f1(2) that unfolding fsNames_def by (metis list_all_append option.distinct(1))
  have fileIn: "e \<in> set es \<longleftrightarrow> (\<exists>r n. wantedPath r \<and> root @ r \<noteq> dest \<and> fsGet f1 (root @ r) = Some n \<and> e = entryOf (r, n))" for e
  proof -
    have "e \<in> set es \<longleftrightarrow> (\<exists>x \<in> set ?L. e = entryOf x)" unfolding es by auto
    also have "\<dots> \<longleftrightarrow> (\<exists>r n. (r, n) \<in> set ?L \<and> e = entryOf (r, n))" by (metis prod.collapse)
    finally show ?thesis unfolding mem by blast
  qed
  have files: "FileEntry name data \<in> set es \<longleftrightarrow>
      (\<exists>r sy t. wantedPath r \<and> root @ r \<noteq> dest \<and> name = relString r \<and> fsGet f0 (root @ r) = Some (File data sy t))" for name data
  proof
    assume "FileEntry name data \<in> set es"
    then obtain r n where r: "wantedPath r" "root @ r \<noteq> dest" "fsGet f1 (root @ r) = Some n" "FileEntry name data = entryOf (r, n)"
      unfolding fileIn by blast
    then obtain sy t where "n = File data sy t" "name = relString r" by (cases n) auto
    then show "\<exists>r sy t. wantedPath r \<and> root @ r \<noteq> dest \<and> name = relString r \<and> fsGet f0 (root @ r) = Some (File data sy t)"
      using r(1-3) same [OF r(2)] by (intro exI [of _ r] exI [of _ sy] exI [of _ t]) auto
  next
    assume "\<exists>r sy t. wantedPath r \<and> root @ r \<noteq> dest \<and> name = relString r \<and> fsGet f0 (root @ r) = Some (File data sy t)"
    then obtain r sy t where r: "wantedPath r" "root @ r \<noteq> dest" "name = relString r" "fsGet f0 (root @ r) = Some (File data sy t)"
      by blast
    then have "fsGet f1 (root @ r) = Some (File data sy t)" using same [OF r(2)] by auto
    then show "FileEntry name data \<in> set es" unfolding fileIn using r by (intro exI [of _ r] exI [of _ "File data sy t"]) auto
  qed
  have dirs: "DirEntry (relString r) \<in> set es" if "wantedPath r" "root @ r \<noteq> dest" "fsGet f0 (root @ r) = Some Dir" for r
    unfolding fileIn using that same [OF that(2)] by (intro exI [of _ r] exI [of _ Dir]) auto
  have origin: "\<exists>r. wantedPath r \<and> list_all properComp r \<and> name = relString r \<and> (fsGet f0 (root @ r) = Some Dir \<or> prefix (root @ r) dir)"
    if d: "DirEntry name \<in> set es" for name
  proof -
    obtain r n where r: "wantedPath r" "root @ r \<noteq> dest" "fsGet f1 (root @ r) = Some n" "DirEntry name = entryOf (r, n)"
      using d unfolding fileIn by blast
    have "(r, n) \<in> set (walkNodes f1 root)" "bundled root dest (r, n)" using r walkNodes_dir(1) [OF f1(3)] by (auto simp: bundled_def)
    then have "\<not> isLink n" by (rule nolink)
    then have "n = Dir" "name = relString r" using r(4) by (cases n; auto simp: isLink_def)+
    then show ?thesis using r same [OF r(2)] proper [OF r(3)] by auto
  qed
  have links: "fsGet f0 (root @ r) \<noteq> Some (Link target m)" if "wantedPath r" "root @ r \<noteq> dest" for r target m
  proof
    assume "fsGet f0 (root @ r) = Some (Link target m)"
    then have "fsGet f1 (root @ r) = Some (Link target m)" using same [OF that(2)] by auto
    then have "(r, Link target m) \<in> set (walkNodes f1 root)" "bundled root dest (r, Link target m)"
      using that walkNodes_dir(1) [OF f1(3)] by (auto simp: bundled_def)
    then show False using nolink by (auto simp: isLink_def)
  qed
  have "distinct (map fst (walkNodes f1 root))"
    using walkNodes_dir(2) [OF f1(3)] strict_sorted_iff by blast
  then have dl: "distinct (map fst ?L)" by (rule distinct_map_filter)
  have "inj_on relString (fst ` set ?L)"
  proof (rule inj_onI)
    fix x y assume x: "x \<in> fst ` set ?L" "y \<in> fst ` set ?L" "relString x = relString y"
    then obtain n m where "(x, n) \<in> set ?L" "(y, m) \<in> set ?L" by fastforce
    then have "wantedPath x" "wantedPath y" "list_all properComp x" "list_all properComp y"
      unfolding mem using proper by blast+
    then show "x = y" using relString_inj x(3) by (simp add: wantedPath_def)
  qed
  then have "distinct (map relString (map fst ?L))" unfolding distinct_map [of relString] using dl by simp
  moreover have "map entryName es = map relString (map fst ?L)" by (simp add: es)
  ultimately have dist: "distinct (map entryName es)" by metis
  show ?thesis
    unfolding bundleOf_def using files dirs origin links dist by blast
qed

section \<open>Creating the archive\<close>

text \<open>The state while an archive \<open>dir @ [c]\<close> is being made: only that file and missing directories on the way to it change.\<close>

definition archiving :: "path \<Rightarrow> string \<Rightarrow> fsys \<Rightarrow> fsys \<Rightarrow> bool" where
  "archiving dir c f0 f \<longleftrightarrow> writing (dirStore dir) c {dir @ [c]} f0 f \<and> fsTree f \<and> fsNames f"

lemma writing_fsNames:
  assumes "list_all properComp dir" "properComp c" "fsNames f0" "writing (dirStore dir) c {dir @ [c]} f0 f"
  shows "fsNames f"
  unfolding fsNames_def
proof (intro allI impI)
  fix p assume p: "fsGet f p \<noteq> None"
  have "kept dir {dir @ [c]} f0 f" using assms(4) dirStore_key(4) [OF assms(1,2)] by (simp add: writing_def)
  then consider "p = dir @ [c]" | "fsGet f0 p \<noteq> None" | "prefix p dir" using p unfolding kept_def by fastforce
  then show "list_all properComp p"
  proof cases
    case 3
    then show ?thesis using assms(1) by (auto simp: prefix_def)
  next
    case 2
    then show ?thesis using assms(3) by (simp add: fsNames_def)
  qed (use assms(1,2) in simp)
qed

lemma triple_archiving:
  assumes "list_all properComp dir" "properComp c" "fsNames f0"
    and "triple (\<lambda>f. writing (dirStore dir) c {dir @ [c]} f0 f \<and> X f) m (\<lambda>r f. writing (dirStore dir) c {dir @ [c]} f0 f \<and> Y r f)"
    and "preserves fsTree m"
  shows "triple (\<lambda>f. archiving dir c f0 f \<and> X f) m (\<lambda>r f. archiving dir c f0 f \<and> Y r f)"
  by (rule triple_conseq [OF triple_conj [OF assms(4) assms(5) [unfolded preserves_def]]])
     (use writing_fsNames [OF assms(1-3)] in \<open>auto simp: archiving_def\<close>)

lemma archive_temp:
  assumes "list_all properComp dir" "properComp c"
  shows "tempOk (writing (dirStore dir) c {dir @ [c]} f0) (dir @ [c])"
  using tempOk_writing [OF dirStore_key(1,2) [OF assms] assms(2)] dirStore_key(4) [OF assms] by simp

text \<open>What the archive holds in the end.\<close>

definition archived :: "(bundleEntry list \<Rightarrow> bytes) \<Rightarrow> path \<Rightarrow> path \<Rightarrow> string \<Rightarrow> fsys \<Rightarrow> unit result \<Rightarrow> fsys \<Rightarrow> bool" where
  "archived encode root dir c f0 r f \<longleftrightarrow>
     archiving dir c f0 f \<and>
     (r = Inr () \<longrightarrow> (\<exists>es. tempHas (dir @ [c]) (encode es) False f \<and> bundleOf f0 root dir (dir @ [c]) es))"

lemma triple_finishArchive:
  assumes "list_all properComp dir" "properComp c" "fsNames f0"
    and err: "err = Inr () \<Longrightarrow> bundleOf f0 root dir (dir @ [c]) es"
  shows "triple (\<lambda>f. archiving dir c f0 f \<and> (err = Inr () \<longrightarrow> tempHas (dir @ [c]) (encode es) False f))
    (finishArchive h (dir @ [c]) err) (archived encode root dir c f0)"
  unfolding finishArchive_def
proof (rule triple_bind [OF readOnly_triple])
  let ?J = "\<lambda>f. archiving dir c f0 f \<and> (err = Inr () \<longrightarrow> tempHas (dir @ [c]) (encode es) False f)"
  show "readOnly (osClose h)" by (intro readonly)
  fix cl :: "unit result"
  have rm: "triple (\<lambda>f. archiving dir c f0 f \<and> True) (ignore (osRemove (dir @ [c]))) (\<lambda>_ f. archiving dir c f0 f \<and> True)"
    by (rule triple_archiving [OF assms(1-3)])
       (use triple_cleanup(2) [OF archive_temp [OF assms(1,2)]] in \<open>auto intro!: preserving elim!: triple_conseq\<close>)
  have fail: "triple ?J (State_Monad.bind (ignore (osRemove (dir @ [c]))) (\<lambda>_. State_Monad.return (Inl e)))
      (archived encode root dir c f0)" for e
    by (rule triple_bind [OF triple_weaken [OF rm]]) (auto intro!: triple_return simp: archived_def)
  have fin: "triple ?J (State_Monad.return (Inr ())) (archived encode root dir c f0)" if "err = Inr ()"
    by (rule triple_return) (use that err in \<open>auto simp: archived_def\<close>)
  show "triple ?J (case (case err of Inl e \<Rightarrow> Inl e | Inr _ \<Rightarrow> cl) of
      Inl e \<Rightarrow> State_Monad.bind (ignore (osRemove (dir @ [c]))) (\<lambda>_. State_Monad.return (Inl e))
    | Inr _ \<Rightarrow> State_Monad.return (Inr ())) (archived encode root dir c f0)"
    using fail fin by (cases err; cases cl) auto
qed

text \<open>The walk happens while the archive is an empty file.\<close>

lemma triple_collect:
  assumes dir: "list_all properComp dir" "properComp c" and f0: "fsNames f0" "fsGet f0 (osPath cwd src) = Some Dir"
    and src: "src \<noteq> []" "osPath cwd src \<noteq> dir @ [c]"
  shows "triple (\<lambda>f. archiving dir c f0 f \<and> tempHas (dir @ [c]) [] False f) (walkSource cwd src (dir @ [c]))
    (\<lambda>res f. archiving dir c f0 f \<and> tempHas (dir @ [c]) [] False f \<and>
       (snd res = None \<longrightarrow> bundleOf f0 (osPath cwd src) dir (dir @ [c]) (fst res)))"
proof (rule triple_pre)
  fix f1 assume a: "archiving dir c f0 f1 \<and> tempHas (dir @ [c]) [] False f1"
  have kept: "kept dir {dir @ [c]} f0 f1"
    using a dirStore_key(4) [OF dir] by (simp add: archiving_def writing_def)
  have root: "fsGet f1 (osPath cwd src) = Some Dir"
    using kept f0(2) src(2) by (auto simp: kept_def)
  have tree: "fsTree f1" "fsNames f1" using a by (simp_all add: archiving_def)
  obtain t where t: "fsGet f1 (dir @ [c]) = Some (File [] False t)" using a by (auto simp: tempHas_def)
  show "triple (\<lambda>f. f = f1) (walkSource cwd src (dir @ [c]))
    (\<lambda>res f. archiving dir c f0 f \<and> tempHas (dir @ [c]) [] False f \<and>
       (snd res = None \<longrightarrow> bundleOf f0 (osPath cwd src) dir (dir @ [c]) (fst res)))"
  proof (rule triple_post [OF triple_walkSource [OF tree root _ src(1)]])
    show "fsGet f1 (dir @ [c]) \<noteq> Some Dir" using t by simp
    fix res f assume r: "f = f1 \<and> collected (osPath cwd src) (dir @ [c]) (walkNodes f1 (osPath cwd src)) [] res"
    have "bundleOf f0 (osPath cwd src) dir (dir @ [c]) (fst res)" if "snd res = None"
      using collected_bundleOf [OF tree root kept t, of "fst res"] r that by (metis prod.collapse)
    then show "archiving dir c f0 f \<and> tempHas (dir @ [c]) [] False f \<and>
       (snd res = None \<longrightarrow> bundleOf f0 (osPath cwd src) dir (dir @ [c]) (fst res))"
      using r a by simp
  qed
qed

lemma triple_createTarGz:
  assumes dir: "list_all properComp dir" "properComp c"
    and paths: "osPath cwd (filepathDir dest) = dir" "osPath cwd dest = dir @ [c]" "filepathAbs cwd dest = dir @ [c]"
    and f0: "fsTree f0" "fsNames f0" "plain dir f0" "fsGet f0 (osPath cwd src) = Some Dir"
    and src: "src \<noteq> []" "osPath cwd src \<noteq> dir @ [c]"
  shows "triple (\<lambda>f. f = f0) (createTarGz aw cwd src dest) (archived (writeTarGz aw) (osPath cwd src) dir c f0)"
  unfolding createTarGz_def paths Let_def
proof (rule triple_bindR)
  let ?dest = "dir @ [c]" and ?root = "osPath cwd src"
  let ?Q = "archived (writeTarGz aw) ?root dir c f0"
  note arch = triple_archiving [OF dir f0(2)]
  have start: "archiving dir c f0 f0"
    using f0 by (simp add: archiving_def writing_def dirStore_def)
  have mk: "triple (\<lambda>f. archiving dir c f0 f \<and> True) (osMkdirAll dir) (\<lambda>_ f. archiving dir c f0 f \<and> True)"
    by (rule arch) (use triple_mkdirAll_writing [OF dirStore_key(1,2) [OF dir], of "{?dest}" f0] dirStore_key(4) [OF dir]
        in \<open>auto intro!: preserving elim!: triple_conseq\<close>)
  then show "triple (\<lambda>f. f = f0) (osMkdirAll dir) (\<lambda>_ f. archiving dir c f0 f)"
    using start by (auto elim!: triple_conseq)
  show "archiving dir c f0 f \<Longrightarrow> ?Q (Inl e) f" for e f by (simp add: archived_def)
  show "triple (archiving dir c f0) (bindR (osOpenFile ?dest) (\<lambda>f.
     do { (entries, walkErr) \<leftarrow> walkSource cwd src ?dest;
          wr \<leftarrow> osWrite f (writeTarGz aw entries);
          finishArchive f ?dest (case walkErr of Some e \<Rightarrow> Inl e | None \<Rightarrow> wr) })) ?Q"
  proof (rule triple_bindR)
    have "triple (\<lambda>f. archiving dir c f0 f \<and> True) (osOpenFile ?dest)
        (\<lambda>r f. archiving dir c f0 f \<and> (\<forall>h. r = Inr h \<longrightarrow> h = ?dest \<and> tempHas ?dest [] False f))"
      by (rule arch) (use triple_openTemp [OF archive_temp [OF dir]] in \<open>auto intro!: preserving\<close>)
    then show "triple (archiving dir c f0) (osOpenFile ?dest)
        (\<lambda>r f. archiving dir c f0 f \<and> (\<forall>h. r = Inr h \<longrightarrow> h = ?dest \<and> tempHas ?dest [] False f))" by simp
    fix h
    show "triple (\<lambda>f. archiving dir c f0 f \<and> (\<forall>h'. Inr h = Inr h' \<longrightarrow> h' = ?dest \<and> tempHas ?dest [] False f))
      (do { (entries, walkErr) \<leftarrow> walkSource cwd src ?dest;
          wr \<leftarrow> osWrite h (writeTarGz aw entries);
          finishArchive h ?dest (case walkErr of Some e \<Rightarrow> Inl e | None \<Rightarrow> wr) }) ?Q"
    proof (cases "h = ?dest")
      case True
      show ?thesis
      proof (rule triple_weaken [OF triple_bind [OF triple_collect [OF dir f0(2,4) src]]])
        fix res :: "bundleEntry list \<times> error option"
        obtain es err where res: "res = (es, err)" by (cases res)
        let ?P = "err = None \<longrightarrow> bundleOf f0 ?root dir ?dest es"
        have wr: "triple (\<lambda>f. archiving dir c f0 f \<and> tempHas ?dest [] False f) (osWrite ?dest (writeTarGz aw es))
            (\<lambda>r f. archiving dir c f0 f \<and> (r = Inr () \<longrightarrow> tempHas ?dest (writeTarGz aw es) False f))"
          by (rule arch) (use triple_writeTemp [OF archive_temp [OF dir]] in \<open>auto intro!: preserving\<close>)
        show "triple (\<lambda>f. archiving dir c f0 f \<and> tempHas ?dest [] False f \<and>
            (snd res = None \<longrightarrow> bundleOf f0 ?root dir ?dest (fst res)))
          (case res of (entries, walkErr) \<Rightarrow> State_Monad.bind (osWrite h (writeTarGz aw entries)) (\<lambda>wr.
             finishArchive h ?dest (case walkErr of Some e \<Rightarrow> Inl e | None \<Rightarrow> wr))) ?Q"
        proof (cases ?P)
          case good: True
          have "triple (\<lambda>f. archiving dir c f0 f \<and> tempHas ?dest [] False f)
            (State_Monad.bind (osWrite ?dest (writeTarGz aw es)) (\<lambda>wr.
               finishArchive ?dest ?dest (case err of Some e \<Rightarrow> Inl e | None \<Rightarrow> wr))) ?Q"
          proof (rule triple_bind [OF wr])
            fix w :: "unit result"
            show "triple (\<lambda>f. archiving dir c f0 f \<and> (w = Inr () \<longrightarrow> tempHas ?dest (writeTarGz aw es) False f))
              (finishArchive ?dest ?dest (case err of Some e \<Rightarrow> Inl e | None \<Rightarrow> w)) ?Q"
              by (rule triple_weaken [OF triple_finishArchive [OF dir f0(2)]])
                 (use good in \<open>auto split: option.splits\<close>)
          qed
          then show ?thesis unfolding res True by (auto elim!: triple_weaken)
        qed (auto simp: triple_def res)
      qed (use True in auto)
    qed (auto simp: triple_def)
  qed (simp add: archived_def)
qed

section \<open>A run of the command\<close>

lemma createTarGz_run:
  assumes "list_all properComp cwd" "list_all properComp (cleanComps output)" "properComp name"
    and "fsTree (fs w)" "fsNames (fs w)" "plain (osPath cwd (filepathDir (filepathJoin output name))) (fs w)"
    and "src \<noteq> []" "fsGet (fs w) (osPath cwd src) = Some Dir" "osPath cwd src \<noteq> osPath cwd (filepathJoin output name)"
    and "run_state (createTarGz aw cwd src (filepathJoin output name)) w = (r, w')"
  shows "p \<noteq> osPath cwd (filepathJoin output name) \<Longrightarrow> objAt (fs w') p = objAt (fs w) p"
    and "r = Inr () \<Longrightarrow>
       \<exists>es. objAt (fs w') (osPath cwd (filepathJoin output name)) = Some (writeTarGz aw es, False) \<and>
          bundleOf (fs w) (osPath cwd src) (osPath cwd (filepathDir (filepathJoin output name)))
            (osPath cwd (filepathJoin output name)) es"
    and "list_all properComp (osPath cwd (filepathDir (filepathJoin output name)))"
proof -
  define dir where "dir = osPath cwd (filepathDir (filepathJoin output name))"
  have all: "list_all properComp (cleanComps output @ [name])" using assms(2,3) by simp
  have dest: "osPath cwd (filepathJoin output name) = dir @ [name]" and dir: "list_all properComp dir"
    using assms(1,2) osPath_cleanText [OF all] osPath_cleanText [OF assms(2)]
    by (simp_all add: dir_def filepathJoin_cleanText [OF assms(3)] filepathDir_cleanText [OF assms(2,3)])
  then show "list_all properComp (osPath cwd (filepathDir (filepathJoin output name)))" by (simp add: dir_def)
  have "filepathAbs cwd (filepathJoin output name) = dir @ [name]"
    using filepathAbs_proper [of cwd "filepathJoin output name"] dest dir assms(3) by simp
  then have "archived (writeTarGz aw) (osPath cwd src) dir name (fs w) r (fs w')"
    using tripleD [OF triple_createTarGz [OF dir assms(3) _ dest _ assms(4,5) _ assms(8,7)] refl assms(10)]
      assms(6,9) dest by (simp add: dir_def)
  then have "archiving dir name (fs w) (fs w')" and succ: "r = Inr () \<Longrightarrow> \<exists>es. tempHas (dir @ [name]) (writeTarGz aw es) False (fs w') \<and>
      bundleOf (fs w) (osPath cwd src) dir (dir @ [name]) es"
    by (auto simp: archived_def)
  then have kept: "kept dir {dir @ [name]} (fs w) (fs w')"
    using dirStore_key(4) [OF dir assms(3)] by (simp add: archiving_def writing_def)
  then show "objAt (fs w') p = objAt (fs w) p" if "p \<noteq> osPath cwd (filepathJoin output name)"
    using kept_objects [OF kept] that dest by simp
  show "\<exists>es. objAt (fs w') (osPath cwd (filepathJoin output name)) = Some (writeTarGz aw es, False) \<and>
      bundleOf (fs w) (osPath cwd src) (osPath cwd (filepathDir (filepathJoin output name)))
        (osPath cwd (filepathJoin output name)) es" if r: "r = Inr ()"
  proof -
    obtain es where es: "tempHas (dir @ [name]) (writeTarGz aw es) False (fs w')"
      "bundleOf (fs w) (osPath cwd src) dir (dir @ [name]) es" using succ [OF r] by blast
    then have "objAt (fs w') (dir @ [name]) = Some (writeTarGz aw es, False)" by (auto simp: tempHas_def objAt_def)
    then show ?thesis using es(2) unfolding dest dir_def [symmetric] by blast
  qed
qed

section \<open>What the server sees\<close>

text \<open>What a decoder of \<^verbatim>\<open>tar\<close> and \<^verbatim>\<open>gzip\<close> reads from an encoded list of entries.\<close>

fun readEntry :: "bundleEntry \<Rightarrow> tarEntry" where
  "readEntry (DirEntry name) = \<lparr>tName = name, tTypeflag = typeDir, tSize = 0, tCopy = (0, None)\<rparr>"
| "readEntry (FileEntry name data) =
     \<lparr>tName = name, tTypeflag = typeReg, tSize = word_of_nat (length data), tCopy = (word_of_nat (length data), None)\<rparr>"

definition readBundle :: "bundleEntry list \<Rightarrow> tarball" where
  "readBundle es = \<lparr>gzOpen = None, tarEntries = map readEntry es, tarEnd = None, gzTrailer = None, gzClose = None\<rparr>"

fun entryData :: "bundleEntry \<Rightarrow> bytes" where
  "entryData (DirEntry name) = []"
| "entryData (FileEntry name data) = data"

definition isConfig :: "bundleEntry \<Rightarrow> bool" where
  "isConfig e \<longleftrightarrow> (\<exists>name data. e = FileEntry name data \<and>
     (suffix ''.tf'' (pathBase name) \<or> suffix ''.tf.json'' (pathBase name)))"

lemma proper_inside: "list_all properComp r \<Longrightarrow> staysInside d r"
  by (induction r arbitrary: d) (auto simp: properComp_def)

lemma safe_relString:
  assumes "list_all properComp r" "r \<noteq> []"
  shows "safeEntryName (relString r) \<longleftrightarrow> CHR 0x5C \<notin> set (relString r)"
proof -
  have j: "relString r = joinWith ''/'' r" using assms(2) by (simp add: relString_def)
  have "\<not> hasPrefix (joinWith ''/'' r) ''/''" "joinWith ''/'' r \<noteq> []"
    using join_no_slash [OF assms] join_nonempty [OF assms] by auto
  moreover have "cleanComps (joinWith ''/'' r) = r"
    using splitAt_proper [OF assms] cleanGo_proper [OF assms(1)] by (simp add: cleanComps_def)
  ultimately show ?thesis
    using assms(2) splitAt_proper [OF assms] proper_inside [OF assms(1)] hasPrefix_slash [of "joinWith ''/'' r"]
    unfolding safeEntryName_def j by simp
qed

lemma bundleOf_names:
  assumes "bundleOf f0 root dir dest es" "fsNames f0" "e \<in> set es"
  shows "\<exists>r. list_all properComp r \<and> r \<noteq> [] \<and> entryName e = relString r"
proof (cases e)
  case (DirEntry name)
  then obtain r where "wantedPath r" "list_all properComp r" "name = relString r"
    using assms(1,3) unfolding bundleOf_def by blast
  then show ?thesis using DirEntry by (intro exI [of _ r]) (simp add: wantedPath_def)
next
  case (FileEntry name data)
  then obtain r sy t where r: "wantedPath r" "name = relString r" "fsGet f0 (root @ r) = Some (File data sy t)"
    using assms(1,3) unfolding bundleOf_def by blast
  then have "list_all properComp (root @ r)" using assms(2) unfolding fsNames_def by blast
  then show ?thesis using r FileEntry by (auto simp: wantedPath_def)
qed

lemma readEntry_ok:
  "tarEntryOk (readEntry e) \<longleftrightarrow> safeEntryName (entryName e)"
  by (cases e) (auto simp: tarEntryOk_def typeReg_def typeDir_def)

lemma readEntry_sizes:
  assumes "\<forall>e \<in> set es. length (entryData e) < 2 ^ 63"
  shows "(\<Sum>e\<leftarrow>tarFiles (map readEntry es). unat (tSize e)) = (\<Sum>e\<leftarrow>es. length (entryData e))"
  using assms
proof (induction es)
  case (Cons e es)
  then show ?case
    by (cases e) (simp_all add: tarFiles_def typeReg_def typeDir_def unsigned_of_nat take_bit_nat_eq_self)
qed (simp add: tarFiles_def)

lemma readEntry_config:
  "(\<exists>e \<in> set (tarFiles (map readEntry es)). hasSuffix (pathBase (tName e)) ''.tf'' \<or> hasSuffix (pathBase (tName e)) ''.tf.json'')
     \<longleftrightarrow> list_ex isConfig es"
proof (induction es)
  case (Cons e es)
  then show ?case
    by (cases e) (simp_all add: tarFiles_def typeReg_def typeDir_def isConfig_def hasSuffix_iff_suffix)
qed (simp add: tarFiles_def)

section \<open>Properties\<close>



section \<open>An example\<close>

lemma fsNames_list: "list_all (\<lambda>(k, n). list_all properComp k) f \<Longrightarrow> fsNames f"
  by (auto simp: fsNames_def fsGet_def list_all_iff dest!: map_of_SomeD split: if_splits)

lemma fsTree_list:
  assumes "list_all (\<lambda>(k, n). list_all (\<lambda>q. q = k \<or> fsGet f q = Some Dir) (prefixes k)) f"
  shows "fsTree f"
  unfolding fsTree_def dirsTo_def
proof (intro allI impI)
  fix p q assume p: "fsGet f p \<noteq> None" "strict_prefix q p"
  then have "p \<noteq> []" by auto
  then obtain n where "(p, n) \<in> set f" using p(1) by (auto simp: fsGet_def dest: map_of_SomeD)
  then have "list_all (\<lambda>q. q = p \<or> fsGet f q = Some Dir) (prefixes p)" using assms by (auto simp: list_all_iff)
  moreover have "q \<in> set (prefixes p)" "q \<noteq> p" using p(2) by (auto simp: strict_prefix_def)
  ultimately show "fsGet f q = Some Dir" unfolding list_all_iff by blast
qed

lemma plain_list: "list_all (\<lambda>(k, n). \<not> isLink n) f \<Longrightarrow> plain b f"
  by (auto simp: plain_def fsGet_def isLink_def list_all_iff dest!: map_of_SomeD split: if_splits)

text \<open>An encoding of entry lists that can be decoded: strings with their length in unary.\<close>

definition encStr :: "string \<Rightarrow> bytes" where
  "encStr s = replicate (length s) CHR ''#'' @ CHR ''.'' # s"

definition decStr :: "bytes \<Rightarrow> string \<times> bytes" where
  "decStr s = (let n = length (takeWhile (\<lambda>c. c = CHR ''#'') s); t = drop (Suc n) s in (take n t, drop n t))"

fun encEntry :: "bundleEntry \<Rightarrow> bytes" where
  "encEntry (DirEntry name) = CHR ''D'' # encStr name"
| "encEntry (FileEntry name data) = CHR ''F'' # encStr name @ encStr data"

fun decEntries :: "nat \<Rightarrow> bytes \<Rightarrow> bundleEntry list" where
  "decEntries 0 s = []"
| "decEntries (Suc k) [] = []"
| "decEntries (Suc k) (c # s) =
     (case decStr s of (name, rest) \<Rightarrow>
        if c = CHR ''D'' then DirEntry name # decEntries k rest
        else (case decStr rest of (data, rest') \<Rightarrow> FileEntry name data # decEntries k rest'))"

lemma decStr_encStr: "decStr (encStr s @ rest) = (s, rest)"
proof -
  have "takeWhile (\<lambda>c. c = CHR ''#'') (replicate n CHR ''#'' @ CHR ''.'' # t) = replicate n CHR ''#''" for n t
    by (induction n) auto
  then show ?thesis by (simp add: decStr_def encStr_def)
qed

lemma decEntries_enc: "length es \<le> k \<Longrightarrow> decEntries k (concat (map encEntry es)) = es"
proof (induction es arbitrary: k)
  case Nil
  then show ?case by (cases k) auto
next
  case (Cons e es)
  then obtain k' where k: "k = Suc k'" "length es \<le> k'" by (cases k) auto
  then show ?case
    using Cons.IH [OF k(2)] by (cases e) (simp_all add: decStr_encStr)
qed

definition demoWriter :: archiveWriter where
  "demoWriter = \<lparr>writeTarGz = \<lambda>es. concat (map encEntry es), writeZip = \<lambda>name data. encEntry (FileEntry name data)\<rparr>"

definition demoOpen :: "bytes \<Rightarrow> tarball" where
  "demoOpen s = readBundle (decEntries (length s) s)"

lemma decode_demo: "decEntries (length (writeTarGz demoWriter es)) (writeTarGz demoWriter es) = es"
proof -
  have "length es \<le> length (concat (map encEntry es))"
  proof (induction es)
    case (Cons e es)
    then show ?case by (cases e) (simp_all add: encStr_def)
  qed simp
  then show ?thesis by (simp add: demoWriter_def decEntries_enc)
qed

definition demoFiles :: "(path \<times> node) list" where
  "demoFiles = [([''d'', ''m''], Dir), ([''d'', ''m'', ''.git''], Dir), ([''d'', ''m'', ''.git'', ''c''], File ''k'' True 0),
     ([''d'', ''m'', ''a.tf''], File ''t'' True 0)]"

lemma demoFiles_ok:
  "fsTree (fs (demoWorld demoFiles fl))" "fsNames (fs (demoWorld demoFiles fl))" "plain b (fs (demoWorld demoFiles fl))"
  by (rule fsTree_list fsNames_list plain_list;
      simp add: demoWorld_def demoFiles_def fsGet_def properComp_def isLink_def)+

lemma demo_paths:
  "list_all properComp [''d'']" "list_all properComp (cleanComps ''.'')" "properComp ''b''" "''m'' \<noteq> []"
  "fsGet (fs (demoWorld demoFiles [])) (osPath [''d''] ''m'') = Some Dir"
  "osPath [''d''] ''m'' \<noteq> osPath [''d''] (filepathJoin ''.'' ''b'')"
  "osPath [''d''] (filepathJoin ''.'' ''b'') = [''d'', ''b'']"
  by code_simp+

lemma demo_bundle:
  "fst (run_state (createTarGz demoWriter [''d''] ''m'' (filepathJoin ''.'' ''b'')) (demoWorld demoFiles [])) = Inr ()"
  "objAt (fs (snd (run_state (createTarGz demoWriter [''d''] ''m'' (filepathJoin ''.'' ''b'')) (demoWorld demoFiles []))))
     [''d'', ''b''] = Some (writeTarGz demoWriter [FileEntry ''a.tf'' ''t''], False)"
  by code_simp+



end
