(* ===== verification/ImportIdentity.thy ===== *)
theory ImportIdentity
  imports Validation
begin

text \<open>
  The identity checks of \<^verbatim>\<open>cmd/tfreg/import.go\<close>: before a package layer is downloaded the client applies the name
  and version rules of the server to the annotations of the OCI manifest, with code of its own.
\<close>

section \<open>The checks of the client\<close>

text \<open>The character class \<^verbatim>\<open>[A-Za-z0-9_-]\<close> of the expression.\<close>

definition importNameChar :: "char \<Rightarrow> bool" where
  "importNameChar c \<longleftrightarrow>
     (CHR ''A'' \<le> c \<and> c \<le> CHR ''Z'') \<or> (CHR ''a'' \<le> c \<and> c \<le> CHR ''z'') \<or>
     (CHR ''0'' \<le> c \<and> c \<le> CHR ''9'') \<or> c = CHR ''_'' \<or> c = CHR ''-''"

definition importArtifactNameRE :: regex where
  "importArtifactNameRE =
     Seq (Rep (\<lambda>c. (CHR ''A'' \<le> c \<and> c \<le> CHR ''Z'') \<or> (CHR ''a'' \<le> c \<and> c \<le> CHR ''z'') \<or>
                   (CHR ''0'' \<le> c \<and> c \<le> CHR ''9'')) 1 (Some 1))
         (Rep importNameChar 0 (Some 63))"

definition validImportName :: "string \<Rightarrow> bool" where
  "validImportName value = matchString importArtifactNameRE value"

text \<open>
  The inner loop of \<^verbatim>\<open>validImportIdentifiers\<close> over one identifier: \<open>None\<close> is the early return of false, and
  otherwise the result is the flag \<open>allNumeric\<close>.
\<close>

fun scanIdentifier :: "bool \<Rightarrow> string \<Rightarrow> bool option" where
  "scanIdentifier allNumeric [] = Some allNumeric"
| "scanIdentifier allNumeric (char # chars) =
     (if (char < CHR ''0'' \<or> char > CHR ''9'') \<and> (char < CHR ''A'' \<or> char > CHR ''Z'') \<and>
         (char < CHR ''a'' \<or> char > CHR ''z'') \<and> char \<noteq> CHR ''-'' then None
      else scanIdentifier (if char < CHR ''0'' \<or> char > CHR ''9'' then False else allNumeric) chars)"

text \<open>The outer loop.\<close>

fun scanIdentifiers :: "bool \<Rightarrow> string list \<Rightarrow> bool" where
  "scanIdentifiers enforceNumericLeadingZero [] = True"
| "scanIdentifiers enforceNumericLeadingZero (identifier # rest) =
     (if identifier = [] then False
      else (case scanIdentifier True identifier of
          None \<Rightarrow> False
        | Some allNumeric \<Rightarrow>
            if enforceNumericLeadingZero \<and> allNumeric \<and> length identifier > 1 \<and> identifier ! 0 = CHR ''0''
            then False
            else scanIdentifiers enforceNumericLeadingZero rest))"

definition validImportIdentifiers :: "string \<Rightarrow> bool \<Rightarrow> bool" where
  "validImportIdentifiers value enforceNumericLeadingZero =
     (if value = [] then False else scanIdentifiers enforceNumericLeadingZero (splitAt CHR ''.'' value))"

text \<open>The loop of \<^verbatim>\<open>validImportVersion\<close> over the parts of the core.\<close>

fun validImportCore :: "string list \<Rightarrow> bool" where
  "validImportCore [] = True"
| "validImportCore (part # parts) =
     (if part = [] \<or> (length part > 1 \<and> part ! 0 = CHR ''0'') then False
      else if parseUint64 part = None then False
      else validImportCore parts)"

definition validImportVersion :: "string \<Rightarrow> bool" where
  "validImportVersion value =
     (if value = [] \<or> hasPrefix value ''v'' then False
      else (case cutAt CHR ''+'' value of (versionAndPre, build, hasBuild) \<Rightarrow>
        if hasBuild \<and> (containsStr build ''+'' \<or> \<not> validImportIdentifiers build False) then False
        else (case cutAt CHR ''-'' versionAndPre of (core', prerelease, hasPrerelease) \<Rightarrow>
          if hasPrerelease \<and> \<not> validImportIdentifiers prerelease True then False
          else let parts = splitAt CHR ''.'' core' in
            if length parts \<noteq> 3 then False else validImportCore parts)))"

section \<open>They are the checks of the server\<close>

lemma scanIdentifier_iff:
  "scanIdentifier b s = (if list_all identChar s then Some (b \<and> list_all isDigit s) else None)"
  by (induction s arbitrary: b) (auto simp: identChar_def isDigit_def isUpper_def isLower_def not_less)

lemma scanIdentifiers_iff: "scanIdentifiers e ws \<longleftrightarrow> list_all (validIdentifier e) ws"
proof (induction ws)
  case (Cons w ws)
  then show ?case by (cases w) (auto simp: validIdentifier_def scanIdentifier_iff simp del: scanIdentifier.simps)
qed simp

lemma validImportIdentifiers_iff: "validImportIdentifiers value e \<longleftrightarrow> validIdentifiers value e"
  by (auto simp: validImportIdentifiers_def validIdentifiers_def scanIdentifiers_iff)

lemma validImportCore_iff: "validImportCore parts \<longleftrightarrow> parseCore parts \<noteq> None"
proof (induction parts)
  case (Cons p ps)
  then show ?case
    by (cases p) (auto simp: numericIdentifier_def parseUint64_def split: option.splits)
qed simp

lemma containsStr_single: "containsStr s [c] \<longleftrightarrow> c \<in> set s"
  by (induction s) (auto simp: hasPrefix_def)

lemma validImportVersion_iff: "validImportVersion v \<longleftrightarrow> validVersion v"
  unfolding validImportVersion_def validVersion_def parseSemanticVersion_def
  by (auto simp: validImportIdentifiers_iff validImportCore_iff containsStr_single Let_def
      split: prod.splits option.splits)

lemma validImportName_iff: "validImportName v \<longleftrightarrow> isName v"
proof -
  have "importNameChar = nameChar"
    by (auto simp: fun_eq_iff importNameChar_def nameChar_def char_class_defs)
  moreover have "(\<lambda>c. (CHR ''A'' \<le> c \<and> c \<le> CHR ''Z'') \<or> (CHR ''a'' \<le> c \<and> c \<le> CHR ''z'') \<or>
      (CHR ''0'' \<le> c \<and> c \<le> CHR ''9'')) = isAlnum"
    by (auto simp: fun_eq_iff char_class_defs)
  ultimately have "importArtifactNameRE = artifactNameRE"
    by (simp add: importArtifactNameRE_def artifactNameRE_def)
  then show ?thesis using validArtifactName_iff [of v] by (simp add: validImportName_def validArtifactName_def)
qed

text \<open>
  C34.  The client's identity checks agree with the server's, as the comment on
  \<^verbatim>\<open>validImportVersion\<close> says: a version passes \<^verbatim>\<open>validImportVersion\<close> exactly when it passes the server's
  \<^verbatim>\<open>validVersion\<close> (which the strict SemVer parser decides), and a name passes \<^verbatim>\<open>validImportName\<close> exactly when it
  passes \<^verbatim>\<open>validArtifactName\<close>.
\<close>

theorem import_checks_mirror_server:
  "validImportVersion v = validVersion v \<and> validImportName n = validArtifactName n"
  by (simp add: validImportVersion_iff validImportName_iff validArtifactName_iff)

end
