(* ===== verification/Oci.thy ===== *)
theory Oci
  imports Bundle ImportIdentity
begin

text \<open>
  \<^verbatim>\<open>cmd/tfreg/oci.go\<close> and the artifact part of \<^verbatim>\<open>import.go\<close>: packing a bundle into an OCI artifact, and fetching and
  checking one.

  The OCI libraries are parameters: the parser of references, the registry with its operations on a state of its
  own, the digests, and the JSON form of a manifest.
\<close>

section \<open>Descriptors, manifests and the library\<close>

record descriptor =
  dMediaType :: string
  dDigest :: string
  dSize :: int
  dAnnotations :: "(string \<times> string) list"

record ociManifest =
  mSchemaVersion :: int
  mArtifactType :: string
  mLayers :: "descriptor list"
  mAnnotations :: "(string \<times> string) list"

record ociReference =
  refRegistry :: string
  refRepository :: string
  refReference :: string

text \<open>Credentials given on the command line for a registry host, or those of the Docker configuration.\<close>

datatype credential = StaticCredential string string string | DockerCredential

record ociRepository =
  orName :: string
  orPlainHTTP :: bool
  orCredential :: credential

text \<open>
  \<open>newRepository\<close> returns the registry host of a repository name; \<open>dockerStore\<close> is the error of opening the Docker
  credential store.  The operations on a repository change the state of the registry.
\<close>

record 'r ociLib =
  parseReference :: "string \<Rightarrow> ociReference result"
  referenceAsTag :: "ociReference \<Rightarrow> error option"
  referenceAsDigest :: "ociReference \<Rightarrow> error option"
  newRepository :: "string \<Rightarrow> string result"
  dockerStore :: "error option"
  targetPush :: "ociRepository \<Rightarrow> descriptor \<Rightarrow> stream \<Rightarrow> 'r \<Rightarrow> unit result \<times> 'r"
  targetPack :: "ociRepository \<Rightarrow> string \<Rightarrow> descriptor list \<Rightarrow> (string \<times> string) list \<Rightarrow> 'r \<Rightarrow> descriptor result \<times> 'r"
  targetTag :: "ociRepository \<Rightarrow> descriptor \<Rightarrow> string \<Rightarrow> 'r \<Rightarrow> unit result \<times> 'r"
  targetResolve :: "ociRepository \<Rightarrow> string \<Rightarrow> 'r \<Rightarrow> descriptor result \<times> 'r"
  targetFetch :: "ociRepository \<Rightarrow> descriptor \<Rightarrow> 'r \<Rightarrow> stream result \<times> 'r"
  digestOf :: "bytes \<Rightarrow> string"
  digestValidate :: "string \<Rightarrow> error option"
  digestVerified :: "string \<Rightarrow> bytes \<Rightarrow> bool"
  decodeManifest :: "bytes \<Rightarrow> ociManifest result"
  timeRFC3339 :: "int \<Rightarrow> string"

definition onRemote :: "('r \<Rightarrow> 'a result \<times> 'r) \<Rightarrow> ('r, 'a result) cli" where
  "onRemote f = State (\<lambda>c.
     if crashed (disk c) then (Inl ErrCrashed, c)
     else case f (remote c) of (r, x) \<Rightarrow> (r, c\<lparr>remote := x\<rparr>))"

definition terraformOCIArtifactType :: string where
  "terraformOCIArtifactType = ''application/vnd.terraform.registry.artifact.v1''"
definition terraformProviderLayerType :: string where
  "terraformProviderLayerType = ''application/vnd.terraform.provider.package.v1+zip''"
definition terraformModuleLayerType :: string where
  "terraformModuleLayerType = ''application/vnd.terraform.module.package.v1+tar+gzip''"

text \<open>Names of the OCI image specification.\<close>

definition annotationTitle :: string where "annotationTitle = ''org.opencontainers.image.title''"
definition annotationCreated :: string where "annotationCreated = ''org.opencontainers.image.created''"
definition mediaTypeImageManifest :: string where
  "mediaTypeImageManifest = ''application/vnd.oci.image.manifest.v1+json''"

section \<open>References\<close>

definition splitOCIReference :: "'r ociLib \<Rightarrow> string \<Rightarrow> (string \<times> string) result" where
  "splitOCIReference lib value =
     (case parseReference lib (trimSpace value) of
        Inl err \<Rightarrow> Inl (Wrapf ''invalid OCI reference: %w'' [] err)
      | Inr ref \<Rightarrow>
          if referenceAsTag lib ref \<noteq> None \<or> refReference ref = [] then
            Inl (Errorf ''OCI reference must include an explicit tag'' [])
          else Inr (refRegistry ref @ ''/'' @ refRepository ref, refReference ref))"

definition splitOCIImportReference :: "'r ociLib \<Rightarrow> string \<Rightarrow> (string \<times> string) result" where
  "splitOCIImportReference lib value =
     (case parseReference lib (trimSpace value) of
        Inl err \<Rightarrow> Inl (Wrapf ''invalid OCI reference: %w'' [] err)
      | Inr ref \<Rightarrow>
          if refReference ref = [] then
            Inl (Errorf ''OCI reference must include an explicit tag or digest'' [])
          else if referenceAsTag lib ref \<noteq> None \<and> referenceAsDigest lib ref \<noteq> None then
            Inl (Errorf ''OCI reference must include a valid tag or digest'' [])
          else Inr (refRegistry ref @ ''/'' @ refRepository ref, refReference ref))"

definition openOCIRepository :: "'r ociLib \<Rightarrow> string \<Rightarrow> string \<Rightarrow> string \<Rightarrow> bool \<Rightarrow> ociRepository result" where
  "openOCIRepository lib repository username password plainHTTP =
     (case newRepository lib repository of
        Inl err \<Rightarrow> Inl (Wrapf ''open OCI repository: %w'' [] err)
      | Inr host \<Rightarrow>
          if username \<noteq> [] \<or> password \<noteq> [] then
            Inr \<lparr>orName = repository, orPlainHTTP = plainHTTP, orCredential = StaticCredential host username password\<rparr>
          else (case dockerStore lib of
                  Some storeErr \<Rightarrow> Inl (Wrapf ''open Docker credential store: %w'' [] storeErr)
                | None \<Rightarrow> Inr \<lparr>orName = repository, orPlainHTTP = plainHTTP, orCredential = DockerCredential\<rparr>))"

section \<open>Packing\<close>

text \<open>The size that \<^verbatim>\<open>Stat\<close> reports; the number for a directory, which cannot be read anyway, is the usual one.\<close>

fun nodeSize :: "node \<Rightarrow> int" where
  "nodeSize (File d sy t) = int (length d)"
| "nodeSize Dir = 4096"
| "nodeSize (Link target t) = int (length target)"

definition layerType :: "string \<Rightarrow> string result" where
  "layerType kind =
     (if kind = ''provider'' then Inr terraformProviderLayerType
      else if kind \<noteq> ''module'' then Inl (Errorf ''unsupported Terraform artifact kind %q'' [kind])
      else Inr terraformModuleLayerType)"

definition withCreated :: "string \<Rightarrow> (string \<times> string) list \<Rightarrow> (string \<times> string) list" where
  "withCreated created annotations =
     (if map_of annotations annotationCreated = None then annotations @ [(annotationCreated, created)] else annotations)"

definition packOCIArtifact ::
  "'r ociLib \<Rightarrow> path \<Rightarrow> ociRepository \<Rightarrow> string \<Rightarrow> string \<Rightarrow> (string \<times> string) list \<Rightarrow> ('r, descriptor result) cli" where
  "packOCIArtifact lib cwd target artifactPath kind annotations =
     bindC (State_Monad.return (layerType kind)) (\<lambda>mediaType.
     bindC (wrapC ''open artifact: %w'' []
              (onDisk (if artifactPath = [] then State_Monad.return (Inl ErrNotExist) else osOpen (osPath cwd artifactPath)))) (\<lambda>h.
     do { res \<leftarrow>
            bindC (wrapC ''stat artifact: %w'' [] (onDisk (osFstat h))) (\<lambda>info.
            bindC (wrapC ''hash artifact: %w'' [] (do { r \<leftarrow> onDisk (readHandle h); State_Monad.return (readAll r) })) (\<lambda>data.
            bindC (wrapC ''rewind artifact: %w'' [] (onDisk (osSeekStart h))) (\<lambda>_.
            let layer = \<lparr>dMediaType = mediaType, dDigest = digestOf lib data, dSize = nodeSize info,
                         dAnnotations = [(annotationTitle, pathBase artifactPath)]\<rparr> in
            bindC (wrapC ''stage OCI layer: %w'' []
                     (do { r \<leftarrow> onDisk (readHandle h); onRemote (targetPush lib target layer r) })) (\<lambda>_.
            do { now \<leftarrow> onDisk timeNow;
                 onRemote (targetPack lib target terraformOCIArtifactType [layer]
                   (withCreated (timeRFC3339 lib now) annotations)) }))));
          onDisk (ignore (osClose h));
          State_Monad.return res }))"

record ociPushOptions =
  opReference :: string
  opArtifact :: string
  opKind :: string
  opAnnotations :: "(string \<times> string) list"
  opUsername :: string
  opPassword :: string
  opPlainHTTP :: bool

definition pushOCIArtifact :: "'r ociLib \<Rightarrow> path \<Rightarrow> ociPushOptions \<Rightarrow> ('r, descriptor result) cli" where
  "pushOCIArtifact lib cwd opts =
     bindC (State_Monad.return (splitOCIReference lib (opReference opts))) (\<lambda>(repository, tag).
     bindC (State_Monad.return
              (openOCIRepository lib repository (opUsername opts) (opPassword opts) (opPlainHTTP opts))) (\<lambda>repo.
     bindC (wrapC ''push OCI content: %w'' []
              (packOCIArtifact lib cwd repo (opArtifact opts) (opKind opts) (opAnnotations opts))) (\<lambda>manifest.
     bindC (wrapC ''tag OCI artifact: %w'' [] (onRemote (targetTag lib repo manifest tag))) (\<lambda>_.
     State_Monad.return (Inr manifest)))))"

section \<open>Identity\<close>

record ociArtifactMetadata =
  omKind :: string
  omNamespace :: string
  omName :: string
  omProvider :: string
  omVersion :: string
  omOS :: string
  omArch :: string

text \<open>\<^verbatim>\<open>artifactAnnotations\<close> of \<^verbatim>\<open>publish.go\<close>; the optional keys are left out when empty.\<close>

definition artifactAnnotations ::
  "string \<Rightarrow> string \<Rightarrow> string \<Rightarrow> string \<Rightarrow> string \<Rightarrow> string \<Rightarrow> string \<Rightarrow> string \<Rightarrow> (string \<times> string) list" where
  "artifactAnnotations kind namespace name provider ver osName arch title =
     [(''org.opencontainers.image.title'', title), (''io.terraform.kind'', kind),
      (''io.terraform.namespace'', namespace), (''io.terraform.name'', name), (''io.terraform.version'', ver)] @
     (if provider \<noteq> [] then [(''io.terraform.provider'', provider)] else []) @
     (if osName \<noteq> [] then [(''io.terraform.os'', osName)] else []) @
     (if arch \<noteq> [] then [(''io.terraform.arch'', arch)] else [])"

definition providerIdentityOk :: "ociArtifactMetadata \<Rightarrow> bool" where
  "providerIdentityOk m \<longleftrightarrow>
     validImportName (omNamespace m) \<and> validImportName (omName m) \<and> validImportName (omOS m) \<and>
     validImportName (omArch m) \<and> validImportVersion (omVersion m)"

definition moduleIdentityOk :: "ociArtifactMetadata \<Rightarrow> bool" where
  "moduleIdentityOk m \<longleftrightarrow>
     validImportName (omNamespace m) \<and> validImportName (omName m) \<and> validImportName (omProvider m) \<and>
     validImportVersion (omVersion m)"

definition metadataFromOCIManifest :: "ociManifest \<Rightarrow> ociArtifactMetadata result" where
  "metadataFromOCIManifest manifest =
     (let annotation = lookupStr (mAnnotations manifest);
          metadata = \<lparr>omKind = annotation ''io.terraform.kind'', omNamespace = annotation ''io.terraform.namespace'',
            omName = annotation ''io.terraform.name'', omProvider = annotation ''io.terraform.provider'',
            omVersion = annotation ''io.terraform.version'', omOS = annotation ''io.terraform.os'',
            omArch = annotation ''io.terraform.arch''\<rparr> in
      if length (mLayers manifest) \<noteq> 1 then
        Inl (Errorf ''Terraform OCI artifact must contain exactly one layer'' [])
      else if omKind metadata = ''provider'' then
        (if dMediaType (hd (mLayers manifest)) \<noteq> terraformProviderLayerType then
           Inl (Errorf ''provider OCI artifact has layer media type %q'' [dMediaType (hd (mLayers manifest))])
         else if \<not> providerIdentityOk metadata then
           Inl (Errorf ''provider OCI artifact has missing or invalid identity annotations'' [])
         else Inr metadata)
      else if omKind metadata = ''module'' then
        (if dMediaType (hd (mLayers manifest)) \<noteq> terraformModuleLayerType then
           Inl (Errorf ''module OCI artifact has layer media type %q'' [dMediaType (hd (mLayers manifest))])
         else if \<not> moduleIdentityOk metadata then
           Inl (Errorf ''module OCI artifact has missing or invalid identity annotations'' [])
         else Inr metadata)
      else Inl (Errorf ''unsupported Terraform artifact kind %q'' [omKind metadata]))"

section \<open>Fetching\<close>

definition maxOCIManifestBytes :: int where "maxOCIManifestBytes = 4 * 2 ^ 20"

definition fetchDescriptor :: "'r ociLib \<Rightarrow> ociRepository \<Rightarrow> descriptor \<Rightarrow> int \<Rightarrow> ('r, bytes result) cli" where
  "fetchDescriptor lib source d maxBytes =
     (case digestValidate lib (dDigest d) of
        Some err \<Rightarrow> State_Monad.return (Inl (Wrapf ''invalid descriptor digest: %w'' [] err))
      | None \<Rightarrow>
          if dSize d < 0 \<or> dSize d > maxBytes then
            State_Monad.return (Inl (Errorf ''descriptor size %d exceeds limit %d'' [showInt (dSize d), showInt maxBytes]))
          else
            bindC (onRemote (targetFetch lib source d)) (\<lambda>reader.
            bindC (State_Monad.return (readAllLimited reader (maxBytes + 1))) (\<lambda>body.
            if int (length body) > maxBytes \<or> int (length body) \<noteq> dSize d then
              State_Monad.return (Inl (Errorf ''descriptor size mismatch or limit exceeded'' []))
            else if \<not> digestVerified lib (dDigest d) body then
              State_Monad.return (Inl (Errorf ''descriptor digest verification failed'' []))
            else State_Monad.return (Inr body))))"

text \<open>The checks of \<^verbatim>\<open>unpackOCIArtifact\<close> on the manifest, up to the download of the layer.\<close>

definition checkManifest :: "ociManifest \<Rightarrow> ociArtifactMetadata result" where
  "checkManifest manifest =
     (if mSchemaVersion manifest \<noteq> 2 then
        Inl (Errorf ''unsupported OCI schema version %d'' [showInt (mSchemaVersion manifest)])
      else if mArtifactType manifest \<noteq> terraformOCIArtifactType then
        Inl (Errorf ''unsupported OCI artifact type %q'' [mArtifactType manifest])
      else if length (mLayers manifest) \<noteq> 1 then
        Inl (Errorf ''Terraform OCI artifact must contain exactly one layer'' [])
      else metadataFromOCIManifest manifest)"

text \<open>The download of the layer into the open file.\<close>

definition fetchLayer :: "'r ociLib \<Rightarrow> ociRepository \<Rightarrow> descriptor \<Rightarrow> path \<Rightarrow> int \<Rightarrow> ('r, unit result) cli" where
  "fetchLayer lib source layer output maxBytes =
     (case digestValidate lib (dDigest layer) of
        Some err \<Rightarrow> State_Monad.return (Inl (Wrapf ''invalid OCI artifact digest: %w'' [] err))
      | None \<Rightarrow>
          if dSize layer < 0 \<or> dSize layer > maxBytes then
            State_Monad.return (Inl (Errorf ''OCI artifact size %d exceeds limit %d'' [showInt (dSize layer), showInt maxBytes]))
          else
            bindC (wrapC ''fetch OCI artifact layer: %w'' [] (onRemote (targetFetch lib source layer))) (\<lambda>reader.
            bindC (wrapC ''download OCI artifact layer: %w'' [] (onDisk (copyToFile output reader (maxBytes + 1)))) (\<lambda>data.
            let written = int (length data) in
            if written > maxBytes then
              State_Monad.return (Inl (Errorf ''OCI artifact exceeds limit %d'' [showInt maxBytes]))
            else if written \<noteq> dSize layer then
              State_Monad.return
                (Inl (Errorf ''OCI artifact size mismatch: expected %d, received %d'' [showInt (dSize layer), showInt written]))
            else if \<not> digestVerified lib (dDigest layer) data then
              State_Monad.return (Inl (Errorf ''OCI artifact digest verification failed'' []))
            else State_Monad.return (Inr ()))))"

definition unpackOCIArtifact ::
  "'r ociLib \<Rightarrow> ociRepository \<Rightarrow> descriptor \<Rightarrow> path \<Rightarrow> int \<Rightarrow> ('r, ociArtifactMetadata result) cli" where
  "unpackOCIArtifact lib source manifestDescriptor output maxBytes =
     (if dMediaType manifestDescriptor \<noteq> mediaTypeImageManifest then
        State_Monad.return (Inl (Errorf ''unsupported OCI manifest media type %q'' [dMediaType manifestDescriptor]))
      else
        bindC (wrapC ''fetch OCI manifest: %w'' [] (fetchDescriptor lib source manifestDescriptor maxOCIManifestBytes)) (\<lambda>body.
        bindC (wrapC ''decode OCI manifest: %w'' [] (State_Monad.return (decodeManifest lib body))) (\<lambda>manifest.
        bindC (State_Monad.return (checkManifest manifest)) (\<lambda>metadata.
        bindC (fetchLayer lib source (hd (mLayers manifest)) output maxBytes) (\<lambda>_.
        State_Monad.return (Inr metadata))))))"

end
