(* ===== verification/Commands.thy ===== *)
theory Commands
  imports Oci
begin

text \<open>
  The commands \<^verbatim>\<open>publish\<close> and \<^verbatim>\<open>import\<close> of \<^verbatim>\<open>cmd/tfreg\<close> and the dispatch of \<^verbatim>\<open>main\<close>.
\<close>

section \<open>Temporary directories\<close>

text \<open>\<^verbatim>\<open>os.TempDir\<close>, and \<^verbatim>\<open>os.MkdirTemp("", prefix + "*")\<close>, which returns the path string of the new directory.\<close>

definition tempDir :: "setting \<Rightarrow> string" where
  "tempDir st = (let d = getenv st ''TMPDIR'' in if d = [] then ''/tmp'' else d)"

definition joinName :: "string \<Rightarrow> string \<Rightarrow> string" where
  "joinName dir name = (if hasSuffix dir ''/'' then dir @ name else dir @ ''/'' @ name)"

definition osMkdirTemp :: "path \<Rightarrow> string \<Rightarrow> string result io" where
  "osMkdirTemp dir prfx = atomically (\<lambda>w.
     case canon False (fs w) kernelLinks [] dir of
       Inl e \<Rightarrow> (Inl e, w)
     | Inr d \<Rightarrow>
         if fsGet (fs w) d \<noteq> Some Dir then (Inl ErrNotDir, w)
         else (case createTempLoop createTempTries d prfx [] (rand w) (fs w) of
             (None, rs) \<Rightarrow> (Inl ErrExist, w\<lparr>rand := rs\<rparr>)
           | (Some nm, rs) \<Rightarrow> (Inr nm, w\<lparr>fs := fsPut (d @ [nm]) Dir (fs w), rand := rs\<rparr>)))"

definition mkdirTemp :: "setting \<Rightarrow> string \<Rightarrow> ('r, string result) cli" where
  "mkdirTemp st prfx =
     do { r \<leftarrow> onDisk (osMkdirTemp (osPath (workDir st) (tempDir st)) prfx);
          State_Monad.return (map_sum id (joinName (tempDir st)) r) }"

text \<open>A deferred \<^verbatim>\<open>os.RemoveAll\<close>.\<close>

definition withTempDir :: "setting \<Rightarrow> string \<Rightarrow> (string \<Rightarrow> ('r, 'a result) cli) \<Rightarrow> ('r, 'a result) cli" where
  "withTempDir st tmp body =
     do { r \<leftarrow> body tmp;
          onDisk (ignore (osRemoveAll (osPath (workDir st) tmp)));
          State_Monad.return r }"

section \<open>Building a provider\<close>

definition filteredEnvironment :: "setting \<Rightarrow> string list \<Rightarrow> string list" where
  "filteredEnvironment st blocked =
     filter (\<lambda>entry. fst (cutAt CHR ''='' entry) \<notin> set blocked) (environ st)"

text \<open>
  \<^verbatim>\<open>exec.Command\<close>: the Go tool with its arguments, its directory and its environment is a program that may do
  anything to the disk.
\<close>

type_synonym goTool = "string list \<Rightarrow> string \<Rightarrow> string list \<Rightarrow> unit result io"

definition buildProviderSource ::
  "goTool \<Rightarrow> setting \<Rightarrow> string \<Rightarrow> string \<Rightarrow> string \<Rightarrow> string \<Rightarrow> bool \<Rightarrow> ('r, unit result) cli" where
  "buildProviderSource go st source output osName arch skipTests =
     (let env = filteredEnvironment st [''GOOS'', ''GOARCH'', ''CGO_ENABLED''] in
      bindC (if skipTests then State_Monad.return (Inr ())
             else wrapC ''provider tests failed: %w'' [] (onDisk (go [''test'', ''./...''] source env))) (\<lambda>_.
      wrapC ''build provider: %w'' []
        (onDisk (go [''build'', ''-trimpath'', ''-o'', output, ''.''] source
                   (env @ [''GOOS='' @ osName, ''GOARCH='' @ arch, ''CGO_ENABLED=0''])))))"

section \<open>Publish\<close>

record publishModuleOptions =
  pubRegistry :: string
  pubAPIKey :: string
  pubNamespace :: string
  pubName :: string
  pubProvider :: string
  pubVersion :: string
  pubSource :: string
  pubOCIReference :: string
  pubOCIUsername :: string
  pubOCIPassword :: string
  pubOCIPlainHTTP :: bool

record publishProviderOptions =
  ppRegistry :: string
  ppAPIKey :: string
  ppNamespace :: string
  ppName :: string
  ppVersion :: string
  ppSource :: string
  ppOS :: string
  ppArch :: string
  ppSkipTests :: bool
  ppOCIReference :: string
  ppOCIUsername :: string
  ppOCIPassword :: string
  ppOCIPlainHTTP :: bool

text \<open>The optional copy to an OCI registry at the end of both commands.\<close>

definition pushCopy :: "'r ociLib \<Rightarrow> path \<Rightarrow> ociPushOptions \<Rightarrow> ('r, unit result) cli" where
  "pushCopy lib cwd opts =
     (if opReference opts \<noteq> [] then
        bindC (wrapC ''terraform registry upload succeeded, but OCI push failed: %w'' [] (pushOCIArtifact lib cwd opts))
          (\<lambda>_. State_Monad.return (Inr ()))
      else State_Monad.return (Inr ()))"

definition publishProviderArtifact ::
  "goTool \<Rightarrow> archiveWriter \<Rightarrow> 'r ociLib \<Rightarrow> setting \<Rightarrow> publishProviderOptions \<Rightarrow> ('r, unit result) cli" where
  "publishProviderArtifact go aw lib st opts =
     bindC (mkdirTemp st ''tfreg-provider-'') (\<lambda>tmp. withTempDir st tmp (\<lambda>tmp.
     let binaryPath = filepathJoin tmp (''terraform-provider-'' @ ppName opts @ ''_v'' @ ppVersion opts);
         bundleName = ''terraform-provider-'' @ ppName opts @ ''_'' @ ppVersion opts @ ''_'' @ ppOS opts @ ''_'' @
                      ppArch opts @ ''.zip'';
         bundlePath = filepathJoin tmp bundleName;
         url = trimRightCh CHR ''/'' (ppRegistry opts) @ ''/api/v1/providers/'' @ ppNamespace opts @ ''/'' @ ppName opts @
               ''/'' @ ppVersion opts @ ''/'' @ ppOS opts @ ''/'' @ ppArch opts in
     bindC (buildProviderSource go st (ppSource opts) binaryPath (ppOS opts) (ppArch opts) (ppSkipTests opts)) (\<lambda>_.
     bindC (wrapC ''bundle provider: %w'' [] (onDisk (createZip aw (workDir st) binaryPath bundlePath))) (\<lambda>_.
     bindC (uploadArtifact st url bundlePath (ppAPIKey opts)) (\<lambda>_.
     pushCopy lib (workDir st)
       \<lparr>opReference = ppOCIReference opts, opArtifact = bundlePath, opKind = ''provider'',
        opAnnotations = artifactAnnotations ''provider'' (ppNamespace opts) (ppName opts) [] (ppVersion opts)
                          (ppOS opts) (ppArch opts) bundleName,
        opUsername = ppOCIUsername opts, opPassword = ppOCIPassword opts, opPlainHTTP = ppOCIPlainHTTP opts\<rparr>)))))"

definition publishModuleArtifact ::
  "archiveWriter \<Rightarrow> 'r ociLib \<Rightarrow> setting \<Rightarrow> publishModuleOptions \<Rightarrow> ('r, unit result) cli" where
  "publishModuleArtifact aw lib st opts =
     bindC (mkdirTemp st ''tfreg-module-'') (\<lambda>tmp. withTempDir st tmp (\<lambda>tmp.
     let bundleName = pubNamespace opts @ ''-'' @ pubName opts @ ''-'' @ pubProvider opts @ ''-'' @ pubVersion opts @
                      ''.tar.gz'';
         bundlePath = filepathJoin tmp bundleName;
         url = trimRightCh CHR ''/'' (pubRegistry opts) @ ''/api/v1/modules/'' @ pubNamespace opts @ ''/'' @
               pubName opts @ ''/'' @ pubProvider opts @ ''/'' @ pubVersion opts in
     bindC (wrapC ''bundle module: %w'' [] (onDisk (createTarGz aw (workDir st) (pubSource opts) bundlePath))) (\<lambda>_.
     bindC (uploadArtifact st url bundlePath (pubAPIKey opts)) (\<lambda>_.
     pushCopy lib (workDir st)
       \<lparr>opReference = pubOCIReference opts, opArtifact = bundlePath, opKind = ''module'',
        opAnnotations = artifactAnnotations ''module'' (pubNamespace opts) (pubName opts) (pubProvider opts)
                          (pubVersion opts) [] [] bundleName,
        opUsername = pubOCIUsername opts, opPassword = pubOCIPassword opts, opPlainHTTP = pubOCIPlainHTTP opts\<rparr>))))"

text \<open>\<^verbatim>\<open>readPasswordStdin\<close>, and its use after the options have been parsed.\<close>

definition readPasswordStdin :: "setting \<Rightarrow> ('r, nat + string) cli" where
  "readPasswordStdin st =
     do { input \<leftarrow> State (\<lambda>c. (stdin c, c\<lparr>stdin := \<lparr>sData = drop 65536 (sData (stdin c)), sErr = sErr (stdin c)\<rparr>\<rparr>));
          case readAllLimited input 65536 of
            Inl err \<Rightarrow> fatalf ''read OCI password: %v'' [errText st err]
          | Inr value \<Rightarrow>
              (let password = trimSpace value in
               if password = [] then fatalf ''OCI password from stdin is empty'' []
               else State_Monad.return (Inr password)) }"

definition passwordOption :: "setting \<Rightarrow> flagSet \<Rightarrow> ('r, nat + string) cli" where
  "passwordOption st fl =
     (if boolOf fl ''oci-password-stdin'' then readPasswordStdin st else State_Monad.return (Inr []))"

abbreviation ociFlags :: "setting \<Rightarrow> string \<Rightarrow> (flagSet \<Rightarrow> flagSet) list" where
  "ociFlags st desc \<equiv>
     [StringVar ''oci-ref'' [] desc,
      StringVar ''oci-username'' (envOr st ''TFREG_OCI_USERNAME'' []) ''OCI username (use AWS for ECR)'',
      BoolFlag ''oci-password-stdin'' False ''Read OCI password/token from stdin'',
      BoolVar ''oci-plain-http'' False ''Use HTTP for a local OCI registry'']"

abbreviation terraformFlags :: "setting \<Rightarrow> (flagSet \<Rightarrow> flagSet) list" where
  "terraformFlags st \<equiv>
     [StringVar ''registry'' (envOr st ''TFREG_REGISTRY'' ''http://localhost:8080'') ''Terraform registry URL'',
      StringVar ''api-key'' (envOr st ''TFREG_API_KEY'' []) ''Terraform registry API key'']"

definition publishProviderCommand ::
  "goTool \<Rightarrow> archiveWriter \<Rightarrow> 'r ociLib \<Rightarrow> setting \<Rightarrow> string list \<Rightarrow> ('r, nat + unit) cli" where
  "publishProviderCommand go aw lib st args =
     bindC (Parse (withFlags ''tfreg publish provider''
        (terraformFlags st @
         [StringVar ''namespace'' [] ''Provider namespace'',
          StringVar ''name'' [] ''Provider name'',
          StringVar ''version'' [] ''Provider version'',
          StringVar ''source'' ''.'' ''Provider Go source directory'',
          StringVar ''os'' ''linux'' ''Target operating system'',
          StringVar ''arch'' ''amd64'' ''Target architecture'',
          BoolVar ''skip-tests'' False ''Skip go test before building''] @
         ociFlags st ''Also push as OCI artifact (full repository:tag)'')) args) (\<lambda>fl.
     let namespace = stringOf fl ''namespace''; name = stringOf fl ''name''; ver = stringOf fl ''version'';
         osName = stringOf fl ''os''; arch = stringOf fl ''arch'' in
     if namespace = [] \<or> name = [] \<or> ver = [] then
       fatalf ''--namespace, --name, and --version are required'' []
     else
       bindC (passwordOption st fl) (\<lambda>password.
       bindC (orDie st (''publish provider: %v'' @ nl)
         (publishProviderArtifact go aw lib st
           \<lparr>ppRegistry = stringOf fl ''registry'', ppAPIKey = stringOf fl ''api-key'', ppNamespace = namespace,
            ppName = name, ppVersion = ver, ppSource = stringOf fl ''source'', ppOS = osName, ppArch = arch,
            ppSkipTests = boolOf fl ''skip-tests'', ppOCIReference = stringOf fl ''oci-ref'',
            ppOCIUsername = stringOf fl ''oci-username'', ppOCIPassword = password,
            ppOCIPlainHTTP = boolOf fl ''oci-plain-http''\<rparr>)) (\<lambda>_.
       do { Printf (''Published provider %s/%s@%s (%s/%s)'' @ nl) [namespace, name, ver, osName, arch];
            State_Monad.return (Inr ()) })))"

definition publishModuleCommand ::
  "archiveWriter \<Rightarrow> 'r ociLib \<Rightarrow> setting \<Rightarrow> string list \<Rightarrow> ('r, nat + unit) cli" where
  "publishModuleCommand aw lib st args =
     bindC (Parse (withFlags ''tfreg publish module''
        (terraformFlags st @
         [StringVar ''namespace'' [] ''Module namespace'',
          StringVar ''name'' [] ''Module name'',
          StringVar ''provider'' [] ''Primary provider name'',
          StringVar ''version'' [] ''Module version'',
          StringVar ''source'' ''.'' ''Terraform module source directory''] @
         ociFlags st ''Also push as OCI artifact (full repository:tag)'')) args) (\<lambda>fl.
     let namespace = stringOf fl ''namespace''; name = stringOf fl ''name''; provider = stringOf fl ''provider'';
         ver = stringOf fl ''version'' in
     if namespace = [] \<or> name = [] \<or> provider = [] \<or> ver = [] then
       fatalf ''--namespace, --name, --provider, and --version are required'' []
     else
       bindC (passwordOption st fl) (\<lambda>password.
       bindC (orDie st (''publish module: %v'' @ nl)
         (publishModuleArtifact aw lib st
           \<lparr>pubRegistry = stringOf fl ''registry'', pubAPIKey = stringOf fl ''api-key'', pubNamespace = namespace,
            pubName = name, pubProvider = provider, pubVersion = ver, pubSource = stringOf fl ''source'',
            pubOCIReference = stringOf fl ''oci-ref'', pubOCIUsername = stringOf fl ''oci-username'',
            pubOCIPassword = password, pubOCIPlainHTTP = boolOf fl ''oci-plain-http''\<rparr>)) (\<lambda>_.
       do { Printf (''Published module %s/%s/%s@%s'' @ nl) [namespace, name, provider, ver];
            State_Monad.return (Inr ()) })))"

definition handlePublish ::
  "goTool \<Rightarrow> archiveWriter \<Rightarrow> 'r ociLib \<Rightarrow> setting \<Rightarrow> string list \<Rightarrow> ('r, nat + unit) cli" where
  "handlePublish go aw lib st args =
     (case args of
        [] \<Rightarrow> fatalf ''Usage: tfreg publish <provider|module> [options]'' []
      | kind # rest \<Rightarrow>
          if kind = ''provider'' then publishProviderCommand go aw lib st rest
          else if kind = ''module'' then publishModuleCommand aw lib st rest
          else fatalf ''Unknown type: %s (use 'provider' or 'module')'' [kind])"

end
