(* ===== verification/ImportCommand.thy ===== *)
theory ImportCommand
  imports Commands
begin

text \<open>
  The command \<^verbatim>\<open>import\<close> of \<^verbatim>\<open>cmd/tfreg/import.go\<close>, which copies an OCI artifact into the registry, and \<^verbatim>\<open>main\<close>.
\<close>

section \<open>The upload URL\<close>

text \<open>
  \<^verbatim>\<open>url.Parse\<close> and \<^verbatim>\<open>URL.String\<close> are parameters; a URL has the fields that the code reads or writes, and one for the
  others.
\<close>

record goURL =
  uScheme :: string
  uHost :: string
  uHasUser :: bool
  uRawQuery :: string
  uFragment :: string
  uPath :: string
  uOther :: string

record urlLib =
  urlParse :: "string \<Rightarrow> goURL result"
  urlString :: "goURL \<Rightarrow> string"

text \<open>\<^verbatim>\<open>url.PathEscape\<close>.\<close>

definition upperHexDigit :: "nat \<Rightarrow> char" where
  "upperHexDigit n = (if n < 10 then char_of (48 + n) else char_of (55 + n))"

definition segmentChar :: "char \<Rightarrow> bool" where
  "segmentChar c \<longleftrightarrow> isAlnum c \<or> c \<in> set ''-_.~$&+=:@''"

definition pathEscape :: "string \<Rightarrow> string" where
  "pathEscape s =
     concat (map (\<lambda>c. if segmentChar c then [c]
                      else [CHR ''%'', upperHexDigit (of_char c div 16), upperHexDigit (of_char c mod 16)]) s)"

definition importSegments :: "ociArtifactMetadata \<Rightarrow> string list result" where
  "importSegments m =
     (if omKind m = ''provider'' then
        (if \<not> providerIdentityOk m then Inl (Errorf ''provider identity is missing or invalid'' [])
         else Inr [''api'', ''v1'', ''providers'', omNamespace m, omName m, omVersion m, omOS m, omArch m])
      else if omKind m = ''module'' then
        (if \<not> moduleIdentityOk m then Inl (Errorf ''module identity is missing or invalid'' [])
         else Inr [''api'', ''v1'', ''modules'', omNamespace m, omName m, omProvider m, omVersion m])
      else Inl (Errorf ''unsupported Terraform artifact kind %q'' [omKind m]))"

definition importUploadURL :: "urlLib \<Rightarrow> string \<Rightarrow> ociArtifactMetadata \<Rightarrow> string result" where
  "importUploadURL ul registryURL metadata =
     (case urlParse ul (trimRightCh CHR ''/'' registryURL) of
        Inl _ \<Rightarrow> Inl (Errorf ''invalid Terraform registry URL'' [])
      | Inr base \<Rightarrow>
          if (uScheme base \<noteq> ''http'' \<and> uScheme base \<noteq> ''https'') \<or> uHost base = [] \<or> uHasUser base \<or>
             uRawQuery base \<noteq> [] \<or> uFragment base \<noteq> [] then
            Inl (Errorf ''invalid Terraform registry URL'' [])
          else (case importSegments metadata of
              Inl e \<Rightarrow> Inl e
            | Inr segments \<Rightarrow>
                Inr (urlString ul (base\<lparr>uPath :=
                  trimRightCh CHR ''/'' (uPath base) @ ''/'' @ joinWith ''/'' (map pathEscape segments)\<rparr>))))"

section \<open>Copying an artifact\<close>

definition importOCIArtifactFromTarget ::
  "'r ociLib \<Rightarrow> urlLib \<Rightarrow> setting \<Rightarrow> ociRepository \<Rightarrow> descriptor \<Rightarrow> string \<Rightarrow> string \<Rightarrow> int \<Rightarrow>
     ('r, ociArtifactMetadata result) cli" where
  "importOCIArtifactFromTarget lib ul st source manifestDescriptor registryURL apiKey maxBytes =
     bindC (wrapC ''create OCI import workspace: %w'' [] (mkdirTemp st ''tfreg-oci-import-'')) (\<lambda>tmp.
     withTempDir st tmp (\<lambda>temporaryDirectory.
     bindC (wrapC ''create temporary artifact: %w'' []
              (onDisk (osCreateTemp (osPath (workDir st) temporaryDirectory) ''artifact-'' []))) (\<lambda>(f, named).
     let artifactPath = joinName temporaryDirectory (last named) in
     bindC (do { r \<leftarrow> unpackOCIArtifact lib source manifestDescriptor f maxBytes;
                 case r of
                   Inl e \<Rightarrow> do { onDisk (ignore (osClose f)); State_Monad.return (Inl e) }
                 | Inr metadata \<Rightarrow> State_Monad.return (Inr metadata) }) (\<lambda>metadata.
     bindC (wrapC ''close temporary artifact: %w'' [] (onDisk (osClose f))) (\<lambda>_.
     bindC (State_Monad.return (importUploadURL ul registryURL metadata)) (\<lambda>uploadURL.
     bindC (wrapC ''upload imported OCI artifact: %w'' [] (uploadArtifact st uploadURL artifactPath apiKey)) (\<lambda>_.
     State_Monad.return (Inr metadata))))))))"

record ociImportOptions =
  oiRegistry :: string
  oiAPIKey :: string
  oiOCIReference :: string
  oiOCIUsername :: string
  oiOCIPassword :: string
  oiOCIPlainHTTP :: bool
  oiMaxBytes :: int

definition importOCIArtifact ::
  "'r ociLib \<Rightarrow> urlLib \<Rightarrow> setting \<Rightarrow> ociImportOptions \<Rightarrow> ('r, ociArtifactMetadata result) cli" where
  "importOCIArtifact lib ul st opts =
     bindC (State_Monad.return (splitOCIImportReference lib (oiOCIReference opts))) (\<lambda>(repository, tag).
     bindC (State_Monad.return
              (openOCIRepository lib repository (oiOCIUsername opts) (oiOCIPassword opts) (oiOCIPlainHTTP opts))) (\<lambda>repo.
     bindC (wrapC ''resolve OCI artifact: %w'' [] (onRemote (targetResolve lib repo tag))) (\<lambda>manifest.
     importOCIArtifactFromTarget lib ul st repo manifest (oiRegistry opts) (oiAPIKey opts) (oiMaxBytes opts))))"

section \<open>The command\<close>

text \<open>\<^verbatim>\<open>strconv.ParseInt(s, 10, 64)\<close>: an optional sign and decimal digits, an error outside 64 bits.\<close>

definition parseInt64 :: "string \<Rightarrow> int option" where
  "parseInt64 s =
     (let (neg, digits) = (case s of [] \<Rightarrow> (False, []) | c # cs \<Rightarrow>
            if c = CHR ''-'' then (True, cs) else if c = CHR ''+'' then (False, cs) else (False, s));
          n = int (decValue digits) in
      if digits = [] \<or> \<not> list_all isDigit digits then None
      else if neg then (if n \<le> 2 ^ 63 then Some (- n) else None)
      else if n < 2 ^ 63 then Some n else None)"

definition handleImport :: "'r ociLib \<Rightarrow> urlLib \<Rightarrow> setting \<Rightarrow> string list \<Rightarrow> ('r, nat + unit) cli" where
  "handleImport lib ul st args =
     bindC (Parse (withFlags ''tfreg import''
        (terraformFlags st @
         ociFlags st ''OCI/ECR artifact reference (full repository:tag or repository@digest)'' @
         [StringFlag ''max-download-mb'' ''500'' ''Maximum OCI package size in MiB''])) args) (\<lambda>fl.
     if stringOf fl ''oci-ref'' = [] then fatalf ''--oci-ref is required'' []
     else
       bindC (case parseInt64 (stringOf fl ''max-download-mb'') of
                None \<Rightarrow> fatalf ''--max-download-mb must be between 1 and 10240'' []
              | Some parsedMax \<Rightarrow>
                  if parsedMax \<le> 0 \<or> parsedMax > 10240
                  then fatalf ''--max-download-mb must be between 1 and 10240'' []
                  else State_Monad.return (Inr (parsedMax * 2 ^ 20))) (\<lambda>maxBytes.
       bindC (passwordOption st fl) (\<lambda>password.
       bindC (orDie st (''import OCI artifact: %v'' @ nl)
         (importOCIArtifact lib ul st
           \<lparr>oiRegistry = stringOf fl ''registry'', oiAPIKey = stringOf fl ''api-key'',
            oiOCIReference = stringOf fl ''oci-ref'', oiOCIUsername = stringOf fl ''oci-username'',
            oiOCIPassword = password, oiOCIPlainHTTP = boolOf fl ''oci-plain-http'', oiMaxBytes = maxBytes\<rparr>)) (\<lambda>m.
       do { (if omKind m = ''provider'' then
               Printf (''Imported provider %s/%s@%s (%s/%s)'' @ nl) [omNamespace m, omName m, omVersion m, omOS m, omArch m]
             else Printf (''Imported module %s/%s/%s@%s'' @ nl) [omNamespace m, omName m, omProvider m, omVersion m]);
            State_Monad.return (Inr ()) }))))"

section \<open>The program\<close>

definition usageText :: string where
  "usageText = joinWith nl
     [''tfreg - Terraform Registry CLI'', [], ''Usage: tfreg <command> [options]'', [], ''Commands:'',
      ''  push      Upload a provider or module to the registry'',
      ''  pull      Download a provider or module from the registry'',
      ''  list      List providers or modules in the registry'',
      ''  bundle    Create a distributable bundle from local files'',
      ''  publish   Build/bundle and push source in one command (optional OCI/ECR copy)'',
      ''  import    Copy a validated Terraform OCI/ECR artifact into the registry'',
      ''  delete    Remove a provider or module version from the registry'',
      ''  version   Show version'', [], ''Global Options:'',
      ''  --registry URL    Registry URL (or TFREG_REGISTRY env var)'',
      ''  --api-key KEY     API key (or TFREG_API_KEY env var)'', [],
      ''Run 'tfreg <command> --help' for command-specific help.'']"

definition printUsage :: "('r, unit) cli" where
  "printUsage = Println usageText"

text \<open>
  \<^verbatim>\<open>main\<close> over \<^verbatim>\<open>os.Args\<close>, the program's name first.  The result is the exit status, or nothing for a normal return;
  \<open>version\<close> is the variable that the build sets.
\<close>

definition mainProgram ::
  "goTool \<Rightarrow> archiveWriter \<Rightarrow> 'r ociLib \<Rightarrow> urlLib \<Rightarrow> setting \<Rightarrow> string \<Rightarrow> string list \<Rightarrow> ('r, nat + unit) cli" where
  "mainProgram go aw lib ul st version osArgs =
     (case drop 1 osArgs of
        [] \<Rightarrow> do { printUsage; exitWith 1 }
      | cmd # args \<Rightarrow>
          if cmd = ''push'' then handlePush st args
          else if cmd = ''pull'' then handlePull st args
          else if cmd = ''list'' \<or> cmd = ''ls'' then handleList st args
          else if cmd = ''bundle'' then handleBundle aw st args
          else if cmd = ''publish'' then handlePublish go aw lib st args
          else if cmd = ''import'' then handleImport lib ul st args
          else if cmd = ''delete'' \<or> cmd = ''rm'' then handleDelete st args
          else if cmd = ''version'' then
            do { Printf (''tfreg %s'' @ nl) [version]; State_Monad.return (Inr ()) }
          else if cmd = ''help'' \<or> cmd = ''--help'' \<or> cmd = ''-h'' then
            do { printUsage; State_Monad.return (Inr ()) }
          else do { Eprintf (''Unknown command: %s'' @ nl) [cmd]; printUsage; exitWith 1 })"

end
