(* ===== verification/ClientTriples.thy ===== *)
theory ClientTriples
  imports ImportCommand StoreOps
begin

text \<open>
  Hoare triples for the programs of the client, on its requests and its file system, with the rules for its
  combinators and its calls on temporary directories.
\<close>

section \<open>Triples\<close>

definition tripleC :: "('r client \<Rightarrow> bool) \<Rightarrow> ('r, 'a) cli \<Rightarrow> ('a \<Rightarrow> 'r client \<Rightarrow> bool) \<Rightarrow> bool" where
  "tripleC P m Q \<longleftrightarrow> (\<forall>c r c'. P c \<longrightarrow> run_state m c = (r, c') \<longrightarrow> Q r c')"

lemma tripleCD: "tripleC P m Q \<Longrightarrow> P c \<Longrightarrow> run_state m c = (r, c') \<Longrightarrow> Q r c'"
  by (auto simp: tripleC_def)

lemma tripleC_conseq:
  "tripleC P m Q \<Longrightarrow> (\<And>c. P' c \<Longrightarrow> P c) \<Longrightarrow> (\<And>r c. Q r c \<Longrightarrow> Q' r c) \<Longrightarrow> tripleC P' m Q'"
  unfolding tripleC_def by blast

lemma tripleC_false: "(\<And>c. \<not> P c) \<Longrightarrow> tripleC P m Q"
  unfolding tripleC_def by blast

lemma tripleC_return: "(\<And>c. P c \<Longrightarrow> Q x c) \<Longrightarrow> tripleC P (State_Monad.return x) Q"
  by (auto simp: tripleC_def)

lemma tripleC_bind:
  "tripleC P m M \<Longrightarrow> (\<And>x. tripleC (M x) (k x) Q) \<Longrightarrow> tripleC P (State_Monad.bind m k) Q"
  unfolding tripleC_def by (auto split: prod.splits)

lemma tripleC_bindC:
  "tripleC P m M \<Longrightarrow> (\<And>e c. M (Inl e) c \<Longrightarrow> Q (Inl e) c) \<Longrightarrow> (\<And>x. tripleC (M (Inr x)) (k x) Q) \<Longrightarrow>
     tripleC P (bindC m k) Q"
  unfolding bindC_def tripleC_def by (fastforce split: prod.splits sum.splits)

lemma tripleC_wrapC:
  "tripleC P m (\<lambda>r. Q (map_sum (Wrapf fmt args) id r)) \<Longrightarrow> tripleC P (wrapC fmt args m) Q"
  unfolding wrapC_def tripleC_def by (auto split: prod.splits)

lemma tripleC_pure:
  "(\<And>e c. r = Inl e \<Longrightarrow> P c \<Longrightarrow> Q (Inl e) c) \<Longrightarrow> (\<And>x. r = Inr x \<Longrightarrow> tripleC P (k x) Q) \<Longrightarrow>
     tripleC P (bindC (State_Monad.return r) k) Q"
  unfolding bindC_def tripleC_def by (cases r) auto

lemma wrapC_return: "wrapC fmt args (State_Monad.return r) = State_Monad.return (map_sum (Wrapf fmt args) id r)"
  by (simp add: wrapC_def)

text \<open>The requests sent so far and an assertion about the file system.\<close>

definition onSent :: "clientRequest list \<Rightarrow> (fsys \<Rightarrow> bool) \<Rightarrow> 'r client \<Rightarrow> bool" where
  "onSent s A c \<longleftrightarrow> sent c = s \<and> A (fs (disk c))"

lemma tripleC_onDisk: "triple A m B \<Longrightarrow> tripleC (onSent s A) (onDisk m) (\<lambda>r. onSent s (B r))"
  by (auto simp: tripleC_def onDisk_def onSent_def triple_def split: prod.splits)

lemma tripleC_onRemote: "tripleC (onSent s A) (onRemote f) (\<lambda>r. onSent s A)"
  by (auto simp: tripleC_def onRemote_def onSent_def split: prod.splits if_splits)

section \<open>Temporary directories\<close>

lemma osPath_joinName:
  assumes n: "properComp n" and dir: "dir \<noteq> []" "list_all properComp (osPath cwd dir)"
  shows "osPath cwd (joinName dir n) = osPath cwd dir @ [n]"
proof -
  let ?f = "filter (\<lambda>c. c \<noteq> [] \<and> c \<noteq> ''.'')"
  have n': "splitAt CHR ''/'' n = [n]" "n \<noteq> []" "n \<noteq> ''.''" using n by (auto simp: properComp_def splitAt_no_sep)
  have dot: "\<not> list_all properComp [''.'']" by (simp add: properComp_def)
  have base: "osPath cwd dir = (if hasPrefix dir ''/'' then [] else cwd) @ ?f (splitAt CHR ''/'' dir)"
    using dir(2) dot unfolding osPath_def Let_def by (auto split: if_splits)
  have joined: "osPath cwd (a @ CHR ''/'' # n) =
      (if hasPrefix (a @ CHR ''/'' # n) ''/'' then [] else cwd) @ ?f (splitAt CHR ''/'' a) @ [n]" for a
    using n' unfolding osPath_def Let_def splitAt_slash by simp
  show ?thesis
  proof (cases "hasSuffix dir ''/''")
    case True
    then obtain a where a: "dir = a @ ''/''" by (auto simp: hasSuffix_iff_suffix suffix_def)
    have "joinName dir n = a @ CHR ''/'' # n" using True a by (simp add: joinName_def)
    moreover have "hasPrefix (a @ CHR ''/'' # n) ''/'' \<longleftrightarrow> hasPrefix dir ''/''" using a by (cases a) (auto simp: hasPrefix_def)
    moreover have "?f (splitAt CHR ''/'' dir) = ?f (splitAt CHR ''/'' a)" using a splitAt_slash [of "CHR ''/''" a "[]"] by simp
    ultimately show ?thesis using joined [of a] base by simp
  next
    case False
    have "hasPrefix (dir @ CHR ''/'' # n) ''/'' \<longleftrightarrow> hasPrefix dir ''/''" using dir(1) by (cases dir) (auto simp: hasPrefix_def)
    then show ?thesis using False joined [of dir] base by (simp add: joinName_def)
  qed
qed

lemma noLinkTo_put: "noLinkTo f p \<Longrightarrow> q \<noteq> [] \<Longrightarrow> (\<And>t m. n \<noteq> Link t m) \<Longrightarrow> noLinkTo (fsPut q n f) p"
  by (auto simp: noLinkTo_def fsGet_fsPut)

lemma noLinkTo_snoc: "noLinkTo f p \<Longrightarrow> (\<And>t m. fsGet f (p @ [x]) \<noteq> Some (Link t m)) \<Longrightarrow> noLinkTo f (p @ [x])"
  by (auto simp: noLinkTo_def prefix_snoc)

lemma tempOk_noLink: "tmp \<noteq> [] \<Longrightarrow> list_all properComp tmp \<Longrightarrow> tempOk (\<lambda>f. noLinkTo f tmp) tmp"
  by (auto simp: tempOk_def fsGet_fsDel noLinkTo_def fsGet_fsPut)

text \<open>\<^verbatim>\<open>os.MkdirTemp\<close> makes a new directory of such a name.\<close>

lemma triple_mkdirTemp:
  assumes "list_all properComp dir" "CHR ''/'' \<notin> set prfx" "length prfx > 2"
  shows "triple (\<lambda>f. noLinkTo f dir) (osMkdirTemp dir prfx)
    (\<lambda>r f. \<forall>nm. r = Inr nm \<longrightarrow> properComp nm \<and> noLinkTo f (dir @ [nm]))"
  unfolding osMkdirTemp_def
proof (rule triple_atomically)
  fix w r w'
  assume link: "noLinkTo (fs w) dir" and act: "(case canon False (fs w) kernelLinks [] dir of
       Inl e \<Rightarrow> (Inl e, w)
     | Inr d \<Rightarrow>
         if fsGet (fs w) d \<noteq> Some Dir then (Inl ErrNotDir, w)
         else (case createTempLoop createTempTries d prfx [] (rand w) (fs w) of
             (None, rs) \<Rightarrow> (Inl ErrExist, w\<lparr>rand := rs\<rparr>)
           | (Some nm, rs) \<Rightarrow> (Inr nm, w\<lparr>fs := fsPut (d @ [nm]) Dir (fs w), rand := rs\<rparr>))) = (r, w')"
  have d: "canon False (fs w) kernelLinks [] dir = Inr d \<Longrightarrow> d = dir" for d
    using canon_plain [of dir "fs w" "[]"] assms(1) link by auto
  show "\<forall>nm. r = Inr nm \<longrightarrow> properComp nm \<and> noLinkTo (fs w') (dir @ [nm])"
  proof (intro allI impI)
    fix nm assume r: "r = Inr nm"
    then obtain rs where t: "createTempLoop createTempTries dir prfx [] (rand w) (fs w) = (Some nm, rs)"
      and w': "fs w' = fsPut (dir @ [nm]) Dir (fs w)"
      using act d by (auto split: sum.splits if_splits prod.splits option.splits)
    obtain n where "nm = prfx @ showNat n @ []" using createTemp_name [OF t] by blast
    then have "properComp nm" using proper_temp [of prfx "[]" n] assms by simp
    moreover have "noLinkTo (fs w') (dir @ [nm])"
      unfolding w' using link by (intro noLinkTo_snoc noLinkTo_put) (auto simp: fsGet_fsPut)
    ultimately show "properComp nm \<and> noLinkTo (fs w') (dir @ [nm])" by simp
  qed
qed auto

end
