(* ===== verification/ImportSafety.thy ===== *)
theory ImportSafety
  imports ClientTriples
begin

text \<open>
  What \<^verbatim>\<open>tfreg import\<close> sends to the Terraform registry: only packages whose manifest and layer have been verified
  against their digests, at the place their annotations name.
\<close>

section \<open>Verified artifacts\<close>

text \<open>
  The data and the identity that a manifest descriptor stands for: the manifest has the size and digest of the
  descriptor, passes every check, and has one layer with the size and digest of the data.
\<close>

definition verifiedArtifact :: "'r ociLib \<Rightarrow> descriptor \<Rightarrow> int \<Rightarrow> ociArtifactMetadata \<Rightarrow> bytes \<Rightarrow> bool" where
  "verifiedArtifact lib d maxBytes m data \<longleftrightarrow>
     dMediaType d = mediaTypeImageManifest \<and>
     (\<exists>body manifest layer.
        digestVerified lib (dDigest d) body \<and> int (length body) = dSize d \<and> dSize d \<le> maxOCIManifestBytes \<and>
        decodeManifest lib body = Inr manifest \<and> checkManifest manifest = Inr m \<and> mLayers manifest = [layer] \<and>
        digestVerified lib (dDigest layer) data \<and> int (length data) = dSize layer \<and> dSize layer \<le> maxBytes)"

lemma tripleC_fetchDescriptor:
  "tripleC (onSent s A) (fetchDescriptor lib source d limit)
     (\<lambda>r c. onSent s A c \<and> (\<forall>body. r = Inr body \<longrightarrow>
        digestVerified lib (dDigest d) body \<and> int (length body) = dSize d \<and> dSize d \<le> limit))"
proof (cases "digestValidate lib (dDigest d) = None \<and> \<not> (dSize d < 0 \<or> dSize d > limit)")
  case True
  then show ?thesis
    unfolding fetchDescriptor_def
    by (auto intro!: tripleC_bindC [OF tripleC_onRemote] tripleC_pure tripleC_return)
next
  case False
  then show ?thesis
    unfolding fetchDescriptor_def by (auto intro!: tripleC_return split: option.splits)
qed

lemma tripleC_fetchLayer:
  assumes "tempOk A output"
  shows "tripleC (onSent s (\<lambda>f. A f \<and> tempHas output [] False f)) (fetchLayer lib source layer output maxBytes)
     (\<lambda>r c. sent c = s \<and> (r = Inr () \<longrightarrow> (\<exists>data. A (fs (disk c)) \<and> tempHas output data False (fs (disk c)) \<and>
        digestVerified lib (dDigest layer) data \<and> int (length data) = dSize layer \<and> dSize layer \<le> maxBytes)))"
proof (cases "digestValidate lib (dDigest layer) = None \<and> \<not> (dSize layer < 0 \<or> dSize layer > maxBytes)")
  case True
  have copied: "tripleC (onSent s (\<lambda>f. A f \<and> tempHas output [] False f))
      (wrapC fmt [] (onDisk (copyToFile output reader limit)))
      (\<lambda>r c. sent c = s \<and> (\<forall>d. r = Inr d \<longrightarrow> A (fs (disk c)) \<and> tempHas output d False (fs (disk c))))" for fmt reader limit
    by (rule tripleC_wrapC, rule tripleC_conseq [OF tripleC_onDisk [OF triple_copyToFile [OF assms]]])
       (auto simp: onSent_def map_sum_eq_iff)
  show ?thesis
    unfolding fetchLayer_def using True
    by (auto intro!: tripleC_bindC [OF tripleC_wrapC [OF tripleC_onRemote]] tripleC_bindC [OF copied] tripleC_return
        simp: Let_def onSent_def)
next
  case False
  then show ?thesis
    unfolding fetchLayer_def by (auto intro!: tripleC_return simp: onSent_def split: option.splits)
qed

lemma checkManifest_layers: "checkManifest manifest = Inr m \<Longrightarrow> \<exists>layer. mLayers manifest = [layer]"
  by (auto simp: checkManifest_def length_Suc_conv split: if_splits)

lemma tripleC_unpack:
  assumes "tempOk A output"
  shows "tripleC (onSent s (\<lambda>f. A f \<and> tempHas output [] False f)) (unpackOCIArtifact lib source d output maxBytes)
     (\<lambda>r c. sent c = s \<and> (\<forall>m. r = Inr m \<longrightarrow> (\<exists>data. A (fs (disk c)) \<and> tempHas output data False (fs (disk c)) \<and>
        verifiedArtifact lib d maxBytes m data)))"
proof (cases "dMediaType d = mediaTypeImageManifest")
  case False
  then show ?thesis unfolding unpackOCIArtifact_def by (auto intro!: tripleC_return simp: onSent_def)
next
  case True
  let ?A = "\<lambda>f. A f \<and> tempHas output [] False f"
  let ?Q = "\<lambda>r c. sent c = s \<and> (\<forall>m. r = Inr m \<longrightarrow> (\<exists>data. A (fs (disk c)) \<and> tempHas output data False (fs (disk c)) \<and>
        verifiedArtifact lib d maxBytes m data))"
  have layer: "tripleC (onSent s ?A) (bindC (fetchLayer lib source (hd (mLayers manifest)) output maxBytes)
        (\<lambda>_. State_Monad.return (Inr m))) ?Q"
    if body: "digestVerified lib (dDigest d) body" "int (length body) = dSize d" "dSize d \<le> maxOCIManifestBytes"
      "decodeManifest lib body = Inr manifest" and man: "checkManifest manifest = Inr m" for body manifest m
  proof -
    obtain l where l: "mLayers manifest = [l]" using checkManifest_layers man by blast
    show ?thesis
      by (rule tripleC_bindC [OF tripleC_fetchLayer [OF assms]])
         (use body man True l in \<open>auto intro!: tripleC_return simp: verifiedArtifact_def\<close>)
  qed
  have rest: "tripleC (onSent s ?A)
      (bindC (wrapC ''decode OCI manifest: %w'' [] (State_Monad.return (decodeManifest lib body))) (\<lambda>manifest.
        bindC (State_Monad.return (checkManifest manifest)) (\<lambda>metadata.
        bindC (fetchLayer lib source (hd (mLayers manifest)) output maxBytes) (\<lambda>_.
        State_Monad.return (Inr metadata))))) ?Q"
    if "digestVerified lib (dDigest d) body" "int (length body) = dSize d" "dSize d \<le> maxOCIManifestBytes" for body
    unfolding wrapC_return
    by (intro tripleC_pure layer) (use that in \<open>auto simp: onSent_def map_sum_eq_iff\<close>)
  have "tripleC (onSent s ?A)
      (wrapC ''fetch OCI manifest: %w'' [] (fetchDescriptor lib source d maxOCIManifestBytes))
      (\<lambda>r c. onSent s ?A c \<and> (\<forall>body. r = Inr body \<longrightarrow>
        digestVerified lib (dDigest d) body \<and> int (length body) = dSize d \<and> dSize d \<le> maxOCIManifestBytes))"
    by (rule tripleC_wrapC, rule tripleC_conseq [OF tripleC_fetchDescriptor]) (auto simp: map_sum_eq_iff)
  then have "tripleC (onSent s ?A)
      (bindC (wrapC ''fetch OCI manifest: %w'' [] (fetchDescriptor lib source d maxOCIManifestBytes)) (\<lambda>body.
        bindC (wrapC ''decode OCI manifest: %w'' [] (State_Monad.return (decodeManifest lib body))) (\<lambda>manifest.
        bindC (State_Monad.return (checkManifest manifest)) (\<lambda>metadata.
        bindC (fetchLayer lib source (hd (mLayers manifest)) output maxBytes) (\<lambda>_.
        State_Monad.return (Inr metadata)))))) ?Q"
  proof (rule tripleC_bindC)
    fix body
    show "tripleC (\<lambda>c. onSent s ?A c \<and> (\<forall>b. Inr body = Inr b \<longrightarrow>
        digestVerified lib (dDigest d) b \<and> int (length b) = dSize d \<and> dSize d \<le> maxOCIManifestBytes))
      (bindC (wrapC ''decode OCI manifest: %w'' [] (State_Monad.return (decodeManifest lib body))) (\<lambda>manifest.
        bindC (State_Monad.return (checkManifest manifest)) (\<lambda>metadata.
        bindC (fetchLayer lib source (hd (mLayers manifest)) output maxBytes) (\<lambda>_.
        State_Monad.return (Inr metadata))))) ?Q"
    proof (cases "digestVerified lib (dDigest d) body \<and> int (length body) = dSize d \<and> dSize d \<le> maxOCIManifestBytes")
      case True
      then show ?thesis by (intro tripleC_conseq [OF rest]) auto
    qed (auto intro: tripleC_false)
  qed (auto simp: onSent_def)
  then show ?thesis unfolding unpackOCIArtifact_def using True by simp
qed

section \<open>The upload\<close>

text \<open>
  A request that posts a file to a URL: when the file was read to its end the body holds all of it, and otherwise the
  body breaks off with an error.
\<close>

definition posts :: "string \<Rightarrow> bytes \<Rightarrow> clientRequest \<Rightarrow> bool" where
  "posts url data req \<longleftrightarrow>
     crMethod req = ''POST'' \<and> crURL req = url \<and>
     (\<exists>name body. crFile req = Some (''file'', name, body) \<and> prefix (sData body) data \<and> (sErr body = None \<longrightarrow> sData body = data))"

lemma sent_readHandle:
  assumes "tempHas h data sy (fs w)" "run_state (readHandle h) w = (body, w')"
  shows "prefix (sData body) data" "sErr body = None \<Longrightarrow> sData body = data"
  using assms by (auto simp: readHandle_def tempHas_def handleContent_def take_is_prefix split: if_splits list.splits fault.splits)

lemma triple_openTemp_file:
  assumes "tempOk A tmp"
  shows "triple (\<lambda>f. A f \<and> tempHas tmp data sy f) (osOpen tmp)
    (\<lambda>r f. A f \<and> tempHas tmp data sy f \<and> (\<forall>h. r = Inr h \<longrightarrow> h = tmp))"
  unfolding osOpen_def
proof (rule triple_query)
  fix w assume a: "A (fs w) \<and> tempHas tmp data sy (fs w)"
  have "canon False (fs w) kernelLinks [] tmp = Inr q \<Longrightarrow> q = tmp" for q
    using canon_plain [of tmp "fs w" "[]"] assms a by (auto simp: tempOk_def)
  then show "A (fs w) \<and> tempHas tmp data sy (fs w) \<and> (\<forall>h. (case canon False (fs w) kernelLinks [] tmp of
       Inl e \<Rightarrow> Inl e
     | Inr q \<Rightarrow> if fsGet (fs w) q = None then Inl ErrNotExist else Inr q) = Inr h \<longrightarrow> h = tmp)"
    using a by (auto split: sum.splits if_splits)
qed (use assms in auto)

lemma tripleC_uploadFile:
  assumes tmp: "tempOk A tmp" "osPath (workDir st) path = tmp"
  shows "tripleC (onSent s (\<lambda>f. A f \<and> tempHas tmp data sy f)) (uploadFile st url path key)
    (\<lambda>r c. (sent c = s \<and> (\<exists>e. r = Inl e)) \<or> (\<exists>req. sent c = s @ [req] \<and> posts url data req \<and> r = transport st s req))"
    (is "tripleC ?P _ ?Q")
  unfolding uploadFile_def tmp(2)
proof (rule tripleC_bindC)
  show "tripleC ?P (wrapC ''cannot open file: %w'' [] (onDisk (osOpen tmp)))
      (\<lambda>r c. ?P c \<and> (\<forall>h. r = Inr h \<longrightarrow> h = tmp))"
    by (rule tripleC_wrapC, rule tripleC_conseq [OF tripleC_onDisk [OF triple_openTemp_file [OF tmp(1)]]])
       (auto simp: onSent_def map_sum_eq_iff)
  fix h
  show "tripleC (\<lambda>c. ?P c \<and> (\<forall>h'. Inr h = Inr h' \<longrightarrow> h' = tmp))
    (case newRequest st ''POST'' url None of
       Inl e \<Rightarrow> do { onDisk (ignore (osClose h)); State_Monad.return (Inl e) }
     | Inr req \<Rightarrow>
         do { body \<leftarrow> onDisk (readHandle h);
              onDisk (ignore (osClose h));
              let req1 = setRequestHeader ''Content-Type'' (''multipart/form-data; boundary='' @ boundary st)
                           (req\<lparr>crFile := Some (''file'', pathBase path, body)\<rparr>);
                  req2 = (if key \<noteq> [] then setRequestHeader ''X-API-Key'' key req1 else req1)
              in httpDo st req2 }) ?Q"
  proof (cases "urlError st url")
    case None
    have "posts url data (if key \<noteq> [] then setRequestHeader ''X-API-Key'' key req else req)"
      if "tempHas tmp data sy (fs w)" "run_state (readHandle tmp) w = (body, w')"
        "req = setRequestHeader ''Content-Type'' t
           (\<lparr>crMethod = ''POST'', crURL = url, crHeader = [], crFile = Some (''file'', pathBase path, body)\<rparr>)" for w body w' req t
      using sent_readHandle [OF that(1,2)] that(3) by (auto simp: posts_def setRequestHeader_def)
    then show ?thesis
      using None by (auto simp: tripleC_def onSent_def onDisk_def newRequest_def httpDo_def Let_def split: prod.splits if_splits)
  next
    case (Some e)
    then show ?thesis by (auto simp: tripleC_def onSent_def onDisk_def newRequest_def split: prod.splits)
  qed
qed (auto simp: onSent_def)

lemma tripleC_uploadArtifact:
  assumes "tempOk A tmp" "osPath (workDir st) path = tmp"
  shows "tripleC (onSent s (\<lambda>f. A f \<and> tempHas tmp data sy f)) (uploadArtifact st url path key)
    (\<lambda>r c. (sent c = s \<and> (\<exists>e. r = Inl e)) \<or> (\<exists>req. sent c = s @ [req] \<and> posts url data req \<and>
       (r = Inr () \<longrightarrow> (\<exists>resp. transport st s req = Inr resp \<and> 200 \<le> crStatus resp \<and> crStatus resp < 300))))"
    (is "tripleC ?P _ ?Q")
  unfolding uploadArtifact_def
proof (rule tripleC_bindC)
  show "tripleC ?P (wrapC ''upload artifact: %w'' [] (uploadFile st url path key))
    (\<lambda>r c. (sent c = s \<and> (\<exists>e. r = Inl e)) \<or> (\<exists>req. sent c = s @ [req] \<and> posts url data req \<and>
        (\<forall>resp. r = Inr resp \<longrightarrow> transport st s req = Inr resp)))" (is "tripleC _ _ ?R")
    by (rule tripleC_wrapC, rule tripleC_conseq [OF tripleC_uploadFile [OF assms]]) (auto simp: map_sum_eq_iff)
  fix resp
  show "tripleC (?R (Inr resp)) (bindC (wrapC ''read upload response: %w'' []
              (State_Monad.return (readAllLimited (crBody resp) (2 ^ 20)))) (\<lambda>body.
     if crStatus resp < 200 \<or> crStatus resp \<ge> 300 then
       State_Monad.return (Inl (Errorf ''registry returned HTTP %d: %s'' [showNat (crStatus resp), trimSpace body]))
     else State_Monad.return (Inr ()))) ?Q"
    unfolding wrapC_return by (rule tripleC_pure) (auto intro!: tripleC_return)
qed auto

section \<open>The import\<close>

text \<open>The request that copies a verified artifact to the place its identity names.\<close>

definition verifiedUpload ::
  "'r ociLib \<Rightarrow> urlLib \<Rightarrow> descriptor \<Rightarrow> string \<Rightarrow> int \<Rightarrow> ociArtifactMetadata \<Rightarrow> clientRequest \<Rightarrow> bool" where
  "verifiedUpload lib ul d registryURL maxBytes m req \<longleftrightarrow>
     (\<exists>url data. verifiedArtifact lib d maxBytes m data \<and> importUploadURL ul registryURL m = Inr url \<and> posts url data req)"

text \<open>What a run may have sent, and what its result says of that.\<close>

definition importOutcome ::
  "'r ociLib \<Rightarrow> urlLib \<Rightarrow> setting \<Rightarrow> descriptor \<Rightarrow> string \<Rightarrow> int \<Rightarrow> clientRequest list \<Rightarrow>
     ociArtifactMetadata result \<Rightarrow> clientRequest list \<Rightarrow> bool" where
  "importOutcome lib ul st d registryURL maxBytes s r s' \<longleftrightarrow>
     (s' = s \<and> (\<exists>e. r = Inl e)) \<or>
     (\<exists>m req. s' = s @ [req] \<and> verifiedUpload lib ul d registryURL maxBytes m req \<and>
        (\<forall>m'. r = Inr m' \<longrightarrow> m' = m \<and>
           (\<exists>resp. transport st s req = Inr resp \<and> 200 \<le> crStatus resp \<and> crStatus resp < 300)))"

lemma tripleC_importArtifact:
  fixes lib :: "'r ociLib" and st :: setting and d :: descriptor and ul :: urlLib and registryURL :: string
    and maxBytes :: int and s :: "clientRequest list"
  assumes tmp: "tempOk A tmp" "osPath (workDir st) path = tmp"
  defines "outcome \<equiv> \<lambda>r (c :: 'r client). importOutcome lib ul st d registryURL maxBytes s r (sent c)"
  shows "tripleC (onSent s (\<lambda>f. A f \<and> tempHas tmp [] False f))
     (bindC (do { r \<leftarrow> unpackOCIArtifact lib source d tmp maxBytes;
                 case r of
                   Inl e \<Rightarrow> do { onDisk (ignore (osClose tmp)); State_Monad.return (Inl e) }
                 | Inr metadata \<Rightarrow> State_Monad.return (Inr metadata) }) (\<lambda>metadata.
     bindC (wrapC fmt1 [] (onDisk (osClose tmp))) (\<lambda>_.
     bindC (State_Monad.return (importUploadURL ul registryURL metadata)) (\<lambda>uploadURL.
     bindC (wrapC fmt2 [] (uploadArtifact st uploadURL path key)) (\<lambda>_.
     State_Monad.return (Inr metadata)))))) outcome"
proof (rule tripleC_bindC)
  let ?U = "\<lambda>r c. sent c = s \<and> (\<forall>m. r = Inr m \<longrightarrow> (\<exists>data. A (fs (disk c)) \<and> tempHas tmp data False (fs (disk c)) \<and>
        verifiedArtifact lib d maxBytes m data))"
  show "tripleC (onSent s (\<lambda>f. A f \<and> tempHas tmp [] False f)) (do { r \<leftarrow> unpackOCIArtifact lib source d tmp maxBytes;
      case r of Inl e \<Rightarrow> do { onDisk (ignore (osClose tmp)); State_Monad.return (Inl e) }
      | Inr metadata \<Rightarrow> State_Monad.return (Inr metadata) }) ?U"
    by (rule tripleC_bind [OF tripleC_unpack [OF tmp(1)]])
       (auto simp: tripleC_def onDisk_def split: prod.splits sum.splits)
  fix m
  have upload: "tripleC (onSent s (\<lambda>f. A f \<and> tempHas tmp data False f))
     (bindC (wrapC fmt1 [] (onDisk (osClose tmp))) (\<lambda>_.
     bindC (State_Monad.return (importUploadURL ul registryURL m)) (\<lambda>uploadURL.
     bindC (wrapC fmt2 [] (uploadArtifact st uploadURL path key)) (\<lambda>_.
     State_Monad.return (Inr m))))) outcome" if v: "verifiedArtifact lib d maxBytes m data" for data
  proof (rule tripleC_bindC)
    show "tripleC (onSent s (\<lambda>f. A f \<and> tempHas tmp data False f)) (wrapC fmt1 [] (onDisk (osClose tmp)))
        (\<lambda>_. onSent s (\<lambda>f. A f \<and> tempHas tmp data False f))"
      by (rule tripleC_wrapC, rule tripleC_onDisk, rule readOnly_triple) (intro readonly)
    fix u :: unit
    show "tripleC (onSent s (\<lambda>f. A f \<and> tempHas tmp data False f))
      (bindC (State_Monad.return (importUploadURL ul registryURL m)) (\<lambda>uploadURL.
       bindC (wrapC fmt2 [] (uploadArtifact st uploadURL path key)) (\<lambda>_. State_Monad.return (Inr m)))) outcome"
    proof (rule tripleC_pure)
      fix url assume url: "importUploadURL ul registryURL m = Inr url"
      show "tripleC (onSent s (\<lambda>f. A f \<and> tempHas tmp data False f))
        (bindC (wrapC fmt2 [] (uploadArtifact st url path key)) (\<lambda>_. State_Monad.return (Inr m))) outcome"
      proof (rule tripleC_bindC)
        show "tripleC (onSent s (\<lambda>f. A f \<and> tempHas tmp data False f)) (wrapC fmt2 [] (uploadArtifact st url path key))
          (\<lambda>r c. (sent c = s \<and> (\<exists>e. r = Inl e)) \<or> (\<exists>req. sent c = s @ [req] \<and> posts url data req \<and>
             (r = Inr () \<longrightarrow> (\<exists>resp. transport st s req = Inr resp \<and> 200 \<le> crStatus resp \<and> crStatus resp < 300))))"
          by (rule tripleC_wrapC, rule tripleC_conseq [OF tripleC_uploadArtifact [OF tmp]]) (auto simp: map_sum_eq_iff)
      qed (use v url in \<open>auto intro!: tripleC_return simp: outcome_def importOutcome_def verifiedUpload_def\<close>)
    qed (auto simp: outcome_def importOutcome_def onSent_def)
  qed (auto simp: outcome_def importOutcome_def onSent_def)
  show "tripleC (?U (Inr m)) (bindC (wrapC fmt1 [] (onDisk (osClose tmp))) (\<lambda>_.
     bindC (State_Monad.return (importUploadURL ul registryURL m)) (\<lambda>uploadURL.
     bindC (wrapC fmt2 [] (uploadArtifact st uploadURL path key)) (\<lambda>_.
     State_Monad.return (Inr m))))) outcome"
    using upload unfolding tripleC_def onSent_def by blast
qed (auto simp: outcome_def importOutcome_def)

lemma triple_artifactFile:
  assumes "list_all properComp dir"
  shows "triple (\<lambda>f. noLinkTo f dir) (osCreateTemp dir ''artifact-'' [])
    (\<lambda>r f. \<forall>h tmp. r = Inr (h, tmp) \<longrightarrow> h = tmp \<and> (\<exists>nm. properComp nm \<and> tmp = dir @ [nm]) \<and> noLinkTo f tmp \<and>
       tempHas tmp [] False f)"
proof (rule triple_pre)
  fix g assume g: "noLinkTo g dir"
  have new: "(\<exists>nm. properComp nm \<and> tmp = dir @ [nm]) \<and> noLinkTo (fsPut tmp (File [] False t) g) tmp \<and>
      tempHas tmp [] False (fsPut tmp (File [] False t) g)" if tmp: "tmp = dir @ [''artifact-'' @ showNat n @ []]" for n t tmp
  proof -
    have "properComp (''artifact-'' @ showNat n @ [])" by (rule proper_temp) auto
    then have "\<exists>nm. properComp nm \<and> tmp = dir @ [nm]" using tmp by blast
    moreover have "noLinkTo (fsPut tmp (File [] False t) g) tmp"
      unfolding tmp using g by (intro noLinkTo_snoc noLinkTo_put) (auto simp: fsGet_fsPut)
    moreover have "tempHas tmp [] False (fsPut tmp (File [] False t) g)"
      using tmp by (simp add: tempHas_def fsGet_fsPut)
    ultimately show ?thesis by blast
  qed
  show "triple (\<lambda>f. f = g) (osCreateTemp dir ''artifact-'' [])
    (\<lambda>r f. \<forall>h tmp. r = Inr (h, tmp) \<longrightarrow> h = tmp \<and> (\<exists>nm. properComp nm \<and> tmp = dir @ [nm]) \<and> noLinkTo f tmp \<and>
       tempHas tmp [] False f)"
  proof (rule triple_post [OF triple_createTemp [OF assms g]], intro allI impI)
    fix r :: "(path \<times> path) result" and f h tmp
    assume H: "(\<forall>e. r = Inl e \<longrightarrow> f = g) \<and>
       (\<forall>h tmp. r = Inr (h, tmp) \<longrightarrow> h = tmp \<and> (\<exists>n t. tmp = dir @ [''artifact-'' @ showNat n @ []] \<and>
          fsGet g tmp = None \<and> fsGet g dir = Some Dir \<and> f = fsPut tmp (File [] False t) g))" and r: "r = Inr (h, tmp)"
    obtain n t where "h = tmp" "tmp = dir @ [''artifact-'' @ showNat n @ []]" "f = fsPut tmp (File [] False t) g"
      using conjunct2 [OF H, rule_format, OF r] by (elim conjE exE)
    then show "h = tmp \<and> (\<exists>nm. properComp nm \<and> tmp = dir @ [nm]) \<and> noLinkTo f tmp \<and> tempHas tmp [] False f"
      using new by simp
  qed
qed

lemma map_sum_Inr: "map_sum f g x = Inr y \<longleftrightarrow> (\<exists>z. x = Inr z \<and> y = g z)"
  by (cases x) auto

text \<open>The upload path of the artifact file, below a directory that was made for it.\<close>

lemma tripleC_importFromTarget:
  fixes lib :: "'r ociLib"
  assumes work: "list_all properComp (osPath (workDir st) (tempDir st))"
  shows "tripleC (onSent s (\<lambda>f. noLinkTo f (osPath (workDir st) (tempDir st))))
     (importOCIArtifactFromTarget lib ul st source d registryURL key maxBytes)
     (\<lambda>r c. importOutcome lib ul st d registryURL maxBytes s r (sent c))" (is "tripleC _ _ ?Q")
  unfolding importOCIArtifactFromTarget_def
proof (rule tripleC_bindC)
  let ?T = "osPath (workDir st) (tempDir st)"
  have ne: "tempDir st \<noteq> []" by (simp add: tempDir_def Let_def)
  show "tripleC (onSent s (\<lambda>f. noLinkTo f ?T)) (wrapC ''create OCI import workspace: %w'' [] (mkdirTemp st ''tfreg-oci-import-''))
    (\<lambda>r c. sent c = s \<and> (\<forall>dir. r = Inr dir \<longrightarrow> (\<exists>nm. dir = joinName (tempDir st) nm \<and> properComp nm \<and>
        noLinkTo (fs (disk c)) (?T @ [nm]))))"
    unfolding mkdirTemp_def
    by (rule tripleC_wrapC, rule tripleC_bind, rule tripleC_onDisk, rule triple_mkdirTemp [OF work])
       (simp, simp, rule tripleC_return, auto simp: onSent_def map_sum_Inr)
  fix dir
  show "tripleC (\<lambda>c. sent c = s \<and> (\<forall>dir'. (Inr dir :: string result) = Inr dir' \<longrightarrow> (\<exists>nm. dir' = joinName (tempDir st) nm \<and> properComp nm \<and>
        noLinkTo (fs (disk c)) (?T @ [nm]))))
     (withTempDir st dir (\<lambda>temporaryDirectory.
     bindC (wrapC ''create temporary artifact: %w'' []
              (onDisk (osCreateTemp (osPath (workDir st) temporaryDirectory) ''artifact-'' []))) (\<lambda>(f, named).
     let artifactPath = joinName temporaryDirectory (last named) in
     bindC (do { r \<leftarrow> unpackOCIArtifact lib source d f maxBytes;
                 case r of
                   Inl e \<Rightarrow> do { onDisk (ignore (osClose f)); State_Monad.return (Inl e) }
                 | Inr metadata \<Rightarrow> State_Monad.return (Inr metadata) }) (\<lambda>metadata.
     bindC (wrapC ''close temporary artifact: %w'' [] (onDisk (osClose f))) (\<lambda>_.
     bindC (State_Monad.return (importUploadURL ul registryURL metadata)) (\<lambda>uploadURL.
     bindC (wrapC ''upload imported OCI artifact: %w'' [] (uploadArtifact st uploadURL artifactPath key)) (\<lambda>_.
     State_Monad.return (Inr metadata)))))))) ?Q"
  proof (cases "\<exists>nm. dir = joinName (tempDir st) nm \<and> properComp nm")
    case False
    then show ?thesis by (auto intro: tripleC_false)
  next
    case True
    then obtain nm where nm: "dir = joinName (tempDir st) nm" "properComp nm" by blast
    define D where "D = ?T @ [nm]"
    have D: "osPath (workDir st) dir = D" "list_all properComp D"
      using osPath_joinName [OF nm(2) ne work] nm work by (simp_all add: D_def)
    have "dir \<noteq> []" using nm(1) ne by (simp add: joinName_def)
    then have inside: "osPath (workDir st) (joinName dir x) = D @ [x]" if "properComp x" for x
      using osPath_joinName [OF that, of dir "workDir st"] D by simp
    show ?thesis
      unfolding withTempDir_def D(1)
    proof (rule tripleC_bind [OF tripleC_bindC [where Q = ?Q]])
      show "tripleC (\<lambda>c :: 'r client. sent c = s \<and> (\<forall>dir'. (Inr dir :: string result) = Inr dir' \<longrightarrow> (\<exists>nm. dir' = joinName (tempDir st) nm \<and>
            properComp nm \<and> noLinkTo (fs (disk c)) (?T @ [nm]))))
          (wrapC ''create temporary artifact: %w'' [] (onDisk (osCreateTemp D ''artifact-'' [])))
          (\<lambda>r c. sent c = s \<and> (\<forall>h tmp. r = Inr (h, tmp) \<longrightarrow> h = tmp \<and> (\<exists>nm. properComp nm \<and> tmp = D @ [nm]) \<and>
             noLinkTo (fs (disk c)) tmp \<and> tempHas tmp [] False (fs (disk c))))"
      proof (rule tripleC_wrapC, rule tripleC_conseq [OF tripleC_onDisk [OF triple_artifactFile [OF D(2)], where s = s]])
        fix c :: "'r client"
        assume "sent c = s \<and> (\<forall>dir'. (Inr dir :: string result) = Inr dir' \<longrightarrow> (\<exists>nm. dir' = joinName (tempDir st) nm \<and>
            properComp nm \<and> noLinkTo (fs (disk c)) (?T @ [nm])))"
        then obtain n where n: "sent c = s" "dir = joinName (tempDir st) n" "properComp n" "noLinkTo (fs (disk c)) (?T @ [n])" by blast
        then have "?T @ [n] = D" using osPath_joinName [OF n(3) ne work] D(1) by simp
        then show "onSent s (\<lambda>f. noLinkTo f D) c" using n by (simp add: onSent_def)
      qed (auto simp: onSent_def map_sum_eq_iff)
    next
      show "sent c = s \<and> (\<forall>h tmp. (Inl e :: (path \<times> path) result) = Inr (h, tmp) \<longrightarrow> h = tmp \<and> (\<exists>nm. properComp nm \<and> tmp = D @ [nm]) \<and>
             noLinkTo (fs (disk c)) tmp \<and> tempHas tmp [] False (fs (disk c))) \<Longrightarrow> ?Q (Inl e) c" for e :: error and c :: "'r client"
        by (simp add: importOutcome_def)
    next
      fix x :: "path \<times> path"
      obtain h tmp where x: "x = (h, tmp)" by (cases x)
      show "tripleC (\<lambda>c. sent c = s \<and> (\<forall>h tmp. (Inr x :: (path \<times> path) result) = Inr (h, tmp) \<longrightarrow> h = tmp \<and> (\<exists>nm. properComp nm \<and> tmp = D @ [nm]) \<and>
             noLinkTo (fs (disk c)) tmp \<and> tempHas tmp [] False (fs (disk c))))
        (case x of (f, named) \<Rightarrow> let artifactPath = joinName dir (last named) in
           bindC (do { r \<leftarrow> unpackOCIArtifact lib source d f maxBytes;
                 case r of
                   Inl e \<Rightarrow> do { onDisk (ignore (osClose f)); State_Monad.return (Inl e) }
                 | Inr metadata \<Rightarrow> State_Monad.return (Inr metadata) }) (\<lambda>metadata.
           bindC (wrapC ''close temporary artifact: %w'' [] (onDisk (osClose f))) (\<lambda>_.
           bindC (State_Monad.return (importUploadURL ul registryURL metadata)) (\<lambda>uploadURL.
           bindC (wrapC ''upload imported OCI artifact: %w'' [] (uploadArtifact st uploadURL artifactPath key)) (\<lambda>_.
           State_Monad.return (Inr metadata)))))) ?Q"
      proof (cases "h = tmp \<and> (\<exists>nm. properComp nm \<and> tmp = D @ [nm])")
        case True
        then obtain n where n: "h = tmp" "properComp n" "tmp = D @ [n]" by blast
        have t: "tempOk (\<lambda>f. noLinkTo f tmp) tmp" by (rule tempOk_noLink) (use n D in auto)
        have p: "osPath (workDir st) (joinName dir (last tmp)) = tmp" using inside n by simp
        show ?thesis
          unfolding x prod.case Let_def n(1)
          by (rule tripleC_conseq [OF tripleC_importArtifact [OF t p, where s = s]]) (auto simp: onSent_def)
      qed (auto simp: x intro: tripleC_false)
    next
      show "tripleC (?Q x) (State_Monad.bind (onDisk (ignore (osRemoveAll D))) (\<lambda>_. State_Monad.return x)) ?Q" for x
        by (auto simp: tripleC_def onDisk_def split: prod.splits)
    qed
  qed
qed (auto simp: importOutcome_def)

section \<open>Properties\<close>

lemma tripleC_resolve:
  "tripleC (\<lambda>c. remote c = x0 \<and> onSent s A c) (onRemote (targetResolve lib repo tag))
     (\<lambda>r c. onSent s A c \<and> (\<forall>d. r = Inr d \<longrightarrow> (\<exists>x. targetResolve lib repo tag x0 = (Inr d, x))))"
  by (auto simp: tripleC_def onRemote_def onSent_def split: prod.splits if_splits)

definition imported ::
  "'r ociLib \<Rightarrow> urlLib \<Rightarrow> setting \<Rightarrow> ociImportOptions \<Rightarrow> clientRequest list \<Rightarrow> 'r \<Rightarrow> ociArtifactMetadata result \<Rightarrow>
     clientRequest list \<Rightarrow> bool" where
  "imported lib ul st opts s x0 r s' \<longleftrightarrow>
     (s' = s \<and> (\<exists>e. r = Inl e)) \<or>
     (\<exists>repository tag repo d x. splitOCIImportReference lib (oiOCIReference opts) = Inr (repository, tag) \<and>
        openOCIRepository lib repository (oiOCIUsername opts) (oiOCIPassword opts) (oiOCIPlainHTTP opts) = Inr repo \<and>
        targetResolve lib repo tag x0 = (Inr d, x) \<and>
        importOutcome lib ul st d (oiRegistry opts) (oiMaxBytes opts) s r s')"

lemma tripleC_importOCI:
  fixes lib :: "'r ociLib"
  assumes work: "list_all properComp (osPath (workDir st) (tempDir st))"
  shows "tripleC (\<lambda>c. remote c = x0 \<and> onSent s (\<lambda>f. noLinkTo f (osPath (workDir st) (tempDir st))) c)
    (importOCIArtifact lib ul st opts) (\<lambda>r c. imported lib ul st opts s x0 r (sent c))" (is "tripleC ?P _ ?Q")
  unfolding importOCIArtifact_def
proof (rule tripleC_pure)
  let ?A = "\<lambda>f. noLinkTo f (osPath (workDir st) (tempDir st))"
  fix p assume p: "splitOCIImportReference lib (oiOCIReference opts) = Inr p"
  obtain repository tag where pair: "p = (repository, tag)" by (cases p)
  then have ref: "splitOCIImportReference lib (oiOCIReference opts) = Inr (repository, tag)" using p by simp
  show "tripleC ?P (case p of (repository, tag) \<Rightarrow>
      bindC (State_Monad.return (openOCIRepository lib repository (oiOCIUsername opts) (oiOCIPassword opts) (oiOCIPlainHTTP opts))) (\<lambda>repo.
      bindC (wrapC ''resolve OCI artifact: %w'' [] (onRemote (targetResolve lib repo tag))) (\<lambda>manifest.
      importOCIArtifactFromTarget lib ul st repo manifest (oiRegistry opts) (oiAPIKey opts) (oiMaxBytes opts)))) ?Q"
    unfolding pair prod.case
  proof (rule tripleC_pure)
    fix repo
    assume repo: "openOCIRepository lib repository (oiOCIUsername opts) (oiOCIPassword opts) (oiOCIPlainHTTP opts) = Inr repo"
    show "tripleC ?P (bindC (wrapC ''resolve OCI artifact: %w'' [] (onRemote (targetResolve lib repo tag))) (\<lambda>manifest.
        importOCIArtifactFromTarget lib ul st repo manifest (oiRegistry opts) (oiAPIKey opts) (oiMaxBytes opts))) ?Q"
    proof (rule tripleC_bindC)
      show "tripleC ?P (wrapC ''resolve OCI artifact: %w'' [] (onRemote (targetResolve lib repo tag)))
        (\<lambda>r c. onSent s ?A c \<and> (\<forall>d. r = Inr d \<longrightarrow> (\<exists>y. targetResolve lib repo tag x0 = (Inr d, y))))"
        by (rule tripleC_wrapC, rule tripleC_conseq [OF tripleC_resolve]) (auto simp: map_sum_eq_iff)
      fix d
      show "tripleC (\<lambda>c :: 'r client. onSent s ?A c \<and>
          (\<forall>d'. (Inr d :: descriptor result) = Inr d' \<longrightarrow> (\<exists>y. targetResolve lib repo tag x0 = (Inr d', y))))
        (importOCIArtifactFromTarget lib ul st repo d (oiRegistry opts) (oiAPIKey opts) (oiMaxBytes opts)) ?Q"
      proof (cases "\<exists>y. targetResolve lib repo tag x0 = (Inr d, y)")
        case True
        then show ?thesis
          by (intro tripleC_conseq [OF tripleC_importFromTarget [OF work, where s = s]]) (use ref repo in \<open>auto simp: imported_def\<close>)
      qed (auto intro: tripleC_false)
    qed (auto simp: onSent_def imported_def)
  qed (auto simp: onSent_def imported_def)
qed (auto simp: onSent_def imported_def)

text \<open>
  C12.  Nothing unverified reaches the Terraform registry.  Whatever the OCI registry serves, whatever fails and
  wherever the process dies, \<^verbatim>\<open>importOCIArtifact\<close> sends at most one request.  That request posts to the upload URL of
  the identity that the manifest's annotations name (all of whose parts have passed the checks), and its body is the
  layer of the manifest, whose bytes have the size and digest the manifest states and stay within the size limit,
  where the manifest has the size and digest of the descriptor to which the reference was resolved (a body that
  breaks off with a read error is a prefix of that).  The command reports success only for that artifact and when the
  registry answered with a 2xx status.
\<close>

theorem import_uploads_verified:
  assumes "list_all properComp (osPath (workDir st) (tempDir st))" "noLinkTo (fs (disk c)) (osPath (workDir st) (tempDir st))"
    and "run_state (importOCIArtifact lib ul st opts) c = (r, c')"
  shows "(sent c' = sent c \<and> (\<exists>e. r = Inl e)) \<or>
    (\<exists>repository tag repo d x m req.
       splitOCIImportReference lib (oiOCIReference opts) = Inr (repository, tag) \<and>
       openOCIRepository lib repository (oiOCIUsername opts) (oiOCIPassword opts) (oiOCIPlainHTTP opts) = Inr repo \<and>
       targetResolve lib repo tag (remote c) = (Inr d, x) \<and>
       sent c' = sent c @ [req] \<and> verifiedUpload lib ul d (oiRegistry opts) (oiMaxBytes opts) m req \<and>
       (\<forall>m'. r = Inr m' \<longrightarrow> m' = m \<and>
          (\<exists>resp. transport st (sent c) req = Inr resp \<and> 200 \<le> crStatus resp \<and> crStatus resp < 300)))"
proof -
  have "imported lib ul st opts (sent c) (remote c) r (sent c')"
    using tripleCD [OF tripleC_importOCI [OF assms(1), of "remote c" "sent c"] _ assms(3)] assms(2) by (simp add: onSent_def)
  then show ?thesis unfolding imported_def importOutcome_def by blast
qed

section \<open>An instance\<close>

text \<open>A library with one artifact, whose digests are the data themselves.\<close>

definition demoLayer :: descriptor where
  "demoLayer = \<lparr>dMediaType = terraformModuleLayerType, dDigest = ''tgz'', dSize = 3, dAnnotations = []\<rparr>"

definition demoManifest :: ociManifest where
  "demoManifest = \<lparr>mSchemaVersion = 2, mArtifactType = terraformOCIArtifactType, mLayers = [demoLayer],
     mAnnotations = [(''io.terraform.kind'', ''module''), (''io.terraform.namespace'', ''n''), (''io.terraform.name'', ''m''),
       (''io.terraform.provider'', ''p''), (''io.terraform.version'', ''1.0.0'')]\<rparr>"

definition demoLib :: "unit ociLib" where
  "demoLib = \<lparr>parseReference = \<lambda>s. Inr \<lparr>refRegistry = ''h'', refRepository = ''r'', refReference = s\<rparr>,
     referenceAsTag = \<lambda>_. None, referenceAsDigest = \<lambda>_. None, newRepository = \<lambda>_. Inr ''h'', dockerStore = None,
     targetPush = \<lambda>_ _ _ x. (Inr (), x), targetPack = \<lambda>_ _ _ _ x. (Inl ErrIO, x), targetTag = \<lambda>_ _ _ x. (Inr (), x),
     targetResolve = \<lambda>_ _ x. (Inr \<lparr>dMediaType = mediaTypeImageManifest, dDigest = ''man'', dSize = 3, dAnnotations = []\<rparr>, x),
     targetFetch = \<lambda>_ d x. (Inr \<lparr>sData = dDigest d, sErr = None\<rparr>, x), digestOf = id, digestValidate = \<lambda>_. None,
     digestVerified = (=), decodeManifest = \<lambda>_. Inr demoManifest, timeRFC3339 = \<lambda>_. []\<rparr>"

definition demoURL :: urlLib where
  "demoURL = \<lparr>urlParse = \<lambda>s. Inr \<lparr>uScheme = ''http'', uHost = s, uHasUser = False, uRawQuery = [], uFragment = [], uPath = [],
       uOther = []\<rparr>, urlString = \<lambda>u. uHost u @ uPath u\<rparr>"

definition demoImport :: ociImportOptions where
  "demoImport = \<lparr>oiRegistry = ''reg'', oiAPIKey = ''k'', oiOCIReference = ''t'', oiOCIUsername = ''u'', oiOCIPassword = [],
     oiOCIPlainHTTP = False, oiMaxBytes = 10\<rparr>"

definition demoPlace :: setting where
  "demoPlace = \<lparr>environ = [''TMPDIR=t''], workDir = [''d''],
     transport = \<lambda>_ req. Inr \<lparr>crStatus = 201, crRespHeader = [], crBody = \<lparr>sData = [], sErr = None\<rparr>\<rparr>,
     urlError = \<lambda>_. None, boundary = ''b'', osText = \<lambda>_. ''e''\<rparr>"

definition demoIdentity :: ociArtifactMetadata where
  "demoIdentity = \<lparr>omKind = ''module'', omNamespace = ''n'', omName = ''m'', omProvider = ''p'', omVersion = ''1.0.0'',
     omOS = [], omArch = []\<rparr>"

lemma demo_names: "validImportName ''n''" "validImportName ''m''" "validImportName ''p''" "validImportVersion ''1.0.0''"
  by (simp_all add: validImportName_iff validArtifactName_iff isName_def isAlnum_def isDigit_def isUpper_def isLower_def nameChar_def digitVal_def validImportVersion_def
      containsStr.simps cutAt_no_sep parseUint64_def decValue_def less_eq_char_def hasPrefix_def)

lemma demo_escapes:
  "trimRightCh CHR ''/'' [] @ ''/'' @ joinWith ''/'' (map pathEscape [''api'', ''v1'', ''modules'', ''n'', ''m'', ''p'', ''1.0.0'']) =
     ''/api/v1/modules/n/m/p/1.0.0''"
  "trimRightCh CHR ''/'' ''reg'' = ''reg''"
  by code_simp+

lemma demo_checks:
  "checkManifest demoManifest = Inr demoIdentity"
  "importUploadURL demoURL ''reg'' demoIdentity = Inr ''reg/api/v1/modules/n/m/p/1.0.0''"
  by (simp_all add: checkManifest_def metadataFromOCIManifest_def demoManifest_def demoLayer_def demoIdentity_def
      lookupStr_def moduleIdentityOk_def importUploadURL_def demoURL_def importSegments_def demo_names
      demo_escapes [simplified])

lemma place_paths:
  "tempDir demoPlace = ''t''" "osPath [''d''] ''t'' = [''d'', ''t'']"
  "osPath [''d''] (joinName ''t'' ''tfreg-oci-import-3'') = [''d'', ''t'', ''tfreg-oci-import-3'']"
  "osPath [''d''] (joinName (joinName ''t'' ''tfreg-oci-import-3'') ''artifact-5'') = [''d'', ''t'', ''tfreg-oci-import-3'', ''artifact-5'']"
  by code_simp+

lemma demo_loop:
  "createTempLoop createTempTries d p q (r # rs) f =
     (if fsGet f (d @ [p @ showNat r @ q]) = None then (Some (p @ showNat r @ q), rs) else createTempLoop 9999 d p q rs f)"
proof -
  have "createTempTries = Suc 9999" by (simp add: createTempTries_def)
  then show ?thesis using createTempLoop.simps(3) [of 9999 d p q r rs f] by (simp only:)
qed

lemma demo_digits: "showNat 3 = ''3''" "showNat 5 = ''5''"
  by code_simp+

definition demoDisk :: "(path \<times> node) list \<Rightarrow> nat list \<Rightarrow> world" where
  "demoDisk nodes rs = (demoWorld [] [])\<lparr>fs := nodes @ [([''d''], Dir), ([''d'', ''t''], Dir)], rand := rs\<rparr>"

definition demoStart :: "unit client" where
  "demoStart = \<lparr>disk = demoDisk [] [3, 5, 8], stdin = \<lparr>sData = [], sErr = None\<rparr>, stdout = [], stderr = [],
     sent = [], remote = ()\<rparr>"

abbreviation "demoDir \<equiv> [''d'', ''t'', ''tfreg-oci-import-3'']"
abbreviation "demoTemp \<equiv> [''d'', ''t'', ''tfreg-oci-import-3'', ''artifact-5'']"

lemma demo_mkdir:
  "run_state (osMkdirTemp [''d'', ''t''] ''tfreg-oci-import-'') (demoDisk [] [3, 5, 8]) =
     (Inr ''tfreg-oci-import-3'', demoDisk [(demoDir, Dir)] [5, 8])"
  by (simp add: osMkdirTemp_def os_eval demoWorld_def demoDisk_def demo_loop demo_digits)

lemma demo_temp:
  "run_state (osCreateTemp demoDir ''artifact-'' []) (demoDisk [(demoDir, Dir)] [5, 8]) =
     (Inr (demoTemp, demoTemp), demoDisk [(demoTemp, File [] False 7), (demoDir, Dir)] [8])"
  by (simp add: osCreateTemp_def os_eval demoWorld_def demoDisk_def demo_loop demo_digits)

lemma demo_place:
  "workDir demoPlace = [''d'']" "urlError demoPlace url = None"
  "transport demoPlace reqs req = Inr \<lparr>crStatus = 201, crRespHeader = [], crBody = \<lparr>sData = [], sErr = None\<rparr>\<rparr>"
  by (simp_all add: demoPlace_def)

abbreviation "demoDisk' \<equiv> demoDisk [(demoTemp, File ''tgz'' False 7), (demoDir, Dir)] [8]"

lemma demo_layers: "mLayers demoManifest = [demoLayer]"
  by (simp add: demoManifest_def)

lemma demo_unpack:
  assumes "disk c = demoDisk [(demoTemp, File [] False 7), (demoDir, Dir)] [8]"
  shows "run_state (unpackOCIArtifact demoLib repo \<lparr>dMediaType = mediaTypeImageManifest, dDigest = ''man'', dSize = 3, dAnnotations = []\<rparr>
     demoTemp 10) c = (Inr demoIdentity, c\<lparr>disk := demoDisk'\<rparr>)"
  using assms
  by (simp add: unpackOCIArtifact_def fetchDescriptor_def fetchLayer_def demoLib_def bindC_def wrapC_def onRemote_def onDisk_def
      demo_checks readAllLimited_def copyLimited_def copyToFile_def maxOCIManifestBytes_def demoDisk_def demoWorld_def
      demo_layers demoLayer_def os_eval)

lemma place_upload:
  assumes "disk c = demoDisk'" "sent c = []"
  shows "run_state (uploadArtifact demoPlace url (joinName (joinName ''t'' ''tfreg-oci-import-3'') ''artifact-5'') key) c =
    (Inr (), c\<lparr>sent := [(if key \<noteq> [] then setRequestHeader ''X-API-Key'' key else id)
      \<lparr>crMethod = ''POST'', crURL = url, crHeader = [(''Content-Type'', ''multipart/form-data; boundary='' @ boundary demoPlace)],
       crFile = Some (''file'', ''artifact-5'', \<lparr>sData = ''tgz'', sErr = None\<rparr>)\<rparr>]\<rparr>)"
proof -
  have "pathBase (joinName (joinName ''t'' ''tfreg-oci-import-3'') ''artifact-5'') = ''artifact-5''" by code_simp
  then show ?thesis
    using assms
    by (simp add: uploadArtifact_def uploadFile_def newRequest_def httpDo_def setRequestHeader_def readHandle_def handleContent_def
      bindC_def wrapC_def onDisk_def demo_place place_paths demoDisk_def demoWorld_def readAllLimited_def copyLimited_def os_eval
      setHeader_def)
qed

lemma demo_trim: "trimSpace ''t'' = ''t''"
  by code_simp

lemma demo_reference:
  "splitOCIImportReference demoLib (oiOCIReference demoImport) = Inr (''h/r'', ''t'')"
  "openOCIRepository demoLib ''h/r'' (oiOCIUsername demoImport) (oiOCIPassword demoImport) (oiOCIPlainHTTP demoImport) =
     Inr \<lparr>orName = ''h/r'', orPlainHTTP = False, orCredential = StaticCredential ''h'' ''u'' []\<rparr>"
  "targetResolve demoLib repo tag x = (Inr \<lparr>dMediaType = mediaTypeImageManifest, dDigest = ''man'', dSize = 3, dAnnotations = []\<rparr>, x)"
  "oiRegistry demoImport = ''reg''" "oiMaxBytes demoImport = 10"
  by (simp_all add: splitOCIImportReference_def demoLib_def demoImport_def openOCIRepository_def demo_trim)

lemma demo_close: "run_state (osClose h) (demoDisk nodes rs) = (Inr (), demoDisk nodes rs)"
  "\<not> crashed (demoDisk nodes rs)"
  by (simp_all add: os_eval demoDisk_def demoWorld_def)

lemma demo_import:
  "fst (run_state (importOCIArtifact demoLib demoURL demoPlace demoImport) demoStart) = Inr demoIdentity"
  "map crURL (sent (snd (run_state (importOCIArtifact demoLib demoURL demoPlace demoImport) demoStart))) =
     [''reg/api/v1/modules/n/m/p/1.0.0'']"
  by (simp_all add: importOCIArtifact_def importOCIArtifactFromTarget_def demo_reference bindC_def wrapC_def onRemote_def
      mkdirTemp_def withTempDir_def onDisk_def demoStart_def demo_place place_paths demo_mkdir demo_temp demo_unpack
      demo_checks place_upload demo_close setRequestHeader_def split: prod.splits)

theorem import_uploads_verified_witness:
  "\<exists>m req d. map crURL (sent (snd (run_state (importOCIArtifact demoLib demoURL demoPlace demoImport) demoStart))) =
       [''reg/api/v1/modules/n/m/p/1.0.0''] \<and>
     sent (snd (run_state (importOCIArtifact demoLib demoURL demoPlace demoImport) demoStart)) = [req] \<and>
     verifiedUpload demoLib demoURL d ''reg'' 10 m req"
proof -
  obtain r c' where run: "run_state (importOCIArtifact demoLib demoURL demoPlace demoImport) demoStart = (r, c')"
    by (rule prod.exhaust)
  have h: "list_all properComp (osPath (workDir demoPlace) (tempDir demoPlace))"
    "noLinkTo (fs (disk demoStart)) (osPath (workDir demoPlace) (tempDir demoPlace))"
    by (simp_all add: demo_place place_paths properComp_def demoStart_def demoDisk_def noLinkTo_def fsGet_def split: option.splits)
  have "sent c' \<noteq> sent demoStart" using demo_import(2) run by (auto simp: demoStart_def)
  then show ?thesis
    using import_uploads_verified [OF h run] demo_import(2) run by (auto simp: demoStart_def demo_reference)
qed

end
