(* ===== verification/OciRoundtrip.thy ===== *)
theory OciRoundtrip
  imports ImportSafety Download
begin

text \<open>
  What \<^verbatim>\<open>tfreg publish\<close> pushes to an OCI registry is what \<^verbatim>\<open>tfreg import\<close> takes out of it: the same bytes and the
  same identity.
\<close>

section \<open>The contract of the OCI libraries\<close>

definition utf8Entries :: "(string \<times> string) list \<Rightarrow> bool" where
  "utf8Entries kvs \<longleftrightarrow> list_all (\<lambda>(k, v). validUTF8 k \<and> validUTF8 v) kvs"

definition utf8Descriptor :: "descriptor \<Rightarrow> bool" where
  "utf8Descriptor d \<longleftrightarrow> validUTF8 (dMediaType d) \<and> validUTF8 (dDigest d) \<and> utf8Entries (dAnnotations d)"

definition layerKey :: "descriptor \<Rightarrow> string \<times> string \<times> int" where
  "layerKey d = (dMediaType d, dDigest d, dSize d)"

text \<open>The descriptor and the bytes of a manifest.\<close>

definition storedManifest ::
  "'r ociLib \<Rightarrow> string \<Rightarrow> descriptor list \<Rightarrow> (string \<times> string) list \<Rightarrow> descriptor \<Rightarrow> bytes \<Rightarrow> bool" where
  "storedManifest lib ty layers ann d body \<longleftrightarrow>
     dMediaType d = mediaTypeImageManifest \<and> dDigest d = digestOf lib body \<and> dSize d = int (length body) \<and>
     (list_all utf8Descriptor layers \<and> utf8Entries ann \<longrightarrow>
        (\<exists>m. decodeManifest lib body = Inr m \<and> mSchemaVersion m = 2 \<and> mArtifactType m = ty \<and>
           map layerKey (mLayers m) = map layerKey layers \<and> (\<forall>k. lookupStr (mAnnotations m) k = lookupStr ann k)))"

text \<open>
  What the code relies on; \<open>holds x repo digest b\<close> says that in the state \<open>x\<close> the repository has the blob \<open>b\<close> under
  \<open>digest\<close>.  A digest verifies the bytes it was made from.  A push that succeeds has read its source to the end and
  stored it.  \<^verbatim>\<open>PackManifest\<close> stores a manifest, which decodes to version 2 with the given artifact type, layers and
  annotations when their text is UTF-8, and returns its descriptor.  A stored blob can be fetched.  Nothing is lost.
\<close>

definition ociContract :: "'r ociLib \<Rightarrow> ('r \<Rightarrow> ociRepository \<Rightarrow> string \<Rightarrow> bytes \<Rightarrow> bool) \<Rightarrow> bool" where
  "ociContract lib holds \<longleftrightarrow>
     (\<forall>b. digestValidate lib (digestOf lib b) = None \<and> digestVerified lib (digestOf lib b) b \<and> validUTF8 (digestOf lib b)) \<and>
     (\<forall>n. validUTF8 (timeRFC3339 lib n)) \<and>
     (\<forall>repo d s x x'. targetPush lib repo d s x = (Inr (), x') \<longrightarrow> sErr s = None \<and> holds x' repo (dDigest d) (sData s)) \<and>
     (\<forall>repo ty layers ann x d x'. targetPack lib repo ty layers ann x = (Inr d, x') \<longrightarrow>
        (\<forall>dg b. holds x repo dg b \<longrightarrow> holds x' repo dg b) \<and>
        (\<exists>body. holds x' repo (dDigest d) body \<and> storedManifest lib ty layers ann d body)) \<and>
     (\<forall>repo d x b. holds x repo (dDigest d) b \<longrightarrow>
        (\<exists>x'. targetFetch lib repo d x = (Inr \<lparr>sData = b, sErr = None\<rparr>, x') \<and>
           (\<forall>dg b. holds x repo dg b \<longrightarrow> holds x' repo dg b)))"

section \<open>Packing\<close>

lemma tripleC_disk:
  "triple A m B \<Longrightarrow> tripleC (\<lambda>c. A (fs (disk c)) \<and> R (remote c)) (onDisk m) (\<lambda>r c. B r (fs (disk c)) \<and> R (remote c))"
  by (auto simp: tripleC_def onDisk_def triple_def split: prod.splits)

lemma triple_open_at:
  "triple (\<lambda>f. f = f0) (osOpen p) (\<lambda>r f. f = f0 \<and> (\<forall>h. r = Inr h \<longrightarrow> canon False f0 kernelLinks [] p = Inr h))"
  unfolding osOpen_def by (rule triple_query) (auto split: sum.splits if_splits)

lemma triple_fstat_at:
  "triple (\<lambda>f. f = f0) (osFstat h) (\<lambda>r f. f = f0 \<and> (\<forall>n. r = Inr n \<longrightarrow> fsGet f0 h = Some n))"
  unfolding osFstat_def by (rule triple_query) (auto split: option.splits)

lemma triple_read_at:
  "fsGet f0 h = Some (File data sy t) \<Longrightarrow>
     triple (\<lambda>f. f = f0) (readHandle h) (\<lambda>r f. f = f0 \<and> (sErr r = None \<longrightarrow> sData r = data))"
  by (auto simp: triple_def readHandle_def handleContent_def split: if_splits list.splits fault.splits)

text \<open>What a packed artifact leaves in the registry.\<close>

definition packedLayer :: "'r ociLib \<Rightarrow> string \<Rightarrow> string \<Rightarrow> bytes \<Rightarrow> descriptor" where
  "packedLayer lib mt path data =
     \<lparr>dMediaType = mt, dDigest = digestOf lib data, dSize = int (length data), dAnnotations = [(annotationTitle, pathBase path)]\<rparr>"

definition packed ::
  "'r ociLib \<Rightarrow> ('r \<Rightarrow> ociRepository \<Rightarrow> string \<Rightarrow> bytes \<Rightarrow> bool) \<Rightarrow> ociRepository \<Rightarrow> string \<Rightarrow> string \<Rightarrow>
     (string \<times> string) list \<Rightarrow> bytes \<Rightarrow> descriptor \<Rightarrow> 'r \<Rightarrow> bool" where
  "packed lib holds repo mt path ann data d x \<longleftrightarrow>
     holds x repo (digestOf lib data) data \<and>
     (\<exists>body now. holds x repo (dDigest d) body \<and>
        storedManifest lib terraformOCIArtifactType [packedLayer lib mt path data]
          (withCreated (timeRFC3339 lib now) ann) d body)"

lemma tripleC_stage:
  fixes lib :: "'r ociLib"
  assumes K: "ociContract lib holds" and here: "fsGet f0 h = Some (File data sy t)"
  shows "tripleC (\<lambda>c. fs (disk c) = f0)
     (bindC (wrapC e1 [] (do { r \<leftarrow> onDisk (readHandle h); onRemote (targetPush lib repo (packedLayer lib mt path data) r) })) (\<lambda>_.
            do { now \<leftarrow> onDisk timeNow;
                 onRemote (targetPack lib repo terraformOCIArtifactType [packedLayer lib mt path data]
                   (withCreated (timeRFC3339 lib now) ann)) }))
     (\<lambda>r c. \<forall>d. r = Inr d \<longrightarrow> packed lib holds repo mt path ann data d (remote c))"
proof (rule tripleC_bindC)
  let ?l = "packedLayer lib mt path data"
  show "tripleC (\<lambda>c. fs (disk c) = f0)
     (wrapC e1 [] (do { r \<leftarrow> onDisk (readHandle h); onRemote (targetPush lib repo ?l r) }))
     (\<lambda>r c. r = Inr () \<longrightarrow> holds (remote c) repo (digestOf lib data) data)"
  proof (rule tripleC_wrapC, rule tripleC_bind)
    show "tripleC (\<lambda>c. fs (disk c) = f0) (onDisk (readHandle h)) (\<lambda>r c. sErr r = None \<longrightarrow> sData r = data)"
      by (rule tripleC_conseq [OF tripleC_disk [OF triple_read_at [OF here], where R = "\<lambda>_. True"]]) auto
    fix s :: stream
    have push: "sErr s = None \<and> holds x' repo (digestOf lib data) (sData s)" if "targetPush lib repo ?l s x = (Inr (), x')" for x x'
      using K that unfolding ociContract_def packedLayer_def by fastforce
    show "tripleC (\<lambda>c. sErr s = None \<longrightarrow> sData s = data) (onRemote (targetPush lib repo ?l s))
        (\<lambda>r c. map_sum (Wrapf e1 []) id r = Inr () \<longrightarrow> holds (remote c) repo (digestOf lib data) data)"
      using push by (fastforce simp: tripleC_def onRemote_def map_sum_eq_iff split: if_splits prod.splits)
  qed
  fix u :: unit
  show "tripleC (\<lambda>c. Inr u = Inr () \<longrightarrow> holds (remote c) repo (digestOf lib data) data)
     (do { now \<leftarrow> onDisk timeNow;
           onRemote (targetPack lib repo terraformOCIArtifactType [?l] (withCreated (timeRFC3339 lib now) ann)) })
     (\<lambda>r c. \<forall>d. r = Inr d \<longrightarrow> packed lib holds repo mt path ann data d (remote c))"
  proof (rule tripleC_bind)
    show "tripleC (\<lambda>c. Inr u = Inr () \<longrightarrow> holds (remote c) repo (digestOf lib data) data) (onDisk timeNow)
        (\<lambda>_ c. holds (remote c) repo (digestOf lib data) data)"
      by (auto simp: tripleC_def onDisk_def split: prod.splits)
    fix now
    have pack: "packed lib holds repo mt path ann data d x'"
      if "targetPack lib repo terraformOCIArtifactType [?l] (withCreated (timeRFC3339 lib now) ann) x = (Inr d, x')"
        "holds x repo (digestOf lib data) data" for x d x'
    proof -
      from K have "\<forall>repo ty layers ann x d x'. targetPack lib repo ty layers ann x = (Inr d, x') \<longrightarrow>
        (\<forall>dg b. holds x repo dg b \<longrightarrow> holds x' repo dg b) \<and>
        (\<exists>body. holds x' repo (dDigest d) body \<and> storedManifest lib ty layers ann d body)"
        unfolding ociContract_def by (elim conjE)
      from this [rule_format, OF that(1)] show ?thesis
        using that(2) unfolding packed_def by blast
    qed
    show "tripleC (\<lambda>c. holds (remote c) repo (digestOf lib data) data)
        (onRemote (targetPack lib repo terraformOCIArtifactType [?l] (withCreated (timeRFC3339 lib now) ann)))
        (\<lambda>r c. \<forall>d. r = Inr d \<longrightarrow> packed lib holds repo mt path ann data d (remote c))"
      using pack by (auto simp: tripleC_def onRemote_def split: if_splits prod.splits)
  qed
qed auto

lemma tripleC_packOpen:
  fixes lib :: "'r ociLib"
  assumes K: "ociContract lib holds" and here: "fsGet f0 h = Some (File data sy t)"
  shows "tripleC (\<lambda>c. fs (disk c) = f0) (do { res \<leftarrow>
            bindC (wrapC ''stat artifact: %w'' [] (onDisk (osFstat h))) (\<lambda>info.
            bindC (wrapC ''hash artifact: %w'' [] (do { r \<leftarrow> onDisk (readHandle h); State_Monad.return (readAll r) })) (\<lambda>data.
            bindC (wrapC ''rewind artifact: %w'' [] (onDisk (osSeekStart h))) (\<lambda>_.
            let layer = \<lparr>dMediaType = mt, dDigest = digestOf lib data, dSize = nodeSize info,
                         dAnnotations = [(annotationTitle, pathBase path)]\<rparr> in
            bindC (wrapC ''stage OCI layer: %w'' []
                     (do { r \<leftarrow> onDisk (readHandle h); onRemote (targetPush lib repo layer r) })) (\<lambda>_.
            do { now \<leftarrow> onDisk timeNow;
                 onRemote (targetPack lib repo terraformOCIArtifactType [layer]
                   (withCreated (timeRFC3339 lib now) ann)) }))));
          onDisk (ignore (osClose h));
          State_Monad.return res })
     (\<lambda>r c. \<forall>d. r = Inr d \<longrightarrow> packed lib holds repo mt path ann data d (remote c))" (is "tripleC ?P _ ?Q")
proof (rule tripleC_bind)
  have disk: "tripleC ?P (onDisk m) (\<lambda>r c. ?P c \<and> B r)" if "triple (\<lambda>f. f = f0) m (\<lambda>r f. f = f0 \<and> B r)" for m B
    by (rule tripleC_conseq [OF tripleC_disk [OF that, where R = "\<lambda>_. True"]]) auto
  show "tripleC ?P
     (bindC (wrapC ''stat artifact: %w'' [] (onDisk (osFstat h))) (\<lambda>info.
      bindC (wrapC ''hash artifact: %w'' [] (do { r \<leftarrow> onDisk (readHandle h); State_Monad.return (readAll r) })) (\<lambda>data.
      bindC (wrapC ''rewind artifact: %w'' [] (onDisk (osSeekStart h))) (\<lambda>_.
      let layer = \<lparr>dMediaType = mt, dDigest = digestOf lib data, dSize = nodeSize info,
                   dAnnotations = [(annotationTitle, pathBase path)]\<rparr> in
      bindC (wrapC ''stage OCI layer: %w'' []
               (do { r \<leftarrow> onDisk (readHandle h); onRemote (targetPush lib repo layer r) })) (\<lambda>_.
      do { now \<leftarrow> onDisk timeNow;
           onRemote (targetPack lib repo terraformOCIArtifactType [layer]
             (withCreated (timeRFC3339 lib now) ann)) }))))) ?Q"
  proof (rule tripleC_bindC)
    show "tripleC ?P (wrapC ''stat artifact: %w'' [] (onDisk (osFstat h)))
        (\<lambda>r c. ?P c \<and> (\<forall>n. r = Inr n \<longrightarrow> n = File data sy t))"
      by (rule tripleC_wrapC, rule tripleC_conseq [OF disk [OF triple_fstat_at]]) (use here in \<open>auto simp: map_sum_eq_iff\<close>)
    fix info
    show "tripleC (\<lambda>c. ?P c \<and> (\<forall>n. (Inr info :: node result) = Inr n \<longrightarrow> n = File data sy t))
       (bindC (wrapC ''hash artifact: %w'' [] (do { r \<leftarrow> onDisk (readHandle h); State_Monad.return (readAll r) })) (\<lambda>data.
        bindC (wrapC ''rewind artifact: %w'' [] (onDisk (osSeekStart h))) (\<lambda>_.
        let layer = \<lparr>dMediaType = mt, dDigest = digestOf lib data, dSize = nodeSize info,
                     dAnnotations = [(annotationTitle, pathBase path)]\<rparr> in
        bindC (wrapC ''stage OCI layer: %w'' []
                 (do { r \<leftarrow> onDisk (readHandle h); onRemote (targetPush lib repo layer r) })) (\<lambda>_.
        do { now \<leftarrow> onDisk timeNow;
             onRemote (targetPack lib repo terraformOCIArtifactType [layer]
               (withCreated (timeRFC3339 lib now) ann)) })))) ?Q"
    proof (cases "info = File data sy t")
      case True
      have read: "tripleC ?P (do { r \<leftarrow> onDisk (readHandle h); State_Monad.return (readAll r) })
          (\<lambda>r c. ?P c \<and> (\<forall>b. r = Inr b \<longrightarrow> b = data))"
        by (rule tripleC_bind, rule disk, rule triple_read_at [OF here], rule tripleC_return)
           (auto simp: readAll_def split: option.splits)
      have seek: "tripleC ?P (wrapC fmt [] (onDisk (osSeekStart h))) (\<lambda>r. ?P)" for fmt
      proof (rule tripleC_wrapC)
        have "readOnly (osSeekStart h)" by (intro readonly)
        from tripleC_disk [OF readOnly_triple [OF this, of "\<lambda>f. f = f0"], where R = "\<lambda>_. True"]
        show "tripleC ?P (onDisk (osSeekStart h)) (\<lambda>r. ?P)" by simp
      qed
      show ?thesis
      proof (rule tripleC_bindC, rule tripleC_wrapC, rule tripleC_conseq [OF read])
        show "?P c \<and> (\<forall>b. r = Inr b \<longrightarrow> b = data) \<Longrightarrow>
            ?P c \<and> (\<forall>b. map_sum (Wrapf ''hash artifact: %w'' []) id r = Inr b \<longrightarrow> b = data)" for r and c :: "'r client"
          by (auto simp: map_sum_eq_iff)
        fix b
        show "tripleC (\<lambda>c. ?P c \<and> (\<forall>b'. (Inr b :: bytes result) = Inr b' \<longrightarrow> b' = data))
          (bindC (wrapC ''rewind artifact: %w'' [] (onDisk (osSeekStart h))) (\<lambda>_.
            let layer = \<lparr>dMediaType = mt, dDigest = digestOf lib b, dSize = nodeSize info,
                         dAnnotations = [(annotationTitle, pathBase path)]\<rparr> in
            bindC (wrapC ''stage OCI layer: %w'' []
                     (do { r \<leftarrow> onDisk (readHandle h); onRemote (targetPush lib repo layer r) })) (\<lambda>_.
            do { now \<leftarrow> onDisk timeNow;
                 onRemote (targetPack lib repo terraformOCIArtifactType [layer]
                   (withCreated (timeRFC3339 lib now) ann)) }))) ?Q"
        proof (cases "b = data")
          case b: True
          have layer: "\<lparr>dMediaType = mt, dDigest = digestOf lib b, dSize = nodeSize info,
              dAnnotations = [(annotationTitle, pathBase path)]\<rparr> = packedLayer lib mt path data"
            using True b by (simp add: packedLayer_def)
          show ?thesis
            unfolding Let_def layer
            by (rule tripleC_conseq [OF tripleC_bindC [OF seek], where Q = ?Q]) (auto intro: tripleC_stage [OF K here])
        qed (auto intro: tripleC_false)
      qed auto
    qed (auto intro: tripleC_false)
  qed auto
  show "tripleC (?Q res) (do { onDisk (ignore (osClose h)); State_Monad.return res }) ?Q" for res
    by (auto simp: tripleC_def onDisk_def split: prod.splits)
qed

lemma tripleC_pack:
  fixes lib :: "'r ociLib"
  assumes K: "ociContract lib holds" and at: "statNode f0 (osPath cwd path) = Inr (File data sy t)"
  shows "tripleC (\<lambda>c. fs (disk c) = f0) (packOCIArtifact lib cwd repo path kind ann)
     (\<lambda>r c. \<forall>d. r = Inr d \<longrightarrow> (\<exists>mt. layerType kind = Inr mt \<and> packed lib holds repo mt path ann data d (remote c)))"
    (is "tripleC ?P _ ?Q")
  unfolding packOCIArtifact_def
proof (rule tripleC_pure)
  fix mt assume mt: "layerType kind = Inr mt"
  let ?H = "\<lambda>h. fsGet f0 h = Some (File data sy t)"
  have op: "triple (\<lambda>f. f = f0) (if path = [] then State_Monad.return (Inl ErrNotExist) else osOpen (osPath cwd path))
      (\<lambda>r f. f = f0 \<and> (\<forall>h. r = Inr h \<longrightarrow> ?H h))"
    using at by (auto intro!: triple_return triple_post [OF triple_open_at] simp: statNode_def split: sum.splits option.splits)
  have opened: "tripleC ?P (wrapC ''open artifact: %w'' []
        (onDisk (if path = [] then State_Monad.return (Inl ErrNotExist) else osOpen (osPath cwd path))))
      (\<lambda>r c. ?P c \<and> (\<forall>h. r = Inr h \<longrightarrow> ?H h))"
    by (rule tripleC_wrapC, rule tripleC_conseq [OF tripleC_disk [OF op, where R = "\<lambda>_. True"]]) (auto simp: map_sum_eq_iff)
  have rest: "tripleC (\<lambda>c. ?P c \<and> (\<forall>h'. (Inr h :: path result) = Inr h' \<longrightarrow> ?H h')) m ?Q"
    if "?H h \<Longrightarrow> tripleC ?P m (\<lambda>r c. \<forall>d. r = Inr d \<longrightarrow> packed lib holds repo mt path ann data d (remote c))" for h m
    using that mt by (cases "?H h") (auto intro: tripleC_false simp: tripleC_def)
  show "tripleC ?P
     (bindC (wrapC ''open artifact: %w'' []
              (onDisk (if path = [] then State_Monad.return (Inl ErrNotExist) else osOpen (osPath cwd path)))) (\<lambda>h.
     do { res \<leftarrow>
            bindC (wrapC ''stat artifact: %w'' [] (onDisk (osFstat h))) (\<lambda>info.
            bindC (wrapC ''hash artifact: %w'' [] (do { r \<leftarrow> onDisk (readHandle h); State_Monad.return (readAll r) })) (\<lambda>data.
            bindC (wrapC ''rewind artifact: %w'' [] (onDisk (osSeekStart h))) (\<lambda>_.
            let layer = \<lparr>dMediaType = mt, dDigest = digestOf lib data, dSize = nodeSize info,
                         dAnnotations = [(annotationTitle, pathBase path)]\<rparr> in
            bindC (wrapC ''stage OCI layer: %w'' []
                     (do { r \<leftarrow> onDisk (readHandle h); onRemote (targetPush lib repo layer r) })) (\<lambda>_.
            do { now \<leftarrow> onDisk timeNow;
                 onRemote (targetPack lib repo terraformOCIArtifactType [layer]
                   (withCreated (timeRFC3339 lib now) ann)) }))));
          onDisk (ignore (osClose h));
          State_Monad.return res })) ?Q"
    by (rule tripleC_bindC [OF opened], simp, rule rest, rule tripleC_packOpen [OF K])
qed auto

section \<open>Unpacking\<close>

lemma fetch_held:
  assumes "ociContract lib holds" "holds x repo (dDigest d) b"
  obtains x' where "targetFetch lib repo d x = (Inr \<lparr>sData = b, sErr = None\<rparr>, x')"
    "\<And>dg b. holds x repo dg b \<Longrightarrow> holds x' repo dg b"
proof -
  from assms(1) have "\<forall>repo d x b. holds x repo (dDigest d) b \<longrightarrow>
        (\<exists>x'. targetFetch lib repo d x = (Inr \<lparr>sData = b, sErr = None\<rparr>, x') \<and>
           (\<forall>dg b. holds x repo dg b \<longrightarrow> holds x' repo dg b))"
    unfolding ociContract_def by (elim conjE)
  from this [rule_format, OF assms(2)] show thesis using that by blast
qed

lemma digest_ok:
  "ociContract lib holds \<Longrightarrow> digestValidate lib (digestOf lib b) = None \<and> digestVerified lib (digestOf lib b) b \<and> validUTF8 (digestOf lib b)"
  unfolding ociContract_def by (elim conjE) blast

lemma run_fetchDescriptor:
  assumes K: "ociContract lib holds" and held: "holds (remote c) repo (dDigest d) body"
    and d: "dDigest d = digestOf lib body" "dSize d = int (length body)" "dSize d \<le> limit" and alive: "\<not> crashed (disk c)"
  obtains x' where "run_state (fetchDescriptor lib repo d limit) c = (Inr body, c\<lparr>remote := x'\<rparr>)"
    "\<And>dg b. holds (remote c) repo dg b \<Longrightarrow> holds x' repo dg b"
proof -
  obtain x' where x: "targetFetch lib repo d (remote c) = (Inr \<lparr>sData = body, sErr = None\<rparr>, x')"
    "\<And>dg b. holds (remote c) repo dg b \<Longrightarrow> holds x' repo dg b"
    using fetch_held [OF K held] by blast
  have "run_state (fetchDescriptor lib repo d limit) c = (Inr body, c\<lparr>remote := x'\<rparr>)"
    using x(1) d alive digest_ok [OF K, of body]
    by (simp add: fetchDescriptor_def bindC_def onRemote_def readAllLimited_def copyLimited_def)
  then show thesis using that x(2) by blast
qed

lemma run_copyToFile:
  assumes "\<not> crashed w" "faults w = []" "int (length data) < limit"
  shows "run_state (copyToFile out \<lparr>sData = data, sErr = None\<rparr> limit) w = (Inr data, appendData out data w)"
proof -
  have "run_state (osWrite out data) w = (Inr (), appendData out data w)"
    unfolding osWrite_def by (simp add: syscall_quiet [OF assms(1,2)])
  then show ?thesis using assms(3) by (simp add: copyToFile_def copyLimited_def bindR_def)
qed

lemma run_fetchLayer:
  assumes K: "ociContract lib holds" and held: "holds (remote c) repo (dDigest l) data"
    and l: "dDigest l = digestOf lib data" "dSize l = int (length data)" "dSize l \<le> maxBytes"
    and quiet: "\<not> crashed (disk c)" "faults (disk c) = []"
  obtains x' where "run_state (fetchLayer lib repo l out maxBytes) c =
    (Inr (), c\<lparr>remote := x', disk := appendData out data (disk c)\<rparr>)"
proof -
  obtain x' where x: "targetFetch lib repo l (remote c) = (Inr \<lparr>sData = data, sErr = None\<rparr>, x')"
    by (rule fetch_held [OF K held])
  have get: "run_state (wrapC e [] (onRemote (targetFetch lib repo l))) c =
      (Inr \<lparr>sData = data, sErr = None\<rparr>, c\<lparr>remote := x'\<rparr>)" for e
    using x quiet(1) by (simp add: wrapC_def onRemote_def)
  have "int (length data) < maxBytes + 1" using l by simp
  from run_copyToFile [OF quiet this]
  have copy: "run_state (wrapC e [] (onDisk (copyToFile out \<lparr>sData = data, sErr = None\<rparr> (maxBytes + 1)))) (c\<lparr>remote := x'\<rparr>) =
      (Inr data, c\<lparr>remote := x', disk := appendData out data (disk c)\<rparr>)" for e
    by (simp add: wrapC_def onDisk_def)
  have ok: "digestValidate lib (dDigest l) = None" "digestVerified lib (dDigest l) data"
    using digest_ok [OF K, of data] l(1) by simp_all
  have size: "\<not> (dSize l < 0 \<or> dSize l > maxBytes)" "\<not> maxBytes < dSize l" "int (length data) = dSize l"
    using l(2,3) by simp_all
  have "run_state (fetchLayer lib repo l out maxBytes) c = (Inr (), c\<lparr>remote := x', disk := appendData out data (disk c)\<rparr>)"
    unfolding fetchLayer_def ok(1) option.case if_not_P [OF size(1)]
    by (simp only: run_bindC get copy prod.case sum.case Let_def size(2,3) ok(2) if_False not_True_eq_False State_Monad.return_def
        state.sel simp_thms)
  then show thesis using that by blast
qed

section \<open>The round trip\<close>

text \<open>An identity as the publish commands annotate it: complete and valid, with nothing in the fields of the other kind.\<close>

definition publishable :: "ociArtifactMetadata \<Rightarrow> bool" where
  "publishable m \<longleftrightarrow>
     (omKind m = ''provider'' \<and> omProvider m = [] \<and> providerIdentityOk m) \<or>
     (omKind m = ''module'' \<and> omOS m = [] \<and> omArch m = [] \<and> moduleIdentityOk m)"

definition annotationsOf :: "ociArtifactMetadata \<Rightarrow> string \<Rightarrow> (string \<times> string) list" where
  "annotationsOf m title =
     artifactAnnotations (omKind m) (omNamespace m) (omName m) (omProvider m) (omVersion m) (omOS m) (omArch m) title"

lemma withCreated_other: "k \<noteq> annotationCreated \<Longrightarrow> lookupStr (withCreated t kvs) k = lookupStr kvs k"
  by (auto simp: lookupStr_def withCreated_def map_add_def split: option.splits)

lemma annotations_values:
  "lookupStr (annotationsOf m title) ''io.terraform.kind'' = omKind m"
  "lookupStr (annotationsOf m title) ''io.terraform.namespace'' = omNamespace m"
  "lookupStr (annotationsOf m title) ''io.terraform.name'' = omName m"
  "lookupStr (annotationsOf m title) ''io.terraform.provider'' = omProvider m"
  "lookupStr (annotationsOf m title) ''io.terraform.version'' = omVersion m"
  "lookupStr (annotationsOf m title) ''io.terraform.os'' = omOS m"
  "lookupStr (annotationsOf m title) ''io.terraform.arch'' = omArch m"
  by (simp_all add: lookupStr_def annotationsOf_def artifactAnnotations_def)

lemma created_other:
  "''io.terraform.kind'' \<noteq> annotationCreated" "''io.terraform.namespace'' \<noteq> annotationCreated"
  "''io.terraform.name'' \<noteq> annotationCreated" "''io.terraform.provider'' \<noteq> annotationCreated"
  "''io.terraform.version'' \<noteq> annotationCreated" "''io.terraform.os'' \<noteq> annotationCreated"
  "''io.terraform.arch'' \<noteq> annotationCreated"
  by (simp_all add: annotationCreated_def)

lemma name_utf8: "validImportName n \<Longrightarrow> validUTF8 n"
proof -
  assume "validImportName n"
  then have "list_all nameChar n" using validImportName_iff validArtifactName_iff by (simp add: isName_def)
  then show ?thesis
    by (intro validUTF8_ascii) (auto simp: list_all_iff nameChar_def char_class_defs less_eq_char_def)
qed

lemma literal_utf8:
  "validUTF8 []" "validUTF8 ''provider''" "validUTF8 ''module''" "validUTF8 annotationTitle" "validUTF8 annotationCreated"
  "validUTF8 terraformProviderLayerType" "validUTF8 terraformModuleLayerType"
  by (rule validUTF8_ascii, code_simp)+

lemma keys_utf8:
  "validUTF8 ''org.opencontainers.image.title''" "validUTF8 ''io.terraform.kind''" "validUTF8 ''io.terraform.namespace''"
  "validUTF8 ''io.terraform.name''" "validUTF8 ''io.terraform.version''" "validUTF8 ''io.terraform.provider''"
  "validUTF8 ''io.terraform.os''" "validUTF8 ''io.terraform.arch''"
  by (rule validUTF8_ascii, code_simp)+

lemma annotations_utf8:
  assumes "publishable m" "validUTF8 title" "validUTF8 t"
  shows "utf8Entries (withCreated t (annotationsOf m title))"
proof -
  have v: "validUTF8 (omKind m)" "validUTF8 (omNamespace m)" "validUTF8 (omName m)" "validUTF8 (omProvider m)"
    "validUTF8 (omVersion m)" "validUTF8 (omOS m)" "validUTF8 (omArch m)"
    using assms(1) name_utf8 validVersion_utf8 literal_utf8
    by (auto simp: publishable_def providerIdentityOk_def moduleIdentityOk_def validImportVersion_iff)
  then show ?thesis
    using assms(2,3) keys_utf8 literal_utf8
    by (simp add: utf8Entries_def withCreated_def annotationsOf_def artifactAnnotations_def)
qed

lemma publishable_layer:
  assumes "publishable m"
  obtains mt where "layerType (omKind m) = Inr mt" "validUTF8 mt"
    "omKind m = ''provider'' \<Longrightarrow> mt = terraformProviderLayerType" "omKind m = ''module'' \<Longrightarrow> mt = terraformModuleLayerType"
  using assms literal_utf8(6,7) by (auto simp: publishable_def layerType_def)

lemma checkManifest_published:
  assumes m: "publishable m" and man: "mSchemaVersion man = 2" "mArtifactType man = terraformOCIArtifactType"
    "mLayers man = [l]" "layerType (omKind m) = Inr (dMediaType l)"
    "\<And>k. lookupStr (mAnnotations man) k = lookupStr (withCreated t (annotationsOf m title)) k"
  shows "checkManifest man = Inr m"
proof -
  have id: "\<lparr>omKind = omKind m, omNamespace = omNamespace m, omName = omName m, omProvider = omProvider m,
      omVersion = omVersion m, omOS = omOS m, omArch = omArch m\<rparr> = m" by simp
  have "metadataFromOCIManifest man = Inr m"
    unfolding metadataFromOCIManifest_def Let_def man(5) withCreated_other [OF created_other(1)] withCreated_other [OF created_other(2)]
      withCreated_other [OF created_other(3)] withCreated_other [OF created_other(4)] withCreated_other [OF created_other(5)]
      withCreated_other [OF created_other(6)] withCreated_other [OF created_other(7)] annotations_values id
    using m man(3,4) by (auto simp: publishable_def layerType_def)
  then show ?thesis using man(1-3) by (simp add: checkManifest_def)
qed

lemma packed_layer:
  assumes "packed lib holds repo mt path ann data d x" "utf8Descriptor (packedLayer lib mt path data)"
    "\<And>now. utf8Entries (withCreated (timeRFC3339 lib now) ann)"
  obtains body man l now where "holds x repo (dDigest d) body" "dDigest d = digestOf lib body" "dSize d = int (length body)"
    "dMediaType d = mediaTypeImageManifest" "decodeManifest lib body = Inr man" "mSchemaVersion man = 2"
    "mArtifactType man = terraformOCIArtifactType" "mLayers man = [l]" "dMediaType l = mt" "dDigest l = digestOf lib data"
    "dSize l = int (length data)" "holds x repo (digestOf lib data) data"
    "\<And>k. lookupStr (mAnnotations man) k = lookupStr (withCreated (timeRFC3339 lib now) ann) k"
proof -
  obtain body now where b: "holds x repo (dDigest d) body"
    "storedManifest lib terraformOCIArtifactType [packedLayer lib mt path data] (withCreated (timeRFC3339 lib now) ann) d body"
    using assms(1) unfolding packed_def by blast
  then obtain man where m: "decodeManifest lib body = Inr man" "mSchemaVersion man = 2"
    "mArtifactType man = terraformOCIArtifactType" "map layerKey (mLayers man) = [layerKey (packedLayer lib mt path data)]"
    "\<forall>k. lookupStr (mAnnotations man) k = lookupStr (withCreated (timeRFC3339 lib now) ann) k"
    using assms(2,3) unfolding storedManifest_def by auto
  then obtain l where "mLayers man = [l]" "layerKey l = layerKey (packedLayer lib mt path data)" by auto
  then show thesis
    using that [OF b(1) _ _ _ m(1-3)] b(2) m(5) assms(1)
    unfolding storedManifest_def packed_def by (auto simp: layerKey_def packedLayer_def)
qed

text \<open>
  C38.  What \<^verbatim>\<open>tfreg publish\<close> pushes to an OCI registry, \<^verbatim>\<open>tfreg import\<close> gets back.  If the OCI libraries keep their
  contract and \<^verbatim>\<open>packOCIArtifact\<close> has pushed a package under the annotations that \<^verbatim>\<open>artifactAnnotations\<close> makes of a
  valid identity, then, on any machine whose disk works and within the size limits, \<^verbatim>\<open>unpackOCIArtifact\<close> accepts the
  artifact with that identity, in all of its fields, and writes the bytes of the package into its output.
\<close>

theorem published_artifact_imports:
  fixes lib :: "'r ociLib" and c c2 :: "'r client"
  assumes "ociContract lib holds" "publishable m" "validUTF8 title" "validUTF8 (pathBase path)"
    and "statNode (fs (disk c)) (osPath cwd path) = Inr (File data sy t)"
    and "run_state (packOCIArtifact lib cwd repo path (omKind m)
           (artifactAnnotations (omKind m) (omNamespace m) (omName m) (omProvider m) (omVersion m) (omOS m) (omArch m) title)) c =
         (Inr d, c1)"
    and "dSize d \<le> maxOCIManifestBytes" "int (length data) \<le> maxBytes"
    and "remote c2 = remote c1" "\<not> crashed (disk c2)" "faults (disk c2) = []" "tempHas out [] False (fs (disk c2))" "out \<noteq> []"
  shows "\<exists>c3. run_state (unpackOCIArtifact lib repo d out maxBytes) c2 = (Inr m, c3) \<and> tempHas out data False (fs (disk c3))"
proof -
  obtain mt where mt: "layerType (omKind m) = Inr mt" "validUTF8 mt" using publishable_layer [OF assms(2)] by metis
  have p: "packed lib holds repo mt path (annotationsOf m title) data d (remote c2)"
    using tripleCD [OF tripleC_pack [OF assms(1,5)] refl assms(6)] mt(1) assms(9) by (simp add: annotationsOf_def)
  have time: "validUTF8 (timeRFC3339 lib n)" for n using assms(1) unfolding ociContract_def by (elim conjE) blast
  have utf8: "utf8Descriptor (packedLayer lib mt path data)"
    using mt(2) digest_ok [OF assms(1)] assms(4) literal_utf8(4) by (simp add: utf8Descriptor_def packedLayer_def utf8Entries_def)
  obtain body man l now where a: "holds (remote c2) repo (dDigest d) body" "dDigest d = digestOf lib body" "dSize d = int (length body)"
    "dMediaType d = mediaTypeImageManifest" "decodeManifest lib body = Inr man" "mSchemaVersion man = 2"
    "mArtifactType man = terraformOCIArtifactType" "mLayers man = [l]" "dMediaType l = mt" "dDigest l = digestOf lib data"
    "dSize l = int (length data)" "holds (remote c2) repo (digestOf lib data) data"
    "\<And>k. lookupStr (mAnnotations man) k = lookupStr (withCreated (timeRFC3339 lib now) (annotationsOf m title)) k"
    using packed_layer [OF p utf8 annotations_utf8 [OF assms(2,3) time]] by blast
  have check: "checkManifest man = Inr m"
    by (rule checkManifest_published [OF assms(2) a(6-8) _ a(13)]) (simp add: mt(1) a(9))
  obtain x' where fetch: "run_state (fetchDescriptor lib repo d maxOCIManifestBytes) c2 = (Inr body, c2\<lparr>remote := x'\<rparr>)"
    "\<And>dg b. holds (remote c2) repo dg b \<Longrightarrow> holds x' repo dg b"
    using run_fetchDescriptor [OF assms(1) a(1-3) assms(7,10)] by blast
  have held: "holds (remote (c2\<lparr>remote := x'\<rparr>)) repo (dDigest l) data" using fetch(2) [OF a(12)] a(10) by simp
  obtain y where layer: "run_state (fetchLayer lib repo l out maxBytes) (c2\<lparr>remote := x'\<rparr>) =
      (Inr (), c2\<lparr>remote := y, disk := appendData out data (disk c2)\<rparr>)"
    using run_fetchLayer [OF assms(1) held a(10,11), of maxBytes out] assms(8,10,11) a(11) by auto
  have "run_state (unpackOCIArtifact lib repo d out maxBytes) c2 = (Inr m, c2\<lparr>remote := y, disk := appendData out data (disk c2)\<rparr>)"
    using a(4,5,8) fetch(1) check layer by (simp add: unpackOCIArtifact_def bindC_def wrapC_def)
  moreover have "tempHas out data False (fs (appendData out data (disk c2)))"
    using assms(12,13) by (auto simp: tempHas_def appendData_def fsGet_fsPut)
  ultimately show ?thesis by auto
qed

section \<open>An instance\<close>

text \<open>A registry that stores blobs by their hexadecimal text and knows one manifest.\<close>

definition blobLayer :: descriptor where
  "blobLayer = \<lparr>dMediaType = terraformModuleLayerType, dDigest = hexEncode ''tgz'', dSize = 3, dAnnotations = [(annotationTitle, ''a'')]\<rparr>"

definition blobAnnotations :: "(string \<times> string) list" where
  "blobAnnotations = withCreated ''now'' (annotationsOf demoIdentity ''t'')"

definition blobLib :: "(string \<times> bytes) list ociLib" where
  "blobLib = \<lparr>parseReference = \<lambda>s. Inr \<lparr>refRegistry = ''h'', refRepository = ''r'', refReference = s\<rparr>,
     referenceAsTag = \<lambda>_. None, referenceAsDigest = \<lambda>_. None, newRepository = \<lambda>_. Inr ''h'', dockerStore = None,
     targetPush = \<lambda>_ d s x. if sErr s = None \<and> dDigest d = hexEncode (sData s) then (Inr (), (dDigest d, sData s) # x) else (Inl ErrIO, x),
     targetPack = \<lambda>_ ty layers ann x.
       if ty = terraformOCIArtifactType \<and> layers = [blobLayer] \<and> ann = blobAnnotations
       then (Inr \<lparr>dMediaType = mediaTypeImageManifest, dDigest = hexEncode ''man'', dSize = 3, dAnnotations = []\<rparr>,
             (hexEncode ''man'', ''man'') # x)
       else (Inl ErrIO, x),
     targetTag = \<lambda>_ _ _ x. (Inr (), x), targetResolve = \<lambda>_ _ x. (Inl ErrIO, x),
     targetFetch = \<lambda>_ d x. (case map_of x (dDigest d) of None \<Rightarrow> Inl ErrIO | Some b \<Rightarrow> Inr \<lparr>sData = b, sErr = None\<rparr>, x),
     digestOf = hexEncode, digestValidate = \<lambda>_. None, digestVerified = \<lambda>dg b. dg = hexEncode b,
     decodeManifest = \<lambda>_. Inr \<lparr>mSchemaVersion = 2, mArtifactType = terraformOCIArtifactType, mLayers = [blobLayer],
                               mAnnotations = blobAnnotations\<rparr>,
     timeRFC3339 = \<lambda>_. ''now''\<rparr>"

definition blobHolds :: "(string \<times> bytes) list \<Rightarrow> ociRepository \<Rightarrow> string \<Rightarrow> bytes \<Rightarrow> bool" where
  "blobHolds x repo dg b \<longleftrightarrow> map_of x dg = Some b \<and> dg = hexEncode b"

lemma blob_contract: "ociContract blobLib blobHolds"
proof -
  have inj: "hexEncode a = hexEncode b \<Longrightarrow> a = b" for a b by (metis hexDecode_encode option.inject)
  have utf8: "validUTF8 (hexEncode b)" for b
    using hexEncode_shape [of b] by (intro validUTF8_ascii) (auto simp: list_all_iff lowerHex_def isDigit_def less_eq_char_def)
  have now: "validUTF8 ''now''" by (rule validUTF8_ascii, code_simp)
  show ?thesis
    unfolding ociContract_def
    by (intro conjI allI impI) (auto simp: blobLib_def blobHolds_def utf8 now storedManifest_def dest: inj split: if_splits)
qed

definition blobStart :: "(string \<times> bytes) list client" where
  "blobStart = \<lparr>disk = demoWorld [([''d'', ''a''], File ''tgz'' True 0)] [], stdin = \<lparr>sData = [], sErr = None\<rparr>, stdout = [],
     stderr = [], sent = [], remote = []\<rparr>"

abbreviation "blobRepo \<equiv> \<lparr>orName = ''h/r'', orPlainHTTP = False, orCredential = DockerCredential\<rparr>"

lemma blob_paths: "osPath [''d''] ''a'' = [''d'', ''a'']" "pathBase ''a'' = ''a''"
  by code_simp+

lemma blob_world:
  "\<not> crashed (disk blobStart)" "faults (disk blobStart) = []"
  "statNode (fs (disk blobStart)) [''d'', ''a''] = Inr (File ''tgz'' True 0)"
  "canon False (fs (disk blobStart)) kernelLinks [] [''d'', ''a''] = Inr [''d'', ''a'']"
  "fsGet (fs (disk blobStart)) [''d'', ''a''] = Some (File ''tgz'' True 0)"
  by (simp_all add: blobStart_def demoWorld_def statNode_def fsGet_def kernelLinks_def)

lemma blob_pack:
  "\<exists>c1. run_state (packOCIArtifact blobLib [''d''] blobRepo ''a'' ''module'' (annotationsOf demoIdentity ''t'')) blobStart =
     (Inr \<lparr>dMediaType = mediaTypeImageManifest, dDigest = hexEncode ''man'', dSize = 3, dAnnotations = []\<rparr>, c1)"
  using blob_world
  by (simp add: packOCIArtifact_def layerType_def bindC_def wrapC_def onDisk_def onRemote_def blob_paths osOpen_def osFstat_def
      osSeekStart_def osClose_def timeNow_def query_def syscall_def readHandle_def readAll_def handleContent_def ignore_def
      blobLib_def blobLayer_def blobAnnotations_def Let_def)

theorem published_artifact_imports_witness:
  "\<exists>d c1 c3. run_state (packOCIArtifact blobLib [''d''] blobRepo ''a'' ''module'' (annotationsOf demoIdentity ''t'')) blobStart = (Inr d, c1) \<and>
     run_state (unpackOCIArtifact blobLib blobRepo d [''d'', ''o''] 10) (c1\<lparr>disk := demoWorld [([''d'', ''o''], File [] False 0)] []\<rparr>) =
       (Inr demoIdentity, c3) \<and> tempHas [''d'', ''o''] ''tgz'' False (fs (disk c3))"
proof -
  let ?d = "\<lparr>dMediaType = mediaTypeImageManifest, dDigest = hexEncode ''man'', dSize = 3, dAnnotations = []\<rparr>"
  obtain c1 where c1: "run_state (packOCIArtifact blobLib [''d''] blobRepo ''a'' ''module'' (annotationsOf demoIdentity ''t'')) blobStart = (Inr ?d, c1)"
    using blob_pack by blast
  define c2 where "c2 = c1\<lparr>disk := demoWorld [([''d'', ''o''], File [] False 0)] []\<rparr>"
  have m: "publishable demoIdentity" "omKind demoIdentity = ''module''"
    using demo_names by (simp_all add: publishable_def moduleIdentityOk_def demoIdentity_def)
  have at: "statNode (fs (disk blobStart)) (osPath [''d''] ''a'') = Inr (File ''tgz'' True 0)" using blob_world(3) blob_paths(1) by simp
  have utf8: "validUTF8 ''t''" "validUTF8 (pathBase ''a'')" unfolding blob_paths(2) by (rule validUTF8_ascii, code_simp)+
  have run: "run_state (packOCIArtifact blobLib [''d''] blobRepo ''a'' (omKind demoIdentity) (artifactAnnotations (omKind demoIdentity)
      (omNamespace demoIdentity) (omName demoIdentity) (omProvider demoIdentity) (omVersion demoIdentity) (omOS demoIdentity)
      (omArch demoIdentity) ''t'')) blobStart = (Inr ?d, c1)"
    using c1 m(2) by (simp add: annotationsOf_def)
  have out: "remote c2 = remote c1" "\<not> crashed (disk c2)" "faults (disk c2) = []" "tempHas [''d'', ''o''] [] False (fs (disk c2))"
    "[''d'', ''o''] \<noteq> []"
    by (simp_all add: c2_def demoWorld_def tempHas_def fsGet_def)
  have "dSize ?d \<le> maxOCIManifestBytes" "int (length ''tgz'') \<le> 10" by (simp_all add: maxOCIManifestBytes_def)
  from published_artifact_imports [OF blob_contract m(1) utf8 at run this out] show ?thesis
    using c1 by (auto simp: c2_def)
qed

end
