(* ===== verification/ExitStatus.thy ===== *)
theory ExitStatus
  imports ImportCommand
begin

text \<open>
  The exit status of the client and its standard error: a run that fails says why, and a run that succeeds says
  nothing there.
\<close>

section \<open>Programs and standard error\<close>

text \<open>\<open>silent\<close> programs print nothing on standard error; \<open>grows\<close> only adds to it.\<close>

definition silent :: "('r, 'a) cli \<Rightarrow> bool" where
  "silent m \<longleftrightarrow> (\<forall>c. stderr (snd (run_state m c)) = stderr c)"

definition grows :: "('r, 'a) cli \<Rightarrow> bool" where
  "grows m \<longleftrightarrow> (\<forall>c. prefix (stderr c) (stderr (snd (run_state m c))))"

definition loud :: "('r, 'a) cli \<Rightarrow> bool" where
  "loud m \<longleftrightarrow> (\<forall>c. strict_prefix (stderr c) (stderr (snd (run_state m c))))"

text \<open>\<open>dying\<close> programs end the process with a failure, \<open>failing\<close> ones after a message.\<close>

definition dying :: "('r, nat + 'a) cli \<Rightarrow> bool" where
  "dying m \<longleftrightarrow> grows m \<and> (\<forall>c. fst (run_state m c) \<in> {Inl 1, Inl 2})"

definition failing :: "('r, nat + 'a) cli \<Rightarrow> bool" where
  "failing m \<longleftrightarrow> (\<forall>c. strict_prefix (stderr c) (stderr (snd (run_state m c))) \<and> fst (run_state m c) \<in> {Inl 1, Inl 2})"

text \<open>
  A step of a command: it goes on without a message, or leaves after one with status 1 or 2, or, where \<open>asked\<close> says that help was asked
  for, 0.
\<close>

definition tidy :: "bool \<Rightarrow> ('r, nat + 'a) cli \<Rightarrow> bool" where
  "tidy asked m \<longleftrightarrow> (\<forall>c r c'. run_state m c = (r, c') \<longrightarrow>
     (case r of Inr _ \<Rightarrow> stderr c' = stderr c | Inl code \<Rightarrow> code \<le> 2 \<and> (code = 0 \<longrightarrow> asked) \<and> strict_prefix (stderr c) (stderr c')))"

named_theorems exits

lemma silent_return [exits]: "silent (State_Monad.return x)"
  by (simp add: silent_def)

lemma silent_bind [exits]: "silent m \<Longrightarrow> (\<And>x. silent (k x)) \<Longrightarrow> silent (State_Monad.bind m k)"
  unfolding silent_def by (auto split: prod.splits) (metis snd_conv)

lemma silent_bindC [exits]: "silent m \<Longrightarrow> (\<And>x. silent (k x)) \<Longrightarrow> silent (bindC m k)"
  unfolding bindC_def by (rule silent_bind) (auto intro: silent_return split: sum.splits)

lemma silent_wrapC [exits]: "silent m \<Longrightarrow> silent (wrapC fmt args m)"
  unfolding wrapC_def by (intro silent_bind silent_return)

lemma silent_onDisk [exits]: "silent (onDisk m)"
  by (simp add: silent_def onDisk_def split: prod.splits)

lemma silent_onRemote [exits]: "silent (onRemote f)"
  by (simp add: silent_def onRemote_def split: prod.splits)

lemma silent_httpDo [exits]: "silent (httpDo st req)"
  by (simp add: silent_def httpDo_def)

lemma silent_print [exits]: "silent (Printf fmt args)" "silent (Println s)"
  by (simp_all add: silent_def Printf_def Println_def)

lemma silent_if [exits]: "(b \<Longrightarrow> silent m) \<Longrightarrow> (\<not> b \<Longrightarrow> silent n) \<Longrightarrow> silent (if b then m else n)"
  by simp

lemma silent_sum [exits]: "(\<And>e. silent (f e)) \<Longrightarrow> (\<And>x. silent (g x)) \<Longrightarrow> silent (case_sum f g r)"
  by (cases r) simp_all

lemma silent_option [exits]: "silent m \<Longrightarrow> (\<And>x. silent (g x)) \<Longrightarrow> silent (case_option m g r)"
  by (cases r) simp_all

lemma silent_prod [exits]: "(\<And>a b. silent (f a b)) \<Longrightarrow> silent (case_prod f p)"
  by (cases p) simp

lemma silent_let [exits]: "(\<And>x. silent (f x)) \<Longrightarrow> silent (Let v f)"
  by simp

lemma silent_withTempDir [exits]: "(\<And>t. silent (body t)) \<Longrightarrow> silent (withTempDir st tmp body)"
  unfolding withTempDir_def by (intro exits)

lemma grows_bind: "grows m \<Longrightarrow> (\<And>x. grows (k x)) \<Longrightarrow> grows (State_Monad.bind m k)"
  unfolding grows_def by (auto split: prod.splits) (metis prefix_order.trans snd_conv)

lemma silent_grows: "silent m \<Longrightarrow> grows m"
  by (simp add: silent_def grows_def)

lemma grows_Eprintf: "grows (Eprintf fmt args)" "grows (Eprintln s)"
  by (simp_all add: grows_def Eprintf_def Eprintln_def)

lemma loud_Eprintf: "loud (Eprintf fmt args)"
  by (simp add: loud_def Eprintf_def strict_prefix_def)

lemma loud_bind: "loud m \<Longrightarrow> (\<And>x. grows (k x)) \<Longrightarrow> loud (State_Monad.bind m k)"
  unfolding grows_def loud_def by (auto split: prod.splits) (metis prefix_order.less_le_trans snd_conv)

lemma loud_Usage: "loud (Usage s)"
proof -
  have "grows (usageFlags fs)" for fs :: "flag list"
    by (induction fs) (auto intro: grows_bind silent_grows silent_return grows_Eprintf)
  moreover have "grows (usageBoolFlags fs)" for fs :: "boolFlag list"
    by (induction fs) (auto intro: grows_bind silent_grows silent_return grows_Eprintf)
  ultimately show ?thesis unfolding Usage_def by (intro loud_bind loud_Eprintf grows_bind grows_Eprintf)
qed

lemma grows_Usage: "grows (Usage s)"
  using loud_Usage [of s] unfolding loud_def grows_def strict_prefix_def by blast

section \<open>Leaving\<close>

lemma dying_exit [exits]: "dying (exitWith 1)" "dying (exitWith (Suc 0))" "dying (exitWith 2)"
  by (simp_all add: dying_def exitWith_def grows_def)

lemma dying_bind: "grows m \<Longrightarrow> (\<And>x. dying (k x)) \<Longrightarrow> dying (State_Monad.bind m k)"
  unfolding dying_def using grows_bind [of m k] by (auto split: prod.splits)

lemma failing_bind:
  assumes "loud m" "\<And>x. dying (k x)"
  shows "failing (State_Monad.bind m k)"
  unfolding failing_def
proof
  fix c
  obtain x c1 where m: "run_state m c = (x, c1)" by (rule prod.exhaust)
  have "strict_prefix (stderr c) (stderr c1)" using assms(1) m unfolding loud_def by (metis snd_conv)
  moreover have "prefix (stderr c1) (stderr (snd (run_state (k x) c1)))" "fst (run_state (k x) c1) \<in> {Inl 1, Inl 2}"
    using assms(2) [of x] by (simp_all only: dying_def grows_def)
  ultimately show "strict_prefix (stderr c) (stderr (snd (run_state (State_Monad.bind m k) c))) \<and>
      fst (run_state (State_Monad.bind m k) c) \<in> {Inl 1, Inl 2}"
    using m by (simp add: prefix_order.less_le_trans)
qed

lemma failing_Eprintf: "(\<And>x. dying (k x)) \<Longrightarrow> failing (State_Monad.bind (Eprintf fmt args) k)"
  by (rule failing_bind [OF loud_Eprintf])

lemma failing_Eprintln: "(\<And>x. dying (k x)) \<Longrightarrow> failing (State_Monad.bind (Eprintln s) k)"
  unfolding Eprintln_def by (rule failing_Eprintf)

lemma dying_Usage [exits]: "(\<And>x. dying (k x)) \<Longrightarrow> dying (State_Monad.bind (Usage s) k)"
  by (rule dying_bind [OF grows_Usage])

lemma dying_silent: "silent m \<Longrightarrow> (\<And>x. dying (k x)) \<Longrightarrow> dying (State_Monad.bind m k)"
  by (rule dying_bind [OF silent_grows])

lemma failing_tidy: "failing m \<Longrightarrow> tidy asked m"
  unfolding tidy_def
proof (intro allI impI)
  fix c r c' assume f: "failing m" and run: "run_state m c = (r, c')"
  have "strict_prefix (stderr c) (stderr (snd (run_state m c)))" "fst (run_state m c) \<in> {Inl 1, Inl 2}"
    using f unfolding failing_def by blast+
  then show "case r of Inr _ \<Rightarrow> stderr c' = stderr c | Inl code \<Rightarrow> code \<le> 2 \<and> (code = 0 \<longrightarrow> asked) \<and> strict_prefix (stderr c) (stderr c')"
    using run by auto
qed

lemma failing_fatalf: "failing (fatalf fmt args)"
  unfolding fatalf_def by (intro failing_Eprintf exits)

lemma failing_missing: "failing (missing msg usage)"
  unfolding missing_def by (rule failing_Eprintln, cases usage) (auto intro!: exits)

lemma tidy_return [exits]: "tidy asked (State_Monad.return (Inr x))"
  by (simp add: tidy_def)

lemma tidy_bind:
  assumes m: "silent m" and k: "\<And>x. tidy asked (k x)"
  shows "tidy asked (State_Monad.bind m k)"
  unfolding tidy_def
proof (intro allI impI)
  fix c r c' assume run: "run_state (State_Monad.bind m k) c = (r, c')"
  obtain x c1 where c1: "run_state m c = (x, c1)" by (rule prod.exhaust)
  have "stderr c1 = stderr c" using m c1 unfolding silent_def by (metis snd_conv)
  moreover have "run_state (k x) c1 = (r, c')" using run c1 by simp
  ultimately show "case r of Inr _ \<Rightarrow> stderr c' = stderr c | Inl code \<Rightarrow> code \<le> 2 \<and> (code = 0 \<longrightarrow> asked) \<and> strict_prefix (stderr c) (stderr c')"
    using k [of x, unfolded tidy_def, rule_format, of c1 r c'] by (auto split: sum.splits)
qed

lemma tidy_bindC [exits]:
  assumes m: "tidy asked m" and k: "\<And>x. tidy asked (k x)"
  shows "tidy asked (bindC m k)"
  unfolding tidy_def
proof (intro allI impI)
  fix c r c' assume run: "run_state (bindC m k) c = (r, c')"
  obtain x c1 where c1: "run_state m c = (x, c1)" by (rule prod.exhaust)
  note t = m [unfolded tidy_def, rule_format, OF c1]
  show "case r of Inr _ \<Rightarrow> stderr c' = stderr c | Inl code \<Rightarrow> code \<le> 2 \<and> (code = 0 \<longrightarrow> asked) \<and> strict_prefix (stderr c) (stderr c')"
  proof (cases x)
    case (Inl code)
    then show ?thesis using run c1 t by (auto simp: bindC_def)
  next
    case (Inr y)
    then have "run_state (k y) c1 = (r, c')" using run c1 by (simp add: bindC_def)
    from k [of y, unfolded tidy_def, rule_format, OF this] show ?thesis using t Inr by (auto split: sum.splits)
  qed
qed

lemma tidy_if [exits]: "(b \<Longrightarrow> tidy asked m) \<Longrightarrow> (\<not> b \<Longrightarrow> tidy asked n) \<Longrightarrow> tidy asked (if b then m else n)"
  by simp

lemma tidy_sum [exits]: "(\<And>e. tidy asked (f e)) \<Longrightarrow> (\<And>x. tidy asked (g x)) \<Longrightarrow> tidy asked (case_sum f g r)"
  by (cases r) simp_all

lemma tidy_option [exits]: "tidy asked m \<Longrightarrow> (\<And>x. tidy asked (g x)) \<Longrightarrow> tidy asked (case_option m g r)"
  by (cases r) simp_all

lemma tidy_prod [exits]: "(\<And>a b. tidy asked (f a b)) \<Longrightarrow> tidy asked (case_prod f p)"
  by (cases p) simp

lemma tidy_list [exits]: "tidy asked m \<Longrightarrow> (\<And>x xs. tidy asked (g x xs)) \<Longrightarrow> tidy asked (case_list m g r)"
  by (cases r) simp_all

lemma tidy_let [exits]: "(\<And>x. tidy asked (f x)) \<Longrightarrow> tidy asked (Let v f)"
  by simp

lemma tidy_orDie [exits]:
  assumes "silent m"
  shows "tidy asked (orDie st fmt m)"
  unfolding orDie_def
  by (rule tidy_bind [OF assms], rule tidy_sum) (auto intro!: exits failing_tidy failing_Eprintf)

section \<open>The commands\<close>

lemma tidy_help: "asked \<Longrightarrow> tidy asked (State_Monad.bind (Usage fl) (\<lambda>_. exitWith 0))"
  unfolding tidy_def
proof (intro allI impI)
  fix c r c' assume a: asked and run: "run_state (State_Monad.bind (Usage fl) (\<lambda>_. exitWith 0)) c = (r, c')"
  then have "r = Inl 0 \<and> c' = snd (run_state (Usage fl) c)" by (auto simp: exitWith_def split: prod.splits)
  then show "case r of Inr _ \<Rightarrow> stderr c' = stderr c
      | Inl code \<Rightarrow> code \<le> 2 \<and> (code = 0 \<longrightarrow> asked) \<and> strict_prefix (stderr c) (stderr c')"
    using loud_Usage [of fl, unfolded loud_def, THEN spec, of c] a by simp
qed

lemma tidy_messages [exits]:
  "(\<And>x. dying (k x)) \<Longrightarrow> tidy asked (State_Monad.bind (Eprintf fmt args) k)"
  "(\<And>x. dying (k x)) \<Longrightarrow> tidy asked (State_Monad.bind (Eprintln s) k)"
  "tidy asked (fatalf fmt args)" "tidy asked (missing msg usage)" 
  by (rule failing_tidy, rule failing_Eprintf failing_Eprintln failing_fatalf failing_missing, assumption?)+

lemma tidy_parseLoop:
  "(''--help'' \<in> set args \<longrightarrow> asked) \<Longrightarrow> tidy asked (parseLoop s remaining args :: ('r, nat + flagSet) cli)"
proof (induction args arbitrary: s remaining rule: length_induct)
  case (1 args)
  show ?case
  proof (cases args)
    case Nil
    then show ?thesis by (simp only: parseLoop.simps) (intro exits failing_tidy failing_Eprintf)
  next
    case (Cons arg rest)
    have shorter: "tidy asked (parseLoop s remaining as :: ('r, nat + flagSet) cli)" if "length as < length args" "set as \<subseteq> set args"
      for s remaining as
      using 1 that by blast
    have rec: "tidy asked (parseLoop s remaining rest :: ('r, nat + flagSet) cli)" for s remaining
      by (rule shorter) (auto simp: Cons)
    have val: "tidy asked (case rest of
               [] \<Rightarrow> do { Eprintf fmt [key]; Usage s1; exitWith 2 }
             | v # args' \<Rightarrow>
                 if hasPrefix v ''--'' then do { Eprintf fmt [key]; Usage s1; exitWith 2 }
                 else (parseLoop (setString key v s1) remaining args' :: ('r, nat + flagSet) cli))" for fmt key s1
      using Cons by (cases rest) (auto intro!: tidy_messages dying_Usage dying_exit shorter)
    have asked if h: "hasPrefix arg ''--''" "trimPrefix arg ''--'' = ''help''"
    proof -
      obtain b where "arg = ''--'' @ b" using h(1) by (auto simp: hasPrefix_iff_prefix prefix_def)
      then have "arg = ''--help''" using h(2) trimPrefix_append [of "''--''" b] by simp
      then show asked using 1(2) Cons by simp
    qed
    then show ?thesis
      unfolding Cons parseLoop.simps Let_def by (intro tidy_if val rec tidy_messages tidy_help dying_Usage dying_exit)
  qed
qed

lemma tidy_Parse: "(''--help'' \<in> set args \<longrightarrow> asked) \<Longrightarrow> tidy asked (Parse s args)"
  unfolding Parse_def by (rule tidy_parseLoop)

lemma tidy_silently [exits]:
  "(\<And>x. tidy asked (k x)) \<Longrightarrow> tidy asked (State_Monad.bind (Printf fmt args) k)"
  "(\<And>x. tidy asked (k x)) \<Longrightarrow> tidy asked (State_Monad.bind (Println s) k)"
  "(\<And>x. tidy asked (k' x)) \<Longrightarrow> tidy asked (State_Monad.bind (isMissing st p) k')"
proof -
  have "silent (isMissing st p)" unfolding isMissing_def by (intro exits)
  then show "(\<And>x. tidy asked (k' x)) \<Longrightarrow> tidy asked (State_Monad.bind (isMissing st p) k')" by (rule tidy_bind)
qed (rule tidy_bind, rule silent_print, assumption)+

lemma tidy_json [exits]:
  "tidy asked a \<Longrightarrow> (\<And>x. tidy asked (b x)) \<Longrightarrow> (\<And>x. tidy asked (c x)) \<Longrightarrow> (\<And>x. tidy asked (d x)) \<Longrightarrow> (\<And>x. tidy asked (e x)) \<Longrightarrow> (\<And>x. tidy asked (f x)) \<Longrightarrow>
     tidy asked (case_json a b c d e f j)"
  by (cases j) simp_all

lemma tidy_printResponse [exits]: "tidy asked (printResponse resp)"
  unfolding printResponse_def by (intro exits)

section \<open>Silent operations\<close>

lemma silent_uploadFile [exits]: "silent (uploadFile st url fil key)"
  unfolding uploadFile_def by (intro exits)

lemma silent_uploadArtifact [exits]: "silent (uploadArtifact st url fil key)"
  unfolding uploadArtifact_def by (intro exits)

lemma silent_httpGet [exits]: "silent (httpGet st url)"
  unfolding httpGet_def by (intro exits)

lemma silent_download [exits]: "silent (downloadFileWithChecksum st url dest digest)" "silent (downloadFile st url dest)"
  "silent (downloadFileVerified st url dest digest)"
  unfolding downloadFile_def downloadFileVerified_def downloadFileWithChecksum_def by (intro exits)+

lemma silent_oci [exits]: "silent (packOCIArtifact lib cwd repo path kind ann)" "silent (fetchDescriptor lib repo d n)"
  "silent (fetchLayer lib repo d out n)"
  unfolding packOCIArtifact_def fetchDescriptor_def fetchLayer_def Let_def by (intro exits)+

lemma silent_unpack [exits]: "silent (unpackOCIArtifact lib repo d out n)"
  unfolding unpackOCIArtifact_def by (intro exits)

lemma silent_push [exits]: "silent (pushOCIArtifact lib cwd opts)" "silent (pushCopy lib cwd opts)"
  unfolding pushCopy_def pushOCIArtifact_def by (intro exits)+

lemma silent_mkdirTemp [exits]: "silent (mkdirTemp st prfx)"
  unfolding mkdirTemp_def by (intro exits)

lemma silent_build [exits]: "silent (buildProviderSource go st source out osName arch skip)"
  unfolding buildProviderSource_def by (intro exits)

lemma silent_publish [exits]: "silent (publishProviderArtifact go aw lib st popts)" "silent (publishModuleArtifact aw lib st mopts)"
  unfolding publishProviderArtifact_def publishModuleArtifact_def by (intro exits)+

lemma silent_importFrom [exits]: "silent (importOCIArtifactFromTarget lib ul st repo d url key n)"
  unfolding importOCIArtifactFromTarget_def by (intro exits)

lemma silent_import [exits]: "silent (importOCIArtifact lib ul st opts)"
  unfolding importOCIArtifact_def by (intro exits)

section \<open>The program\<close>

lemma tidy_byKind [exits]:
  "(\<And>kind rest. args = kind # rest \<Longrightarrow> tidy asked (p rest)) \<Longrightarrow> (\<And>kind rest. args = kind # rest \<Longrightarrow> tidy asked (m rest)) \<Longrightarrow>
     tidy asked (byKind usage unknown p m args)"
  unfolding byKind_def by (cases args) (auto intro!: exits)

lemma tidy_push: "(''--help'' \<in> set args \<longrightarrow> asked) \<Longrightarrow> tidy asked (handlePush st args)"
  unfolding handlePush_def pushProvider_def pushModule_def by (intro exits tidy_Parse) auto

lemma tidy_sendDelete [exits]: "tidy asked (sendDelete st url key)"
  unfolding sendDelete_def by (intro exits)

lemma tidy_delete: "(''--help'' \<in> set args \<longrightarrow> asked) \<Longrightarrow> tidy asked (handleDelete st args)"
  unfolding handleDelete_def deleteProvider_def deleteModule_def by (intro exits tidy_Parse) auto

lemma tidy_pull: "(''--help'' \<in> set args \<longrightarrow> asked) \<Longrightarrow> tidy asked (handlePull st args)"
  unfolding handlePull_def pullProvider_def pullModule_def by (intro exits tidy_Parse) auto

lemma silent_printItems [exits]: "silent (printItems fmt label items)"
  by (induction items) (auto intro!: exits)

lemma tidy_list_command [exits]: "tidy asked (handleList st args)"
  unfolding handleList_def printProviders_def printModules_def by (intro exits tidy_bind)

lemma tidy_bundle: "(''--help'' \<in> set args \<longrightarrow> asked) \<Longrightarrow> tidy asked (handleBundle aw st args)"
  unfolding handleBundle_def bundleProvider_def bundleModule_def by (intro exits tidy_Parse) auto

lemma tidy_password [exits]: "tidy asked (passwordOption st fl)"
proof -
  have "silent (State (\<lambda>c. (stdin c, c\<lparr>stdin := \<lparr>sData = drop 65536 (sData (stdin c)), sErr = sErr (stdin c)\<rparr>\<rparr>)))"
    by (simp add: silent_def)
  then show ?thesis unfolding passwordOption_def readPasswordStdin_def by (intro exits tidy_bind)
qed

lemma tidy_publish: "(''--help'' \<in> set args \<longrightarrow> asked) \<Longrightarrow> tidy asked (handlePublish go aw lib st args)"
  unfolding handlePublish_def publishProviderCommand_def publishModuleCommand_def by (cases args) (auto intro!: exits tidy_Parse)

lemma tidy_import: "(''--help'' \<in> set args \<longrightarrow> asked) \<Longrightarrow> tidy asked (handleImport lib ul st args)"
  unfolding handleImport_def by (intro exits tidy_Parse tidy_bind)

lemma dying_printUsage: "dying (State_Monad.bind printUsage (\<lambda>_. exitWith 1))"
  unfolding printUsage_def by (intro dying_silent exits)

lemma tidy_main: "tidy (''--help'' \<in> set args) (mainProgram go aw lib ul st version (prog # cmd # args))"
  unfolding mainProgram_def printUsage_def by (simp only: drop_Suc_Cons drop_0 One_nat_def list.case)
    (intro exits dying_silent tidy_push tidy_pull tidy_bundle tidy_publish tidy_import tidy_delete impI, assumption+)



end
