(* ===== verification/Routing.thy ===== *)
theory Routing
  imports ImportSafety Keys Server
begin

text \<open>
  The client and the routes of the server: an upload URL of the client leads to the upload handler of the server, with
  the identity in the route variables.
\<close>

section \<open>Templates\<close>

text \<open>A template of literal segments and variables that stand for one segment each.\<close>

definition plainSegment :: "string \<Rightarrow> bool" where
  "plainSegment t \<longleftrightarrow> CHR ''{'' \<notin> set t \<or>
     (t \<noteq> [] \<and> hd t = CHR ''{'' \<and> last t = CHR ''}'' \<and> list_all (\<lambda>c. c \<notin> set ''{}:'') (butlast (tl t)))"

definition plainTemplate :: "string \<Rightarrow> bool" where
  "plainTemplate t \<longleftrightarrow> list_all plainSegment (splitAt CHR ''/'' t)"

fun fitSegments :: "string list \<Rightarrow> string list \<Rightarrow> (string \<times> string) list option" where
  "fitSegments [] [] = Some []"
| "fitSegments (t # ts) (p # ps) =
     (if t \<noteq> [] \<and> hd t = CHR ''{'' then
        (if p = [] then None else map_option (Cons (butlast (tl t), p)) (fitSegments ts ps))
      else if t = p then fitSegments ts ps else None)"
| "fitSegments _ _ = None"

definition fits :: "string \<Rightarrow> string \<Rightarrow> (string \<times> string) list option" where
  "fits t path = fitSegments (splitAt CHR ''/'' t) (splitAt CHR ''/'' path)"

text \<open>
  What \<^verbatim>\<open>gorilla/mux\<close> documents: for a clean path the first route in the order of registration whose method and
  template match is taken, and its variables hold the segments.  (Stated for templates without regular
  expressions, and when every earlier route either has another method or is such a template and does not fit.)
\<close>

definition muxFirst :: "muxMatch \<Rightarrow> bool" where
  "muxFirst mux \<longleftrightarrow>
     (\<forall>r before meth t e after vars.
        routes = before @ (meth, t, e) # after \<longrightarrow> pathClean (urlPath r) = urlPath r \<longrightarrow>
        meth = Some (reqMethod r) \<longrightarrow> plainTemplate t \<longrightarrow> fits t (urlPath r) = Some vars \<longrightarrow>
        list_all (\<lambda>(m', t', e'). (m' \<noteq> None \<and> m' \<noteq> Some (reqMethod r)) \<or> (plainTemplate t' \<and> fits t' (urlPath r) = None)) before \<longrightarrow>
        mux routes r = Some (e, vars))"

section \<open>Segments\<close>

lemma pathEscape_id: "list_all segmentChar s \<Longrightarrow> pathEscape s = s"
  by (induction s) (simp_all add: pathEscape_def)

lemma segment_chars: "nameChar c \<Longrightarrow> segmentChar c" "versionChar c \<Longrightarrow> segmentChar c"
  unfolding nameChar_def versionChar_def segmentChar_def by (elim disjE; simp)+

lemma name_segment: "validImportName n \<Longrightarrow> pathEscape n = n \<and> properComp n \<and> list_all segmentChar n \<and> validArtifactName n"
proof -
  assume "validImportName n"
  then have n: "isName n" using validImportName_iff validArtifactName_iff by simp
  then have "list_all segmentChar n" using segment_chars(1) by (simp add: isName_def list_all_iff)
  then show ?thesis using n isName_proper validArtifactName_iff by (simp add: pathEscape_id)
qed

lemma version_segment: "validImportVersion v \<Longrightarrow> pathEscape v = v \<and> properComp v \<and> list_all segmentChar v \<and> validVersion v"
proof -
  assume "validImportVersion v"
  then have v: "validVersion v" using validImportVersion_iff by simp
  then have "list_all segmentChar v"
    using validVersion_text(1) [OF v] segment_chars(2) by (simp add: versionText_def list_all_iff)
  then show ?thesis using v validVersion_proper by (simp add: pathEscape_id)
qed

lemma literal_segments: "properComp ''api''" "properComp ''v1''" "properComp ''providers''" "properComp ''modules''"
  "pathEscape ''api'' = ''api''" "pathEscape ''v1'' = ''v1''" "pathEscape ''providers'' = ''providers''"
  "pathEscape ''modules'' = ''modules''" "list_all segmentChar ''api''" "list_all segmentChar ''v1''"
  "list_all segmentChar ''providers''" "list_all segmentChar ''modules''"
  by code_simp+

lemma clean_path:
  assumes "list_all properComp cs" "cs \<noteq> []"
  shows "pathClean (''/'' @ joinWith ''/'' cs) = ''/'' @ joinWith ''/'' cs" "splitAt CHR ''/'' (''/'' @ joinWith ''/'' cs) = [] # cs"
proof -
  show s: "splitAt CHR ''/'' (''/'' @ joinWith ''/'' cs) = [] # cs" using splitAt_proper [OF assms] by simp
  then have "cleanComps (''/'' @ joinWith ''/'' cs) = cs"
    using cleanGo_proper [OF assms(1), of True "[]"] by (simp add: cleanComps_def hasPrefix_def)
  then show "pathClean (''/'' @ joinWith ''/'' cs) = ''/'' @ joinWith ''/'' cs"
    unfolding pathClean_cleanText by (simp add: cleanText_def hasPrefix_def)
qed

section \<open>The two upload routes\<close>

lemma upload_templates:
  "plainTemplate ''/api/v1/providers/{namespace}/{name}/{version}/{os}/{arch}''"
  "plainTemplate ''/api/v1/modules/{namespace}/{name}/{provider}/{version}''"
  "plainTemplate ''/api/v1/providers/{namespace}/{name}/{version}/deprecate''"
  by code_simp+

lemma template_segments:
  "splitAt CHR ''/'' ''/api/v1/providers/{namespace}/{name}/{version}/{os}/{arch}'' =
     [[], ''api'', ''v1'', ''providers'', ''{namespace}'', ''{name}'', ''{version}'', ''{os}'', ''{arch}'']"
  "splitAt CHR ''/'' ''/api/v1/modules/{namespace}/{name}/{provider}/{version}'' =
     [[], ''api'', ''v1'', ''modules'', ''{namespace}'', ''{name}'', ''{provider}'', ''{version}'']"
  "splitAt CHR ''/'' ''/api/v1/providers/{namespace}/{name}/{version}/deprecate'' =
     [[], ''api'', ''v1'', ''providers'', ''{namespace}'', ''{name}'', ''{version}'', ''deprecate'']"
  by code_simp+

lemma routes_before:
  "routes = take 14 routes @ (Some ''POST'', ''/api/v1/providers/{namespace}/{name}/{version}/{os}/{arch}'', EUploadProvider) # drop 15 routes"
  "routes = take 19 routes @ (Some ''POST'', ''/api/v1/modules/{namespace}/{name}/{provider}/{version}'', EUploadModule) # drop 20 routes"
  "list_all (\<lambda>(m, t, e). m \<noteq> None \<and> m \<noteq> Some ''POST'') (take 14 routes)"
  "list_all (\<lambda>(m, t, e). m \<noteq> None \<and> m \<noteq> Some ''POST'' \<or>
     t = ''/api/v1/providers/{namespace}/{name}/{version}/{os}/{arch}'' \<or>
     t = ''/api/v1/providers/{namespace}/{name}/{version}/deprecate'') (take 19 routes)"
  by (simp_all add: routes_def)

lemma provider_route:
  assumes "muxFirst mux" "reqMethod r = ''POST''" "urlPath r = ''/'' @ joinWith ''/'' [''api'', ''v1'', ''providers'', ns, n, v, osn, arch]"
    and proper: "properComp ns" "properComp n" "properComp v" "properComp osn" "properComp arch"
  shows "mux routes r = Some (EUploadProvider,
     [(''namespace'', ns), (''name'', n), (''version'', v), (''os'', osn), (''arch'', arch)])"
proof -
  have cs: "list_all properComp [''api'', ''v1'', ''providers'', ns, n, v, osn, arch]" using proper literal_segments(1-4) by simp
  have fit: "fits ''/api/v1/providers/{namespace}/{name}/{version}/{os}/{arch}'' (urlPath r) =
      Some [(''namespace'', ns), (''name'', n), (''version'', v), (''os'', osn), (''arch'', arch)]"
    using proper unfolding fits_def template_segments assms(3) clean_path(2) [OF cs list.simps(3)] by (simp add: properComp_def)
  have "list_all (\<lambda>(m', t', e'). (m' \<noteq> None \<and> m' \<noteq> Some (reqMethod r)) \<or> (plainTemplate t' \<and> fits t' (urlPath r) = None)) (take 14 routes)"
    using routes_before(3) by (rule list.pred_mono_strong) (auto simp: assms(2))
  then show ?thesis
    using assms(1) [unfolded muxFirst_def, rule_format, OF routes_before(1) _ _ upload_templates(1) fit] assms(2,3)
      clean_path(1) [OF cs list.simps(3)] by simp
qed

lemma module_route:
  assumes "muxFirst mux" "reqMethod r = ''POST''" "urlPath r = ''/'' @ joinWith ''/'' [''api'', ''v1'', ''modules'', ns, n, p, v]"
    and proper: "properComp ns" "properComp n" "properComp p" "properComp v"
  shows "mux routes r = Some (EUploadModule, [(''namespace'', ns), (''name'', n), (''provider'', p), (''version'', v)])"
proof -
  have cs: "list_all properComp [''api'', ''v1'', ''modules'', ns, n, p, v]" using proper literal_segments(1-4) by simp
  have fit: "fits ''/api/v1/modules/{namespace}/{name}/{provider}/{version}'' (urlPath r) =
      Some [(''namespace'', ns), (''name'', n), (''provider'', p), (''version'', v)]"
    using proper unfolding fits_def template_segments assms(3) clean_path(2) [OF cs list.simps(3)] by (simp add: properComp_def)
  have other: "fits ''/api/v1/providers/{namespace}/{name}/{version}/{os}/{arch}'' (urlPath r) = None"
      "fits ''/api/v1/providers/{namespace}/{name}/{version}/deprecate'' (urlPath r) = None"
    unfolding fits_def template_segments assms(3) clean_path(2) [OF cs list.simps(3)] by simp_all
  have "list_all (\<lambda>(m', t', e'). (m' \<noteq> None \<and> m' \<noteq> Some (reqMethod r)) \<or> (plainTemplate t' \<and> fits t' (urlPath r) = None)) (take 19 routes)"
    using routes_before(4) by (rule list.pred_mono_strong) (auto simp: assms(2) other upload_templates)
  then show ?thesis
    using assms(1) [unfolded muxFirst_def, rule_format, OF routes_before(2) _ _ upload_templates(2) fit] assms(2,3)
      clean_path(1) [OF cs list.simps(3)] by simp
qed

section \<open>Upload URLs\<close>

text \<open>
  What \<^verbatim>\<open>net/url\<close> documents of a URL with a host and without credentials, query and fragment: a plain path that is put in
  place of its path is read back from the text of the URL.
\<close>

definition plainPath :: "string \<Rightarrow> bool" where
  "plainPath p \<longleftrightarrow> hasPrefix p ''/'' \<and> list_all (\<lambda>c. segmentChar c \<or> c = CHR ''/'') p"

definition urlRereads :: "urlLib \<Rightarrow> bool" where
  "urlRereads ul \<longleftrightarrow>
     (\<forall>text base p. urlParse ul text = Inr base \<longrightarrow> uScheme base \<in> {''http'', ''https''} \<longrightarrow> uHost base \<noteq> [] \<longrightarrow>
        \<not> uHasUser base \<longrightarrow> uRawQuery base = [] \<longrightarrow> uFragment base = [] \<longrightarrow> plainPath p \<longrightarrow>
        (\<exists>u. urlParse ul (urlString ul (base\<lparr>uPath := p\<rparr>)) = Inr u \<and> uPath u = p))"

definition uploadVars :: "ociArtifactMetadata \<Rightarrow> (string \<times> string) list" where
  "uploadVars m =
     (if omKind m = ''provider''
      then [(''namespace'', omNamespace m), (''name'', omName m), (''version'', omVersion m), (''os'', omOS m), (''arch'', omArch m)]
      else [(''namespace'', omNamespace m), (''name'', omName m), (''provider'', omProvider m), (''version'', omVersion m)])"

definition uploadEndpoint :: "ociArtifactMetadata \<Rightarrow> endpoint" where
  "uploadEndpoint m = (if omKind m = ''provider'' then EUploadProvider else EUploadModule)"

lemma route_provider_vars:
  assumes "omKind m = ''provider''" "providerIdentityOk m"
  shows "importSegments m = Inr [''api'', ''v1'', ''providers'', omNamespace m, omName m, omVersion m, omOS m, omArch m]"
    "routeValidation (uploadVars m) = None" "uploadEndpoint m = EUploadProvider"
  using assms name_segment version_segment
  by (simp_all add: importSegments_def providerIdentityOk_def uploadVars_def uploadEndpoint_def routeVarValid_def)

lemma route_module_vars:
  assumes "omKind m = ''module''" "moduleIdentityOk m"
  shows "importSegments m = Inr [''api'', ''v1'', ''modules'', omNamespace m, omName m, omProvider m, omVersion m]"
    "routeValidation (uploadVars m) = None" "uploadEndpoint m = EUploadModule"
  using assms name_segment version_segment
  by (simp_all add: importSegments_def moduleIdentityOk_def uploadVars_def uploadEndpoint_def routeVarValid_def)

lemma importSegments_cases:
  assumes "importSegments m = Inr segments"
  obtains "omKind m = ''provider''" "providerIdentityOk m" | "omKind m = ''module''" "moduleIdentityOk m"
  using assms unfolding importSegments_def by (simp split: if_splits)

lemma importSegments_plain:
  assumes "importSegments m = Inr segments"
  shows "map pathEscape segments = segments \<and> list_all (list_all segmentChar) segments \<and> segments \<noteq> []"
  using assms
proof (cases rule: importSegments_cases)
  case 1
  then have "segments = [''api'', ''v1'', ''providers'', omNamespace m, omName m, omVersion m, omOS m, omArch m]"
    using route_provider_vars(1) assms by simp
  then show ?thesis using 1(2) literal_segments name_segment version_segment unfolding providerIdentityOk_def by simp
next
  case 2
  then have "segments = [''api'', ''v1'', ''modules'', omNamespace m, omName m, omProvider m, omVersion m]"
    using route_module_vars(1) assms by simp
  then show ?thesis using 2(2) literal_segments name_segment version_segment unfolding moduleIdentityOk_def by simp
qed

lemma importSegments_route:
  assumes "importSegments m = Inr segments" "muxFirst mux" "reqMethod r = ''POST''" "urlPath r = ''/'' @ joinWith ''/'' segments"
  shows "mux routes r = Some (uploadEndpoint m, uploadVars m) \<and> routeValidation (uploadVars m) = None"
  using assms(1)
proof (cases rule: importSegments_cases)
  case 1
  note p = route_provider_vars [OF 1]
  have "urlPath r = ''/'' @ joinWith ''/'' [''api'', ''v1'', ''providers'', omNamespace m, omName m, omVersion m, omOS m, omArch m]"
    using assms(1,4) p(1) by simp
  then show ?thesis
    using provider_route [OF assms(2,3)] 1 p(2,3) name_segment version_segment by (simp add: uploadVars_def providerIdentityOk_def)
next
  case 2
  note p = route_module_vars [OF 2]
  have "urlPath r = ''/'' @ joinWith ''/'' [''api'', ''v1'', ''modules'', omNamespace m, omName m, omProvider m, omVersion m]"
    using assms(1,4) p(1) by simp
  then show ?thesis
    using module_route [OF assms(2,3)] 2 p(2,3) name_segment version_segment by (simp add: uploadVars_def moduleIdentityOk_def)
qed

lemma plainPath_segments: "list_all (list_all segmentChar) cs \<Longrightarrow> plainPath (''/'' @ joinWith ''/'' cs)"
  unfolding plainPath_def by (simp add: hasPrefix_def) (induction "''/''" cs rule: joinWith.induct; auto simp: list_all_iff)

text \<open>C40.
  The URL that the client builds for an accepted artifact leads, in the server, to the upload handler of the kind of the
  artifact: the router takes that route with the identity of the artifact as route variables, and the validation of route variables
  lets them pass.  (The registry is at the root of its host; the router and \<^verbatim>\<open>net/url\<close> do what they document.)
\<close>

theorem upload_url_routes:
  assumes "muxFirst mux" "urlRereads ul"
    and "urlParse ul (trimRightCh CHR ''/'' registryURL) = Inr base" "trimRightCh CHR ''/'' (uPath base) = []"
    and "importUploadURL ul registryURL metadata = Inr url"
    and "urlParse ul url = Inr u" "urlPath r = uPath u" "reqMethod r = ''POST''"
  shows "mux routes r = Some (uploadEndpoint metadata, uploadVars metadata) \<and> routeValidation (uploadVars metadata) = None"
proof -
  obtain segments where seg: "importSegments metadata = Inr segments"
    and ok: "uScheme base \<in> {''http'', ''https''}" "uHost base \<noteq> []" "\<not> uHasUser base" "uRawQuery base = []" "uFragment base = []"
    and url: "url = urlString ul (base\<lparr>uPath := ''/'' @ joinWith ''/'' (map pathEscape segments)\<rparr>)"
    using assms(3-5) unfolding importUploadURL_def by (auto split: sum.splits if_splits)
  note plain = importSegments_plain [OF seg]
  have "\<exists>u. urlParse ul (urlString ul (base\<lparr>uPath := ''/'' @ joinWith ''/'' segments\<rparr>)) = Inr u \<and>
      uPath u = ''/'' @ joinWith ''/'' segments"
    using assms(2) assms(3) ok plainPath_segments plain unfolding urlRereads_def by blast
  then have "urlPath r = ''/'' @ joinWith ''/'' segments" using assms(6,7) url plain by auto
  then show ?thesis by (rule importSegments_route [OF seg assms(1,8)])
qed

section \<open>An instance\<close>

text \<open>A router that takes the first route that fits, and URLs of the form \<open>http://host/path\<close>.\<close>

fun firstMux :: muxMatch where
  "firstMux [] r = None"
| "firstMux ((m, t, e) # rts) r =
     (if m = None \<or> m = Some (reqMethod r)
      then (case fits t (urlPath r) of Some vars \<Rightarrow> Some (e, vars) | None \<Rightarrow> firstMux rts r)
      else firstMux rts r)"

lemma firstMux_before:
  assumes "list_all (\<lambda>(m', t', e'). (m' \<noteq> None \<and> m' \<noteq> Some (reqMethod r)) \<or> (plainTemplate t' \<and> fits t' (urlPath r) = None)) before"
  shows "firstMux (before @ rts) r = firstMux rts r"
  using assms by (induction before r rule: firstMux.induct) auto

lemma firstMux_first: "muxFirst firstMux"
  unfolding muxFirst_def
proof (intro allI impI)
  fix r :: request and before meth t e after vars
  assume split: "routes = before @ (meth, t, e) # after" and found: "meth = Some (reqMethod r)" "fits t (urlPath r) = Some vars"
    and before: "list_all (\<lambda>(m', t', e'). (m' \<noteq> None \<and> m' \<noteq> Some (reqMethod r)) \<or> (plainTemplate t' \<and> fits t' (urlPath r) = None)) before"
  show "firstMux routes r = Some (e, vars)" unfolding split firstMux_before [OF before] using found by simp
qed

definition plainURLs :: urlLib where
  "plainURLs =
     \<lparr>urlParse = (\<lambda>s. if hasPrefix s ''http://'' then
          Inr \<lparr>uScheme = ''http'', uHost = takeWhile (\<lambda>c. c \<noteq> CHR ''/'') (drop 7 s), uHasUser = False, uRawQuery = [], uFragment = [],
            uPath = dropWhile (\<lambda>c. c \<noteq> CHR ''/'') (drop 7 s), uOther = []\<rparr>
        else Inl (Errorf ''no URL'' [])),
      urlString = (\<lambda>u. ''http://'' @ uHost u @ uPath u)\<rparr>"

lemma plainURLs_reread: "urlRereads plainURLs"
  unfolding urlRereads_def
proof (intro allI impI)
  fix s base p
  assume parsed: "urlParse plainURLs s = Inr base" and path: "plainPath p"
  have "\<forall>c \<in> set (uHost base). c \<noteq> CHR ''/''"
    using parsed by (auto simp: plainURLs_def split: if_splits dest: set_takeWhileD)
  moreover obtain q where "p = CHR ''/'' # q" using path by (cases p) (auto simp: plainPath_def hasPrefix_def)
  ultimately show "\<exists>u. urlParse plainURLs (urlString plainURLs (base\<lparr>uPath := p\<rparr>)) = Inr u \<and> uPath u = p"
    by (simp add: plainURLs_def hasPrefix_def dropWhile_append2)
qed

definition demoUpload :: request where
  "demoUpload = \<lparr>reqMethod = ''POST'', urlPath = ''/api/v1/modules/n/m/p/1.0.0'', reqHeader = [], remoteAddr = ''10.0.0.1:99'',
     pathVars = [], reqBody = [], multipartReader = Some ErrInvalid, nextPart = Inl ErrInvalid\<rparr>"

definition demoBase :: goURL where
  "demoBase = \<lparr>uScheme = ''http'', uHost = ''registry'', uHasUser = False, uRawQuery = [], uFragment = [], uPath = [], uOther = []\<rparr>"

lemma demo_base:
  "urlParse plainURLs (trimRightCh CHR ''/'' ''http://registry/'') = Inr demoBase" "trimRightCh CHR ''/'' (uPath demoBase) = []"
  "urlParse plainURLs ''http://registry/api/v1/modules/n/m/p/1.0.0'' = Inr (demoBase\<lparr>uPath := ''/api/v1/modules/n/m/p/1.0.0''\<rparr>)"
  "urlPath demoUpload = uPath (demoBase\<lparr>uPath := ''/api/v1/modules/n/m/p/1.0.0''\<rparr>)" "reqMethod demoUpload = ''POST''"
  by (simp_all add: plainURLs_def demoBase_def demoUpload_def trimRightCh_def hasPrefix_def)

lemma demo_upload_url:
  "importUploadURL plainURLs ''http://registry/'' demoIdentity = Inr ''http://registry/api/v1/modules/n/m/p/1.0.0''"
proof -
  have "importSegments demoIdentity = Inr [''api'', ''v1'', ''modules'', ''n'', ''m'', ''p'', ''1.0.0'']"
    by (simp add: importSegments_def demoIdentity_def moduleIdentityOk_def demo_names)
  moreover from importSegments_plain [OF this]
  have "map pathEscape [''api'', ''v1'', ''modules'', ''n'', ''m'', ''p'', ''1.0.0''] = [''api'', ''v1'', ''modules'', ''n'', ''m'', ''p'', ''1.0.0'']"
    by blast
  moreover have "urlString plainURLs (demoBase\<lparr>uPath := p\<rparr>) = ''http://registry'' @ p" for p
    by (simp add: plainURLs_def demoBase_def)
  ultimately show ?thesis
    unfolding importUploadURL_def demo_base(1) by (simp del: list.map add: demoBase_def trimRightCh_def)
qed

lemma upload_url_routes_witness:
  "routes \<noteq> [] \<and> firstMux routes demoUpload = Some (EUploadModule, uploadVars demoIdentity)"
proof -
  have "uploadEndpoint demoIdentity = EUploadModule" by (simp add: uploadEndpoint_def demoIdentity_def)
  then show ?thesis
    using upload_url_routes [OF firstMux_first plainURLs_reread demo_base(1,2) demo_upload_url demo_base(3-5)]
    by (simp add: routes_def del: firstMux.simps)
qed

end
