(* ===== verification/Writers.thy ===== *)
theory Writers
  imports Server
begin

text \<open>
  The response writers of the middleware: \<^verbatim>\<open>metricsResponseWriter\<close> of \<^verbatim>\<open>metrics.go\<close> and \<^verbatim>\<open>responseWriter\<close> of
  \<^verbatim>\<open>middleware.go\<close>, which record the status of a response on its way to the connection.  The handlers of the model
  return a response as a whole, and the middleware reads its status there; the lemmas of this theory say when the
  recorded status is the one that was sent.
\<close>

section \<open>Calls\<close>

text \<open>What a handler does with its \<^verbatim>\<open>http.ResponseWriter\<close>.\<close>

datatype writerCall = WriteHeader nat | Write bytes

text \<open>
  The writer of \<^verbatim>\<open>net/http\<close>: the first final status is the one that is sent, \<^verbatim>\<open>Write\<close> sends 200 before the body, informational
  statuses go ahead of the response, and a handler that ends without either has sent 200.
\<close>

definition informational :: "nat \<Rightarrow> bool" where
  "informational c \<longleftrightarrow> 100 \<le> c \<and> c \<le> 199 \<and> c \<noteq> 101"

fun connCall :: "writerCall \<Rightarrow> nat option \<Rightarrow> nat option" where
  "connCall (WriteHeader c) s = (case s of None \<Rightarrow> if informational c then None else Some c | Some _ \<Rightarrow> s)"
| "connCall (Write data) s = (case s of None \<Rightarrow> Some 200 | Some _ \<Rightarrow> s)"

definition statusSent :: "writerCall list \<Rightarrow> nat" where
  "statusSent calls = (case fold connCall calls None of None \<Rightarrow> 200 | Some c \<Rightarrow> c)"

section \<open>The wrappers\<close>

record metricsResponseWriter =
  mwStatus :: nat
  mwWroteHeader :: bool

text \<open>Each call returns the new state of the wrapper; the call is passed on as it is.\<close>

fun metricsWriterCall :: "writerCall \<Rightarrow> metricsResponseWriter \<Rightarrow> metricsResponseWriter" where
  "metricsWriterCall (WriteHeader code) rw =
     (if \<not> mwWroteHeader rw then rw\<lparr>mwStatus := code, mwWroteHeader := True\<rparr> else rw)"
| "metricsWriterCall (Write b) rw = (if \<not> mwWroteHeader rw then rw\<lparr>mwWroteHeader := True\<rparr> else rw)"

definition statusCounted :: "writerCall list \<Rightarrow> nat" where
  "statusCounted calls = mwStatus (fold metricsWriterCall calls \<lparr>mwStatus = 200, mwWroteHeader = False\<rparr>)"

text \<open>\<^verbatim>\<open>responseWriter\<close> has only its own \<^verbatim>\<open>WriteHeader\<close>.\<close>

fun auditWriterCall :: "writerCall \<Rightarrow> nat \<Rightarrow> nat" where
  "auditWriterCall (WriteHeader code) st = code"
| "auditWriterCall (Write b) st = st"

definition statusAudited :: "writerCall list \<Rightarrow> nat" where
  "statusAudited calls = fold auditWriterCall calls 200"

section \<open>The recorded status\<close>

fun final :: "writerCall \<Rightarrow> bool" where
  "final (WriteHeader c) \<longleftrightarrow> \<not> informational c"
| "final (Write b) \<longleftrightarrow> True"

lemma conn_fixed: "fold connCall calls (Some c) = Some c"
proof (induction calls)
  case (Cons x calls)
  then show ?case by (cases x) simp_all
qed simp

lemma metrics_fixed: "mwWroteHeader rw \<Longrightarrow> fold metricsWriterCall calls rw = rw"
proof (induction calls)
  case (Cons x calls)
  then show ?case by (cases x) simp_all
qed simp

lemma counted_is_sent:
  assumes "list_all final calls"
  shows "statusCounted calls = statusSent calls"
proof (cases calls)
  case (Cons x xs)
  then show ?thesis
    using assms by (cases x) (simp_all add: statusCounted_def statusSent_def conn_fixed metrics_fixed)
qed (simp add: statusCounted_def statusSent_def)

text \<open>The audit wrapper keeps the last status, which is the one sent for a handler that sets it once, before the body.\<close>

lemma audited_writes: "list_all (\<lambda>x. case x of WriteHeader _ \<Rightarrow> False | Write _ \<Rightarrow> True) calls \<Longrightarrow> fold auditWriterCall calls st = st"
proof (induction calls)
  case (Cons x calls)
  then show ?case by (cases x) simp_all
qed simp

lemma audited_is_sent:
  assumes "\<not> informational c" "list_all (\<lambda>x. case x of WriteHeader _ \<Rightarrow> False | Write _ \<Rightarrow> True) calls"
  shows "statusAudited (WriteHeader c # calls) = statusSent (WriteHeader c # calls)" "statusAudited calls = statusSent calls"
proof -
  show "statusAudited (WriteHeader c # calls) = statusSent (WriteHeader c # calls)"
    using assms by (simp add: statusAudited_def statusSent_def conn_fixed audited_writes)
  show "statusAudited calls = statusSent calls"
    using assms(2) by (cases calls rule: list.exhaust)
      (auto simp: statusAudited_def statusSent_def audited_writes conn_fixed split: writerCall.splits)
qed

text \<open>A second status, or one after the body, is recorded but not sent.\<close>

lemma audited_last: "statusAudited [Write b, WriteHeader 500] = 500 \<and> statusSent [Write b, WriteHeader 500] = 200"
  by (simp add: statusAudited_def statusSent_def)

end
