(* ===== verification/Answers.thy ===== *)
theory Answers
  imports ServerSafety
begin

text \<open>
  Every request is answered: no handler waits for a lock for ever, and each one ends with a status that the
  registry uses.
\<close>

section \<open>Programs that end with a status of the registry\<close>

definition statuses :: "nat set" where
  "statuses = {200, 204, 302, 400, 401, 403, 404, 413, 429, 500, 503}"

definition usual :: "response \<Rightarrow> bool" where
  "usual resp \<longleftrightarrow> status resp \<in> statuses"

definition answers :: "response io \<Rightarrow> bool" where
  "answers m \<longleftrightarrow> (\<forall>w. usual (fst (run_state m w)))"

named_theorems answering

lemma answers_return [answering]: "usual resp \<Longrightarrow> answers (State_Monad.return resp)"
  by (simp add: answers_def)

lemma answers_bind [answering]: "(\<And>x. answers (k x)) \<Longrightarrow> answers (State_Monad.bind m k)"
  by (simp add: answers_def split: prod.splits)

lemma answers_finally [answering]: "answers m \<Longrightarrow> answers (finally_do m c)"
  unfolding answers_def finally_do_def by (simp split: prod.splits) (metis fst_conv)

lemma answers_if [answering]: "answers m \<Longrightarrow> answers m' \<Longrightarrow> answers (if b then m else m')"
  by simp

lemma answers_sum [answering]: "(\<And>e. answers (g e)) \<Longrightarrow> (\<And>x. answers (h x)) \<Longrightarrow> answers (case r of Inl e \<Rightarrow> g e | Inr x \<Rightarrow> h x)"
  by (cases r) auto

lemma answers_option [answering]: "answers g \<Longrightarrow> (\<And>x. answers (h x)) \<Longrightarrow> answers (case r of None \<Rightarrow> g | Some x \<Rightarrow> h x)"
  by (cases r) auto

lemma answers_prod [answering]: "(\<And>a b. answers (g a b)) \<Longrightarrow> answers (case p of (a, b) \<Rightarrow> g a b)"
  by (cases p) auto

lemma answers_let [answering]: "(\<And>x. answers (g x)) \<Longrightarrow> answers (let x = t in g x)"
  by (simp add: Let_def)

lemma usual_if [answering]: "usual a \<Longrightarrow> usual b \<Longrightarrow> usual (if c then a else b)"
  by simp

lemma usual_sum [answering]: "(\<And>e. usual (g e)) \<Longrightarrow> (\<And>x. usual (h x)) \<Longrightarrow> usual (case r of Inl e \<Rightarrow> g e | Inr x \<Rightarrow> h x)"
  by (cases r) auto

lemma usual_option [answering]: "usual g \<Longrightarrow> (\<And>x. usual (h x)) \<Longrightarrow> usual (case r of None \<Rightarrow> g | Some x \<Rightarrow> h x)"
  by (cases r) auto

lemma usual_prod [answering]: "(\<And>a b. usual (g a b)) \<Longrightarrow> usual (case p of (a, b) \<Rightarrow> g a b)"
  by (cases p) auto

lemma usual_responses [answering]:
  "code \<in> statuses \<Longrightarrow> usual (writeJSON code v)" "code \<in> statuses \<Longrightarrow> usual (httpJSONError code msg)"
  "code \<in> statuses \<Longrightarrow> usual (httpError hs msg code)" "usual (protocolResponse j)" "usual (noContent hs)"
  "code \<in> statuses \<Longrightarrow> usual \<lparr>status = code, respHeader = hs, respBody = b\<rparr>"
  "usual (writeUploadError t err)" "usual (storeFailed g err)" "usual resp \<Longrightarrow> usual (withHeaders hs resp)"
  by (simp_all add: usual_def writeJSON_def httpJSONError_def httpError_def protocolResponse_def noContent_def statuses_def
      writeUploadError_def storeFailed_def)

lemma in_statuses [answering]:
  "200 \<in> statuses" "204 \<in> statuses" "302 \<in> statuses" "400 \<in> statuses" "401 \<in> statuses" "403 \<in> statuses" "404 \<in> statuses"
  "413 \<in> statuses" "429 \<in> statuses" "500 \<in> statuses" "503 \<in> statuses"
  by (simp_all add: statuses_def)

section \<open>Handlers\<close>

lemma answers_protocol:
  "answers (wellKnownHandler r)" "answers (providerVersionsHandler s r)" "answers (providerDownloadHandler s sg r)"
  "answers (networkMirrorIndexHandler s r)" "answers (networkMirrorVersionHandler s r)" "answers (moduleVersionsHandler s r)"
  "answers (moduleDownloadHandler s r)" "answers (moduleLatestDownloadHandler s r)" "answers (fileDownloadHandler s r)"
  "answers (healthHandler t s r)"
  unfolding wellKnownHandler_def providerVersionsHandler_def providerDownloadHandler_def networkMirrorIndexHandler_def
    networkMirrorVersionHandler_def moduleVersionsHandler_def moduleDownloadHandler_def moduleLatestDownloadHandler_def
    fileDownloadHandler_def healthHandler_def Let_def
  by (intro answering)+

lemma answers_reads:
  "answers (registryStatsHandler g r)" "answers (listProvidersHandler g r)" "answers (getProviderHandler g r)"
  "answers (listModulesHandler g r)" "answers (getModuleHandler g r)" "answers (prometheusHandler r)"
  "answers (uiHandler ui r)" "answers (rootHandler r)"
  unfolding registryStatsHandler_def listProvidersHandler_def getProviderHandler_def listModulesHandler_def getModuleHandler_def
    prometheusHandler_def metricsHandler_def uiHandler_def rootHandler_def Let_def
  by (intro answering)+

lemma answers_publish [answering]:
  "answers (publishProvider g ns n v osn ar fn sh zk existed)" "answers (publishModule g ns n p v fn sh key existed)"
  "answers (deleteVersion g prfx remove msg)" "answers (deprecateVersion g getIdx v dep msg)"
  unfolding publishProvider_def publishModule_def deleteVersion_def deprecateVersion_def Let_def
  by (intro answering)+

text \<open>A handler that takes the mutex is answered when the mutex is free.\<close>

definition answersFree :: "response io \<Rightarrow> bool" where
  "answersFree m \<longleftrightarrow> (\<forall>w. held w = [] \<longrightarrow> usual (fst (run_state m w)))"

lemma answers_serialized: "answers m \<Longrightarrow> answersFree (answered (serialized m))"
  by (auto simp: answersFree_def answers_def answered_def serialized_def withLock_def split: prod.splits)
     (metis fst_conv)

lemma answersFree_plain: "answers m \<Longrightarrow> answersFree m"
  by (simp add: answersFree_def answers_def)

lemma answersFree_mutations:
  "answersFree (answered (uploadProviderHandler g r))" "answersFree (answered (uploadModuleHandler g r))"
  "answersFree (answered (deleteProviderVersionHandler g r))" "answersFree (answered (deleteModuleVersionHandler g r))"
  "answersFree (answered (deprecateProviderHandler g r))" "answersFree (answered (deprecateModuleHandler g r))"
  "answersFree (answered (gcHandler g r))"
  unfolding uploadProviderHandler_def uploadModuleHandler_def deleteProviderVersionHandler_def
    deleteModuleVersionHandler_def deprecateProviderHandler_def deprecateModuleHandler_def gcHandler_def Let_def
  by (rule answers_serialized; intro answering)+

lemma answersFree_dispatch: "answersFree (dispatch g ui e r)"
  by (cases e) (simp_all add: answersFree_mutations answersFree_plain answers_protocol answers_reads)

section \<open>Middleware\<close>

text \<open>Programs of the server that leave no lock held, and those that end with a status of the registry.\<close>

definition freeS :: "'a srv \<Rightarrow> bool" where
  "freeS m \<longleftrightarrow> (\<forall>sv. held (os sv) = [] \<longrightarrow> held (os (snd (run_state m sv))) = [])"

definition answersS :: "response srv \<Rightarrow> bool" where
  "answersS m \<longleftrightarrow> (\<forall>sv. held (os sv) = [] \<longrightarrow> usual (fst (run_state m sv)))"

lemma freeS_frame: "frameS m \<Longrightarrow> freeS m"
  unfolding freeS_def using frameSD [of m, OF _ _ surjective_pairing] by (simp add: same_def)

lemma freeS_ticks:
  "freeS (liftIO (tick RequestsTotal_update))" "freeS (liftIO (if b then tick RequestsOK_update else tick RequestsErr_update))"
  by (auto simp: freeS_def liftIO_def tick_def)

lemma answersS_return: "usual resp \<Longrightarrow> answersS (State_Monad.return resp)"
  by (simp add: answersS_def)

lemma answersS_then:
  assumes "answersS m" "freeS m" "\<And>x. usual x \<Longrightarrow> answersS (k x)"
  shows "answersS (State_Monad.bind m k)"
  unfolding answersS_def
proof (intro allI impI)
  fix sv :: Server assume h: "held (os sv) = []"
  obtain x sv1 where 1: "run_state m sv = (x, sv1)" by (rule prod.exhaust)
  have "usual x" "held (os sv1) = []" using assms(1,2) h 1 unfolding answersS_def freeS_def by force+
  then show "usual (fst (run_state (State_Monad.bind m k) sv))" using assms(3) [of x] 1 by (simp add: answersS_def)
qed

lemma answersS_bind:
  assumes "freeS m" "\<And>x. answersS (k x)"
  shows "answersS (State_Monad.bind m k)"
  unfolding answersS_def
proof (intro allI impI)
  fix sv :: Server assume h: "held (os sv) = []"
  obtain x sv1 where 1: "run_state m sv = (x, sv1)" by (rule prod.exhaust)
  have "held (os sv1) = []" using assms(1) h 1 unfolding freeS_def by force
  then show "usual (fst (run_state (State_Monad.bind m k) sv))" using assms(2) [of x] 1 by (simp add: answersS_def)
qed

lemma answersS_if: "(b \<Longrightarrow> answersS m) \<Longrightarrow> (\<not> b \<Longrightarrow> answersS m') \<Longrightarrow> answersS (if b then m else m')"
  by simp

lemma answersS_liftIO: "answersFree m \<Longrightarrow> answersS (liftIO m)"
  by (simp add: answersFree_def answersS_def liftIO_def split: prod.splits) (metis fst_conv)

lemma answersS_validation: "(\<And>r. answersS (h r)) \<Longrightarrow> answersS (routeValidationMiddleware h r)"
  unfolding routeValidationMiddleware_def by (cases "routeValidation (pathVars r)") (auto intro!: answersS_return answering)

lemma answersS_auth:
  assumes "\<And>r. answersS (h r)"
  shows "answersS (authMiddleware tj h r)"
proof -
  have "freeS (liftIO (tick AuthFailures_update))" "freeS (withKeys (\<lambda>ks. HasPermission tj ks key p))" "freeS (withKeys (\<lambda>ks. Validate tj ks key))"
    for key p by (intro freeS_frame framedS framed)+
  then show ?thesis
    unfolding authMiddleware_def by (intro answersS_if answersS_bind assms answersS_return answering)
qed

lemma answersS_audit:
  assumes "\<And>r. answersS (h r)" "\<And>r. frameS (h r)"
  shows "answersS (auditMiddleware tj h r)"
proof -
  have name: "freeS (if extractAPIKey r \<noteq> [] then State_Monad.bind (withKeys (\<lambda>ks. Validate tj ks (extractAPIKey r)))
      (\<lambda>ak. State_Monad.return (case ak of Some k \<Rightarrow> KName k | None \<Rightarrow> ''anonymous'')) else State_Monad.return ''anonymous'')"
    by (intro freeS_frame framedS framed)
  have log: "freeS (Log a b c d e f t)" for a b c d e f t by (intro freeS_frame framedS)
  show ?thesis
    unfolding auditMiddleware_def
    by (intro answersS_if assms(1) answersS_bind [OF name] answersS_then [OF assms(1)] answersS_bind [OF log] answersS_return
        freeS_frame assms(2); assumption)
qed

lemma answersS_rate:
  assumes "\<And>r. answersS (h r)"
  shows "answersS (rateLimitMiddleware h r)"
proof -
  have "freeS (State (\<lambda>sv. case allow (clock (os sv)) (clientAddress (limiter sv) r) (limiter sv) of (ok, rl) \<Rightarrow> (ok, sv\<lparr>limiter := rl\<rparr>)))"
    "freeS (liftIO (tick RateLimitHits_update))" "freeS (State (\<lambda>sv. (limiter sv, sv)))"
    by (intro freeS_frame framedS framed)+
  then show ?thesis
    unfolding rateLimitMiddleware_def by (intro answersS_bind answersS_if assms answersS_return answering)
qed

lemma answersS_chain:
  assumes "\<And>r. answersS (h r)" "\<And>r. frameS (h r)"
  shows "answersS (chain tj h r)"
proof -
  let ?inner = "rateLimitMiddleware (auditMiddleware tj (authMiddleware tj (routeValidationMiddleware h)))"
  have inner: "answersS (?inner r)" "frameS (?inner r)" for r
    by (intro answersS_rate answersS_audit answersS_auth answersS_validation assms framedS)+
  have "answersS (securityHeadersMiddleware ?inner r)" "frameS (securityHeadersMiddleware ?inner r)" for r
    unfolding securityHeadersMiddleware_def
    by (intro answersS_then inner freeS_frame answersS_return answering framedS; assumption?)+
  then show ?thesis
    unfolding chain_def metricsMiddleware_def
    by (intro answersS_bind [OF freeS_ticks(1)] answersS_then freeS_frame answersS_bind [OF freeS_ticks(2)] answersS_return)
qed

lemma serve_answers:
  assumes "held (os sv) = []" "run_state (serve mux nf tj g ui r) sv = (resp, sv')" "routed mux r"
  shows "usual resp"
proof -
  obtain e vars where route: "mux routes r = Some (e, vars)" using assms(3) by (auto simp: routed_def)
  have "answersS (chain tj (\<lambda>r. liftIO (dispatch g ui e r)) (r\<lparr>pathVars := vars\<rparr>))"
    by (intro answersS_chain answersS_liftIO answersFree_dispatch framedS frame_dispatch)
  then have "usual (fst (run_state (chain tj (\<lambda>r. liftIO (dispatch g ui e r)) (r\<lparr>pathVars := vars\<rparr>)) sv))"
    using assms(1) unfolding answersS_def by blast
  then show ?thesis using assms(2) route by (simp add: serve_def)
qed

section \<open>Properties\<close>



end
