(* ===== verification/Startup.thy ===== *)
theory Startup
  imports Server
begin

text \<open>
  The process of the server: \<^verbatim>\<open>main\<close> of \<^verbatim>\<open>registry-server/main.go\<close> with the configuration it reads from the
  environment, \<^verbatim>\<open>SetMaxUploadSize\<close> and the opening and closing of the audit log of \<^verbatim>\<open>middleware.go\<close>.
  A run of the process is its start, a list of events (requests, the two tickers, and what happens meanwhile to
  the clock and the disk) that are taken one at a time, and the way it stops.  Log lines are left out.
\<close>

section \<open>The environment\<close>

definition envOrDefault :: "string list \<Rightarrow> string \<Rightarrow> string \<Rightarrow> string" where
  "envOrDefault env key defaultVal = (let v = lookupEnv env key in if v \<noteq> [] then v else defaultVal)"

definition filepath_join :: "string list \<Rightarrow> string" where
  "filepath_join parts = joinWith ''/'' parts"

text \<open>The strings that \<^verbatim>\<open>main\<close> reads.\<close>

record Config =
  cfgBasePath :: string
  cfgBaseURL :: string
  cfgPort :: string
  cfgKeysFile :: string
  cfgAuditPath :: string
  cfgRateLimit :: string
  cfgRateWindow :: string
  cfgSigningKeyFile :: string

definition readConfig :: "string list \<Rightarrow> Config" where
  "readConfig env =
     (let base = envOrDefault env ''STORAGE_PATH'' ''/var/lib/terraform-registry'' in
      \<lparr>cfgBasePath = base,
       cfgBaseURL = envOrDefault env ''BASE_URL'' ''http://localhost:8080'',
       cfgPort = envOrDefault env ''PORT'' ''8080'',
       cfgKeysFile = envOrDefault env ''API_KEYS_FILE'' (filepath_join [base, ''keys.json'']),
       cfgAuditPath = envOrDefault env ''AUDIT_LOG'' [],
       cfgRateLimit = envOrDefault env ''RATE_LIMIT'' ''100'',
       cfgRateWindow = envOrDefault env ''RATE_WINDOW'' ''1m'',
       cfgSigningKeyFile = envOrDefault env ''SIGNING_KEY_FILE'' (filepath_join [base, ''signing-key.asc''])\<rparr>)"

text \<open>
  \<^verbatim>\<open>fmt.Sscanf(s, "%d", &n)\<close> for a 64-bit \<^verbatim>\<open>int\<close>: white space other than a newline, an optional sign, digits; what
  follows the digits is ignored.
\<close>

definition sscanfInt :: "string \<Rightarrow> int option" where
  "sscanfInt s =
     (case dropWhile (\<lambda>r. isSpaceRune r \<and> r \<noteq> [CHR 0x0A]) (runes s) of
        [] \<Rightarrow> None
      | r # rs \<Rightarrow>
          let t = concat (r # rs); signed = (hd t = CHR ''+'' \<or> hd t = CHR ''-'');
              digits = takeWhile isDigit (if signed then tl t else t); n = int (decValue digits) in
          if digits = [] then None
          else if hd t = CHR ''-'' then (if n \<le> 2 ^ 63 then Some (- n) else None)
          else if n < 2 ^ 63 then Some n else None)"

text \<open>\<^verbatim>\<open>maxUploadSize\<close> after \<^verbatim>\<open>SetMaxUploadSize\<close>.\<close>

definition SetMaxUploadSize :: "string list \<Rightarrow> 64 word" where
  "SetMaxUploadSize env =
     (let s = lookupEnv env ''MAX_UPLOAD_MB''; unchanged = 500 * 1024 * 1024 in
      if s = [] then unchanged
      else case sscanfInt s of
        None \<Rightarrow> unchanged
      | Some mb \<Rightarrow> if mb > 0 \<and> mb \<le> 10240 then word_of_int mb * 1024 * 1024 else unchanged)"

section \<open>Durations\<close>

text \<open>
  \<^verbatim>\<open>time.ParseDuration\<close>, in nanoseconds.  The digits after a point are multiplied exactly where Go uses \<^verbatim>\<open>float64\<close>
  for \<^verbatim>\<open>f * (unit / scale)\<close>.  The units include the two spellings of the micro sign.
\<close>

definition durationUnit :: "string \<Rightarrow> nat option" where
  "durationUnit u =
     (if u = ''ns'' then Some 1
      else if u = ''us'' \<or> u = [CHR 0xC2, CHR 0xB5, CHR ''s''] \<or> u = [CHR 0xCE, CHR 0xBC, CHR ''s''] then Some 1000
      else if u = ''ms'' then Some 1000000
      else if u = ''s'' then Some 1000000000
      else if u = ''m'' then Some 60000000000
      else if u = ''h'' then Some 3600000000000
      else None)"

fun leadingFraction :: "nat \<Rightarrow> nat \<Rightarrow> bool \<Rightarrow> string \<Rightarrow> nat \<times> nat \<times> string" where
  "leadingFraction x scale overflow [] = (x, scale, [])"
| "leadingFraction x scale overflow (c # s) =
     (if \<not> isDigit c then (x, scale, c # s)
      else if overflow \<or> x > (2 ^ 63 - 1) div 10 \<or> x * 10 + digitVal c > 2 ^ 63 then leadingFraction x scale True s
      else leadingFraction (x * 10 + digitVal c) (scale * 10) False s)"

text \<open>One number with its unit: its value, and what follows.\<close>

definition durationPart :: "string \<Rightarrow> (nat \<times> string) option" where
  "durationPart s =
     (let whole = takeWhile isDigit s; v = decValue whole; s1 = dropWhile isDigit s;
          point = (s1 \<noteq> [] \<and> hd s1 = CHR ''.'');
          (f, scale, s2) = (if point then leadingFraction 0 1 False (tl s1) else (0, 1, s1));
          u = takeWhile (\<lambda>c. c \<noteq> CHR ''.'' \<and> \<not> isDigit c) s2;
          rest = dropWhile (\<lambda>c. c \<noteq> CHR ''.'' \<and> \<not> isDigit c) s2 in
      if whole = [] \<and> \<not> point then None
      else if v > 2 ^ 63 then None
      else if whole = [] \<and> tl s1 = s2 then None
      else if u = [] then None
      else case durationUnit u of
        None \<Rightarrow> None
      | Some unit \<Rightarrow>
          if v > 2 ^ 63 div unit then None
          else let total = v * unit + f * unit div scale in
            if total > 2 ^ 63 then None else Some (total, rest))"

lemma leadingFraction_length: "leadingFraction x scale ov s = (f, sc, rest) \<Longrightarrow> length rest \<le> length s"
  by (induction x scale ov s rule: leadingFraction.induct) (auto simp: le_SucI split: if_splits)

lemma durationPart_length: "durationPart s = Some (v, rest) \<Longrightarrow> length rest < length s"
proof -
  assume some: "durationPart s = Some (v, rest)"
  define s1 where "s1 = dropWhile isDigit s"
  obtain f scale s2 where part: "(if s1 \<noteq> [] \<and> hd s1 = CHR ''.'' then leadingFraction 0 1 False (tl s1) else (0, 1, s1)) = (f, scale, s2)"
    by (rule prod_cases3)
  have "length s2 \<le> length s1"
    using part leadingFraction_length [of 0 1 False "tl s1"] by (fastforce split: if_splits)
  also have "length s1 \<le> length s" unfolding s1_def by (rule length_dropWhile_le)
  finally have "length s2 \<le> length s" .
  moreover have "takeWhile (\<lambda>c. c \<noteq> CHR ''.'' \<and> \<not> isDigit c) s2 \<noteq> []"
    "rest = dropWhile (\<lambda>c. c \<noteq> CHR ''.'' \<and> \<not> isDigit c) s2"
    using some part unfolding durationPart_def s1_def [symmetric] Let_def by (auto split: if_splits option.splits)
  then have "length rest < length s2"
    by (cases s2) (auto simp: le_imp_less_Suc length_dropWhile_le split: if_splits)
  ultimately show ?thesis by simp
qed

text \<open>The sum runs in 64 bits.\<close>

function durationSum :: "nat \<Rightarrow> string \<Rightarrow> nat option" where
  "durationSum d s =
     (if s = [] then Some d
      else case durationPart s of
        None \<Rightarrow> None
      | Some (v, rest) \<Rightarrow>
          let d' = (d + v) mod 2 ^ 64 in if d' > 2 ^ 63 then None else durationSum d' rest)"
  by pat_completeness auto
termination
  by (relation "measure (\<lambda>(d, s). length s)") (auto dest: durationPart_length)

declare durationSum.simps [simp del]

definition ParseDuration :: "string \<Rightarrow> int option" where
  "ParseDuration s =
     (let signed = (s \<noteq> [] \<and> (hd s = CHR ''-'' \<or> hd s = CHR ''+'')); neg = (s \<noteq> [] \<and> hd s = CHR ''-'');
          t = (if signed then tl s else s) in
      if t = ''0'' then Some 0
      else if t = [] then None
      else case durationSum 0 t of
        None \<Rightarrow> None
      | Some d \<Rightarrow> if neg then Some (- int d) else if d > 2 ^ 63 - 1 then None else Some (int d))"

section \<open>The audit log\<close>

text \<open>\<^verbatim>\<open>os.OpenFile\<close> with \<^verbatim>\<open>O_APPEND|O_CREATE|O_WRONLY\<close>: what is in the file stays.\<close>

definition osOpenAppend :: "path \<Rightarrow> path result io" where
  "osOpenAppend p = atomically (\<lambda>w.
     case canon True (fs w) kernelLinks [] p of
       Inl e \<Rightarrow> (Inl e, w)
     | Inr q \<Rightarrow>
         (case fsGet (fs w) q of
            Some Dir \<Rightarrow> (Inl ErrIsDir, w)
          | Some _ \<Rightarrow> (Inr q, w)
          | None \<Rightarrow> (Inr q, w\<lparr>fs := fsPut q (File [] False (clock w)) (fs w)\<rparr>)))"

text \<open>The file of the audit log, if there is one.\<close>

type_synonym AuditLog = "path option"

definition NewAuditLog :: "path \<Rightarrow> string \<Rightarrow> AuditLog result io" where
  "NewAuditLog cwd path =
     (if path \<noteq> [] then
        bindR (wrapErr ''open audit log: %w'' [] (osOpenAppend (osPath cwd path))) (\<lambda>f. State_Monad.return (Inr (Some f)))
      else State_Monad.return (Inr None))"

definition CloseAuditLog :: "AuditLog \<Rightarrow> unit result io" where
  "CloseAuditLog al = (case al of Some f \<Rightarrow> osClose f | None \<Rightarrow> State_Monad.return (Inr ()))"

section \<open>The rate limiter\<close>

definition rateOf :: "Config \<Rightarrow> int" where
  "rateOf cfg = (case sscanfInt (cfgRateLimit cfg) of None \<Rightarrow> 100 | Some n \<Rightarrow> if n \<le> 0 then 100 else n)"

text \<open>
  The sign of the window is not checked.  For a window that is not positive, or so long (146 years) that doubling it
  wraps, the limiter of the model is not that of the code; what is shown of its buckets is for positive windows.
\<close>

definition windowOf :: "Config \<Rightarrow> int" where
  "windowOf cfg = (case ParseDuration (cfgRateWindow cfg) of None \<Rightarrow> 60 * secondNanos | Some d \<Rightarrow> d)"

text \<open>The limiter that \<^verbatim>\<open>NewRateLimiter\<close> makes; it reads the environment for \<open>trustProxy\<close>.\<close>

definition configuredLimiter :: "string list \<Rightarrow> RateLimiter" where
  "configuredLimiter env =
     NewRateLimiter (rateOf (readConfig env)) (windowOf (readConfig env))
       (foldName (lookupEnv env ''TRUST_PROXY_HEADERS'') = foldName ''true'')"

section \<open>The start\<close>

text \<open>
  What the process uses of code outside the repository: OpenPGP, the router and its answer without a route; the
  JSON form of times, the archive decoders, the texts of system errors, and the embedded files.
\<close>

record 'e startLib =
  libPGP :: "'e openpgp"
  libTimeJSON :: "string \<Rightarrow> string option"
  libNowJSON :: "int \<Rightarrow> string"
  libZip :: "bytes \<Rightarrow> zipEntry list result"
  libTar :: "bytes \<Rightarrow> tarball"
  libOSText :: "error \<Rightarrow> string"
  libMux :: muxMatch
  libNotFound :: "request \<Rightarrow> response"
  libUI :: uiFiles

text \<open>The fields of \<^verbatim>\<open>http.Server\<close> that \<^verbatim>\<open>main\<close> sets; durations in nanoseconds.\<close>

record httpServer =
  Addr :: string
  ReadHeaderTimeout :: int
  WriteTimeout :: int
  IdleTimeout :: int
  MaxHeaderBytes :: int

definition httpConfig :: "Config \<Rightarrow> httpServer" where
  "httpConfig cfg = \<lparr>Addr = '':'' @ cfgPort cfg, ReadHeaderTimeout = 10 * secondNanos,
     WriteTimeout = 5 * 60 * secondNanos, IdleTimeout = 120 * secondNanos, MaxHeaderBytes = 2 ^ 20\<rparr>"

record Process =
  prRegistry :: Registry
  prKeys :: KeyStore
  prLimiter :: RateLimiter
  prAudit :: AuditLog
  prHTTP :: httpServer

text \<open>\<^verbatim>\<open>logger.Error(...); os.Exit(1)\<close> after a failed step.\<close>

definition orExit :: "'a result io \<Rightarrow> ('a \<Rightarrow> (nat + 'b) io) \<Rightarrow> (nat + 'b) io" where
  "orExit m k = do { r \<leftarrow> m; case r of Inl _ \<Rightarrow> State_Monad.return (Inl 1) | Inr x \<Rightarrow> k x }"

definition resetMetrics :: "unit io" where
  "resetMetrics = State (\<lambda>w. ((), w\<lparr>metrics := NewMetrics (clock w)\<rparr>))"

definition initServer :: "'e startLib \<Rightarrow> string list \<Rightarrow> path \<Rightarrow> (nat + Process) io" where
  "initServer lib env cwd =
     (let cfg = readConfig env in
      orExit (NewStore cwd (cfgBasePath cfg) (cfgBaseURL cfg)) (\<lambda>st.
      orExit (NewRegistrySigner (libPGP lib) (osPath cwd (cfgSigningKeyFile cfg))) (\<lambda>sg.
      do { ignore (rebuildAllProviderChecksums (libOSText lib) st (Some sg));
           orExit (NewKeyStore (libTimeJSON lib) (libNowJSON lib) (lookupEnv env ''REGISTRY_API_KEY'')
                     (osPath cwd (cfgKeysFile cfg))) (\<lambda>ks.
           orExit (NewAuditLog cwd (cfgAuditPath cfg)) (\<lambda>al.
           do { resetMetrics;
                State_Monad.return (Inr
                  \<lparr>prRegistry = \<lparr>store = st, signer = Some sg, maxUploadSize = SetMaxUploadSize env,
                     zipDecoder = libZip lib, tarDecoder = libTar lib, osText = libOSText lib\<rparr>,
                   prKeys = ks, prLimiter = configuredLimiter env, prAudit = al, prHTTP = httpConfig cfg\<rparr>) })) })))"

section \<open>Events\<close>

text \<open>
  A request, the hourly garbage collection, the minutely clean-up of the rate limiter, and \<open>Meanwhile\<close>: time
  passes, the operator leaves the disk in some state, and other calls will fail and other random numbers come.
\<close>

datatype serverEvent =
    Incoming request
  | HourlyGC
  | MinuteCleanup
  | Meanwhile nat fsys "fault list" "nat list"

definition initialServer :: "Process \<Rightarrow> world \<Rightarrow> Server" where
  "initialServer pr w = \<lparr>os = w, keyStore = prKeys pr, limiter = prLimiter pr, auditFile = map_option (\<lambda>_. []) (prAudit pr)\<rparr>"

definition elapse :: "nat \<Rightarrow> fsys \<Rightarrow> fault list \<Rightarrow> nat list \<Rightarrow> unit srv" where
  "elapse dt f fls rs = State (\<lambda>sv. ((), sv\<lparr>os := (os sv)\<lparr>clock := clock (os sv) + int dt, fs := f, faults := fls, rand := rs\<rparr>\<rparr>))"

definition cleanupTick :: "unit srv" where
  "cleanupTick = State (\<lambda>sv. ((), sv\<lparr>limiter := cleanup (clock (os sv)) (limiter sv)\<rparr>))"

fun runEvent :: "'e startLib \<Rightarrow> Registry \<Rightarrow> serverEvent \<Rightarrow> response list srv" where
  "runEvent lib g (Incoming r) =
     do { resp \<leftarrow> serve (libMux lib) (libNotFound lib) (libTimeJSON lib) g (libUI lib) r; State_Monad.return [resp] }"
| "runEvent lib g HourlyGC = do { liftIO (ignore (GarbageCollect (store g))); State_Monad.return [] }"
| "runEvent lib g MinuteCleanup = do { cleanupTick; State_Monad.return [] }"
| "runEvent lib g (Meanwhile dt f fls rs) = do { elapse dt f fls rs; State_Monad.return [] }"

primrec runEvents :: "'e startLib \<Rightarrow> Registry \<Rightarrow> serverEvent list \<Rightarrow> response list srv" where
  "runEvents lib g [] = State_Monad.return []"
| "runEvents lib g (e # es) =
     do { resp \<leftarrow> runEvent lib g e; resps \<leftarrow> runEvents lib g es; State_Monad.return (resp @ resps) }"

section \<open>The process\<close>

text \<open>
  How the wait of \<^verbatim>\<open>main\<close> ends: an error of \<^verbatim>\<open>ListenAndServe\<close>, its regular end, or a signal; then \<^verbatim>\<open>Shutdown\<close> may
  fail.  \<^verbatim>\<open>os.Exit\<close> skips the deferred closing of the audit log.
\<close>

datatype stopCause = ListenError | ListenClosed | Signalled

definition shutdown :: "AuditLog \<Rightarrow> stopCause \<Rightarrow> error option \<Rightarrow> nat io" where
  "shutdown al cause err =
     (if cause = ListenError then State_Monad.return 1
      else if err \<noteq> None then State_Monad.return 1
      else do { ignore (CloseAuditLog al); State_Monad.return 0 })"

record outcome =
  exitStatus :: nat
  printed :: string
  answers :: "response list"

text \<open>\<^verbatim>\<open>main\<close>, for the arguments \<^verbatim>\<open>os.Args\<close> and the \<^verbatim>\<open>version\<close> of the build.\<close>

definition serverMain ::
  "'e startLib \<Rightarrow> string \<Rightarrow> string list \<Rightarrow> string list \<Rightarrow> path \<Rightarrow> serverEvent list \<Rightarrow> stopCause \<Rightarrow> error option \<Rightarrow> outcome io" where
  "serverMain lib version osArgs env cwd events cause err =
     (if length osArgs > 1 \<and> (osArgs ! 1 = ''--version'' \<or> osArgs ! 1 = ''version'') then
        State_Monad.return \<lparr>exitStatus = 0, printed = ''terraform-registry '' @ version @ [CHR 0x0A], answers = []\<rparr>
      else
        do { started \<leftarrow> initServer lib env cwd;
             case started of
               Inl code \<Rightarrow> State_Monad.return \<lparr>exitStatus = code, printed = [], answers = []\<rparr>
             | Inr pr \<Rightarrow>
                 do { resps \<leftarrow> State (\<lambda>w. case run_state (runEvents lib (prRegistry pr) events) (initialServer pr w) of
                        (resps, sv) \<Rightarrow> (resps, os sv));
                      code \<leftarrow> shutdown (prAudit pr) cause err;
                      State_Monad.return \<lparr>exitStatus = code, printed = [], answers = resps\<rparr> } })"

end
