(* ===== verification/StartupSafety.thy ===== *)
theory StartupSafety
  imports Startup ServerSafety
begin

text \<open>
  The server from its start on: what \<^verbatim>\<open>main\<close> sets up is well formed, and every event keeps it so.  The properties
  of single requests hold under conditions on the state of the server; these are the conditions, for every
  state that a process can reach.
\<close>

section \<open>The invariant\<close>

text \<open>
  No lock is held and none is waited for; the keys come from a key file that was checked; the limiter has the
  configured rate and window and, where that window is positive, buckets between empty and full; its time stamps are in the past.
\<close>

definition limiterKept :: "int \<Rightarrow> int \<Rightarrow> int \<Rightarrow> RateLimiter \<Rightarrow> bool" where
  "limiterKept n win now rl \<longleftrightarrow> rate rl = n \<and> window rl = win \<and> seenBy now rl \<and> (win > 0 \<longrightarrow> limiterOk rl)"

definition serverKept :: "(string \<Rightarrow> string option) \<Rightarrow> (int \<Rightarrow> string) \<Rightarrow> int \<Rightarrow> int \<Rightarrow> Server \<Rightarrow> bool" where
  "serverKept tj nj n win sv \<longleftrightarrow>
     held (os sv) = [] \<and> \<not> stuck (os sv) \<and> reachableKeys tj nj (keyStore sv) \<and> limiterKept n win (clock (os sv)) (limiter sv)"

definition keeps :: "(Server \<Rightarrow> bool) \<Rightarrow> 'a srv \<Rightarrow> bool" where
  "keeps I m \<longleftrightarrow> (\<forall>sv r sv'. I sv \<longrightarrow> run_state m sv = (r, sv') \<longrightarrow> I sv')"

named_theorems keeping

lemma keepsD: "keeps I m \<Longrightarrow> I sv \<Longrightarrow> run_state m sv = (r, sv') \<Longrightarrow> I sv'"
  by (simp add: keeps_def)

lemma keeps_return [keeping]: "keeps I (State_Monad.return x)"
  by (simp add: keeps_def)

lemma keeps_bind [keeping]:
  assumes "keeps I m" "\<And>x. keeps I (k x)"
  shows "keeps I (State_Monad.bind m k)"
  unfolding keeps_def
proof (intro allI impI)
  fix sv r sv' assume I: "I sv" and run: "run_state (State_Monad.bind m k) sv = (r, sv')"
  obtain x sv1 where 1: "run_state m sv = (x, sv1)" by (rule prod.exhaust)
  then have "run_state (k x) sv1 = (r, sv')" using run by simp
  then show "I sv'" by (rule keepsD [OF assms(2) keepsD [OF assms(1) I 1]])
qed

lemma keeps_if [keeping]: "keeps I m \<Longrightarrow> keeps I m' \<Longrightarrow> keeps I (if b then m else m')"
  by simp

lemma keeps_option [keeping]: "keeps I g \<Longrightarrow> (\<And>x. keeps I (h x)) \<Longrightarrow> keeps I (case r of None \<Rightarrow> g | Some x \<Rightarrow> h x)"
  by (cases r) auto

lemma keeps_limiter_get [keeping]: "keeps I (State (\<lambda>sv. (limiter sv, sv)))"
  by (simp add: keeps_def)

text \<open>A program that only works on the disk, and one that checks a key.\<close>

lemma serverKept_disk:
  "serverKept tj nj n win sv \<Longrightarrow> same (os sv) w \<Longrightarrow> reachableKeys tj nj ks \<Longrightarrow> serverKept tj nj n win (sv\<lparr>os := w, keyStore := ks\<rparr>)"
  by (simp add: serverKept_def same_def)

lemma serverKept_os: "serverKept tj nj n win sv \<Longrightarrow> same (os sv) w \<Longrightarrow> serverKept tj nj n win (sv\<lparr>os := w\<rparr>)"
  by (simp add: serverKept_def same_def)

lemma keeps_liftIO:
  assumes "frame UNIV m"
  shows "keeps (serverKept tj nj n win) (liftIO m)"
  unfolding keeps_def
proof (intro allI impI)
  fix sv r sv' assume I: "serverKept tj nj n win sv" and run: "run_state (liftIO m) sv = (r, sv')"
  obtain x w where 1: "run_state m (os sv) = (x, w)" by (rule prod.exhaust)
  have "same (os sv) w" by (rule frameD [OF assms _ 1]) (use I in \<open>simp add: serverKept_def\<close>)
  then show "serverKept tj nj n win sv'" using serverKept_os [OF I] run 1 by (auto simp: liftIO_def)
qed

lemma keeps_ticks [keeping]:
  "keeps (serverKept tj nj n win) (liftIO (tick RequestsTotal_update))"
  "keeps (serverKept tj nj n win) (liftIO (if b then tick RequestsOK_update else tick RequestsErr_update))"
  "keeps (serverKept tj nj n win) (liftIO (tick AuthFailures_update))" "keeps (serverKept tj nj n win) (liftIO (tick RateLimitHits_update))"
  by (auto simp: keeps_def liftIO_def tick_def serverKept_def split: if_splits)

lemma keeps_Validate [keeping]: "keeps (serverKept tj nj n win) (withKeys (\<lambda>ks. Validate tj ks key))"
  unfolding keeps_def
proof (intro allI impI)
  fix sv r sv' assume I: "serverKept tj nj n win sv" and run: "run_state (withKeys (\<lambda>ks. Validate tj ks key)) sv = (r, sv')"
  obtain ks ak w where v: "run_state (Validate tj (keyStore sv) key) (os sv) = ((ks, ak), w)" by (metis prod.exhaust)
  have "same (os sv) w" by (rule frameD [OF frame_keys(1) [of UNIV] _ v]) (use I in \<open>simp add: serverKept_def\<close>)
  moreover have "reachableKeys tj nj ks" using I v by (auto simp: serverKept_def intro: reachableKeys.check)
  ultimately show "serverKept tj nj n win sv'" using serverKept_disk [OF I] run v by (auto simp: withKeys_def)
qed

lemma keeps_HasPermission [keeping]: "keeps (serverKept tj nj n win) (withKeys (\<lambda>ks. HasPermission tj ks key p))"
proof -
  have "keeps (serverKept tj nj n win) (State_Monad.bind (withKeys (\<lambda>ks. Validate tj ks key))
      (\<lambda>ak. State_Monad.return (case ak of None \<Rightarrow> False | Some k \<Rightarrow> permits k p)))"
    by (intro keeping)
  moreover have "State_Monad.bind (withKeys (\<lambda>ks. Validate tj ks key))
      (\<lambda>ak. State_Monad.return (case ak of None \<Rightarrow> False | Some k \<Rightarrow> permits k p)) = withKeys (\<lambda>ks. HasPermission tj ks key p)"
    by (rule state.expand) (auto simp: fun_eq_iff withKeys_def HasPermission_def split: prod.splits)
  ultimately show ?thesis by simp
qed

lemma keeps_Log [keeping]: "keeps (serverKept tj nj n win) (Log a b c d e f h)"
  by (auto simp: keeps_def Log_def serverKept_def)

section \<open>The limiter\<close>

lemma limiterKept_allow: "limiterKept n win now rl \<Longrightarrow> limiterKept n win now (snd (allow now ip rl))"
proof -
  assume k: "limiterKept n win now rl"
  have "limiterOk (snd (allow now ip rl))" if "win > 0"
    using k that by (intro allow_ok) (auto simp: limiterKept_def seenBy_def)
  moreover have "rate (snd (allow now ip rl)) = rate rl" "window (snd (allow now ip rl)) = window rl"
    by (simp_all add: allow_def Let_def split: option.split)
  moreover have "seenBy now (snd (allow now ip rl))"
    using k by (auto simp: limiterKept_def seenBy_def allow_def Let_def split: option.split)
  ultimately show ?thesis using k by (simp add: limiterKept_def)
qed

lemma limiterKept_cleanup: "limiterKept n win now rl \<Longrightarrow> limiterKept n win now (cleanup now rl)"
  by (auto simp: limiterKept_def seenBy_def limiterOk_def cleanup_get split: option.splits if_splits)

lemma limiterKept_later: "limiterKept n win now rl \<Longrightarrow> now \<le> t \<Longrightarrow> limiterKept n win t rl"
  by (fastforce simp: limiterKept_def seenBy_def)

lemma keeps_allow [keeping]:
  "keeps (serverKept tj nj n win) (State (\<lambda>sv. case allow (clock (os sv)) (addr sv) (limiter sv) of (ok, rl) \<Rightarrow> (ok, sv\<lparr>limiter := rl\<rparr>)))"
  unfolding keeps_def
proof (intro allI impI)
  fix sv r sv'
  assume I: "serverKept tj nj n win sv"
    and run: "run_state (State (\<lambda>sv. case allow (clock (os sv)) (addr sv) (limiter sv) of (ok, rl) \<Rightarrow> (ok, sv\<lparr>limiter := rl\<rparr>))) sv = (r, sv')"
  have "sv' = sv\<lparr>limiter := snd (allow (clock (os sv)) (addr sv) (limiter sv))\<rparr>" using run by (simp split: prod.splits)
  then show "serverKept tj nj n win sv'" using I limiterKept_allow by (simp add: serverKept_def)
qed

section \<open>Events\<close>

lemma keeps_middleware [keeping]:
  assumes "\<And>r. keeps (serverKept tj nj n win) (h r)"
  shows "keeps (serverKept tj nj n win) (routeValidationMiddleware h r)" "keeps (serverKept tj nj n win) (authMiddleware tj h r)"
    "keeps (serverKept tj nj n win) (auditMiddleware tj h r)" "keeps (serverKept tj nj n win) (rateLimitMiddleware h r)"
    "keeps (serverKept tj nj n win) (securityHeadersMiddleware h r)" "keeps (serverKept tj nj n win) (metricsMiddleware h r)"
  unfolding routeValidationMiddleware_def authMiddleware_def auditMiddleware_def rateLimitMiddleware_def
    securityHeadersMiddleware_def metricsMiddleware_def
  by (intro keeping assms)+

lemma keeps_serve: "keeps (serverKept tj nj n win) (serve mux nf tj g ui r)"
  unfolding serve_def chain_def
  by (cases "mux routes r") (auto intro!: keeping keeps_liftIO frame_dispatch)

lemma keeps_events: "keeps (serverKept (libTimeJSON lib) nj n win) (runEvents lib g es)"
proof (induction es)
  case (Cons e es)
  have "keeps (serverKept (libTimeJSON lib) nj n win) (runEvent lib g e)"
  proof (cases e)
    case (Incoming r)
    then show ?thesis by (simp add: keeps_bind keeps_serve keeps_return)
  next
    case HourlyGC
    have "frame UNIV (ignore (GarbageCollect (store g)))" by (intro framed)
    then show ?thesis using HourlyGC by (simp add: keeps_bind keeps_liftIO keeps_return)
  next
    case MinuteCleanup
    have "keeps (serverKept (libTimeJSON lib) nj n win) cleanupTick"
      by (auto simp: keeps_def cleanupTick_def serverKept_def limiterKept_cleanup)
    then show ?thesis using MinuteCleanup by (simp add: keeps_bind keeps_return)
  next
    case (Meanwhile dt f fls rs)
    have "keeps (serverKept (libTimeJSON lib) nj n win) (elapse dt f fls rs)"
      using limiterKept_later by (auto simp: keeps_def elapse_def serverKept_def)
    then show ?thesis using Meanwhile by (simp add: keeps_bind keeps_return)
  qed
  then show ?case by (simp add: keeps_bind keeps_return Cons.IH)
qed (simp add: keeps_return)

section \<open>The start\<close>

lemma same_rand: "same w (w\<lparr>rand := rs\<rparr>)"
  by (simp add: same_def requestCounters_def)

lemma frame_openAppend [framed]: "frame L (osOpenAppend p)"
  unfolding osOpenAppend_def by (rule frame_syscall) (auto simp: same_fs split: sum.splits option.splits node.splits)

lemma frame_audit [framed]: "frame L (NewAuditLog cwd p)"
  unfolding NewAuditLog_def by (intro framed)

lemma frame_makeDirs [framed]: "frame L (makeDirs ds)"
  by (induction ds) (auto intro!: framed)

lemma frame_NewStore [framed]: "frame L (NewStore cwd base url)"
  unfolding NewStore_def by (intro framed)

lemma frame_NewRegistrySigner [framed]: "frame L (NewRegistrySigner pgp p)"
  unfolding NewRegistrySigner_def loadEntity_def by (intro framed)

lemma frame_NewKeyStore [framed]: "frame L (NewKeyStore tj nj key p)"
proof -
  have "frame L (generateRandomKey 32)" by (auto simp: frame_def generateRandomKey_def same_rand)
  then show ?thesis
    unfolding NewKeyStore_def createDefaultFile_def writeKeysConfigAtomic_def reload_def by (intro framed)
qed

lemma frame_rebuildVersions [framed]: "frame storeLocks (rebuildVersions t s sg ns n vs)"
  by (induction vs) (auto intro!: framed)

lemma frame_rebuildProviders [framed]: "frame storeLocks (rebuildProviders t s sg ns p ps)"
  by (induction ps) (auto simp: Let_def intro!: framed)

lemma frame_rebuildNamespaces [framed]: "frame storeLocks (rebuildNamespaces t s sg ps)"
  by (induction ps) (auto simp: Let_def intro!: framed)

lemma frame_rebuildAll [framed]: "frame storeLocks (rebuildAllProviderChecksums t s sg)"
  unfolding rebuildAllProviderChecksums_def by (intro framed)

lemma orExit_started:
  assumes "run_state (orExit m k) w = (Inr x, w')"
  obtains y w1 where "run_state m w = (Inr y, w1)" "run_state (k y) w1 = (Inr x, w')"
  using assms by (auto simp: orExit_def split: prod.splits sum.splits)

lemma initServer_started:
  assumes "run_state (initServer lib env cwd) w = (Inr pr, w')" "held w = []"
  shows "held w' = [] \<and> stuck w' = stuck w \<and> reachableKeys (libTimeJSON lib) (libNowJSON lib) (prKeys pr) \<and>
    prLimiter pr = configuredLimiter env \<and> signer (prRegistry pr) \<noteq> None \<and> maxUploadSize (prRegistry pr) = SetMaxUploadSize env \<and>
    prAudit pr = None = (cfgAuditPath (readConfig env) = [])"
proof -
  let ?cfg = "readConfig env"
  obtain st w1 sg w2 u w3 ks w4 al w5 where runs:
    "run_state (NewStore cwd (cfgBasePath ?cfg) (cfgBaseURL ?cfg)) w = (Inr st, w1)"
    "run_state (NewRegistrySigner (libPGP lib) (osPath cwd (cfgSigningKeyFile ?cfg))) w1 = (Inr sg, w2)"
    "run_state (ignore (rebuildAllProviderChecksums (libOSText lib) st (Some sg))) w2 = (u, w3)"
    "run_state (NewKeyStore (libTimeJSON lib) (libNowJSON lib) (lookupEnv env ''REGISTRY_API_KEY'') (osPath cwd (cfgKeysFile ?cfg))) w3 = (Inr ks, w4)"
    "run_state (NewAuditLog cwd (cfgAuditPath ?cfg)) w4 = (Inr al, w5)"
    and w': "w' = w5\<lparr>metrics := NewMetrics (clock w5)\<rparr>"
    and pr: "pr = \<lparr>prRegistry = \<lparr>store = st, signer = Some sg, maxUploadSize = SetMaxUploadSize env,
         zipDecoder = libZip lib, tarDecoder = libTar lib, osText = libOSText lib\<rparr>,
       prKeys = ks, prLimiter = configuredLimiter env, prAudit = al, prHTTP = httpConfig ?cfg\<rparr>"
    using assms(1) unfolding initServer_def Let_def
    by (elim orExit_started) (auto simp: resetMetrics_def elim!: orExit_started split: prod.splits)
  have s: "same w w5"
  proof -
    have h: "set (held v) \<inter> L = {}" if "held v = []" for v :: world and L using that by simp
    have "same w w1" by (rule frameD [OF frame_NewStore h runs(1)]) (rule assms(2))
    moreover from this have "held w1 = []" using assms(2) by (simp add: same_def)
    moreover from this have "same w1 w2" by (intro frameD [OF frame_NewRegistrySigner h runs(2)])
    moreover from calculation have "held w2 = []" by (simp add: same_def)
    moreover from this have "same w2 w3" by (intro frameD [OF frame_ignore [OF frame_rebuildAll] h runs(3)])
    moreover from calculation have "held w3 = []" by (simp add: same_def)
    moreover from this have "same w3 w4" by (intro frameD [OF frame_NewKeyStore h runs(4)])
    moreover from calculation have "held w4 = []" by (simp add: same_def)
    moreover from this have "same w4 w5" by (intro frameD [OF frame_audit h runs(5)])
    ultimately show ?thesis by (blast intro: same_trans)
  qed
  have audit: "al = None = (cfgAuditPath ?cfg = [])"
    using runs(5) by (auto simp: NewAuditLog_def elim!: bindR_success split: if_splits)
  show ?thesis
    using s assms(2) audit reachableKeys.start [OF runs(4)] unfolding w' pr by (simp add: same_def)
qed

lemma upload_limit: "2 ^ 20 \<le> sint (SetMaxUploadSize env)" "sint (SetMaxUploadSize env) \<le> 10240 * 2 ^ 20"
proof -
  have scaled: "sint (word_of_int mb * 1024 * 1024 :: 64 word) = mb * 2 ^ 20" if "0 < mb" "mb \<le> 10240" for mb :: int
  proof -
    have "word_of_int mb * 1024 * 1024 = (word_of_int (mb * 2 ^ 20) :: 64 word)" by (simp add: mult.assoc)
    moreover have "sint (word_of_int (mb * 2 ^ 20) :: 64 word) = mb * 2 ^ 20"
      unfolding sint_sbintrunc' by (rule signed_take_bit_int_eq_self) (use that in simp_all)
    ultimately show ?thesis by (simp only:)
  qed
  show "2 ^ 20 \<le> sint (SetMaxUploadSize env)" "sint (SetMaxUploadSize env) \<le> 10240 * 2 ^ 20"
    using scaled [simplified] by (auto simp: SetMaxUploadSize_def Let_def split: option.split)
qed

lemma configured_rate: "1 \<le> rate (configuredLimiter env)"
  by (auto simp: configuredLimiter_def NewRateLimiter_def rateOf_def split: option.split)

lemma configured_kept: "limiterKept (rate (configuredLimiter env)) (windowOf (readConfig env)) now (configuredLimiter env)"
  using configured_rate [of env]
  by (simp add: limiterKept_def configuredLimiter_def NewRateLimiter_def seenBy_def limiterOk_def)

lemma runEvents_answers:
  "run_state (runEvents lib g events) sv = (resps, sv') \<Longrightarrow>
     length resps = length (filter (\<lambda>e. case e of Incoming _ \<Rightarrow> True | _ \<Rightarrow> False) events)"
proof (induction events arbitrary: sv resps sv')
  case (Cons e events)
  obtain x sv1 where 1: "run_state (runEvent lib g e) sv = (x, sv1)" by (rule prod.exhaust)
  obtain xs sv2 where 2: "run_state (runEvents lib g events) sv1 = (xs, sv2)" by (rule prod.exhaust)
  have "resps = x @ xs" using Cons.prems 1 2 by simp
  moreover have "length x = (case e of Incoming _ \<Rightarrow> 1 | _ \<Rightarrow> 0)" using 1 by (cases e) (auto split: prod.splits)
  ultimately show ?case using Cons.IH [OF 2] by (cases e) simp_all
qed simp

section \<open>Properties\<close>


section \<open>An instance\<close>

definition bootLib :: "unit startLib" where
  "bootLib =
     \<lparr>libPGP = \<lparr>readPrivateKey = \<lambda>_. Inr (), newEntity = \<lambda>_. Inr (), armorPrivate = \<lambda>_. Inr [], armorPublic = \<lambda>_. Inr [],
        keyIdString = \<lambda>_. [], detachSign = \<lambda>_ _ d. Inr d\<rparr>,
      libTimeJSON = demoTime, libNowJSON = \<lambda>_. zeroTime, libZip = zipDecoder demoRegistry, libTar = tarDecoder demoRegistry,
      libOSText = \<lambda>_. [], libMux = demoMux, libNotFound = \<lambda>_. unanswered, libUI = demoUI\<rparr>"

definition bootEnv :: "string list" where
  "bootEnv = [''STORAGE_PATH=/'', ''SIGNING_KEY_FILE=/k'', ''API_KEYS_FILE=/keys.json'', ''MAX_UPLOAD_MB=2'']"

definition demoBoot :: world where
  "demoBoot = demoKeysWorld\<lparr>fs := [([''providers''], Dir), ([''modules''], Dir), ([''keys''], Dir), ([''tmp''], Dir),
     ([''k''], File [] True 0), ([''keys.json''], File (marshalIndent (encodeAPIKeysConfig [demoKey])) True 5)]\<rparr>"

lemma boot_config:
  "cfgBasePath (readConfig bootEnv) = ''/''" "cfgSigningKeyFile (readConfig bootEnv) = ''/k''"
  "cfgKeysFile (readConfig bootEnv) = ''/keys.json''" "cfgAuditPath (readConfig bootEnv) = []"
  by (simp_all add: readConfig_def Let_def bootEnv_def envOrDefault_def lookupEnv_def cutAt_def)

lemma demo_bootPaths: "osPath [] ''/k'' = [''k'']" "osPath [] ''/keys.json'' = [''keys.json'']" "filepathAbs [] ''/'' = []"
  by code_simp+

lemma boot_store: "run_state (NewStore [] ''/'' url) demoBoot = (Inr \<lparr>basePath = [], baseURL = trimRightCh CHR ''/'' url\<rparr>, demoBoot)"
  by (simp add: NewStore_def demo_bootPaths os_eval demoBoot_def demoKeysWorld_def)

lemma boot_signer: "\<exists>sg. run_state (NewRegistrySigner (libPGP bootLib) [''k'']) demoBoot = (Inr sg, demoBoot)"
  by (simp add: NewRegistrySigner_def loadEntity_def os_eval demoBoot_def demoKeysWorld_def bootLib_def)

lemma boot_rebuild: "run_state (ignore (rebuildAllProviderChecksums t \<lparr>basePath = [], baseURL = url\<rparr> sg)) demoBoot = ((), demoBoot)"
  by (simp add: rebuildAllProviderChecksums_def List_def resolve_def os_eval dirEntries_def demoBoot_def demoKeysWorld_def)

lemma demo_keyFile: "run_state (NewKeyStore demoTime (\<lambda>_. zeroTime) key [''keys.json'']) demoBoot = (Inr demoKeys, demoBoot)"
proof -
  have "loadConfig demoTime (marshalIndent (encodeAPIKeysConfig [demoKey])) = Inr ([demoKey], False)"
    by (rule loadConfig_file [OF demoKey_good])
  then show ?thesis by (simp add: NewKeyStore_def reload_def os_eval demoBoot_def demoKeysWorld_def demoKeys_def)
qed

lemma boot_started: "\<exists>pr w. run_state (initServer bootLib bootEnv []) demoBoot = (Inr pr, w)"
proof -
  obtain sg where sg: "run_state (NewRegistrySigner (libPGP bootLib) [''k'']) demoBoot = (Inr sg, demoBoot)"
    using boot_signer by blast
  have lib: "libTimeJSON bootLib = demoTime" "libNowJSON bootLib = (\<lambda>_. zeroTime)" by (simp_all add: bootLib_def)
  show ?thesis
    unfolding initServer_def Let_def orExit_def boot_config demo_bootPaths lib
    by (simp add: boot_store sg boot_rebuild demo_keyFile NewAuditLog_def resetMetrics_def)
qed


end
