(* ===== verification/Spec2Isabelle.thy ===== *)
theory Spec2Isabelle
  imports Semver Validation Archive Metadata ServerSafety PublishProvider Removal Collect
    BundleSafety OciRoundtrip ExitStatus Routing Writers Answers StartupSafety
begin

text \<open>
  A verification library for the private Terraform registry, two Go programs: the server under
  \<^verbatim>\<open>src/registry-server\<close>, which stores provider and module packages on a local file system and serves them with the
  Terraform registry protocols and a management API to upload, deprecate and delete them; and the command line
  client \<^verbatim>\<open>tfreg\<close> under \<^verbatim>\<open>src/cmd/tfreg\<close>, which bundles, publishes, downloads and imports packages.

  \<^bold>\<open>The program and the theories.\<close>  The theories follow the files of the programs; a definition has the name
  of the Go function it translates.

  \<^item> \<^verbatim>\<open>Prelude\<close>: errors as values, the functions of Go's \<^verbatim>\<open>strings\<close> package, shared lemmas.
  \<^item> \<^verbatim>\<open>Semver\<close> (\<^verbatim>\<open>semver.go\<close>): parsing, comparing and sorting versions.
  \<^item> \<^verbatim>\<open>Regexp\<close>, \<^verbatim>\<open>Validation\<close> (\<^verbatim>\<open>validation.go\<close>): the regular expressions with their backtracking matcher, the
    checks of route variables and the allowlist of the download endpoint.
  \<^item> \<^verbatim>\<open>Archive\<close> (\<^verbatim>\<open>archive_validation.go\<close>): the checks of uploaded ZIP and tar archives, on 64-bit words.
  \<^item> \<^verbatim>\<open>Json\<close>, \<^verbatim>\<open>Metadata\<close>: \<^verbatim>\<open>encoding/json\<close> as the program uses it and the stored records of \<^verbatim>\<open>storage.go\<close>.
  \<^item> \<^verbatim>\<open>Paths\<close>, \<^verbatim>\<open>OS\<close>, \<^verbatim>\<open>Trees\<close>: \<^verbatim>\<open>path/filepath\<close> and the system calls on a file system with links, in which
    every call can fail or be the last one before the machine stops.
  \<^item> \<^verbatim>\<open>Storage\<close> (\<^verbatim>\<open>storage.go\<close>): the object store, its indexes and metadata.
  \<^item> \<^verbatim>\<open>Sha256\<close>, \<^verbatim>\<open>Signing\<close> (\<^verbatim>\<open>crypto.go\<close>, \<^verbatim>\<open>signing.go\<close>), \<^verbatim>\<open>Http\<close>, \<^verbatim>\<open>Protocol\<close> (the read handlers of \<^verbatim>\<open>main.go\<close>),
    \<^verbatim>\<open>Management\<close> (\<^verbatim>\<open>api.go\<close>), \<^verbatim>\<open>Auth\<close> (\<^verbatim>\<open>auth.go\<close>), \<^verbatim>\<open>Limiter\<close> (the rate limiter of \<^verbatim>\<open>middleware.go\<close>),
    \<^verbatim>\<open>Counters\<close>, \<^verbatim>\<open>Metrics\<close> (\<^verbatim>\<open>metrics.go\<close>) and \<^verbatim>\<open>Server\<close> (the routes, the middleware chain and \<^verbatim>\<open>ui.go\<close>).
  \<^item> \<^verbatim>\<open>Startup\<close>: \<^verbatim>\<open>main\<close> of the server, from the environment (with \<^verbatim>\<open>fmt.Sscanf\<close> and \<^verbatim>\<open>time.ParseDuration\<close>) over the start
    and the events (requests, the hourly garbage collection, the clean-up of the limiter) to the shutdown.
    \<^verbatim>\<open>Writers\<close>: the wrappers that record the status of a response.
  \<^item> The client: \<^verbatim>\<open>Cli\<close> (its state, printing, exits, and the option parser of \<^verbatim>\<open>main.go\<close>), \<^verbatim>\<open>Client\<close> (push, pull, list
    and delete), \<^verbatim>\<open>Bundle\<close> (\<^verbatim>\<open>archive.go\<close> and the bundle command), \<^verbatim>\<open>Oci\<close> (\<^verbatim>\<open>oci.go\<close> and the artifacts of \<^verbatim>\<open>import.go\<close>),
    \<^verbatim>\<open>ImportIdentity\<close> (its checks of names and versions), \<^verbatim>\<open>Commands\<close> (\<^verbatim>\<open>publish.go\<close>) and \<^verbatim>\<open>ImportCommand\<close> (the import
    command and \<^verbatim>\<open>main\<close>).

  \<^bold>\<open>The state.\<close>  A program that does I/O is a state monad over a \<^verbatim>\<open>world\<close>: the file system, the faults to come,
  the clock, the source of random names, the locks held and the counters.  A Go mutex is a name in the list of
  held locks; taking one twice is recorded as \<^verbatim>\<open>stuck\<close>.  A handler maps a request to a response in that monad; the
  server adds the key store, the rate limiter and the audit log to its state.  The management handlers run
  one at a time under \<^verbatim>\<open>mutationMu\<close>, so that a history is a sequence of requests.  The client's programs run in a
  state monad over the same \<^verbatim>\<open>world\<close> with standard input and output, the requests sent and a remote OCI registry;
  \<^verbatim>\<open>os.Exit\<close> is an early return with the exit code.

  \<^bold>\<open>What is shown.\<close>

  \<^item> Versions are accepted by the SemVer grammar and ordered by its precedence; sorting is the stable sort.
  \<^item> The archive checks accept exactly the safe archives, with no wrap-around; the download path accepts exactly
    the package, checksum and signature names of the registry.
  \<^item> \<^verbatim>\<open>StoreSafety\<close>, \<^verbatim>\<open>StoreOps\<close>, \<^verbatim>\<open>Streams\<close>: reads stay below the root whatever links exist; a write publishes synced
    data or nothing; an upload never overwrites.  These are laws over \<^verbatim>\<open>triple\<close>, a Hoare triple in which every
    call may fail.
  \<^item> \<^verbatim>\<open>Objects\<close>: the store refines a map from paths to bytes; the locale \<^verbatim>\<open>artifact_store\<close> states what the handlers
    rely on and is interpreted on \<^verbatim>\<open>Get\<close>, \<^verbatim>\<open>Put\<close> and \<^verbatim>\<open>Delete\<close>.  \<^verbatim>\<open>Indexes\<close>, \<^verbatim>\<open>Keys\<close>, \<^verbatim>\<open>Publish\<close>, \<^verbatim>\<open>PublishProvider\<close> and
    \<^verbatim>\<open>Removal\<close> use it: uploads and deletions of modules and providers are all or nothing.  \<^verbatim>\<open>Collect\<close>: garbage
    collection removes exactly the stale temporary files.
  \<^item> \<^verbatim>\<open>AuthSafety\<close>, \<^verbatim>\<open>Frames\<close>, \<^verbatim>\<open>ServerSafety\<close>: the key store is well formed, only authorised keys change the
    registry, management requests are audited, no request leaves a lock held, and the counters are exact.
    \<^verbatim>\<open>Answers\<close>: every request is answered, with one of the statuses of the registry.  \<^verbatim>\<open>StartupSafety\<close>: what \<^verbatim>\<open>main\<close> sets
    up is well formed and every event keeps it so, which gives the conditions of the properties of single requests.
    \<^verbatim>\<open>Limiter\<close>: the rate limiter is a token bucket.
  \<^item> \<^verbatim>\<open>Flags\<close>: the option parser accepts exactly its grammar.  \<^verbatim>\<open>CleanPaths\<close>, \<^verbatim>\<open>Download\<close>: a verified download is all or
    nothing and has the expected digest.  \<^verbatim>\<open>BundleWalk\<close>, \<^verbatim>\<open>BundleSafety\<close>: a bundle holds exactly the wanted files of
    the source, and the server's checks accept what the client packs.
  \<^item> \<^verbatim>\<open>ClientTriples\<close>, \<^verbatim>\<open>ImportSafety\<close>: an import uploads only an artifact whose manifest and layer were verified.
    \<^verbatim>\<open>OciRoundtrip\<close>: a published artifact is imported with the identity and the bytes it had, for an OCI registry that
    keeps what it is given (\<^verbatim>\<open>ociContract\<close>).  \<^verbatim>\<open>ExitStatus\<close>: the exit status of the client agrees with its standard
    error.  \<^verbatim>\<open>Routing\<close>: the upload URLs of the client are routed to the upload handlers of the server, for a router
    that takes the first route that fits (\<^verbatim>\<open>muxFirst\<close>).

  \<^bold>\<open>Bounds.\<close>  The JSON parser runs on fuel of twice the length of its input plus two, which \<^verbatim>\<open>parseValue_fuel\<close> shows to
  be enough for every input; links are followed 40 times by the kernel and 255 times by
  \<^verbatim>\<open>EvalSymlinks\<close>, and a temporary name is tried ten thousand times, as in Go.

  \<^bold>\<open>Parameters.\<close>  Code outside the repository is an argument: the OpenPGP library, the ZIP and tar readers (what they
  decode from the bytes), the router's matching (with \<^verbatim>\<open>routerContract\<close> for what is documented of it), the
  text of system errors and the JSON form of times; for the client the network transport, the encoders of
  archives, \<^verbatim>\<open>net/url\<close>, the OCI libraries and the Go tool that builds a provider.

  \<^bold>\<open>Not modelled.\<close>  The listener, the delivery of signals and the threads of the process: requests and ticks are taken
  one at a time, in any order, and the way the process stops is given.  Log lines and the text of an audit
  line; the read deadline of uploads; and the assets of the web interface, which are static files.
\<close>

end
